(* ===== verification/Prelude.thy ===== *)
theory Prelude
  imports Main "HOL-Library.Word"
begin

text \<open>
  The vocabulary the components share: machine integers and byte strings, Rust's
  saturating and checked arithmetic, and the shape of a dispatchable. A FRAME
  dispatchable reads and writes storage and ends in \<open>Ok\<close>, in an error or in a panic,
  so it is a function from the storage to a result and the storage it leaves behind;
  what an error leaves behind is visible until a storage transaction discards it.
  \<open>seq\<close> is the \<open>?\<close> operator, \<open>ensure\<close> the macro of that name, \<open>expect\<close> is
  \<open>Option::expect\<close>, \<open>transactional\<close> the attribute of that name.

  The locale \<open>call_frame\<close> holds the reasoning every component uses: a reflexive and
  transitive relation between the storage before and after, kept by the parts of a
  call, is kept by the call.
\<close>

section \<open>Types\<close>

type_synonym u8 = "8 word"

type_synonym u16 = "16 word"

type_synonym u32 = "32 word"

type_synonym u64 = "64 word"

type_synonym u128 = "128 word"

type_synonym i64 = "64 word"

type_synonym bytes = "u8 list"

type_synonym H256 = "256 word"

section \<open>Collections of facts\<close>

named_theorems call_simps \<open>unfolding a call at a storage\<close>

named_theorems call_ok \<open>when a call ends in Ok, and where\<close>

section \<open>Rust arithmetic\<close>

definition saturating_sub :: "'a::len word \<Rightarrow> 'a word \<Rightarrow> 'a word" where
  "saturating_sub a b = (if a < b then 0 else a - b)"

definition saturating_add :: "'a::len word \<Rightarrow> 'a word \<Rightarrow> 'a word" where
  "saturating_add a b = (if unat a + unat b < 2 ^ LENGTH('a) then a + b else - 1)"

definition saturating_mul :: "'a::len word \<Rightarrow> 'a word \<Rightarrow> 'a word" where
  "saturating_mul a b = (if unat a * unat b < 2 ^ LENGTH('a) then a * b else - 1)"

definition checked_sub :: "'a::len word \<Rightarrow> 'a word \<Rightarrow> 'a word option" where
  "checked_sub a b = (if b \<le> a then Some (a - b) else None)"

text \<open>The values of a Rust range \<open>a..b\<close> of unsigned integers, in order.\<close>

definition word_range :: "'a::len word \<Rightarrow> 'a word \<Rightarrow> 'a word list" where
  "word_range a b = map of_nat [unat a..<unat b]"

text \<open>\<open>BoundedVec::try_from\<close>: the vector, if it is within the bound.\<close>

definition try_bounded :: "nat \<Rightarrow> 'x list \<Rightarrow> 'x list option" where
  "try_bounded n xs = (if length xs \<le> n then Some xs else None)"

section \<open>Calls\<close>

datatype 'e fault = Err 'e | Panic

type_synonym ('e, 's, 'a) call = "'s \<Rightarrow> ('e fault + 'a) \<times> 's"

definition ret :: "'a \<Rightarrow> ('e, 's, 'a) call" where
  "ret x = (\<lambda>s. (Inr x, s))"

definition throw :: "'e \<Rightarrow> ('e, 's, 'a) call" where
  "throw e = (\<lambda>s. (Inl (Err e), s))"

definition panic :: "('e, 's, 'a) call" where
  "panic = (\<lambda>s. (Inl Panic, s))"

definition seq :: "('e, 's, 'a) call \<Rightarrow> ('a \<Rightarrow> ('e, 's, 'b) call) \<Rightarrow> ('e, 's, 'b) call" where
  "seq m f = (\<lambda>s. case m s of (Inl e, t) \<Rightarrow> (Inl e, t) | (Inr a, t) \<Rightarrow> f a t)"

definition gets :: "('s \<Rightarrow> 'a) \<Rightarrow> ('e, 's, 'a) call" where
  "gets f = (\<lambda>s. (Inr (f s), s))"

definition modify :: "('s \<Rightarrow> 's) \<Rightarrow> ('e, 's, unit) call" where
  "modify f = (\<lambda>s. (Inr (), f s))"

definition ensure :: "bool \<Rightarrow> 'e \<Rightarrow> ('e, 's, unit) call" where
  "ensure b e = (\<lambda>s. if b then (Inr (), s) else (Inl (Err e), s))"

definition ok_or :: "'a option \<Rightarrow> 'e \<Rightarrow> ('e, 's, 'a) call" where
  "ok_or x e = (\<lambda>s. case x of None \<Rightarrow> (Inl (Err e), s) | Some a \<Rightarrow> (Inr a, s))"

definition expect :: "'a option \<Rightarrow> ('e, 's, 'a) call" where
  "expect x = (\<lambda>s. case x of None \<Rightarrow> (Inl Panic, s) | Some a \<Rightarrow> (Inr a, s))"

definition map_err :: "('e \<Rightarrow> 'f) \<Rightarrow> ('e, 's, 'a) call \<Rightarrow> ('f, 's, 'a) call" where
  "map_err g m = (\<lambda>s. case m s of
     (Inl (Err e), t) \<Rightarrow> (Inl (Err (g e)), t)
   | (Inl Panic, t) \<Rightarrow> (Inl Panic, t)
   | (Inr a, t) \<Rightarrow> (Inr a, t))"

fun for_each :: "'x list \<Rightarrow> ('x \<Rightarrow> ('e, 's, unit) call) \<Rightarrow> ('e, 's, unit) call" where
  "for_each [] f = ret ()"
| "for_each (x # xs) f = seq (f x) (\<lambda>_. for_each xs f)"

definition transactional :: "('e, 's, 'a) call \<Rightarrow> ('e, 's, 'a) call" where
  "transactional m = (\<lambda>s. case m s of (Inl e, t) \<Rightarrow> (Inl e, s) | (Inr a, t) \<Rightarrow> (Inr a, t))"

text \<open>The call's error as a value: \<open>if let Err(why) = ...\<close>, or a result that is ignored.\<close>

definition attempt :: "('e, 's, 'a) call \<Rightarrow> ('f, 's, 'e + 'a) call" where
  "attempt m = (\<lambda>s. case m s of
     (Inl (Err e), t) \<Rightarrow> (Inr (Inl e), t)
   | (Inl Panic, t) \<Rightarrow> (Inl Panic, t)
   | (Inr a, t) \<Rightarrow> (Inr (Inr a), t))"

text \<open>The call relates the storage it is given to the one it leaves by \<open>R\<close>.\<close>

definition within :: "('s \<Rightarrow> 's \<Rightarrow> bool) \<Rightarrow> ('e, 's, 'a) call \<Rightarrow> bool" where
  "within R m \<longleftrightarrow> (\<forall>s. R s (snd (m s)))"

section \<open>Lemmas on Rust arithmetic\<close>

lemma unat_saturating_sub [simp]: "unat (saturating_sub a b) = unat a - unat b"
  by (auto simp: saturating_sub_def word_less_nat_alt unat_sub_if' not_less)

lemma saturating_sub_le: "saturating_sub a b \<le> a"
  by (simp add: word_le_nat_alt)

lemma unat_saturating_add:
  "unat (saturating_add a b) = min (unat a + unat b) (2 ^ LENGTH('a) - 1)"
  for a b :: "'a::len word"
  by (auto simp: saturating_add_def unat_word_ariths unsigned_minus_1_eq_mask mask_eq_exp_minus_1 min_def)

lemma unat_saturating_mul:
  "unat (saturating_mul a b) = min (unat a * unat b) (2 ^ LENGTH('a) - 1)"
  for a b :: "'a::len word"
proof (cases "unat a * unat b < 2 ^ LENGTH('a)")
  case True
  then show ?thesis
    by (simp add: saturating_mul_def unat_word_ariths)
next
  case False
  then show ?thesis
    by (simp add: saturating_mul_def unsigned_minus_1_eq_mask mask_eq_exp_minus_1 del: mult_le_0_iff)
qed

lemma checked_sub_Some: "checked_sub a b = Some c \<longleftrightarrow> b \<le> a \<and> c = a - b"
  by (auto simp: checked_sub_def)

lemma set_word_range: "set (word_range a b) = {i. a \<le> i \<and> i < b}"
proof -
  have "i \<in> set (word_range a b) \<longleftrightarrow> a \<le> i \<and> i < b" for i
  proof
    assume "i \<in> set (word_range a b)"
    then obtain n where n: "unat a \<le> n" "n < unat b" and i: "i = of_nat n"
      by (auto simp: word_range_def)
    from n(2) have "n < 2 ^ LENGTH('a)"
      using unsigned_less [of b, where 'a = nat] by (rule order.strict_trans)
    with i have "unat i = n" by (simp add: unsigned_of_nat take_bit_nat_eq_self)
    with n show "a \<le> i \<and> i < b"
      by (simp add: word_le_nat_alt word_less_nat_alt)
  next
    assume "a \<le> i \<and> i < b"
    then have "unat i \<in> {unat a..<unat b}"
      by (simp add: word_le_nat_alt word_less_nat_alt)
    then have "of_nat (unat i) \<in> set (word_range a b)"
      unfolding word_range_def by (simp only: set_map set_upt image_eqI)
    then show "i \<in> set (word_range a b)" by simp
  qed
  then show ?thesis by blast
qed

lemma unat_length_less:
  assumes "n < unat (k :: u32)"
  shows "(of_nat n :: u32) < k" and "unat (of_nat n :: u32) = n"
proof -
  have "n < 2 ^ LENGTH(32)" using assms unsigned_less [of k, where 'a = nat] by (rule order.strict_trans)
  then show "unat (of_nat n :: u32) = n" by (simp only: unsigned_of_nat of_nat_id take_bit_nat_eq_self)
  then show "(of_nat n :: u32) < k" using assms by (simp add: word_less_nat_alt)
qed

lemma length_word_range [simp]: "length (word_range a b) = unat b - unat a"
  by (simp add: word_range_def)

lemma try_bounded_Some: "try_bounded n xs = Some ys \<longleftrightarrow> ys = xs \<and> length xs \<le> n"
  by (auto simp: try_bounded_def)

lemma try_bounded_None: "try_bounded n xs = None \<longleftrightarrow> n < length xs"
  by (auto simp: try_bounded_def)

section \<open>Running calls\<close>

lemma run_prims [call_simps]:
  "ret x s = (Inr x, s)"
  "throw e s = (Inl (Err e), s)"
  "panic s = (Inl Panic, s)"
  "gets g s = (Inr (g s), s)"
  "modify h s = (Inr (), h s)"
  "ensure b e s = (if b then (Inr (), s) else (Inl (Err e), s))"
  by (simp_all add: ret_def throw_def panic_def gets_def modify_def ensure_def)

lemma run_ok_or [call_simps]:
  "ok_or None e s = (Inl (Err e), s)"
  "ok_or (Some a) e s = (Inr a, s)"
  "expect None s = (Inl Panic, s)"
  "expect (Some a) s = (Inr a, s)"
  by (simp_all add: ok_or_def expect_def)

lemma run_seq [call_simps]:
  "seq (ret x) f s = f x s"
  "seq (throw e) f s = (Inl (Err e), s)"
  "seq panic f s = (Inl Panic, s)"
  "seq (gets g) f s = f (g s) s"
  "seq (modify h) f' s = f' () (h s)"
  "seq (ensure b e) f' s = (if b then f' () s else (Inl (Err e), s))"
  "seq (ok_or None e) f s = (Inl (Err e), s)"
  "seq (ok_or (Some x) e) f s = f x s"
  "seq (expect None) f s = (Inl Panic, s)"
  "seq (expect (Some x)) f s = f x s"
  by (simp_all add: seq_def ret_def throw_def panic_def gets_def modify_def ensure_def
      ok_or_def expect_def)

lemma run_seq_seq [call_simps]: "seq (seq m f) g s = seq m (\<lambda>a. seq (f a) g) s"
  by (simp add: seq_def split: prod.split sum.split)

lemma run_seq_Ok: "m s = (Inr a, t) \<Longrightarrow> seq m f s = f a t"
  by (simp add: seq_def)

lemma run_seq_fault: "m s = (Inl e, t) \<Longrightarrow> seq m f s = (Inl e, t)"
  by (simp add: seq_def)

lemma run_transactional_Ok: "m s = (Inr a, t) \<Longrightarrow> transactional m s = (Inr a, t)"
  by (simp add: transactional_def)

lemma run_transactional_fault: "m s = (Inl e, t) \<Longrightarrow> transactional m s = (Inl e, s)"
  by (simp add: transactional_def)

text \<open>A transactional call that fails, or panics, has changed nothing.\<close>

lemma transactional_atomic: "transactional m s = (Inl e, t) \<Longrightarrow> t = s"
  by (auto simp: transactional_def split: prod.splits sum.splits)

lemma ret_Ok [call_ok]: "ret x s = (Inr y, t) \<longleftrightarrow> y = x \<and> t = s"
  by (auto simp: ret_def)

lemma throw_Ok [call_ok]: "throw e s = (Inr y, t) \<longleftrightarrow> False"
  by (simp add: throw_def)

lemma panic_Ok [call_ok]: "panic s = (Inr y, t) \<longleftrightarrow> False"
  by (simp add: panic_def)

lemma seq_Ok [call_ok]:
  "seq m f s = (Inr b, u) \<longleftrightarrow> (\<exists>a t. m s = (Inr a, t) \<and> f a t = (Inr b, u))"
  by (auto simp: seq_def split: prod.splits sum.splits)

lemma gets_Ok [call_ok]: "gets g s = (Inr y, t) \<longleftrightarrow> y = g s \<and> t = s"
  by (auto simp: gets_def)

lemma modify_Ok [call_ok]: "modify h s = (Inr u, t) \<longleftrightarrow> t = h s"
  by (auto simp: modify_def)

lemma ensure_Ok [call_ok]: "ensure b e s = (Inr u, t) \<longleftrightarrow> b \<and> t = s"
  by (auto simp: ensure_def)

lemma ok_or_Ok [call_ok]: "ok_or x e s = (Inr y, t) \<longleftrightarrow> x = Some y \<and> t = s"
  by (auto simp: ok_or_def split: option.splits)

lemma expect_Ok [call_ok]: "expect x s = (Inr y, t) \<longleftrightarrow> x = Some y \<and> t = s"
  by (auto simp: expect_def split: option.splits)

lemma map_err_Ok [call_ok]: "map_err g m s = (Inr y, t) \<longleftrightarrow> m s = (Inr y, t)"
  by (auto simp: map_err_def split: prod.splits sum.splits fault.splits)

lemma transactional_Ok [call_ok]: "transactional m s = (Inr y, t) \<longleftrightarrow> m s = (Inr y, t)"
  by (auto simp: transactional_def split: prod.splits sum.splits)

lemma for_each_modify: "for_each xs (\<lambda>x. modify (h x)) s = (Inr (), fold h xs s)"
  by (induction xs arbitrary: s) (simp_all add: call_simps)

lemma seq_for_each_modify [call_simps]:
  "seq (for_each xs (\<lambda>x. modify (h x))) f s = f () (fold h xs s)"
  by (simp add: seq_def for_each_modify)

lemma for_each_Ok_append:
  "for_each (xs @ ys) f s = seq (for_each xs f) (\<lambda>_. for_each ys f) s"
proof (induction xs arbitrary: s)
  case Nil
  show ?case by (simp add: seq_def ret_def)
next
  case (Cons x xs)
  show ?case
    by (simp add: seq_def Cons.IH split: prod.split sum.split)
qed

section \<open>Frames\<close>

lemma withinD: "within R m \<Longrightarrow> m s = (r, t) \<Longrightarrow> R s t"
  unfolding within_def by (metis snd_conv)

locale call_frame =
  fixes R :: "'s \<Rightarrow> 's \<Rightarrow> bool"
  assumes R_refl: "R s s"
    and R_trans: "R s t \<Longrightarrow> R t u \<Longrightarrow> R s u"
begin

lemma within_ret: "within R (ret x)"
  by (simp add: within_def ret_def R_refl)

lemma within_throw: "within R (throw e)"
  by (simp add: within_def throw_def R_refl)

lemma within_panic: "within R panic"
  by (simp add: within_def panic_def R_refl)

lemma within_gets: "within R (gets g)"
  by (simp add: within_def gets_def R_refl)

lemma within_ensure: "within R (ensure b e)"
  by (simp add: within_def ensure_def R_refl)

lemma within_ok_or: "within R (ok_or x e)"
  by (simp add: within_def ok_or_def R_refl split: option.split)

lemma within_expect: "within R (expect x)"
  by (simp add: within_def expect_def R_refl split: option.split)

lemma within_modify: "(\<And>s. R s (h s)) \<Longrightarrow> within R (modify h)"
  by (simp add: within_def modify_def)

lemma within_seq: "within R m \<Longrightarrow> (\<And>a. within R (f a)) \<Longrightarrow> within R (seq m f)"
  unfolding within_def seq_def
  by (auto split: prod.split sum.split) (metis R_trans snd_conv)+

lemma within_map_err: "within R m \<Longrightarrow> within R (map_err g m)"
  unfolding within_def map_err_def
  by (auto split: prod.split sum.split fault.split) (metis snd_conv)+

lemma within_transactional: "within R m \<Longrightarrow> within R (transactional m)"
  unfolding within_def transactional_def
  by (auto split: prod.split sum.split simp: R_refl) (metis snd_conv)+

lemma within_attempt: "within R m \<Longrightarrow> within R (attempt m)"
  unfolding within_def attempt_def
  by (auto split: prod.split sum.split fault.split) (metis snd_conv)+

lemma within_for_each: "(\<And>x. x \<in> set xs \<Longrightarrow> within R (f x)) \<Longrightarrow> within R (for_each xs f)"
proof (induction xs)
  case Nil
  show ?case by (simp add: within_ret)
next
  case (Cons x xs)
  then show ?case by (simp add: within_seq)
qed

lemmas within_rules = within_ret within_throw within_panic within_gets within_ensure
  within_ok_or within_expect within_modify within_seq within_map_err within_transactional
  within_attempt within_for_each

end

text \<open>The frame relation every preserved predicate gives.\<close>

interpretation kept: call_frame "\<lambda>s t. P s \<longrightarrow> P t" for P :: "'s \<Rightarrow> bool"
  by unfold_locales auto

end
