(* ===== verification/Frame.thy ===== *)
theory Frame
  imports Prelude
begin

text \<open>
  What the pallets see of the FRAME system: the block number, the event log, the origin
  of a call and the error a dispatch ends in. The error enums of the pallets under
  \<open>src/pallets\<close> are listed here because a dispatch error of one pallet passes through
  the calls of another (the anchor returns what its response handler returned).
  Each pallet's storage is a record that extends \<open>system_state\<close>.
  A \<open>codec\<close> stands for one type's \<open>Encode\<close> and \<open>Decode\<close> instances; \<open>codec_ok\<close> is
  what the pallets rely on: decoding reads an encoded value back and leaves the rest of
  the input alone.
\<close>

section \<open>Origins\<close>

datatype 'acc origin = Root | Signed 'acc | SiblingPara u32 | NoOrigin

section \<open>Errors\<close>

datatype anchor_error =
    NameAlreadyClaimed
  | NameNotExist
  | NotOwner
  | CondNotMet
  | FailedToDecodeAction
  | QueueIsFull
  | InvalidQueueHead

datatype oracle_error =
    FailedToAuthenticateResponse
  | FailedToDecodeResponse
  | FailedToPushResponse
  | FailedToPushMessageToAnchor
  | FailedToGetApiFeed
  | ApiFeedNotActive
  | FailedToEncodeData
  | FailedToFindOracleFeeds
  | FailedToGetFeedRequest

datatype collator_error =
    TooManyCandidates
  | TooFewCandidates
  | Unknown
  | Permission
  | AlreadyCandidate
  | NotCandidate
  | TooManyInvulnerables
  | AlreadyInvulnerable
  | NoAssociatedValidatorId
  | ValidatorNotRegistered

datatype para_oracle_error = TooLarge | NoPermission | AlreadyFeeded | XcmSendError

text \<open>
  \<open>Foreign\<close> is an error that code outside the repository raises (the currency, say),
  numbered by that code.
\<close>

datatype dispatch_error =
    BadOrigin
  | CannotLookup
  | Anchor anchor_error
  | Oracle oracle_error
  | Collator collator_error
  | ParaOracle para_oracle_error
  | Foreign nat

section \<open>System storage\<close>

record 'ev system_state =
  block_number :: u32
  events :: "'ev list"

definition deposit_event :: "'ev \<Rightarrow> ('e, ('ev, 'm) system_state_scheme, unit) call" where
  "deposit_event ev = modify (\<lambda>s. s\<lparr>events := events s @ [ev]\<rparr>)"

definition ensure_signed :: "'acc origin \<Rightarrow> (dispatch_error, 's, 'acc) call" where
  "ensure_signed origin = ok_or (case origin of Signed who \<Rightarrow> Some who | _ \<Rightarrow> None) BadOrigin"

definition ensure_sibling_para :: "'acc origin \<Rightarrow> (dispatch_error, 's, u32) call" where
  "ensure_sibling_para origin =
     ok_or (case origin of SiblingPara para_id \<Rightarrow> Some para_id | _ \<Rightarrow> None) BadOrigin"

section \<open>Codecs\<close>

record 'a codec =
  enc :: "'a \<Rightarrow> bytes"
  dec :: "bytes \<Rightarrow> ('a \<times> bytes) option"

definition codec_ok :: "'a codec \<Rightarrow> ('a \<Rightarrow> bool) \<Rightarrow> bool" where
  "codec_ok c V \<longleftrightarrow> (\<forall>x r. V x \<longrightarrow> dec c (enc c x @ r) = Some (x, r))"

section \<open>Lemmas\<close>

lemma run_ensure_signed [call_simps]:
  "ensure_signed (Signed who) s = (Inr who, s)"
  "ensure_signed Root s = (Inl (Err BadOrigin), s)"
  "ensure_signed (SiblingPara p) s = (Inl (Err BadOrigin), s)"
  "ensure_signed NoOrigin s = (Inl (Err BadOrigin), s)"
  "seq (ensure_signed (Signed who)) f s = f who s"
  "seq (ensure_signed Root) f s = (Inl (Err BadOrigin), s)"
  "seq (ensure_signed (SiblingPara p)) f s = (Inl (Err BadOrigin), s)"
  "seq (ensure_signed NoOrigin) f s = (Inl (Err BadOrigin), s)"
  by (simp_all add: ensure_signed_def call_simps)

lemma run_ensure_sibling_para [call_simps]:
  "seq (ensure_sibling_para (SiblingPara p)) f s = f p s"
  "seq (ensure_sibling_para (Signed who)) f s = (Inl (Err BadOrigin), s)"
  "seq (ensure_sibling_para Root) f s = (Inl (Err BadOrigin), s)"
  "seq (ensure_sibling_para NoOrigin) f s = (Inl (Err BadOrigin), s)"
  by (simp_all add: ensure_sibling_para_def call_simps)

lemma ensure_signed_Ok [call_ok]:
  "ensure_signed origin s = (Inr who, t) \<longleftrightarrow> origin = Signed who \<and> t = s"
  by (cases origin) (auto simp: ensure_signed_def call_simps)

lemma ensure_sibling_para_Ok [call_ok]:
  "ensure_sibling_para origin s = (Inr p, t) \<longleftrightarrow> origin = SiblingPara p \<and> t = s"
  by (cases origin) (auto simp: ensure_sibling_para_def call_simps)

lemma run_deposit_event [call_simps]:
  "deposit_event ev s = (Inr (), s\<lparr>events := events s @ [ev]\<rparr>)"
  "seq (deposit_event ev) f s = f () (s\<lparr>events := events s @ [ev]\<rparr>)"
  by (simp_all add: deposit_event_def call_simps)

lemma deposit_event_Ok [call_ok]:
  "deposit_event ev s = (Inr u, t) \<longleftrightarrow> t = s\<lparr>events := events s @ [ev]\<rparr>"
  by (auto simp: deposit_event_def call_ok)

lemma ensure_signed_cases [consumes 0, case_names signed bad]:
  obtains (signed) who where "origin = Signed who"
  | (bad) "\<And>f s. seq (ensure_signed origin) f s = (Inl (Err BadOrigin), s)"
  by (cases origin) (auto simp: call_simps)

text \<open>An unsigned origin ends a handler that starts with \<open>ensure_signed\<close> at once.\<close>

lemma ensure_signed_bad:
  "(\<And>who. origin \<noteq> Signed who) \<Longrightarrow> seq (ensure_signed origin) f s = (Inl (Err BadOrigin), s)"
  by (cases origin) (auto simp: call_simps)

context call_frame
begin

lemma within_ensure_signed: "within R (ensure_signed origin)"
  by (simp add: ensure_signed_def within_ok_or)

lemma within_ensure_sibling_para: "within R (ensure_sibling_para origin)"
  by (simp add: ensure_sibling_para_def within_ok_or)

end

section \<open>Codec laws\<close>

text \<open>
  What a codec promises for the values in \<open>valid\<close>; the encodings of two different
  values are different, and none is a prefix of the other's.
\<close>

locale scale_codec =
  fixes c :: "'a codec"
    and valid :: "'a \<Rightarrow> bool"
  assumes dec_enc: "valid x \<Longrightarrow> dec c (enc c x @ r) = Some (x, r)"
begin

lemma law: "codec_ok c valid"
  by (simp add: codec_ok_def dec_enc)

lemma dec_enc_Nil: "valid x \<Longrightarrow> dec c (enc c x) = Some (x, [])"
  using dec_enc [of x "[]"] by simp

lemma enc_prefix_free:
  assumes "valid x" and "valid y" and "enc c x @ r = enc c y @ r'"
  shows "x = y \<and> r = r'"
proof -
  have "Some (x, r) = dec c (enc c x @ r)" using assms(1) by (simp add: dec_enc)
  also have "\<dots> = Some (y, r')" using assms(2,3) by (simp add: dec_enc)
  finally show ?thesis by simp
qed

lemma enc_inj: "valid x \<Longrightarrow> valid y \<Longrightarrow> enc c x = enc c y \<Longrightarrow> x = y"
  using enc_prefix_free [of x y "[]" "[]"] by simp

end

lemma codec_okD: "codec_ok c V \<Longrightarrow> V x \<Longrightarrow> dec c (enc c x @ r) = Some (x, r)"
  by (simp add: codec_ok_def)

lemma codec_okD_Nil: "codec_ok c V \<Longrightarrow> V x \<Longrightarrow> dec c (enc c x) = Some (x, [])"
  using codec_okD [of c V x "[]"] by simp

lemma codec_ok_iff_locale: "codec_ok c V \<longleftrightarrow> scale_codec c V"
  by (auto simp: codec_ok_def scale_codec_def)

end
