(* ===== verification/Registry.thy ===== *)
theory Registry
  imports Frame
begin

text \<open>
  The registry pallet (\<open>src/pallets/registry\<close>): API feeds keyed by the account that
  registered them and a key, their status, and the two dispatchables. The storage double
  map is a partial map on pairs. Bounded vectors are byte lists; \<open>feed_bounded\<close> says
  they are within the configured sizes, which a decoded call always satisfies.

  The lemmas describe each dispatchable on every branch, and say which status a stored
  feed can have: the two dispatchables write \<open>Registered\<close> only.
\<close>

section \<open>Data and storage\<close>

datatype feed_status = Registered | Active | Inactive | Slashed

definition status_is_active :: "feed_status \<Rightarrow> bool" where
  "status_is_active st \<longleftrightarrow> st = Active"

record api_feed =
  started_at :: u32
  url :: bytes
  path :: bytes
  status :: feed_status

datatype 'acc registry_event =
    FeedRegistered 'acc bytes api_feed
  | FeedUnregistered 'acc bytes api_feed

record ('ev, 'acc) registry_config =
  registry_event :: "'acc registry_event \<Rightarrow> 'ev"
  max_url_size :: u32
  max_key_size :: u32
  max_path_size :: u32

record ('ev, 'acc) registry_state = "'ev system_state" +
  api_feeds :: "'acc \<times> bytes \<rightharpoonup> api_feed"

definition feed_bounded ::
    "('ev, 'acc, 'x) registry_config_scheme \<Rightarrow> bytes \<Rightarrow> bytes \<Rightarrow> bytes \<Rightarrow> bool" where
  "feed_bounded T key feed_url feed_path \<longleftrightarrow>
     length key \<le> unat (max_key_size T) \<and> length feed_url \<le> unat (max_url_size T)
     \<and> length feed_path \<le> unat (max_path_size T)"

section \<open>Operations\<close>

text \<open>The public helper \<open>Pallet::is_active\<close>.\<close>

definition is_active :: "'acc \<Rightarrow> bytes \<Rightarrow> (dispatch_error, ('ev, 'acc, 'm) registry_state_scheme, bool) call" where
  "is_active account_id key =
     seq (gets (\<lambda>s. api_feeds s (account_id, key))) (\<lambda>o_feed.
     case o_feed of
       Some feed \<Rightarrow> ret (status feed = Active)
     | None \<Rightarrow> ret False)"

definition register_feed ::
    "('ev, 'acc, 'x) registry_config_scheme \<Rightarrow> 'acc origin \<Rightarrow> bytes \<Rightarrow> bytes \<Rightarrow> bytes \<Rightarrow>
     (dispatch_error, ('ev, 'acc, 'm) registry_state_scheme, unit) call" where
  "register_feed T origin key feed_url feed_path =
     seq (ensure_signed origin) (\<lambda>who.
     seq (gets block_number) (\<lambda>now.
     let feed = \<lparr>started_at = now, url = feed_url, path = feed_path, status = Registered\<rparr> in
     seq (modify (\<lambda>s. s\<lparr>api_feeds := (api_feeds s)((who, key) \<mapsto> feed)\<rparr>)) (\<lambda>_.
     deposit_event (registry_event T (FeedRegistered who key feed)))))"

definition unregister_feed ::
    "('ev, 'acc, 'x) registry_config_scheme \<Rightarrow> 'acc origin \<Rightarrow> bytes \<Rightarrow>
     (dispatch_error, ('ev, 'acc, 'm) registry_state_scheme, unit) call" where
  "unregister_feed T origin key =
     seq (ensure_signed origin) (\<lambda>who.
     seq (gets (\<lambda>s. api_feeds s (who, key))) (\<lambda>o_feed.
     case o_feed of
       Some feed \<Rightarrow>
         seq (modify (\<lambda>s. s\<lparr>api_feeds := (api_feeds s)((who, key) := None)\<rparr>)) (\<lambda>_.
         deposit_event (registry_event T (FeedUnregistered who key feed)))
     | None \<Rightarrow> throw CannotLookup))"

section \<open>Behaviour on every branch\<close>

lemma register_feed_signed [call_simps]:
  "register_feed T (Signed who) key u p s =
     (Inr (), s\<lparr>api_feeds := (api_feeds s)((who, key) \<mapsto>
                  \<lparr>started_at = block_number s, url = u, path = p, status = Registered\<rparr>),
                events := events s @ [registry_event T (FeedRegistered who key
                  \<lparr>started_at = block_number s, url = u, path = p, status = Registered\<rparr>)]\<rparr>)"
  by (simp add: register_feed_def call_simps Let_def)

lemma unregister_feed_signed [call_simps]:
  "unregister_feed T (Signed who) key s =
     (case api_feeds s (who, key) of
        None \<Rightarrow> (Inl (Err CannotLookup), s)
      | Some feed \<Rightarrow>
          (Inr (), s\<lparr>api_feeds := (api_feeds s)((who, key) := None),
                     events := events s @ [registry_event T (FeedUnregistered who key feed)]\<rparr>))"
  by (simp add: unregister_feed_def call_simps split: option.split)

lemma registry_unsigned:
  assumes "\<And>who. origin \<noteq> Signed who"
  shows "register_feed T origin key u p s = (Inl (Err BadOrigin), s)"
    and "unregister_feed T origin key s = (Inl (Err BadOrigin), s)"
  using assms by (simp_all add: register_feed_def unregister_feed_def ensure_signed_bad)

lemma is_active_eq [call_simps]:
  "is_active account_id key s =
     (Inr (\<exists>feed. api_feeds s (account_id, key) = Some feed \<and> status_is_active (status feed)), s)"
  by (simp add: is_active_def call_simps status_is_active_def split: option.split)

section \<open>What the dispatchables keep\<close>

text \<open>No stored feed is active.\<close>

definition no_active_feed :: "('ev, 'acc, 'm) registry_state_scheme \<Rightarrow> bool" where
  "no_active_feed s \<longleftrightarrow> (\<forall>k feed. api_feeds s k = Some feed \<longrightarrow> \<not> status_is_active (status feed))"

text \<open>A call of \<open>who\<close> writes only entries of \<open>who\<close>.\<close>

definition feeds_of_others_kept ::
    "'acc \<Rightarrow> ('ev, 'acc, 'm) registry_state_scheme \<Rightarrow> ('ev, 'acc, 'm) registry_state_scheme \<Rightarrow> bool" where
  "feeds_of_others_kept who s t \<longleftrightarrow> (\<forall>a key. a \<noteq> who \<longrightarrow> api_feeds t (a, key) = api_feeds s (a, key))"

lemma no_active_feed_events [simp]: "no_active_feed (s\<lparr>events := es\<rparr>) = no_active_feed s"
  by (simp add: no_active_feed_def)

lemma register_feed_no_active:
  "no_active_feed s \<Longrightarrow> no_active_feed (snd (register_feed T origin key u p s))"
  by (cases origin)
    (auto simp: register_feed_signed registry_unsigned no_active_feed_def status_is_active_def)

lemma unregister_feed_no_active:
  "no_active_feed s \<Longrightarrow> no_active_feed (snd (unregister_feed T origin key s))"
  by (cases origin)
    (auto simp: unregister_feed_signed registry_unsigned no_active_feed_def split: option.splits if_splits)

interpretation others: call_frame "feeds_of_others_kept who" for who
  by unfold_locales (auto simp: feeds_of_others_kept_def)

lemma register_feed_others:
  "feeds_of_others_kept who s (snd (register_feed T (Signed who) key u p s))"
  by (simp add: register_feed_signed feeds_of_others_kept_def)

lemma unregister_feed_others:
  "feeds_of_others_kept who s (snd (unregister_feed T (Signed who) key s))"
  by (simp add: unregister_feed_signed feeds_of_others_kept_def split: option.split)

text \<open>Registering a feed and unregistering it again leaves the feeds without it.\<close>

lemma register_unregister:
  assumes "register_feed T (Signed who) key u p s = (Inr (), t)"
  shows "\<exists>v. unregister_feed T (Signed who) key t = (Inr (), v)
           \<and> api_feeds v = (api_feeds s)((who, key) := None)"
  using assms by (auto simp: call_simps)

end
