(* ===== verification/Anchor.thy ===== *)
theory Anchor
  imports Registry
begin

text \<open>
  The off-chain rollup anchor (\<open>src/pallets/offchain-rollup/src/anchor.rs\<close> and
  \<open>types.rs\<close>): names and their owners, the key-value store of every name, rollup
  transactions, and the outbound message queue that lives inside the same store under a
  prefix. This theory holds the model; \<open>Anchor_Rollup\<close> and \<open>Anchor_Queue\<close> hold
  what is proved about it.

  Storage: \<open>SubmitterByNames\<close> is a partial map on names, the double map \<open>States\<close> a
  partial map on pairs of a name and a key. The response handler
  \<open>Config::OnResponse\<close>, the queue prefix and capacity and the codecs of \<open>u32\<close> and
  of \<open>Action\<close> are fields of the configuration. An index of the queue is encoded by the
  codec of \<open>u32\<close>; a field name is an array of five bytes, which encodes as itself.
  \<open>expect\<close> on a result is a panic.
\<close>

section \<open>Data and storage\<close>

type_synonym ActionBytes = bytes

type_synonym KeyBytes = bytes

type_synonym ValueBytes = bytes

definition key_bytes_bound :: nat where
  "key_bytes_bound = 128"

definition value_bytes_bound :: nat where
  "value_bytes_bound = 2048"

datatype cond = Eq KeyBytes "ValueBytes option"

datatype action = Reply ActionBytes | SetQueueHead u32

record rollup_tx =
  conds :: "cond list"
  actions :: "ActionBytes list"
  updates :: "(KeyBytes \<times> ValueBytes option) list"

datatype 'acc anchor_event =
    NameClaimed 'acc H256
  | RollupExecuted 'acc H256 u128

record ('ev, 'acc, 's) anchor_config = "('ev, 'acc) registry_config" +
  anchor_event :: "'acc anchor_event \<Rightarrow> 'ev"
  on_response :: "H256 \<Rightarrow> 'acc \<Rightarrow> bytes \<Rightarrow> (dispatch_error, 's, unit) call"
  queue_prefix :: bytes
  queue_capacity :: u32
  u32_codec :: "u32 codec"
  action_codec :: "action codec"

record ('ev, 'acc) anchor_state = "('ev, 'acc) registry_state" +
  submitter_by_names :: "H256 \<rightharpoonup> 'acc"
  states :: "H256 \<times> KeyBytes \<rightharpoonup> ValueBytes"

section \<open>The queue's storage\<close>

text \<open>What \<open>impl Encode\<close> stands for where the queue builds a key: \<open>u32\<close> or \<open>&[u8; 5]\<close>.\<close>

datatype queue_index = Index u32 | Field bytes

definition head_field :: queue_index where
  "head_field = Field [95, 104, 101, 97, 100]"

definition tail_field :: queue_index where
  "tail_field = Field [95, 116, 97, 105, 108]"

fun encode_index :: "('ev, 'acc, 's, 'x) anchor_config_scheme \<Rightarrow> queue_index \<Rightarrow> bytes" where
  "encode_index T (Index i) = enc (u32_codec T) i"
| "encode_index T (Field bs) = bs"

definition queue_key ::
    "('ev, 'acc, 's, 'x) anchor_config_scheme \<Rightarrow> queue_index \<Rightarrow> ('e, 't, KeyBytes) call" where
  "queue_key T index = expect (try_bounded key_bytes_bound (queue_prefix T @ encode_index T index))"

definition queue_set ::
    "('ev, 'acc, 's, 'x) anchor_config_scheme \<Rightarrow> H256 \<Rightarrow> queue_index \<Rightarrow> ValueBytes \<Rightarrow>
     ('e, ('ev, 'acc, 'm) anchor_state_scheme, unit) call" where
  "queue_set T name index data =
     seq (queue_key T index) (\<lambda>key.
     modify (\<lambda>s. s\<lparr>states := (states s)((name, key) \<mapsto> data)\<rparr>))"

definition queue_get ::
    "('ev, 'acc, 's, 'x) anchor_config_scheme \<Rightarrow> H256 \<Rightarrow> queue_index \<Rightarrow>
     ('e, ('ev, 'acc, 'm) anchor_state_scheme, ValueBytes option) call" where
  "queue_get T name index =
     seq (queue_key T index) (\<lambda>key. gets (\<lambda>s. states s (name, key)))"

definition queue_remove ::
    "('ev, 'acc, 's, 'x) anchor_config_scheme \<Rightarrow> H256 \<Rightarrow> queue_index \<Rightarrow>
     ('e, ('ev, 'acc, 'm) anchor_state_scheme, unit) call" where
  "queue_remove T name index =
     seq (queue_key T index) (\<lambda>key.
     modify (\<lambda>s. s\<lparr>states := (states s)((name, key) := None)\<rparr>))"

text \<open>The result is \<open>Ok(n)\<close> as \<open>Some n\<close>, a decoding error as \<open>None\<close>.\<close>

definition queue_get_u32 ::
    "('ev, 'acc, 's, 'x) anchor_config_scheme \<Rightarrow> H256 \<Rightarrow> queue_index \<Rightarrow>
     ('e, ('ev, 'acc, 'm) anchor_state_scheme, u32 option) call" where
  "queue_get_u32 T name index =
     seq (queue_get T name index) (\<lambda>o_bytes.
     case o_bytes of
       None \<Rightarrow> ret (Some 0)
     | Some bytes \<Rightarrow> ret (map_option fst (dec (u32_codec T) bytes)))"

definition queue_set_u32 ::
    "('ev, 'acc, 's, 'x) anchor_config_scheme \<Rightarrow> H256 \<Rightarrow> queue_index \<Rightarrow> u32 \<Rightarrow>
     ('e, ('ev, 'acc, 'm) anchor_state_scheme, unit) call" where
  "queue_set_u32 T name index value =
     seq (expect (try_bounded value_bytes_bound (enc (u32_codec T) value))) (\<lambda>bytes.
     queue_set T name index bytes)"

section \<open>The queue\<close>

definition queue_head ::
    "('ev, 'acc, 's, 'x) anchor_config_scheme \<Rightarrow> H256 \<Rightarrow>
     ('e, ('ev, 'acc, 'm) anchor_state_scheme, u32) call" where
  "queue_head T name = seq (queue_get_u32 T name head_field) expect"

definition queue_tail ::
    "('ev, 'acc, 's, 'x) anchor_config_scheme \<Rightarrow> H256 \<Rightarrow>
     ('e, ('ev, 'acc, 'm) anchor_state_scheme, u32) call" where
  "queue_tail T name = seq (queue_get_u32 T name tail_field) expect"

definition queue_len ::
    "('ev, 'acc, 's, 'x) anchor_config_scheme \<Rightarrow> H256 \<Rightarrow>
     ('e, ('ev, 'acc, 'm) anchor_state_scheme, u32) call" where
  "queue_len T name =
     seq (queue_tail T name) (\<lambda>tail.
     seq (queue_head T name) (\<lambda>head.
     ret (saturating_sub tail head)))"

definition queue_tail_set ::
    "('ev, 'acc, 's, 'x) anchor_config_scheme \<Rightarrow> H256 \<Rightarrow> u32 \<Rightarrow>
     ('e, ('ev, 'acc, 'm) anchor_state_scheme, unit) call" where
  "queue_tail_set T name index = queue_set_u32 T name tail_field index"

definition queue_head_set ::
    "('ev, 'acc, 's, 'x) anchor_config_scheme \<Rightarrow> H256 \<Rightarrow> u32 \<Rightarrow>
     (dispatch_error, ('ev, 'acc, 'm) anchor_state_scheme, unit) call" where
  "queue_head_set T name index =
     seq (queue_head T name) (\<lambda>head.
     seq (queue_tail T name) (\<lambda>tail.
     seq (ensure (head \<le> index \<and> index \<le> tail) (Anchor InvalidQueueHead)) (\<lambda>_.
     seq (for_each (word_range head index) (\<lambda>i. queue_remove T name (Index i))) (\<lambda>_.
     queue_set_u32 T name head_field index))))"

definition push_message ::
    "('ev, 'acc, 's, 'x) anchor_config_scheme \<Rightarrow> H256 \<Rightarrow> ValueBytes \<Rightarrow>
     (anchor_error, ('ev, 'acc, 'm) anchor_state_scheme, u32) call" where
  "push_message T name data =
     seq (gets (\<lambda>s. submitter_by_names s name)) (\<lambda>o_submitter.
     seq (ensure (o_submitter \<noteq> None) NameNotExist) (\<lambda>_.
     seq (queue_len T name) (\<lambda>len.
     seq (ensure (len < queue_capacity T) QueueIsFull) (\<lambda>_.
     seq (queue_tail T name) (\<lambda>end_pos.
     seq (queue_set T name (Index end_pos) data) (\<lambda>_.
     seq (queue_tail_set T name (end_pos + 1)) (\<lambda>_.
     ret end_pos)))))))"

section \<open>Dispatchables\<close>

definition ensure_name_owner ::
    "H256 \<Rightarrow> 'acc \<Rightarrow> (dispatch_error, ('ev, 'acc, 'm) anchor_state_scheme, unit) call" where
  "ensure_name_owner name caller =
     seq (gets (\<lambda>s. submitter_by_names s name)) (\<lambda>o_owner.
     seq (ok_or o_owner (Anchor NameNotExist)) (\<lambda>owner.
     ensure (owner = caller) (Anchor NotOwner)))"

definition claim_name ::
    "('ev, 'acc, 's, 'x) anchor_config_scheme \<Rightarrow> 'acc origin \<Rightarrow> H256 \<Rightarrow>
     (dispatch_error, ('ev, 'acc, 'm) anchor_state_scheme, unit) call" where
  "claim_name T origin name = transactional (
     seq (ensure_signed origin) (\<lambda>who.
     seq (gets (\<lambda>s. submitter_by_names s name)) (\<lambda>o_submitter.
     seq (ensure (o_submitter = None) (Anchor NameAlreadyClaimed)) (\<lambda>_.
     seq (modify (\<lambda>s. s\<lparr>submitter_by_names := (submitter_by_names s)(name \<mapsto> who)\<rparr>)) (\<lambda>_.
     deposit_event (anchor_event T (NameClaimed who name)))))))"

definition check_cond ::
    "H256 \<Rightarrow> cond \<Rightarrow> (dispatch_error, ('ev, 'acc, 'm) anchor_state_scheme, unit) call" where
  "check_cond name cond =
     (case cond of Eq key opt_value \<Rightarrow>
        seq (gets (\<lambda>s. states s (name, key))) (\<lambda>stored.
        ensure (stored = opt_value) (Anchor CondNotMet)))"

definition apply_update ::
    "H256 \<Rightarrow> KeyBytes \<times> ValueBytes option \<Rightarrow>
     (dispatch_error, ('ev, 'acc, 'm) anchor_state_scheme, unit) call" where
  "apply_update name upd =
     (case upd of (key, opt_value) \<Rightarrow>
        (case opt_value of
           Some v \<Rightarrow> modify (\<lambda>s. s\<lparr>states := (states s)((name, key) \<mapsto> v)\<rparr>)
         | None \<Rightarrow> modify (\<lambda>s. s\<lparr>states := (states s)((name, key) := None)\<rparr>)))"

definition exec_action ::
    "('ev, 'acc, ('ev, 'acc, 'm) anchor_state_scheme, 'x) anchor_config_scheme \<Rightarrow> H256 \<Rightarrow> 'acc \<Rightarrow>
     ActionBytes \<Rightarrow> (dispatch_error, ('ev, 'acc, 'm) anchor_state_scheme, unit) call" where
  "exec_action T name who raw_act =
     seq (ok_or (map_option fst (dec (action_codec T) raw_act)) (Anchor FailedToDecodeAction)) (\<lambda>act.
     case act of
       Reply data \<Rightarrow> on_response T name who data
     | SetQueueHead head \<Rightarrow> queue_head_set T name head)"

definition rollup ::
    "('ev, 'acc, ('ev, 'acc, 'm) anchor_state_scheme, 'x) anchor_config_scheme \<Rightarrow> 'acc origin \<Rightarrow>
     H256 \<Rightarrow> rollup_tx \<Rightarrow> u128 \<Rightarrow>
     (dispatch_error, ('ev, 'acc, 'm) anchor_state_scheme, unit) call" where
  "rollup T origin name tx nonce = transactional (
     seq (ensure_signed origin) (\<lambda>who.
     seq (ensure_name_owner name who) (\<lambda>_.
     seq (for_each (conds tx) (check_cond name)) (\<lambda>_.
     seq (for_each (updates tx) (apply_update name)) (\<lambda>_.
     seq (for_each (actions tx) (exec_action T name who)) (\<lambda>_.
     deposit_event (anchor_event T (RollupExecuted who name nonce))))))))"

end
