(* ===== verification/Anchor_Rollup.thy ===== *)
theory Anchor_Rollup
  imports Anchor
begin

text \<open>
  Rollup transactions. The conditions of a transaction are evaluated against the store
  as it is (\<open>check_conds_run\<close>), its updates are applied in order
  (\<open>apply_updates_run\<close>), then its actions run, and the attribute
  \<open>transactional\<close> discards everything if one of them fails. \<open>rollup_signed\<close> puts
  these together and is what the properties are proved from.

  The locale \<open>response_handler\<close> is the contract between the anchor and the pallet
  that receives the responses: handling one does not touch the anchor's storage. Its
  lemmas say what a rollup can then change; \<open>Oracle\<close> interprets it.
\<close>

section \<open>Conditions and updates\<close>

fun cond_holds :: "H256 \<Rightarrow> ('ev, 'acc, 'm) anchor_state_scheme \<Rightarrow> cond \<Rightarrow> bool" where
  "cond_holds name s (Eq key v) \<longleftrightarrow> states s (name, key) = v"

definition write_updates ::
    "H256 \<Rightarrow> (KeyBytes \<times> ValueBytes option) list \<Rightarrow> (H256 \<times> KeyBytes \<rightharpoonup> ValueBytes) \<Rightarrow>
     (H256 \<times> KeyBytes \<rightharpoonup> ValueBytes)" where
  "write_updates name upds kv = fold (\<lambda>(key, v) m. m((name, key) := v)) upds kv"

lemma check_cond_run [call_simps]:
  "check_cond name c s =
     (if cond_holds name s c then (Inr (), s) else (Inl (Err (Anchor CondNotMet)), s))"
  by (cases c) (simp add: check_cond_def call_simps)

lemma check_conds_run:
  "for_each cs (check_cond name) s =
     (if \<forall>c \<in> set cs. cond_holds name s c then (Inr (), s)
      else (Inl (Err (Anchor CondNotMet)), s))"
  by (induction cs) (auto simp: call_simps seq_def)

lemma apply_update_run: "apply_update name (key, v) s = (Inr (), s\<lparr>states := (states s)((name, key) := v)\<rparr>)"
  by (cases v) (simp_all add: apply_update_def call_simps)

lemma write_updates_simps [simp]:
  "write_updates name [] kv = kv"
  "write_updates name ((key, v) # us) kv = write_updates name us (kv((name, key) := v))"
  by (simp_all add: write_updates_def)

lemma apply_updates_run:
  "for_each us (apply_update name) s = (Inr (), s\<lparr>states := write_updates name us (states s)\<rparr>)"
proof (induction us arbitrary: s)
  case Nil
  show ?case by (simp add: call_simps)
next
  case (Cons u us)
  then show ?case
    by (cases u) (simp add: seq_def apply_update_run)
qed

text \<open>The last update of a key wins; other keys and other names keep their value.\<close>

lemma write_updates_other:
  "m \<noteq> name \<or> key \<notin> fst ` set us \<Longrightarrow> write_updates name us kv (m, key) = kv (m, key)"
  by (induction us arbitrary: kv) (auto simp: write_updates_def)

lemma write_updates_last:
  "key \<notin> fst ` set vs \<Longrightarrow> write_updates name (us @ (key, v) # vs) kv (name, key) = v"
proof -
  assume "key \<notin> fst ` set vs"
  moreover have "write_updates name (us @ (key, v) # vs) kv
      = write_updates name vs ((write_updates name us kv)((name, key) := v))"
    by (simp add: write_updates_def)
  ultimately show ?thesis by (simp add: write_updates_other)
qed

section \<open>The two dispatchables\<close>

lemma claim_name_signed [call_simps]:
  "claim_name T (Signed who) name s =
     (if submitter_by_names s name = None
      then (Inr (), s\<lparr>submitter_by_names := (submitter_by_names s)(name \<mapsto> who),
                      events := events s @ [anchor_event T (NameClaimed who name)]\<rparr>)
      else (Inl (Err (Anchor NameAlreadyClaimed)), s))"
  by (simp add: claim_name_def transactional_def call_simps)

lemma claim_name_unsigned:
  "(\<And>who. origin \<noteq> Signed who) \<Longrightarrow> claim_name T origin name s = (Inl (Err BadOrigin), s)"
  by (simp add: claim_name_def transactional_def ensure_signed_bad)

lemma ensure_name_owner_run [call_simps]:
  "ensure_name_owner name who s =
     (case submitter_by_names s name of
        None \<Rightarrow> (Inl (Err (Anchor NameNotExist)), s)
      | Some owner \<Rightarrow> if owner = who then (Inr (), s) else (Inl (Err (Anchor NotOwner)), s))"
  by (simp add: ensure_name_owner_def call_simps split: option.split)

lemma rollup_unsigned:
  "(\<And>who. origin \<noteq> Signed who) \<Longrightarrow> rollup T origin name tx nonce s = (Inl (Err BadOrigin), s)"
  by (simp add: rollup_def transactional_def ensure_signed_bad)

text \<open>A signed rollup, on every branch.\<close>

lemma rollup_signed:
  "rollup T (Signed who) name tx nonce s =
     (if submitter_by_names s name = None then (Inl (Err (Anchor NameNotExist)), s)
      else if submitter_by_names s name \<noteq> Some who then (Inl (Err (Anchor NotOwner)), s)
      else if \<not> (\<forall>c \<in> set (conds tx). cond_holds name s c) then (Inl (Err (Anchor CondNotMet)), s)
      else (case for_each (actions tx) (exec_action T name who)
                   (s\<lparr>states := write_updates name (updates tx) (states s)\<rparr>) of
              (Inl e, t) \<Rightarrow> (Inl e, s)
            | (Inr _, t) \<Rightarrow>
                (Inr (), t\<lparr>events := events t @ [anchor_event T (RollupExecuted who name nonce)]\<rparr>)))"
  by (auto simp: rollup_def transactional_def seq_def check_conds_run apply_updates_run
      call_simps split: option.split prod.split sum.split)

lemma rollup_OkE:
  assumes "rollup T origin name tx nonce s = (Inr u, t)"
  obtains who t' where "origin = Signed who" and "submitter_by_names s name = Some who"
    and "\<forall>c \<in> set (conds tx). cond_holds name s c"
    and "for_each (actions tx) (exec_action T name who)
           (s\<lparr>states := write_updates name (updates tx) (states s)\<rparr>) = (Inr (), t')"
    and "t = t'\<lparr>events := events t' @ [anchor_event T (RollupExecuted who name nonce)]\<rparr>"
proof (cases "\<exists>who. origin = Signed who")
  case True
  then obtain who where o: "origin = Signed who" by blast
  show ?thesis
    using assms that [OF o]
    by (auto simp: o rollup_signed split: if_splits prod.splits sum.splits)
next
  case False
  then have "rollup T origin name tx nonce s = (Inl (Err BadOrigin), s)"
    by (intro rollup_unsigned) blast
  with assms show ?thesis by simp
qed

lemma rollup_faultD: "rollup T origin name tx nonce s = (Inl e, t) \<Longrightarrow> t = s"
  unfolding rollup_def by (rule transactional_atomic)

section \<open>What a rollup can change\<close>

text \<open>The anchor's storage is as before.\<close>

definition anchor_kept ::
    "('ev, 'acc, 'm) anchor_state_scheme \<Rightarrow> ('ev, 'acc, 'm) anchor_state_scheme \<Rightarrow> bool" where
  "anchor_kept s t \<longleftrightarrow> submitter_by_names t = submitter_by_names s \<and> states t = states s"

text \<open>Only the key-value store of \<open>name\<close> may differ.\<close>

definition only_store_of ::
    "H256 \<Rightarrow> ('ev, 'acc, 'm) anchor_state_scheme \<Rightarrow> ('ev, 'acc, 'm) anchor_state_scheme \<Rightarrow> bool" where
  "only_store_of name s t \<longleftrightarrow>
     submitter_by_names t = submitter_by_names s
     \<and> (\<forall>m key. m \<noteq> name \<longrightarrow> states t (m, key) = states s (m, key))"

text \<open>Claimed names keep their owner.\<close>

definition owners_kept ::
    "('ev, 'acc, 'm) anchor_state_scheme \<Rightarrow> ('ev, 'acc, 'm) anchor_state_scheme \<Rightarrow> bool" where
  "owners_kept s t \<longleftrightarrow> submitter_by_names s \<subseteq>\<^sub>m submitter_by_names t"

interpretation anchor_frame: call_frame anchor_kept
  by unfold_locales (auto simp: anchor_kept_def)

interpretation store_frame: call_frame "only_store_of name" for name
  by unfold_locales (auto simp: only_store_of_def)

interpretation owners_frame: call_frame owners_kept
  by unfold_locales (auto simp: owners_kept_def intro: map_le_trans)

lemma anchor_kept_only_store: "anchor_kept s t \<Longrightarrow> only_store_of name s t"
  by (simp add: anchor_kept_def only_store_of_def)

lemma only_store_owners: "only_store_of name s t \<Longrightarrow> owners_kept s t"
  by (simp add: only_store_of_def owners_kept_def)

lemma within_mono: "within R m \<Longrightarrow> (\<And>s t. R s t \<Longrightarrow> R' s t) \<Longrightarrow> within R' m"
  by (simp add: within_def)

lemma within_deposit_event_anchor: "within anchor_kept (deposit_event ev)"
  by (simp add: within_def deposit_event_def modify_def anchor_kept_def)

lemma queue_key_within: "call_frame R \<Longrightarrow> within R (queue_key T i)"
  unfolding queue_key_def by (rule call_frame.within_expect)

lemma queue_reads_within:
  "within anchor_kept (queue_get T name i)"
  "within anchor_kept (queue_get_u32 T name i)"
  "within anchor_kept (queue_head T name)"
  "within anchor_kept (queue_tail T name)"
  "within anchor_kept (queue_len T name)"
proof -
  show get: "within anchor_kept (queue_get T name i)" for i
    unfolding queue_get_def
    by (intro anchor_frame.within_seq anchor_frame.within_gets queue_key_within
        anchor_frame.call_frame_axioms)
  show get32: "within anchor_kept (queue_get_u32 T name i)" for i
    unfolding queue_get_u32_def
    by (auto intro!: anchor_frame.within_seq anchor_frame.within_ret get split: option.split)
  show head: "within anchor_kept (queue_head T name)"
    unfolding queue_head_def by (intro anchor_frame.within_seq get32 anchor_frame.within_expect)
  show tail: "within anchor_kept (queue_tail T name)"
    unfolding queue_tail_def by (intro anchor_frame.within_seq get32 anchor_frame.within_expect)
  show "within anchor_kept (queue_len T name)"
    unfolding queue_len_def by (intro anchor_frame.within_seq head tail anchor_frame.within_ret)
qed

lemmas queue_reads_store = queue_reads_within [THEN within_mono, OF anchor_kept_only_store]

lemma queue_writes_within:
  "within (only_store_of name) (queue_set T name i data)"
  "within (only_store_of name) (queue_remove T name i)"
  "within (only_store_of name) (queue_set_u32 T name i v)"
proof -
  show set: "within (only_store_of name) (queue_set T name i data)" for i data
    unfolding queue_set_def
    by (intro store_frame.within_seq store_frame.within_modify queue_key_within
        store_frame.call_frame_axioms) (simp add: only_store_of_def)
  show "within (only_store_of name) (queue_remove T name i)"
    unfolding queue_remove_def
    by (intro store_frame.within_seq store_frame.within_modify queue_key_within
        store_frame.call_frame_axioms) (simp add: only_store_of_def)
  show "within (only_store_of name) (queue_set_u32 T name i v)"
    unfolding queue_set_u32_def by (intro store_frame.within_seq store_frame.within_expect set)
qed

lemma queue_head_set_within: "within (only_store_of name) (queue_head_set T name i)"
  unfolding queue_head_set_def
  by (intro store_frame.within_seq store_frame.within_ensure store_frame.within_for_each
      queue_reads_store queue_writes_within)

lemma push_message_within: "within (only_store_of name) (push_message T name data)"
  unfolding push_message_def queue_tail_set_def
  by (intro store_frame.within_seq store_frame.within_ensure store_frame.within_gets
      store_frame.within_ret queue_reads_store queue_writes_within)

lemma apply_update_within: "within (only_store_of name) (apply_update name u)"
  by (cases u) (simp add: within_def apply_update_run only_store_of_def)

lemma check_cond_within: "within anchor_kept (check_cond name c)"
  by (simp add: within_def check_cond_run anchor_kept_def)

lemma ensure_name_owner_within: "within anchor_kept (ensure_name_owner name who)"
  unfolding ensure_name_owner_def
  by (intro anchor_frame.within_seq anchor_frame.within_gets anchor_frame.within_ok_or
      anchor_frame.within_ensure)

lemma claim_name_within: "within owners_kept (claim_name T origin name)"
  unfolding within_def
  by (cases origin)
    (auto simp: claim_name_signed claim_name_unsigned owners_kept_def map_le_def)

text \<open>
  The contract of \<open>Config::OnResponse\<close> that the anchor relies on for its isolation
  between names.
\<close>

locale response_handler =
  fixes T :: "('ev, 'acc, ('ev, 'acc, 'm) anchor_state_scheme, 'x) anchor_config_scheme"
  assumes handler_within: "within anchor_kept (on_response T name who data)"
begin

lemma exec_action_within: "within (only_store_of name) (exec_action T name who raw)"
  unfolding exec_action_def
  by (auto intro!: store_frame.within_seq store_frame.within_ok_or queue_head_set_within
      within_mono [OF handler_within anchor_kept_only_store] split: action.split)

lemma rollup_within: "within (only_store_of name) (rollup T origin name tx nonce)"
  unfolding rollup_def
  by (intro store_frame.within_transactional store_frame.within_seq store_frame.within_for_each
      store_frame.within_ensure_signed apply_update_within exec_action_within
      within_mono [OF check_cond_within anchor_kept_only_store]
      within_mono [OF ensure_name_owner_within anchor_kept_only_store]
      within_mono [OF within_deposit_event_anchor anchor_kept_only_store])

lemma rollup_owners: "within owners_kept (rollup T origin name tx nonce)"
  by (rule within_mono [OF rollup_within only_store_owners])

end

end
