(* ===== verification/Anchor_Queue.thy ===== *)
theory Anchor_Queue
  imports Anchor_Rollup
begin

text \<open>
  The outbound message queue. It is kept in the key-value store of its name: two fields
  hold the positions of the head and of the tail, and each position between them holds
  one message. \<open>queue_abs\<close> reads the queue off the store as a list, \<open>queue_inv\<close> says
  that the fields decode and that no position between them is empty, and
  \<open>anchor_config_ok\<close> what the configuration owes: a prefix that leaves room for the
  index within a key, and a four-byte codec of \<open>u32\<close> that decodes what it encodes.

  The locale \<open>message_queue\<close> is the contract of such a queue with a client that pushes
  and pops, over any representation; what a client may conclude (first in, first out;
  nothing lost, nothing delivered twice; never above the capacity) is proved once in it.
  The interpretation at the end discharges the contract for \<open>push_message\<close> and
  \<open>queue_head_set\<close>.
\<close>

section \<open>What a queue promises\<close>

datatype 'm queue_op = Push 'm | Pop nat

text \<open>
  A client's run: \<open>push\<close> and \<open>drop_front\<close> say whether they were accepted and leave
  the next state. The result is what was accepted, what was delivered (the front that an
  accepted \<open>Pop\<close> removes), and the final state.
\<close>

fun client_run ::
    "('m \<Rightarrow> 's \<Rightarrow> bool \<times> 's) \<Rightarrow> (nat \<Rightarrow> 's \<Rightarrow> bool \<times> 's) \<Rightarrow> ('s \<Rightarrow> 'm list) \<Rightarrow> 'm queue_op list \<Rightarrow>
     's \<Rightarrow> 'm list \<times> 'm list \<times> 's" where
  "client_run push drop_front contents [] s = ([], [], s)"
| "client_run push drop_front contents (Push m # ops) s =
     (case push m s of (accepted, t) \<Rightarrow>
      (case client_run push drop_front contents ops t of (ins, outs, u) \<Rightarrow>
        (if accepted then m # ins else ins, outs, u)))"
| "client_run push drop_front contents (Pop n # ops) s =
     (case drop_front n s of (accepted, t) \<Rightarrow>
      (case client_run push drop_front contents ops t of (ins, outs, u) \<Rightarrow>
        (ins, (if accepted then take n (contents s) else []) @ outs, u)))"

locale message_queue =
  fixes push :: "'m \<Rightarrow> 's \<Rightarrow> bool \<times> 's"
    and drop_front :: "nat \<Rightarrow> 's \<Rightarrow> bool \<times> 's"
    and contents :: "'s \<Rightarrow> 'm list"
    and pos :: "'s \<Rightarrow> nat"
    and capacity :: nat
    and limit :: nat
    and invar :: "'s \<Rightarrow> bool"
  assumes push_accepted:
      "invar s \<Longrightarrow> length (contents s) < capacity \<Longrightarrow> pos s + length (contents s) < limit \<Longrightarrow>
       \<exists>t. push m s = (True, t) \<and> contents t = contents s @ [m] \<and> pos t = pos s \<and> invar t"
    and push_refused:
      "invar s \<Longrightarrow> capacity \<le> length (contents s) \<Longrightarrow> push m s = (False, s)"
    and drop_accepted:
      "invar s \<Longrightarrow> n \<le> length (contents s) \<Longrightarrow>
       \<exists>t. drop_front n s = (True, t) \<and> contents t = drop n (contents s) \<and> pos t = pos s + n \<and> invar t"
    and drop_refused:
      "invar s \<Longrightarrow> length (contents s) < n \<Longrightarrow> drop_front n s = (False, s)"
begin

lemma push_contents:
  assumes "invar s" and "pos s + length (contents s) < limit"
  shows "\<exists>accepted t. push m s = (accepted, t) \<and> invar t
    \<and> contents t = contents s @ (if accepted then [m] else [])
    \<and> pos t + length (contents t) \<le> Suc (pos s + length (contents s))
    \<and> (length (contents s) \<le> capacity \<longrightarrow> length (contents t) \<le> capacity)"
proof (cases "length (contents s) < capacity")
  case True
  with push_accepted [OF assms(1) True assms(2), of m] show ?thesis by auto
next
  case False
  with push_refused [OF assms(1), of m] assms(1) show ?thesis by auto
qed

lemma drop_contents:
  assumes "invar s"
  shows "\<exists>accepted t. drop_front n s = (accepted, t) \<and> invar t
    \<and> contents s = (if accepted then take n (contents s) else []) @ contents t
    \<and> pos t + length (contents t) = pos s + length (contents s)
    \<and> length (contents t) \<le> length (contents s)"
proof (cases "n \<le> length (contents s)")
  case True
  with drop_accepted [OF assms True] show ?thesis by auto
next
  case False
  with drop_refused [OF assms] assms show ?thesis by auto
qed

text \<open>
  What went in is what came out followed by what is still there, as long as the
  positions stay below the limit.
\<close>

lemma run_fifo:
  assumes "invar s" and "pos s + length (contents s) + length ops \<le> limit"
    and "client_run push drop_front contents ops s = (ins, outs, t)"
  shows "contents s @ ins = outs @ contents t \<and> invar t
    \<and> (length (contents s) \<le> capacity \<longrightarrow> length (contents t) \<le> capacity)"
  using assms
proof (induction ops arbitrary: s ins outs t)
  case Nil
  then show ?case by simp
next
  case (Cons x ops)
  show ?case
  proof (cases x)
    case (Push m)
    obtain accepted u where u: "push m s = (accepted, u)" "invar u"
        "contents u = contents s @ (if accepted then [m] else [])"
        "pos u + length (contents u) \<le> Suc (pos s + length (contents s))"
        "length (contents s) \<le> capacity \<longrightarrow> length (contents u) \<le> capacity"
      using push_contents [of s m] Cons.prems(1,2) by auto
    obtain ins' where run: "client_run push drop_front contents ops u = (ins', outs, t)"
        and ins: "ins = (if accepted then m # ins' else ins')"
      using Cons.prems(3) u(1) by (auto simp: Push split: prod.splits)
    have "pos u + length (contents u) + length ops \<le> limit"
      using Cons.prems(2) u(4) by simp
    from Cons.IH [OF u(2) this run] u(3,5) ins show ?thesis
      by (auto split: if_splits)
  next
    case (Pop n)
    from drop_contents [OF Cons.prems(1)]
    obtain accepted u where u: "drop_front n s = (accepted, u)" "invar u"
        "contents s = (if accepted then take n (contents s) else []) @ contents u"
        "pos u + length (contents u) = pos s + length (contents s)"
        "length (contents u) \<le> length (contents s)"
      by blast
    obtain outs' where run: "client_run push drop_front contents ops u = (ins, outs', t)"
        and outs: "outs = (if accepted then take n (contents s) else []) @ outs'"
      using Cons.prems(3) u(1) by (auto simp: Pop split: prod.splits)
    have "pos u + length (contents u) + length ops \<le> limit"
      using Cons.prems(2) u(4) by simp
    from Cons.IH [OF u(2) this run]
    have IH: "contents u @ ins = outs' @ contents t" "invar t"
        "length (contents u) \<le> capacity \<longrightarrow> length (contents t) \<le> capacity"
      by auto
    have "contents s @ ins = (if accepted then take n (contents s) else []) @ contents u @ ins"
      by (subst u(3)) simp
    with IH u(5) outs show ?thesis by simp
  qed
qed

end

section \<open>The queue in the store\<close>

definition anchor_config_ok :: "('ev, 'acc, 's, 'x) anchor_config_scheme \<Rightarrow> bool" where
  "anchor_config_ok T \<longleftrightarrow>
     length (queue_prefix T) + 5 \<le> key_bytes_bound
     \<and> codec_ok (u32_codec T) (\<lambda>_. True)
     \<and> (\<forall>n. length (enc (u32_codec T) n) = 4)"

definition store_key :: "('ev, 'acc, 's, 'x) anchor_config_scheme \<Rightarrow> queue_index \<Rightarrow> KeyBytes" where
  "store_key T index = queue_prefix T @ encode_index T index"

definition stored_u32 ::
    "('ev, 'acc, 's, 'x) anchor_config_scheme \<Rightarrow> H256 \<Rightarrow> queue_index \<Rightarrow>
     ('ev, 'acc, 'm) anchor_state_scheme \<Rightarrow> u32 option" where
  "stored_u32 T name index s =
     (case states s (name, store_key T index) of
        None \<Rightarrow> Some 0
      | Some bytes \<Rightarrow> map_option fst (dec (u32_codec T) bytes))"

definition head_pos ::
    "('ev, 'acc, 's, 'x) anchor_config_scheme \<Rightarrow> H256 \<Rightarrow> ('ev, 'acc, 'm) anchor_state_scheme \<Rightarrow> u32" where
  "head_pos T name s = (case stored_u32 T name head_field s of None \<Rightarrow> 0 | Some n \<Rightarrow> n)"

definition tail_pos ::
    "('ev, 'acc, 's, 'x) anchor_config_scheme \<Rightarrow> H256 \<Rightarrow> ('ev, 'acc, 'm) anchor_state_scheme \<Rightarrow> u32" where
  "tail_pos T name s = (case stored_u32 T name tail_field s of None \<Rightarrow> 0 | Some n \<Rightarrow> n)"

definition queue_inv ::
    "('ev, 'acc, 's, 'x) anchor_config_scheme \<Rightarrow> H256 \<Rightarrow> ('ev, 'acc, 'm) anchor_state_scheme \<Rightarrow> bool" where
  "queue_inv T name s \<longleftrightarrow>
     stored_u32 T name head_field s \<noteq> None \<and> stored_u32 T name tail_field s \<noteq> None
     \<and> head_pos T name s \<le> tail_pos T name s
     \<and> (\<forall>i. head_pos T name s \<le> i \<and> i < tail_pos T name s \<longrightarrow>
           states s (name, store_key T (Index i)) \<noteq> None)"

definition queue_abs ::
    "('ev, 'acc, 's, 'x) anchor_config_scheme \<Rightarrow> H256 \<Rightarrow> ('ev, 'acc, 'm) anchor_state_scheme \<Rightarrow>
     ValueBytes list" where
  "queue_abs T name s =
     List.map_filter (\<lambda>i. states s (name, store_key T (Index i)))
       (word_range (head_pos T name s) (tail_pos T name s))"

section \<open>Running the queue's helpers\<close>

definition queue_field :: "queue_index \<Rightarrow> bool" where
  "queue_field index \<longleftrightarrow> (case index of Index _ \<Rightarrow> True | Field bs \<Rightarrow> length bs = 5)"

lemma queue_fields [simp]:
  "queue_field (Index i)" "queue_field head_field" "queue_field tail_field"
  by (simp_all add: queue_field_def head_field_def tail_field_def)

lemma config_enc_length [simp]: "anchor_config_ok T \<Longrightarrow> length (enc (u32_codec T) n) = 4"
  by (simp add: anchor_config_ok_def)

lemma config_dec_enc [simp]:
  "anchor_config_ok T \<Longrightarrow> dec (u32_codec T) (enc (u32_codec T) n) = Some (n, [])"
  by (rule codec_okD_Nil) (auto simp: anchor_config_ok_def)

lemma queue_key_eq:
  assumes "anchor_config_ok T" and "queue_field index"
  shows "queue_key T index = ret (store_key T index)"
proof -
  have "length (encode_index T index) \<le> 5"
    using assms by (cases index) (auto simp: queue_field_def)
  then have "try_bounded key_bytes_bound (queue_prefix T @ encode_index T index)
      = Some (store_key T index)"
    using assms(1) by (simp add: try_bounded_Some store_key_def anchor_config_ok_def)
  then show ?thesis
    by (simp add: queue_key_def expect_def ret_def)
qed

lemma store_key_inject [simp]:
  assumes "anchor_config_ok T"
  shows "store_key T (Index i) = store_key T (Index j) \<longleftrightarrow> i = j"
proof
  assume "store_key T (Index i) = store_key T (Index j)"
  then have "enc (u32_codec T) i = enc (u32_codec T) j" by (simp add: store_key_def)
  then have "dec (u32_codec T) (enc (u32_codec T) i) = dec (u32_codec T) (enc (u32_codec T) j)"
    by simp
  with assms show "i = j" by simp
qed simp

lemma store_key_fields [simp]:
  assumes "anchor_config_ok T"
  shows "store_key T (Index i) \<noteq> store_key T head_field"
    and "store_key T (Index i) \<noteq> store_key T tail_field"
    and "store_key T head_field \<noteq> store_key T tail_field"
    and "store_key T tail_field \<noteq> store_key T head_field"
proof -
  have "length (store_key T (Index i)) \<noteq> length (store_key T f)"
    if "f = head_field \<or> f = tail_field" for f
    using that assms by (auto simp: store_key_def head_field_def tail_field_def)
  then show "store_key T (Index i) \<noteq> store_key T head_field"
      "store_key T (Index i) \<noteq> store_key T tail_field" by metis+
qed (simp_all add: store_key_def head_field_def tail_field_def)

lemmas store_key_fields_sym [simp] = store_key_fields(1,2) [symmetric]

lemma queue_set_run:
  "anchor_config_ok T \<Longrightarrow> queue_field index \<Longrightarrow>
   queue_set T name index data = modify (\<lambda>s. s\<lparr>states := (states s)((name, store_key T index) \<mapsto> data)\<rparr>)"
  by (rule ext) (simp add: queue_set_def queue_key_eq call_simps)

lemma queue_remove_run:
  "anchor_config_ok T \<Longrightarrow> queue_field index \<Longrightarrow>
   queue_remove T name index = modify (\<lambda>s. s\<lparr>states := (states s)((name, store_key T index) := None)\<rparr>)"
  by (rule ext) (simp add: queue_remove_def queue_key_eq call_simps)

lemma queue_get_u32_run:
  "anchor_config_ok T \<Longrightarrow> queue_field index \<Longrightarrow>
   queue_get_u32 T name index = gets (stored_u32 T name index)"
  by (rule ext)
    (simp add: queue_get_u32_def queue_get_def queue_key_eq call_simps stored_u32_def
      split: option.split)

lemma queue_head_run:
  "anchor_config_ok T \<Longrightarrow> queue_head T name s =
     (case stored_u32 T name head_field s of None \<Rightarrow> (Inl Panic, s) | Some n \<Rightarrow> (Inr n, s))"
  by (simp add: queue_head_def queue_get_u32_run call_simps split: option.split)

lemma queue_tail_run:
  "anchor_config_ok T \<Longrightarrow> queue_tail T name s =
     (case stored_u32 T name tail_field s of None \<Rightarrow> (Inl Panic, s) | Some n \<Rightarrow> (Inr n, s))"
  by (simp add: queue_tail_def queue_get_u32_run call_simps split: option.split)

lemma queue_set_u32_run:
  "anchor_config_ok T \<Longrightarrow> queue_field index \<Longrightarrow>
   queue_set_u32 T name index v =
     modify (\<lambda>s. s\<lparr>states := (states s)((name, store_key T index) \<mapsto> enc (u32_codec T) v)\<rparr>)"
  by (rule ext)
    (simp add: queue_set_u32_def queue_set_run try_bounded_def value_bytes_bound_def call_simps)

lemma queue_inv_reads:
  assumes "anchor_config_ok T" and "queue_inv T name s"
  shows "queue_head T name s = (Inr (head_pos T name s), s)"
    and "queue_tail T name s = (Inr (tail_pos T name s), s)"
  using assms
  by (auto simp: queue_head_run queue_tail_run head_pos_def tail_pos_def queue_inv_def
      split: option.split)

lemma queue_inv_len:
  assumes "anchor_config_ok T" and "queue_inv T name s"
  shows "queue_len T name s = (Inr (tail_pos T name s - head_pos T name s), s)"
proof -
  have "head_pos T name s \<le> tail_pos T name s"
    using assms(2) by (simp add: queue_inv_def)
  then show ?thesis
    by (simp add: queue_len_def seq_def ret_def saturating_sub_def leD queue_inv_reads [OF assms])
qed

lemma queue_inv_seq:
  assumes "anchor_config_ok T" and "queue_inv T name s"
  shows "seq (queue_head T name) f s = f (head_pos T name s) s"
    and "seq (queue_tail T name) f s = f (tail_pos T name s) s"
    and "seq (queue_len T name) f s = f (tail_pos T name s - head_pos T name s) s"
  by (simp_all add: seq_def queue_inv_reads [OF assms] queue_inv_len [OF assms])

section \<open>The queue as a list\<close>

lemma unat_plus_one:
  fixes b :: "'a::len word"
  assumes "b \<noteq> - 1"
  shows "unat (b + 1) = Suc (unat b)"
proof -
  have "unat b \<noteq> unat (- 1 :: 'a word)"
    using assms by (simp add: word_unat_eq_iff)
  then have "unat b \<noteq> 2 ^ LENGTH('a) - 1"
    by (simp add: unsigned_minus_1_eq_mask mask_eq_exp_minus_1)
  moreover have "unat b < 2 ^ LENGTH('a)" by (rule unsigned_less)
  ultimately have "unat b + 1 < 2 ^ LENGTH('a)" by linarith
  then show ?thesis
    by (simp add: unat_word_ariths)
qed

lemma word_range_Suc:
  fixes a b :: "'a::len word"
  assumes "a \<le> b" and "b \<noteq> - 1"
  shows "word_range a (b + 1) = word_range a b @ [b]"
proof -
  have "unat (b + 1) = Suc (unat b)" by (rule unat_plus_one [OF assms(2)])
  with assms(1) show ?thesis
    by (simp add: word_range_def word_le_nat_alt)
qed

lemma drop_word_range:
  assumes "a \<le> c" and "c \<le> b"
  shows "drop (unat c - unat a) (word_range a b) = word_range c b"
  using assms by (simp add: word_range_def word_le_nat_alt drop_map)

lemma queue_abs_eq:
  assumes "queue_inv T name s"
  shows "queue_abs T name s =
    map (\<lambda>i. the (states s (name, store_key T (Index i))))
      (word_range (head_pos T name s) (tail_pos T name s))"
proof -
  have "\<forall>i \<in> set (word_range (head_pos T name s) (tail_pos T name s)).
      states s (name, store_key T (Index i)) \<noteq> None"
    using assms by (simp add: queue_inv_def set_word_range)
  then show ?thesis
    unfolding queue_abs_def
    by (induction "word_range (head_pos T name s) (tail_pos T name s)")
      (auto simp: List.map_filter_def)
qed

lemma length_queue_abs:
  "queue_inv T name s \<Longrightarrow>
   length (queue_abs T name s) = unat (tail_pos T name s) - unat (head_pos T name s)"
  by (simp add: queue_abs_eq)

lemma unat_queue_len:
  "queue_inv T name s \<Longrightarrow>
   unat (tail_pos T name s - head_pos T name s) = length (queue_abs T name s)"
  by (simp add: length_queue_abs queue_inv_def unat_sub)

section \<open>Pushing\<close>

text \<open>The storage a push leaves: the message at the tail, and the tail one further.\<close>

definition after_push ::
    "('ev, 'acc, 's, 'x) anchor_config_scheme \<Rightarrow> H256 \<Rightarrow> ValueBytes \<Rightarrow>
     ('ev, 'acc, 'm) anchor_state_scheme \<Rightarrow> ('ev, 'acc, 'm) anchor_state_scheme" where
  "after_push T name data s =
     s\<lparr>states := (states s)
         ((name, store_key T (Index (tail_pos T name s))) \<mapsto> data,
          (name, store_key T tail_field) \<mapsto> enc (u32_codec T) (tail_pos T name s + 1))\<rparr>"

lemma push_message_run:
  assumes "anchor_config_ok T" and "queue_inv T name s"
  shows "push_message T name data s =
     (if submitter_by_names s name = None then (Inl (Err NameNotExist), s)
      else if length (queue_abs T name s) < unat (queue_capacity T)
      then (Inr (tail_pos T name s), after_push T name data s)
      else (Inl (Err QueueIsFull), s))"
proof -
  have lt: "tail_pos T name s - head_pos T name s < queue_capacity T
      \<longleftrightarrow> length (queue_abs T name s) < unat (queue_capacity T)"
    by (simp add: word_less_nat_alt unat_queue_len [OF assms(2)])
  show ?thesis
    by (simp add: push_message_def call_simps queue_inv_seq [OF assms] queue_set_run assms(1) lt
        queue_tail_set_def queue_set_u32_run after_push_def)
qed

lemma after_push_positions:
  assumes "anchor_config_ok T"
  shows "head_pos T name (after_push T name data s) = head_pos T name s"
    and "stored_u32 T name head_field (after_push T name data s) = stored_u32 T name head_field s"
    and "stored_u32 T name tail_field (after_push T name data s) = Some (tail_pos T name s + 1)"
    and "tail_pos T name (after_push T name data s) = tail_pos T name s + 1"
  using assms by (simp_all add: head_pos_def tail_pos_def stored_u32_def after_push_def)

lemma after_push_messages:
  assumes "anchor_config_ok T"
  shows "states (after_push T name data s) (name, store_key T (Index i)) =
     (if i = tail_pos T name s then Some data else states s (name, store_key T (Index i)))"
  using assms by (simp add: after_push_def)

lemma after_push_inv:
  assumes "anchor_config_ok T" and "queue_inv T name s" and "tail_pos T name s \<noteq> - 1"
  shows "queue_inv T name (after_push T name data s)"
    and "queue_abs T name (after_push T name data s) = queue_abs T name s @ [data]"
proof -
  let ?t = "after_push T name data s"
  have le: "head_pos T name s \<le> tail_pos T name s" using assms(2) by (simp add: queue_inv_def)
  have range: "word_range (head_pos T name s) (tail_pos T name s + 1)
      = word_range (head_pos T name s) (tail_pos T name s) @ [tail_pos T name s]"
    by (rule word_range_Suc [OF le assms(3)])
  have bounds: "head_pos T name s \<le> i \<and> i < tail_pos T name s + 1 \<longleftrightarrow>
      (head_pos T name s \<le> i \<and> i < tail_pos T name s) \<or> i = tail_pos T name s" for i
  proof -
    have "i \<in> set (word_range (head_pos T name s) (tail_pos T name s + 1)) \<longleftrightarrow>
        i \<in> set (word_range (head_pos T name s) (tail_pos T name s)) \<or> i = tail_pos T name s"
      unfolding range by auto
    then show ?thesis by (simp add: set_word_range)
  qed
  have "head_pos T name s \<le> tail_pos T name s + 1"
    using le unat_plus_one [OF assms(3)] by (simp add: word_le_nat_alt)
  then show inv: "queue_inv T name ?t"
    using assms(2)
    by (auto simp: queue_inv_def after_push_positions [OF assms(1)]
        after_push_messages [OF assms(1)] bounds)
  have other: "i \<noteq> tail_pos T name s"
    if "i \<in> set (word_range (head_pos T name s) (tail_pos T name s))" for i
    using that by (auto simp: set_word_range)
  show "queue_abs T name ?t = queue_abs T name s @ [data]"
    using other
    by (simp add: queue_abs_eq [OF inv] queue_abs_eq [OF assms(2)] range
        after_push_positions [OF assms(1)] after_push_messages [OF assms(1)])
qed

section \<open>Moving the head\<close>

definition after_head_set ::
    "('ev, 'acc, 's, 'x) anchor_config_scheme \<Rightarrow> H256 \<Rightarrow> u32 \<Rightarrow>
     ('ev, 'acc, 'm) anchor_state_scheme \<Rightarrow> ('ev, 'acc, 'm) anchor_state_scheme" where
  "after_head_set T name index s =
     s\<lparr>states := (\<lambda>k. if k \<in> (\<lambda>i. (name, store_key T (Index i))) ` set (word_range (head_pos T name s) index)
                     then None else states s k)
         ((name, store_key T head_field) \<mapsto> enc (u32_codec T) index)\<rparr>"

lemma fold_remove:
  "fold (\<lambda>i s. s\<lparr>states := (states s)(k i := None)\<rparr>) is s =
   s\<lparr>states := (\<lambda>x. if x \<in> k ` set is then None else states s x)\<rparr>"
  by (induction "is" arbitrary: s) (auto simp: fun_eq_iff)

lemma queue_head_set_run:
  assumes "anchor_config_ok T" and "queue_inv T name s"
  shows "queue_head_set T name index s =
     (if head_pos T name s \<le> index \<and> index \<le> tail_pos T name s
      then (Inr (), after_head_set T name index s)
      else (Inl (Err (Anchor InvalidQueueHead)), s))"
  by (simp add: queue_head_set_def queue_inv_seq [OF assms] call_simps queue_remove_run assms(1)
      queue_set_u32_run fold_remove after_head_set_def)

lemma after_head_set_positions:
  assumes "anchor_config_ok T"
  shows "stored_u32 T name head_field (after_head_set T name index s) = Some index"
    and "head_pos T name (after_head_set T name index s) = index"
    and "stored_u32 T name tail_field (after_head_set T name index s) = stored_u32 T name tail_field s"
    and "tail_pos T name (after_head_set T name index s) = tail_pos T name s"
  using assms
  by (auto simp: head_pos_def tail_pos_def stored_u32_def after_head_set_def image_iff)

lemma after_head_set_messages:
  assumes "anchor_config_ok T" and "index \<le> i"
  shows "states (after_head_set T name index s) (name, store_key T (Index i))
     = states s (name, store_key T (Index i))"
  using assms by (auto simp: after_head_set_def image_iff set_word_range)

lemma after_head_set_inv:
  assumes "anchor_config_ok T" and "queue_inv T name s"
    and "head_pos T name s \<le> index" and "index \<le> tail_pos T name s"
  shows "queue_inv T name (after_head_set T name index s)"
    and "queue_abs T name (after_head_set T name index s)
       = drop (unat index - unat (head_pos T name s)) (queue_abs T name s)"
proof -
  let ?t = "after_head_set T name index s"
  show inv: "queue_inv T name ?t"
    using assms
    by (auto simp: queue_inv_def after_head_set_positions after_head_set_messages)
  have "map (\<lambda>i. the (states ?t (name, store_key T (Index i)))) (word_range index (tail_pos T name s))
      = map (\<lambda>i. the (states s (name, store_key T (Index i)))) (word_range index (tail_pos T name s))"
    using assms(1) by (simp add: set_word_range after_head_set_messages)
  then show "queue_abs T name ?t = drop (unat index - unat (head_pos T name s)) (queue_abs T name s)"
    by (simp add: queue_abs_eq [OF inv] queue_abs_eq [OF assms(2)] drop_map
        drop_word_range [OF assms(3,4)] after_head_set_positions [OF assms(1)])
qed

section \<open>The contract, discharged\<close>

text \<open>
  The client's two operations on the model: the oracle pushes with \<open>push_message\<close>, the
  contract behind the name pops by a rollup that carries one \<open>SetQueueHead\<close> action.
\<close>

definition push_op ::
    "('ev, 'acc, 's, 'x) anchor_config_scheme \<Rightarrow> H256 \<Rightarrow> ValueBytes \<Rightarrow>
     ('ev, 'acc, 'm) anchor_state_scheme \<Rightarrow> bool \<times> ('ev, 'acc, 'm) anchor_state_scheme" where
  "push_op T name data s = (case push_message T name data s of (r, t) \<Rightarrow> (\<not> isl r, t))"

definition pop_tx :: "('ev, 'acc, 's, 'x) anchor_config_scheme \<Rightarrow> u32 \<Rightarrow> rollup_tx" where
  "pop_tx T index = \<lparr>conds = [], actions = [enc (action_codec T) (SetQueueHead index)], updates = []\<rparr>"

definition pop_op ::
    "('ev, 'acc, ('ev, 'acc, 'm) anchor_state_scheme, 'x) anchor_config_scheme \<Rightarrow> H256 \<Rightarrow> 'acc \<Rightarrow> u128 \<Rightarrow>
     nat \<Rightarrow> ('ev, 'acc, 'm) anchor_state_scheme \<Rightarrow> bool \<times> ('ev, 'acc, 'm) anchor_state_scheme" where
  "pop_op T name owner n k s =
     (if 2 ^ 32 \<le> unat (head_pos T name s) + k then (False, s)
      else (case rollup T (Signed owner) name (pop_tx T (of_nat (unat (head_pos T name s) + k))) n s of
              (r, t) \<Rightarrow> (\<not> isl r, t)))"

definition action_codec_ok :: "('ev, 'acc, 's, 'x) anchor_config_scheme \<Rightarrow> bool" where
  "action_codec_ok T \<longleftrightarrow> codec_ok (action_codec T) (\<lambda>a. \<exists>i. a = SetQueueHead i)"

definition queue_ready ::
    "('ev, 'acc, 's, 'x) anchor_config_scheme \<Rightarrow> H256 \<Rightarrow> 'acc \<Rightarrow> ('ev, 'acc, 'm) anchor_state_scheme \<Rightarrow> bool" where
  "queue_ready T name owner s \<longleftrightarrow>
     anchor_config_ok T \<and> action_codec_ok T \<and> queue_inv T name s
     \<and> submitter_by_names s name = Some owner"

lemma queue_ignores_events [simp]:
  "stored_u32 T name i (s\<lparr>events := es\<rparr>) = stored_u32 T name i s"
  "head_pos T name (s\<lparr>events := es\<rparr>) = head_pos T name s"
  "tail_pos T name (s\<lparr>events := es\<rparr>) = tail_pos T name s"
  "queue_abs T name (s\<lparr>events := es\<rparr>) = queue_abs T name s"
  "queue_inv T name (s\<lparr>events := es\<rparr>) = queue_inv T name s"
  by (simp_all add: stored_u32_def head_pos_def tail_pos_def queue_abs_def queue_inv_def)

lemma after_set_submitters [simp]:
  "submitter_by_names (after_push T name data s) = submitter_by_names s"
  "submitter_by_names (after_head_set T name i s) = submitter_by_names s"
  by (simp_all add: after_push_def after_head_set_def)

lemma pop_rollup_run:
  assumes "queue_ready T name owner s"
  shows "rollup T (Signed owner) name (pop_tx T index) n s =
     (if head_pos T name s \<le> index \<and> index \<le> tail_pos T name s
      then (Inr (), (after_head_set T name index s)\<lparr>events := events s
              @ [anchor_event T (RollupExecuted owner name n)]\<rparr>)
      else (Inl (Err (Anchor InvalidQueueHead)), s))"
proof -
  have ok: "anchor_config_ok T" "queue_inv T name s" "submitter_by_names s name = Some owner"
    and "codec_ok (action_codec T) (\<lambda>a. \<exists>i. a = SetQueueHead i)"
    using assms by (auto simp: queue_ready_def action_codec_ok_def)
  then have "dec (action_codec T) (enc (action_codec T) (SetQueueHead index))
      = Some (SetQueueHead index, [])"
    using codec_okD_Nil [of "action_codec T" "\<lambda>a. \<exists>i. a = SetQueueHead i" "SetQueueHead index"] by blast
  then have "for_each [enc (action_codec T) (SetQueueHead index)] (exec_action T name owner) s
      = (case queue_head_set T name index s of (Inl e, t) \<Rightarrow> (Inl e, t) | (Inr _, t) \<Rightarrow> (Inr (), t))"
    by (simp add: exec_action_def seq_def ret_def ok_or_def split: prod.split sum.split)
  then show ?thesis
    using ok by (simp add: rollup_signed pop_tx_def queue_head_set_run) (simp add: after_head_set_def)
qed

lemma of_nat_pos:
  fixes a :: u32
  assumes "unat a + k < 2 ^ 32"
  shows "unat (of_nat (unat a + k) :: u32) = unat a + k"
proof -
  have "unat a + k < 2 ^ LENGTH(32)" using assms by simp
  then show ?thesis by (simp only: unsigned_of_nat of_nat_id take_bit_nat_eq_self)
qed

lemma push_op_accepted:
  assumes "queue_ready T name owner s"
    and "length (queue_abs T name s) < unat (queue_capacity T)"
    and "unat (head_pos T name s) + length (queue_abs T name s) < 2 ^ 32 - 1"
  shows "\<exists>t. push_op T name m s = (True, t) \<and> queue_abs T name t = queue_abs T name s @ [m]
    \<and> unat (head_pos T name t) = unat (head_pos T name s) \<and> queue_ready T name owner t"
proof -
  have ok: "anchor_config_ok T" "queue_inv T name s" "submitter_by_names s name = Some owner"
    and "action_codec_ok T"
    using assms(1) by (auto simp: queue_ready_def)
  have "unat (tail_pos T name s) = unat (head_pos T name s) + length (queue_abs T name s)"
    using ok(2) by (simp add: length_queue_abs queue_inv_def word_le_nat_alt)
  then have "unat (tail_pos T name s) \<noteq> unat (- 1 :: u32)"
    using assms(3) by (simp add: unsigned_minus_1_eq_mask mask_eq_exp_minus_1)
  then have "tail_pos T name s \<noteq> - 1" by auto
  with after_push_inv [OF ok(1,2)] \<open>action_codec_ok T\<close> ok assms(2) show ?thesis
    by (simp add: push_op_def push_message_run after_push_positions queue_ready_def)
qed

lemma pop_op_run:
  assumes "queue_ready T name owner s"
  shows "k \<le> length (queue_abs T name s) \<Longrightarrow>
      \<exists>t. pop_op T name owner n k s = (True, t) \<and> queue_abs T name t = drop k (queue_abs T name s)
        \<and> unat (head_pos T name t) = unat (head_pos T name s) + k \<and> queue_ready T name owner t"
    and "length (queue_abs T name s) < k \<Longrightarrow> pop_op T name owner n k s = (False, s)"
proof -
  let ?i = "of_nat (unat (head_pos T name s) + k) :: u32"
  have ok: "anchor_config_ok T" "queue_inv T name s" "submitter_by_names s name = Some owner"
    and "action_codec_ok T"
    using assms by (auto simp: queue_ready_def)
  have tail: "unat (tail_pos T name s) = unat (head_pos T name s) + length (queue_abs T name s)"
    using ok(2) by (simp add: length_queue_abs queue_inv_def word_le_nat_alt)
  have lt: "unat (tail_pos T name s) < 2 ^ 32"
    using unsigned_less [of "tail_pos T name s", where 'a = nat] by simp
  show "\<exists>t. pop_op T name owner n k s = (True, t) \<and> queue_abs T name t = drop k (queue_abs T name s)
        \<and> unat (head_pos T name t) = unat (head_pos T name s) + k \<and> queue_ready T name owner t"
    if "k \<le> length (queue_abs T name s)"
  proof -
    have fits: "unat (head_pos T name s) + k < 2 ^ 32"
      using that tail lt by simp
    have i: "unat ?i = unat (head_pos T name s) + k" by (rule of_nat_pos [OF fits])
    have j: "unat (head_pos T name s + word_of_nat k) = unat (head_pos T name s) + k"
      using i by simp
    have le: "head_pos T name s \<le> ?i" "?i \<le> tail_pos T name s"
      unfolding word_le_nat_alt i using that tail by simp_all
    show ?thesis
      using fits le after_head_set_inv [OF ok(1,2) le] \<open>action_codec_ok T\<close> ok
      by (simp add: pop_op_def pop_rollup_run [OF assms] after_head_set_positions j queue_ready_def)
  qed
  show "pop_op T name owner n k s = (False, s)" if "length (queue_abs T name s) < k"
  proof (cases "2 ^ 32 \<le> unat (head_pos T name s) + k")
    case True
    then show ?thesis by (simp add: pop_op_def)
  next
    case False
    then have fits: "unat (head_pos T name s) + k < 2 ^ 32" by simp
    have "\<not> ?i \<le> tail_pos T name s"
      unfolding word_le_nat_alt of_nat_pos [OF fits] using that tail by simp
    with False show ?thesis by (simp add: pop_op_def pop_rollup_run [OF assms])
  qed
qed

interpretation anchor_queue: message_queue "push_op T name" "pop_op T name owner n" "queue_abs T name"
    "\<lambda>s. unat (head_pos T name s)" "unat (queue_capacity T)" "2 ^ 32 - 1" "queue_ready T name owner"
  for T :: "('ev, 'acc, ('ev, 'acc, 'm) anchor_state_scheme, 'x) anchor_config_scheme"
    and name owner n
proof unfold_locales
  fix s :: "('ev, 'acc, 'm) anchor_state_scheme" and m k
  assume ready: "queue_ready T name owner s"
  show "\<exists>t. push_op T name m s = (True, t) \<and> queue_abs T name t = queue_abs T name s @ [m]
      \<and> unat (head_pos T name t) = unat (head_pos T name s) \<and> queue_ready T name owner t"
    if "length (queue_abs T name s) < unat (queue_capacity T)"
      and "unat (head_pos T name s) + length (queue_abs T name s) < 2 ^ 32 - 1"
    using push_op_accepted [OF ready that] .
  show "push_op T name m s = (False, s)" if "unat (queue_capacity T) \<le> length (queue_abs T name s)"
    using ready that by (simp add: queue_ready_def push_op_def push_message_run)
  show "\<exists>t. pop_op T name owner n k s = (True, t) \<and> queue_abs T name t = drop k (queue_abs T name s)
      \<and> unat (head_pos T name t) = unat (head_pos T name s) + k \<and> queue_ready T name owner t"
    if "k \<le> length (queue_abs T name s)"
    using pop_op_run(1) [OF ready that] .
  show "pop_op T name owner n k s = (False, s)" if "length (queue_abs T name s) < k"
    using pop_op_run(2) [OF ready that] .
qed

end
