(* ===== verification/Oracle.thy ===== *)
theory Oracle
  imports Anchor_Queue
begin

text \<open>
  The oracle pallet (\<open>src/pallets/oracle\<close>): a request looks a feed up in the registry,
  records itself and pushes a message to a rollup name of the anchor; a response comes
  back through the anchor's response handler and is stored. The storage of the pallet
  extends the anchor's and the registry's, its configuration theirs.

  Code outside the repository is in the configuration: the randomness source, whose
  values depend on the block (its own storage changes between blocks only), the order
  in which the storage iterates the claimed names, and the codecs of the seed, of the
  message and of the response record.

  The lemmas give every dispatchable on every branch (\<open>request_signed\<close>,
  \<open>oracle_response_run\<close>) and the interpretation of \<open>response_handler\<close>.
\<close>

section \<open>Data and storage\<close>

type_synonym RequestId = H256

type_synonym ResponseData = ValueBytes

type_synonym RequestData = ValueBytes

record 'acc request =
  registry_feed_key :: bytes
  caller :: 'acc
  nonce :: u128
  requested_data :: RequestData

record price_quote =
  contract_id :: H256
  price :: u128
  quote_timestamp_ms :: u64

record 'acc response_record =
  owner :: 'acc
  phat_contract_id :: H256
  request_id :: RequestId
  response_data :: ResponseData
  timestamp_ms :: u64

datatype 'acc oracle_event =
    QuoteReceived H256 'acc H256 bytes u128
  | ResponseRecordReceived 'acc H256 RequestId ResponseData u64
  | OracleRequest 'acc RequestId bytes

record ('ev, 'acc, 's) oracle_config = "('ev, 'acc, 's) anchor_config" +
  oracle_event :: "'acc oracle_event \<Rightarrow> 'ev"
  quotes_count :: u32
  data_count :: u32
  random_seed :: "u32 \<Rightarrow> H256 \<times> u32"
  random :: "u32 \<Rightarrow> bytes \<Rightarrow> H256 \<times> u32"
  enc_seed :: "H256 \<times> u32 \<Rightarrow> bytes"
  enc_message :: "H256 \<times> bytes \<times> bytes \<Rightarrow> bytes"
  response_codec :: "'acc response_record codec"
  iter_keys :: "(H256 \<rightharpoonup> 'acc) \<Rightarrow> H256 list"

record ('ev, 'acc) oracle_state = "('ev, 'acc) anchor_state" +
  price_feeds :: "H256 \<times> bytes \<rightharpoonup> price_quote list"
  feed_data :: "'acc \<times> 'acc request \<rightharpoonup> ResponseData"
  feed_requests :: "RequestId \<rightharpoonup> 'acc request"
  averages :: "bytes \<rightharpoonup> u128"

section \<open>Dispatchables\<close>

definition oracle_request ::
    "('ev, 'acc, 's, 'x) oracle_config_scheme \<Rightarrow> 'acc origin \<Rightarrow> bytes \<Rightarrow> u128 \<Rightarrow>
     (dispatch_error, ('ev, 'acc, 'm) oracle_state_scheme, unit) call" where
  "oracle_request T origin feed_key nonce_arg = transactional (
     seq (ensure_signed origin) (\<lambda>who.
     seq (gets (\<lambda>s. api_feeds s (who, feed_key))) (\<lambda>o_feed.
     seq (ok_or o_feed (Oracle FailedToGetApiFeed)) (\<lambda>api_feed.
     seq (ensure (status_is_active (status api_feed)) (Oracle ApiFeedNotActive)) (\<lambda>_.
     let feed_path = path api_feed; feed_url = url api_feed in
     seq (gets block_number) (\<lambda>now.
     let seed = enc_seed T (fst (random_seed T now, nonce_arg));
         rid = fst (random T now seed);
         data_raw = (rid, feed_url, feed_path) in
     seq (ok_or (try_bounded value_bytes_bound (enc_message T data_raw)) (Oracle FailedToEncodeData)) (\<lambda>data.
     seq (modify (\<lambda>s. s\<lparr>feed_requests := (feed_requests s)(rid \<mapsto>
            \<lparr>registry_feed_key = feed_key, caller = who, nonce = nonce_arg, requested_data = data\<rparr>)\<rparr>)) (\<lambda>_.
     seq (gets (\<lambda>s. iter_keys T (submitter_by_names s))) (\<lambda>names.
     seq (ok_or (if names = [] then None else Some (last names)) (Oracle FailedToFindOracleFeeds)) (\<lambda>name.
     seq (map_err (\<lambda>_. Oracle FailedToPushMessageToAnchor) (push_message T name data)) (\<lambda>_.
     deposit_event (oracle_event T (OracleRequest who rid feed_key)))))))))))))"

definition feeds ::
    "'acc origin \<Rightarrow> H256 \<Rightarrow> bytes \<Rightarrow> u128 \<Rightarrow>
     (dispatch_error, ('ev, 'acc, 'm) oracle_state_scheme, unit) call" where
  "feeds origin name_arg data nonce_arg = transactional (
     seq (ensure_signed origin) (\<lambda>_. ret ()))"

definition average ::
    "'acc origin \<Rightarrow> (dispatch_error, ('ev, 'acc, 'm) oracle_state_scheme, unit) call" where
  "average origin = seq (ensure_signed origin) (\<lambda>_. panic)"

text \<open>The pallet's implementation of \<open>OnResponse\<close>.\<close>

definition oracle_on_response ::
    "('ev, 'acc, 's, 'x) oracle_config_scheme \<Rightarrow> H256 \<Rightarrow> 'acc \<Rightarrow> bytes \<Rightarrow>
     (dispatch_error, ('ev, 'acc, 'm) oracle_state_scheme, unit) call" where
  "oracle_on_response T name submitter data =
     seq (ok_or (map_option fst (dec (response_codec T) data)) (Oracle FailedToDecodeResponse)) (\<lambda>resp.
     seq (ensure (phat_contract_id resp = name) (Oracle FailedToAuthenticateResponse)) (\<lambda>_.
     seq (gets (\<lambda>s. feed_requests s (request_id resp))) (\<lambda>o_req.
     seq (ok_or o_req (Oracle FailedToGetFeedRequest)) (\<lambda>req.
     seq (modify (\<lambda>s. s\<lparr>feed_data := (feed_data s)((submitter, req) \<mapsto> response_data resp)\<rparr>)) (\<lambda>_.
     deposit_event (oracle_event T (ResponseRecordReceived submitter name (request_id resp)
       (response_data resp) (timestamp_ms resp))))))))"

section \<open>Behaviour on every branch\<close>

text \<open>The identifier and the message of a request in block \<open>now\<close>.\<close>

definition fresh_request_id :: "('ev, 'acc, 's, 'x) oracle_config_scheme \<Rightarrow> u32 \<Rightarrow> RequestId" where
  "fresh_request_id T now = fst (random T now (enc_seed T (random_seed T now)))"

definition request_message ::
    "('ev, 'acc, 's, 'x) oracle_config_scheme \<Rightarrow> u32 \<Rightarrow> api_feed \<Rightarrow> bytes" where
  "request_message T now feed = enc_message T (fresh_request_id T now, url feed, path feed)"

definition recorded_request ::
    "('ev, 'acc, 's, 'x) oracle_config_scheme \<Rightarrow> 'acc \<Rightarrow> bytes \<Rightarrow> u128 \<Rightarrow> u32 \<Rightarrow> api_feed \<Rightarrow> 'acc request" where
  "recorded_request T who feed_key nonce_arg now feed =
     \<lparr>registry_feed_key = feed_key, caller = who, nonce = nonce_arg,
      requested_data = request_message T now feed\<rparr>"

lemma oracle_unsigned:
  assumes "\<And>who. origin \<noteq> Signed who"
  shows "oracle_request T origin feed_key n s = (Inl (Err BadOrigin), s)"
    and "feeds origin name_arg data n s = (Inl (Err BadOrigin), s)"
    and "average origin s = (Inl (Err BadOrigin), s)"
  using assms
  by (simp_all add: oracle_request_def feeds_def average_def transactional_def ensure_signed_bad)

lemma request_signed:
  "oracle_request T (Signed who) feed_key n s =
     (case api_feeds s (who, feed_key) of
        None \<Rightarrow> (Inl (Err (Oracle FailedToGetApiFeed)), s)
      | Some feed \<Rightarrow>
          (if \<not> status_is_active (status feed) then (Inl (Err (Oracle ApiFeedNotActive)), s)
           else if value_bytes_bound < length (request_message T (block_number s) feed)
           then (Inl (Err (Oracle FailedToEncodeData)), s)
           else if iter_keys T (submitter_by_names s) = []
           then (Inl (Err (Oracle FailedToFindOracleFeeds)), s)
           else (case push_message T (last (iter_keys T (submitter_by_names s)))
                        (request_message T (block_number s) feed)
                        (s\<lparr>feed_requests := (feed_requests s)
                             (fresh_request_id T (block_number s) \<mapsto>
                                recorded_request T who feed_key n (block_number s) feed)\<rparr>) of
                   (Inl (Err e), t) \<Rightarrow> (Inl (Err (Oracle FailedToPushMessageToAnchor)), s)
                 | (Inl Panic, t) \<Rightarrow> (Inl Panic, s)
                 | (Inr _, t) \<Rightarrow>
                     (Inr (), t\<lparr>events := events t @
                        [oracle_event T (OracleRequest who (fresh_request_id T (block_number s)) feed_key)]\<rparr>))))"
proof (cases "api_feeds s (who, feed_key)")
  case None
  then show ?thesis by (simp add: oracle_request_def transactional_def call_simps)
next
  case (Some feed)
  have bounded: "try_bounded value_bytes_bound (request_message T (block_number s) feed) =
      (if value_bytes_bound < length (request_message T (block_number s) feed) then None
       else Some (request_message T (block_number s) feed))"
    by (simp add: try_bounded_def)
  show ?thesis
    using Some bounded
    by (simp add: oracle_request_def transactional_def call_simps Let_def
        fresh_request_id_def [symmetric] request_message_def [symmetric]
        recorded_request_def [symmetric])
      (simp add: seq_def map_err_def recorded_request_def call_simps
        split: prod.split sum.split fault.split)
qed

lemma oracle_response_run:
  "oracle_on_response T name submitter data s =
     (case dec (response_codec T) data of
        None \<Rightarrow> (Inl (Err (Oracle FailedToDecodeResponse)), s)
      | Some (resp, _) \<Rightarrow>
          (if phat_contract_id resp \<noteq> name then (Inl (Err (Oracle FailedToAuthenticateResponse)), s)
           else (case feed_requests s (request_id resp) of
                   None \<Rightarrow> (Inl (Err (Oracle FailedToGetFeedRequest)), s)
                 | Some req \<Rightarrow>
                     (Inr (), s\<lparr>feed_data := (feed_data s)((submitter, req) \<mapsto> response_data resp),
                        events := events s @ [oracle_event T (ResponseRecordReceived submitter name
                          (request_id resp) (response_data resp) (timestamp_ms resp))]\<rparr>))))"
  by (auto simp: oracle_on_response_def call_simps split: option.split)

lemma feeds_signed [call_simps]: "feeds (Signed who) name_arg data n s = (Inr (), s)"
  by (simp add: feeds_def transactional_def call_simps)

lemma average_signed [call_simps]: "average (Signed who) s = (Inl Panic, s)"
  by (simp add: average_def call_simps)

section \<open>The contract with the anchor\<close>

text \<open>The runtime's wiring: the anchor's responses go to this pallet.\<close>

definition with_oracle ::
    "('ev, 'acc, ('ev, 'acc, 'm) oracle_state_scheme, 'x) oracle_config_scheme \<Rightarrow>
     ('ev, 'acc, ('ev, 'acc, 'm) oracle_state_scheme, 'x) oracle_config_scheme" where
  "with_oracle T = T\<lparr>on_response := oracle_on_response T\<rparr>"

lemma oracle_on_response_within: "within anchor_kept (oracle_on_response T name who data)"
  by (auto simp: within_def oracle_response_run anchor_kept_def split: option.split)

interpretation oracle_handler: response_handler "with_oracle T" for T
  by unfold_locales (simp add: with_oracle_def oracle_on_response_within)

lemma with_oracle_sel [simp]:
  "on_response (with_oracle T) = oracle_on_response T"
  "queue_prefix (with_oracle T) = queue_prefix T"
  "queue_capacity (with_oracle T) = queue_capacity T"
  "u32_codec (with_oracle T) = u32_codec T"
  "action_codec (with_oracle T) = action_codec T"
  "response_codec (with_oracle T) = response_codec T"
  "anchor_event (with_oracle T) = anchor_event T"
  "oracle_event (with_oracle T) = oracle_event T"
  "iter_keys (with_oracle T) = iter_keys T"
  by (simp_all add: with_oracle_def)

end
