(* ===== verification/Scale.thy ===== *)
theory Scale
  imports Frame
begin

text \<open>
  The SCALE format, as the parity-scale-codec crate documents it, for the types the
  pallets encode: fixed-width little-endian integers, compact lengths, byte vectors with
  a bound, and 32-byte hashes. The pallets take their codecs as parameters of their
  configuration; these are the concrete codecs the runtime's configuration uses, and the
  interpretations of \<open>scale_codec\<close> show that they keep the law the pallets rely on.
\<close>

section \<open>Little-endian integers\<close>

fun le_bytes :: "nat \<Rightarrow> nat \<Rightarrow> bytes" where
  "le_bytes 0 x = []"
| "le_bytes (Suc n) x = of_nat (x mod 256) # le_bytes n (x div 256)"

fun le_value :: "bytes \<Rightarrow> nat" where
  "le_value [] = 0"
| "le_value (b # bs) = unat b + 256 * le_value bs"

definition dec_le :: "nat \<Rightarrow> bytes \<Rightarrow> (nat \<times> bytes) option" where
  "dec_le n bs = (if length bs < n then None else Some (le_value (take n bs), drop n bs))"

definition word_codec :: "nat \<Rightarrow> 'a::len word codec" where
  "word_codec n = \<lparr>enc = (\<lambda>w. le_bytes n (unat w)),
                   dec = (\<lambda>bs. map_option (\<lambda>(x, r). (of_nat x, r)) (dec_le n bs))\<rparr>"

definition u32_scale :: "u32 codec" where
  "u32_scale = word_codec 4"

definition u64_scale :: "u64 codec" where
  "u64_scale = word_codec 8"

text \<open>A hash is 32 bytes, first byte first; the model reads them as one number.\<close>

definition h256_scale :: "H256 codec" where
  "h256_scale = word_codec 32"

section \<open>Compact lengths and byte vectors\<close>

definition enc_compact :: "nat \<Rightarrow> bytes" where
  "enc_compact n =
     (if n < 64 then [of_nat (4 * n)]
      else if n < 16384 then le_bytes 2 (4 * n + 1)
      else if n < 1073741824 then le_bytes 4 (4 * n + 2)
      else 3 # le_bytes 4 n)"

definition dec_compact :: "bytes \<Rightarrow> (nat \<times> bytes) option" where
  "dec_compact bs =
     (case bs of
        [] \<Rightarrow> None
      | b # r \<Rightarrow>
          (if unat b mod 4 = 0 then Some (unat b div 4, r)
           else if unat b mod 4 = 1 then
             (case dec_le 2 bs of
                None \<Rightarrow> None
              | Some (x, r') \<Rightarrow> (if 64 \<le> x div 4 then Some (x div 4, r') else None))
           else if unat b mod 4 = 2 then
             (case dec_le 4 bs of
                None \<Rightarrow> None
              | Some (x, r') \<Rightarrow> (if 16384 \<le> x div 4 then Some (x div 4, r') else None))
           else if b = 3 then
             (case dec_le 4 r of
                None \<Rightarrow> None
              | Some (x, r') \<Rightarrow> (if 1073741824 \<le> x then Some (x, r') else None))
           else None))"

definition enc_vec :: "bytes \<Rightarrow> bytes" where
  "enc_vec xs = enc_compact (length xs) @ xs"

text \<open>A \<open>BoundedVec\<close> of bytes refuses a length beyond its bound.\<close>

definition dec_bounded_vec :: "nat \<Rightarrow> bytes \<Rightarrow> (bytes \<times> bytes) option" where
  "dec_bounded_vec bound bs =
     (case dec_compact bs of
        None \<Rightarrow> None
      | Some (n, r) \<Rightarrow> (if n \<le> bound \<and> n \<le> length r then Some (take n r, drop n r) else None))"

definition vec_scale :: "nat \<Rightarrow> bytes codec" where
  "vec_scale bound = \<lparr>enc = enc_vec, dec = dec_bounded_vec bound\<rparr>"

section \<open>Round trips\<close>

lemma length_le_bytes [simp]: "length (le_bytes n x) = n"
  by (induction n arbitrary: x) auto

lemma le_bytes_pos: "0 < n \<Longrightarrow> le_bytes n x = of_nat (x mod 256) # le_bytes (n - 1) (x div 256)"
  by (cases n) auto

lemma unat_of_nat_byte: "unat (of_nat (x mod 256) :: u8) = x mod 256"
  by (simp add: unsigned_of_nat take_bit_eq_mod)

lemma le_value_le_bytes: "x < 256 ^ n \<Longrightarrow> le_value (le_bytes n x) = x"
proof (induction n arbitrary: x)
  case 0
  then show ?case by simp
next
  case (Suc n)
  have "x div 256 < 256 ^ n"
    using Suc.prems by (simp add: less_mult_imp_div_less mult.commute)
  then show ?case
    by (simp add: Suc.IH unat_of_nat_byte)
qed

lemma dec_le_le_bytes: "x < 256 ^ n \<Longrightarrow> dec_le n (le_bytes n x @ r) = Some (x, r)"
  by (simp add: dec_le_def le_value_le_bytes)

lemma dec_word_codec:
  fixes w :: "'a::len word"
  assumes "LENGTH('a) = 8 * n"
  shows "dec (word_codec n) (enc (word_codec n) w @ r) = Some (w, r)"
proof -
  have "unat w < 2 ^ LENGTH('a)" by (rule unsigned_less)
  also have "\<dots> = 256 ^ n" by (simp add: assms power_mult)
  finally show ?thesis
    by (simp add: word_codec_def dec_le_le_bytes)
qed

interpretation u32_codec: scale_codec u32_scale "\<lambda>_. True"
  by unfold_locales (simp add: u32_scale_def dec_word_codec)

interpretation u64_codec: scale_codec u64_scale "\<lambda>_. True"
  by unfold_locales (simp add: u64_scale_def dec_word_codec)

interpretation h256_codec: scale_codec h256_scale "\<lambda>_. True"
  by unfold_locales (simp add: h256_scale_def dec_word_codec)

lemma length_enc_u32 [simp]: "length (enc u32_scale n) = 4"
  by (simp add: u32_scale_def word_codec_def)

lemma length_enc_h256 [simp]: "length (enc h256_scale n) = 32"
  by (simp add: h256_scale_def word_codec_def)

lemma low_bits: "x mod 256 mod 4 = x mod (4::nat)"
  by (rule mod_mod_cancel) simp

lemma dec_compact_enc:
  assumes "n < 4294967296"
  shows "dec_compact (enc_compact n @ r) = Some (n, r)"
proof -
  consider "n < 64" | "64 \<le> n" "n < 16384" | "16384 \<le> n" "n < 1073741824" | "1073741824 \<le> n"
    by linarith
  then show ?thesis
  proof cases
    case 1
    then have "4 * n < 2 ^ LENGTH(8)" by simp
    then have "unat (of_nat (4 * n) :: u8) = 4 * n"
      by (simp only: unsigned_of_nat of_nat_id take_bit_nat_eq_self)
    with 1 show ?thesis by (simp add: dec_compact_def enc_compact_def)
  next
    case 2
    let ?x = "4 * n + 1"
    have low: "unat (of_nat (?x mod 256) :: u8) mod 4 = 1"
      unfolding unat_of_nat_byte by (simp only: low_bits) presburger
    have "dec_le 2 (le_bytes 2 ?x @ r) = Some (?x, r)"
      using 2 by (intro dec_le_le_bytes) simp
    moreover have "?x div 4 = n" by presburger
    ultimately show ?thesis
      using 2 low by (simp add: dec_compact_def enc_compact_def numeral_2_eq_2)
  next
    case 3
    let ?x = "4 * n + 2"
    have quot: "?x div 4 = n" by presburger
    have low: "unat (of_nat (?x mod 256) :: u8) mod 4 = 2"
      unfolding unat_of_nat_byte by (simp only: low_bits) presburger
    have "dec_le 4 (le_bytes 4 ?x @ r) = Some (?x, r)"
      using 3 by (intro dec_le_le_bytes) simp
    moreover have "le_bytes 4 ?x = of_nat (?x mod 256) # le_bytes 3 (?x div 256)"
      by (subst le_bytes_pos) simp_all
    ultimately show ?thesis
      using 3 low quot by (simp add: dec_compact_def enc_compact_def)
  next
    case 4
    have "dec_le 4 (le_bytes 4 n @ r) = Some (n, r)"
      using assms by (intro dec_le_le_bytes) simp
    with 4 show ?thesis
      by (simp add: dec_compact_def enc_compact_def)
  qed
qed

interpretation vec_codec: scale_codec "vec_scale bound"
    "\<lambda>xs. length xs \<le> bound \<and> length xs < 4294967296" for bound
  by unfold_locales
    (simp add: vec_scale_def enc_vec_def dec_bounded_vec_def dec_compact_enc)

lemma length_enc_compact: "n < 16384 \<Longrightarrow> length (enc_compact n) \<le> 2"
  by (simp add: enc_compact_def)

section \<open>Tuples and structures\<close>

text \<open>A tuple encodes its parts in order; a structure as the tuple of its fields.\<close>

definition pair_codec :: "'a codec \<Rightarrow> 'b codec \<Rightarrow> ('a \<times> 'b) codec" where
  "pair_codec c d =
     \<lparr>enc = (\<lambda>(x, y). enc c x @ enc d y),
      dec = (\<lambda>bs. case dec c bs of
               None \<Rightarrow> None
             | Some (x, r) \<Rightarrow> map_option (\<lambda>(y, r'). ((x, y), r')) (dec d r))\<rparr>"

definition via_codec :: "('b \<Rightarrow> 'a) \<Rightarrow> ('a \<Rightarrow> 'b) \<Rightarrow> 'a codec \<Rightarrow> 'b codec" where
  "via_codec f g c =
     \<lparr>enc = (\<lambda>y. enc c (f y)), dec = (\<lambda>bs. map_option (\<lambda>(x, r). (g x, r)) (dec c bs))\<rparr>"

lemma pair_codec_law:
  "codec_ok c V \<Longrightarrow> codec_ok d W \<Longrightarrow> codec_ok (pair_codec c d) (\<lambda>(x, y). V x \<and> W y)"
  by (auto simp: codec_ok_def pair_codec_def)

lemma via_codec_law:
  "codec_ok c V \<Longrightarrow> (\<And>y. g (f y) = y) \<Longrightarrow> codec_ok (via_codec f g c) (\<lambda>y. V (f y))"
  by (auto simp: codec_ok_def via_codec_def)

lemma codec_ok_mono: "codec_ok c V \<Longrightarrow> (\<And>x. W x \<Longrightarrow> V x) \<Longrightarrow> codec_ok c W"
  by (auto simp: codec_ok_def)

lemmas base_laws = u32_codec.law u64_codec.law h256_codec.law vec_codec.law

end
