(* ===== verification/Runtime.thy ===== *)
theory Runtime
  imports Oracle Scale
begin

text \<open>
  The runtime's instance of the registry, the anchor and the oracle
  (\<open>src/runtime/paraxiom/src/lib.rs\<close>): the constants of their configurations, the
  derived codecs of the types they exchange, the calls of the three pallets and the
  dispatch of one call, and the chain as a step relation.

  \<open>AccountId\<close> is the 32-byte account of the runtime. The collective-flip randomness and
  the iteration order of a storage map are outside the repository and stay parameters of
  \<open>paraxiom\<close>. FRAME runs every call in a storage layer of its own, so \<open>dispatch\<close>
  discards what a failed call wrote, whether or not the pallet asks for it.
\<close>

section \<open>Derived codecs\<close>

type_synonym AccountId = H256

definition action_bytes_bound :: nat where
  "action_bytes_bound = 256"

definition enc_action :: "action \<Rightarrow> bytes" where
  "enc_action act =
     (case act of
        Reply data \<Rightarrow> 0 # enc (vec_scale action_bytes_bound) data
      | SetQueueHead n \<Rightarrow> 1 # enc u32_scale n)"

definition dec_action :: "bytes \<Rightarrow> (action \<times> bytes) option" where
  "dec_action bs =
     (case bs of
        [] \<Rightarrow> None
      | b # r \<Rightarrow>
          (if b = 0 then map_option (\<lambda>(d, r'). (Reply d, r')) (dec (vec_scale action_bytes_bound) r)
           else if b = 1 then map_option (\<lambda>(n, r'). (SetQueueHead n, r')) (dec u32_scale r)
           else None))"

definition action_scale :: "action codec" where
  "action_scale = \<lparr>enc = enc_action, dec = dec_action\<rparr>"

definition response_tuple ::
    "AccountId response_record \<Rightarrow> AccountId \<times> H256 \<times> RequestId \<times> ResponseData \<times> u64" where
  "response_tuple r = (owner r, phat_contract_id r, request_id r, response_data r, timestamp_ms r)"

definition tuple_response ::
    "AccountId \<times> H256 \<times> RequestId \<times> ResponseData \<times> u64 \<Rightarrow> AccountId response_record" where
  "tuple_response t =
     (case t of (a, c, i, d, ms) \<Rightarrow>
        \<lparr>owner = a, phat_contract_id = c, request_id = i, response_data = d, timestamp_ms = ms\<rparr>)"

definition response_scale :: "AccountId response_record codec" where
  "response_scale = via_codec response_tuple tuple_response
     (pair_codec h256_scale (pair_codec h256_scale (pair_codec h256_scale
       (pair_codec (vec_scale value_bytes_bound) u64_scale))))"

definition message_scale :: "(H256 \<times> bytes \<times> bytes) codec" where
  "message_scale = pair_codec h256_scale (pair_codec (vec_scale 512) (vec_scale 256))"

section \<open>Configuration\<close>

datatype runtime_event =
    RegistryEvent "AccountId registry_event"
  | AnchorEvent "AccountId anchor_event"
  | OracleEvent "AccountId oracle_event"

type_synonym chain_state = "(runtime_event, AccountId) oracle_state"

type_synonym chain_config = "(runtime_event, AccountId, chain_state) oracle_config"

definition queue_prefix_bytes :: bytes where
  "queue_prefix_bytes = [95, 113, 117, 101, 117, 101, 47]"

definition paraxiom ::
    "(u32 \<Rightarrow> H256 \<times> u32) \<Rightarrow> (u32 \<Rightarrow> bytes \<Rightarrow> H256 \<times> u32) \<Rightarrow> ((H256 \<rightharpoonup> AccountId) \<Rightarrow> H256 list) \<Rightarrow> chain_config" where
  "paraxiom seed_source random_source key_order = with_oracle
     \<lparr>registry_event = RegistryEvent, max_url_size = 512, max_key_size = 128, max_path_size = 256,
      anchor_event = AnchorEvent, on_response = (\<lambda>_ _ _. ret ()),
      queue_prefix = queue_prefix_bytes, queue_capacity = 128,
      u32_codec = u32_scale, action_codec = action_scale,
      oracle_event = OracleEvent, quotes_count = 6, data_count = 6,
      random_seed = seed_source, random = random_source,
      enc_seed = enc (pair_codec h256_scale u32_scale), enc_message = enc message_scale,
      response_codec = response_scale, iter_keys = key_order\<rparr>"

section \<open>Calls and dispatch\<close>

datatype call_of_chain =
    RegisterFeed bytes bytes bytes
  | UnregisterFeed bytes
  | ClaimName H256
  | Rollup H256 rollup_tx u128
  | RequestFeed bytes u128
  | Feeds H256 bytes u128
  | Average

definition dispatch ::
    "chain_config \<Rightarrow> AccountId origin \<Rightarrow> call_of_chain \<Rightarrow> (dispatch_error, chain_state, unit) call" where
  "dispatch T origin c = transactional
     (case c of
        RegisterFeed key u p \<Rightarrow> register_feed T origin key u p
      | UnregisterFeed key \<Rightarrow> unregister_feed T origin key
      | ClaimName name \<Rightarrow> claim_name T origin name
      | Rollup name tx n \<Rightarrow> rollup T origin name tx n
      | RequestFeed key n \<Rightarrow> oracle_request T origin key n
      | Feeds name data n \<Rightarrow> feeds origin name data n
      | Average \<Rightarrow> average origin)"

text \<open>What decoding the extrinsic guarantees of the arguments: bounded vectors are bounded.\<close>

definition cond_bounded :: "cond \<Rightarrow> bool" where
  "cond_bounded c \<longleftrightarrow>
     (case c of Eq key v \<Rightarrow> length key \<le> key_bytes_bound
        \<and> (case v of None \<Rightarrow> True | Some bs \<Rightarrow> length bs \<le> value_bytes_bound))"

definition update_bounded :: "KeyBytes \<times> ValueBytes option \<Rightarrow> bool" where
  "update_bounded u \<longleftrightarrow>
     (case u of (key, v) \<Rightarrow> length key \<le> key_bytes_bound
        \<and> (case v of None \<Rightarrow> True | Some bs \<Rightarrow> length bs \<le> value_bytes_bound))"

definition call_bounded :: "chain_config \<Rightarrow> call_of_chain \<Rightarrow> bool" where
  "call_bounded T c \<longleftrightarrow>
     (case c of
        RegisterFeed key u p \<Rightarrow> feed_bounded T key u p
      | UnregisterFeed key \<Rightarrow> length key \<le> unat (max_key_size T)
      | Rollup name tx n \<Rightarrow>
          list_all cond_bounded (conds tx) \<and> list_all update_bounded (updates tx)
          \<and> list_all (\<lambda>a. length a \<le> action_bytes_bound) (actions tx)
      | RequestFeed key n \<Rightarrow> length key \<le> unat (max_key_size T)
      | Feeds name data n \<Rightarrow> length data \<le> 64
      | _ \<Rightarrow> True)"

section \<open>The chain\<close>

definition genesis :: chain_state where
  "genesis = \<lparr>block_number = 0, events = [], api_feeds = Map.empty, submitter_by_names = Map.empty,
     states = Map.empty, price_feeds = Map.empty, feed_data = Map.empty,
     feed_requests = Map.empty, averages = Map.empty\<rparr>"

definition next_block :: "chain_state \<Rightarrow> chain_state" where
  "next_block s = s\<lparr>block_number := block_number s + 1, events := []\<rparr>"

inductive chain_step :: "chain_config \<Rightarrow> chain_state \<Rightarrow> chain_state \<Rightarrow> bool" for T where
  step_block: "chain_step T s (next_block s)"
| step_call: "call_bounded T c \<Longrightarrow> dispatch T origin c s = (r, t) \<Longrightarrow> chain_step T s t"

inductive chain_steps :: "chain_config \<Rightarrow> chain_state \<Rightarrow> chain_state \<Rightarrow> bool" for T where
  steps_refl: "chain_steps T s s"
| steps_step: "chain_steps T s t \<Longrightarrow> chain_step T t u \<Longrightarrow> chain_steps T s u"

definition reachable :: "chain_config \<Rightarrow> chain_state \<Rightarrow> bool" where
  "reachable T s \<longleftrightarrow> chain_steps T genesis s"

inductive_cases chain_stepE: "chain_step T s t"

section \<open>Codec laws\<close>

definition short_vec :: "nat \<Rightarrow> bytes \<Rightarrow> bool" where
  "short_vec bound xs \<longleftrightarrow> length xs \<le> bound \<and> length xs < 4294967296"

lemma vec_law: "codec_ok (vec_scale bound) (short_vec bound)"
  unfolding short_vec_def by (rule vec_codec.law)

interpretation action_wire: scale_codec action_scale
    "\<lambda>a. case a of Reply d \<Rightarrow> length d \<le> action_bytes_bound | SetQueueHead _ \<Rightarrow> True"
proof unfold_locales
  fix a r
  assume valid: "case a of Reply d \<Rightarrow> length d \<le> action_bytes_bound | SetQueueHead _ \<Rightarrow> True"
  show "dec action_scale (enc action_scale a @ r) = Some (a, r)"
  proof (cases a)
    case (Reply d)
    then have "short_vec action_bytes_bound d"
      using valid by (simp add: short_vec_def action_bytes_bound_def)
    with vec_law have "dec (vec_scale action_bytes_bound) (enc (vec_scale action_bytes_bound) d @ r) = Some (d, r)"
      by (rule codec_okD)
    with Reply show ?thesis by (simp add: action_scale_def enc_action_def dec_action_def)
  next
    case (SetQueueHead n)
    then show ?thesis
      by (simp add: action_scale_def enc_action_def dec_action_def u32_codec.dec_enc)
  qed
qed

interpretation response_wire: scale_codec response_scale
    "\<lambda>r. length (response_data r) \<le> value_bytes_bound"
proof -
  have "codec_ok (pair_codec h256_scale (pair_codec h256_scale (pair_codec h256_scale
       (pair_codec (vec_scale value_bytes_bound) u64_scale))))
       (\<lambda>(_, _, _, d, _). short_vec value_bytes_bound d)"
    by (rule codec_ok_mono [OF pair_codec_law [OF h256_codec.law pair_codec_law [OF h256_codec.law
            pair_codec_law [OF h256_codec.law pair_codec_law [OF vec_law u64_codec.law]]]]]) auto
  then have "codec_ok response_scale (\<lambda>r. length (response_data r) \<le> value_bytes_bound)"
    unfolding response_scale_def
    by (rule codec_ok_mono [OF via_codec_law])
      (auto simp: response_tuple_def tuple_response_def short_vec_def value_bytes_bound_def)
  then show "scale_codec response_scale (\<lambda>r. length (response_data r) \<le> value_bytes_bound)"
    by (simp add: codec_ok_iff_locale)
qed

interpretation message_wire: scale_codec message_scale
    "\<lambda>(_, u, p). length u \<le> 512 \<and> length p \<le> 256"
proof -
  have "codec_ok message_scale (\<lambda>(_, u, p). length u \<le> 512 \<and> length p \<le> 256)"
    unfolding message_scale_def
    by (rule codec_ok_mono [OF pair_codec_law [OF h256_codec.law pair_codec_law [OF vec_law vec_law]]])
      (auto simp: short_vec_def)
  then show "scale_codec message_scale (\<lambda>(_, u, p). length u \<le> 512 \<and> length p \<le> 256)"
    by (simp add: codec_ok_iff_locale)
qed

section \<open>The configuration keeps the contracts\<close>

lemma paraxiom_sel [simp]:
  "queue_prefix (paraxiom a b c) = queue_prefix_bytes"
  "queue_capacity (paraxiom a b c) = 128"
  "u32_codec (paraxiom a b c) = u32_scale"
  "action_codec (paraxiom a b c) = action_scale"
  "response_codec (paraxiom a b c) = response_scale"
  "enc_message (paraxiom a b c) = enc message_scale"
  "anchor_event (paraxiom a b c) = AnchorEvent"
  "oracle_event (paraxiom a b c) = OracleEvent"
  "registry_event (paraxiom a b c) = RegistryEvent"
  "iter_keys (paraxiom a b c) = c"
  "random_seed (paraxiom a b c) = a"
  "random (paraxiom a b c) = b"
  "max_url_size (paraxiom a b c) = 512"
  "max_key_size (paraxiom a b c) = 128"
  "max_path_size (paraxiom a b c) = 256"
  by (simp_all add: paraxiom_def with_oracle_def)

lemma paraxiom_on_response:
  "on_response (paraxiom a b c) name who data s = oracle_on_response (paraxiom a b c) name who data s"
  by (simp add: paraxiom_def with_oracle_def oracle_response_run split: option.split)

interpretation chain_anchor: response_handler "paraxiom a b c" for a b c
  unfolding paraxiom_def by (rule oracle_handler.response_handler_axioms)

lemma paraxiom_config_ok [simp]: "anchor_config_ok (paraxiom a b c)"
  by (simp add: anchor_config_ok_def queue_prefix_bytes_def key_bytes_bound_def u32_codec.law)

lemma paraxiom_action_codec_ok [simp]: "action_codec_ok (paraxiom a b c)"
  by (auto simp: action_codec_ok_def intro: codec_ok_mono [OF action_wire.law])

end
