(* ===== verification/Chain.thy ===== *)
theory Chain
  imports Runtime
begin

text \<open>
  Invariants of the chain of \<open>Runtime\<close>: what no sequence of blocks and calls changes.
  \<open>steps_invariant\<close> is the induction every invariant uses; \<open>dispatch_cases\<close> reduces
  a call to the handler that committed. The relations between two storages
  (\<open>only_states\<close>, \<open>owners_kept\<close>, \<open>only_store_of\<close>) and the predicates kept
  (\<open>idle_oracle\<close>, \<open>store_bounded\<close>) are carried through the handlers by the frame
  rules of \<open>call_frame\<close>.
\<close>

section \<open>Induction over steps\<close>

lemma steps_invariant:
  assumes "chain_steps T s t" and "\<And>s t. chain_step T s t \<Longrightarrow> P s \<Longrightarrow> P t" and "P s"
  shows "P t"
  using assms by (induction rule: chain_steps.induct) blast+

lemma reachable_invariant:
  assumes "reachable T s" and "P genesis" and "\<And>s t. chain_step T s t \<Longrightarrow> P s \<Longrightarrow> P t"
  shows "P s"
  using assms unfolding reachable_def by (metis steps_invariant)

lemma steps_frame:
  assumes "chain_steps T s t" and "call_frame R" and "\<And>s t. chain_step T s t \<Longrightarrow> R s t"
  shows "R s t"
  using assms(1)
  by (induction rule: chain_steps.induct)
    (blast intro: assms(3) call_frame.R_refl [OF assms(2)] call_frame.R_trans [OF assms(2)])+

lemma reachable_genesis: "reachable T genesis"
  by (simp add: reachable_def steps_refl)

lemma reachable_step: "reachable T s \<Longrightarrow> chain_step T s t \<Longrightarrow> reachable T t"
  unfolding reachable_def by (rule steps_step)

lemma reachable_call:
  "reachable T s \<Longrightarrow> call_bounded T c \<Longrightarrow> reachable T (snd (dispatch T origin c s))"
  by (rule reachable_step, assumption) (auto intro: step_call prod.collapse [symmetric])

text \<open>A step commits the storage of a handler that ended in Ok, or changes at most the block.\<close>

lemma dispatch_fault: "dispatch T origin c s = (Inl e, t) \<Longrightarrow> t = s"
  unfolding dispatch_def by (rule transactional_atomic)

lemma dispatch_cases [consumes 1, case_names failed register unregister claim rollup request other]:
  assumes "dispatch T origin c s = (r, t)"
  obtains (failed) e where "r = Inl e" "t = s"
  | (register) key u p where "c = RegisterFeed key u p" "register_feed T origin key u p s = (Inr (), t)"
  | (unregister) key where "c = UnregisterFeed key" "unregister_feed T origin key s = (Inr (), t)"
  | (claim) name where "c = ClaimName name" "claim_name T origin name s = (Inr (), t)"
  | (rollup) name tx n where "c = Rollup name tx n" "rollup T origin name tx n s = (Inr (), t)"
  | (request) key n where "c = RequestFeed key n" "oracle_request T origin key n s = (Inr (), t)"
  | (other) "t = s"
proof (cases r)
  case (Inl e)
  with assms failed show ?thesis by (auto dest: dispatch_fault)
next
  case (Inr u)
  then have ok: "dispatch T origin c s = (Inr (), t)" using assms by simp
  show ?thesis
  proof (cases c)
    case (Feeds name data n)
    with ok have "t = s" by (auto simp: dispatch_def feeds_def call_ok)
    then show ?thesis by (rule other)
  next
    case Average
    with ok show ?thesis by (auto simp: dispatch_def average_def call_ok)
  next
    case (RegisterFeed key u p)
    with ok show ?thesis by (intro register [of key u p]) (simp_all add: dispatch_def call_ok)
  next
    case (UnregisterFeed key)
    with ok show ?thesis by (intro unregister [of key]) (simp_all add: dispatch_def call_ok)
  next
    case (ClaimName name)
    with ok show ?thesis by (intro claim [of name]) (simp_all add: dispatch_def call_ok)
  next
    case (Rollup name tx n)
    with ok show ?thesis by (intro rollup [of name tx n]) (simp_all add: dispatch_def call_ok)
  next
    case (RequestFeed key n)
    with ok show ?thesis by (intro request [of key n]) (simp_all add: dispatch_def call_ok)
  qed
qed

section \<open>Signed calls\<close>

lemma register_feed_OkE:
  assumes "register_feed T origin key u p s = (Inr (), t)"
  obtains who feed es where "origin = Signed who" and "status feed = Registered"
    and "url feed = u" and "path feed = p"
    and "t = s\<lparr>api_feeds := (api_feeds s)((who, key) \<mapsto> feed), events := es\<rparr>"
proof (cases origin)
  case (Signed who)
  let ?feed = "\<lparr>started_at = block_number s, url = u, path = p, status = Registered\<rparr>"
  show ?thesis
    using assms by (intro that [of who ?feed]) (auto simp: Signed register_feed_signed)
qed (use assms registry_unsigned(1) [of origin T key u p s] in simp_all)

lemma unregister_feed_OkE:
  assumes "unregister_feed T origin key s = (Inr (), t)"
  obtains who es where "origin = Signed who"
    and "t = s\<lparr>api_feeds := (api_feeds s)((who, key) := None), events := es\<rparr>"
  using assms registry_unsigned(2) [of origin T key s]
  by (cases origin) (auto simp: unregister_feed_signed split: option.splits)

lemma claim_name_OkE:
  assumes "claim_name T origin name s = (Inr (), t)"
  obtains who where "origin = Signed who" "submitter_by_names s name = None"
    "t = s\<lparr>submitter_by_names := (submitter_by_names s)(name \<mapsto> who),
           events := events s @ [anchor_event T (NameClaimed who name)]\<rparr>"
proof (cases "\<exists>who. origin = Signed who")
  case True
  then show ?thesis using assms that by (auto simp: claim_name_signed split: if_splits)
next
  case False
  then have "claim_name T origin name s = (Inl (Err BadOrigin), s)" by (intro claim_name_unsigned) blast
  with assms show ?thesis by simp
qed

lemma request_OkE:
  assumes "oracle_request T origin feed_key n s = (Inr u, t)"
  obtains who feed pos t' where "origin = Signed who" and "api_feeds s (who, feed_key) = Some feed"
    and "status_is_active (status feed)"
    and "length (request_message T (block_number s) feed) \<le> value_bytes_bound"
    and "iter_keys T (submitter_by_names s) \<noteq> []"
    and "push_message T (last (iter_keys T (submitter_by_names s)))
           (request_message T (block_number s) feed)
           (s\<lparr>feed_requests := (feed_requests s)(fresh_request_id T (block_number s) \<mapsto>
                recorded_request T who feed_key n (block_number s) feed)\<rparr>) = (Inr pos, t')"
    and "t = t'\<lparr>events := events t' @
           [oracle_event T (OracleRequest who (fresh_request_id T (block_number s)) feed_key)]\<rparr>"
proof (cases "\<exists>who. origin = Signed who")
  case True
  then obtain who where o: "origin = Signed who" by blast
  show ?thesis
    using assms that [OF o]
    by (auto simp: o request_signed split: if_splits option.splits prod.splits sum.splits fault.splits)
next
  case False
  then have "oracle_request T origin feed_key n s = (Inl (Err BadOrigin), s)"
    by (intro oracle_unsigned) blast
  with assms show ?thesis by simp
qed

section \<open>The queue's operations write the store only\<close>

definition only_states :: "('ev, 'acc, 'm) anchor_state_scheme \<Rightarrow> ('ev, 'acc, 'm) anchor_state_scheme \<Rightarrow> bool" where
  "only_states s t \<longleftrightarrow> (\<exists>kv. t = s\<lparr>states := kv\<rparr>)"

interpretation states_frame: call_frame only_states
proof unfold_locales
  fix s :: "('ev, 'acc, 'm) anchor_state_scheme"
  show "only_states s s"
    unfolding only_states_def by (rule exI [of _ "states s"]) simp
qed (auto simp: only_states_def)

lemma states_frame_key: "within only_states (queue_key T i)"
  by (rule queue_key_within) unfold_locales

lemma queue_get_u32_states: "within only_states (queue_get_u32 T name i)"
  unfolding queue_get_u32_def queue_get_def
  by (auto intro!: states_frame.within_seq states_frame.within_gets states_frame.within_ret
      states_frame_key split: option.split)

lemma queue_reads_states:
  "within only_states (queue_head T name)"
  "within only_states (queue_tail T name)"
  "within only_states (queue_len T name)"
  unfolding queue_len_def queue_head_def queue_tail_def
  by (intro states_frame.within_seq queue_get_u32_states states_frame.within_expect
      states_frame.within_ret)+

lemma queue_writes_states:
  "within only_states (queue_set T name i data)"
  "within only_states (queue_remove T name i)"
  "within only_states (queue_set_u32 T name i v)"
  unfolding queue_set_u32_def queue_set_def queue_remove_def
  by (intro states_frame.within_seq states_frame_key states_frame.within_modify
      states_frame.within_expect; auto simp: only_states_def)+

lemma queue_head_set_states: "within only_states (queue_head_set T name i)"
  unfolding queue_head_set_def
  by (intro states_frame.within_seq states_frame.within_ensure states_frame.within_for_each
      queue_reads_states queue_writes_states)

lemma push_message_states: "within only_states (push_message T name data)"
  unfolding push_message_def queue_tail_set_def
  by (intro states_frame.within_seq states_frame.within_ensure states_frame.within_gets
      states_frame.within_ret queue_reads_states queue_writes_states)

text \<open>A request writes the store, the request log and the events, and nothing else.\<close>

lemma request_shape:
  assumes "oracle_request T origin feed_key n s = (Inr u, t)"
  obtains kv reqs es where "t = s\<lparr>feed_requests := reqs, states := kv, events := es\<rparr>"
  using assms
proof (rule request_OkE)
  fix who feed pos t'
  let ?reqs = "(feed_requests s)(fresh_request_id T (block_number s) \<mapsto>
      recorded_request T who feed_key n (block_number s) feed)"
  assume "push_message T (last (iter_keys T (submitter_by_names s)))
      (request_message T (block_number s) feed) (s\<lparr>feed_requests := ?reqs\<rparr>) = (Inr pos, t')"
    and t: "t = t'\<lparr>events := events t' @
      [oracle_event T (OracleRequest who (fresh_request_id T (block_number s)) feed_key)]\<rparr>"
  then have "only_states (s\<lparr>feed_requests := ?reqs\<rparr>) t'"
    using withinD [OF push_message_states] by blast
  then obtain kv where "t' = s\<lparr>feed_requests := ?reqs\<rparr>\<lparr>states := kv\<rparr>"
    unfolding only_states_def ..
  with t show thesis by (intro that [of _ kv ?reqs]) simp
qed

lemma request_effect:
  assumes "oracle_request T (Signed who) k n s = (Inr u, t)"
  shows "block_number t = block_number s
    \<and> (\<exists>feed. feed_requests t = (feed_requests s)(fresh_request_id T (block_number s)
          \<mapsto> recorded_request T who k n (block_number s) feed))"
  using assms
proof (rule request_OkE)
  fix who' feed pos t'
  let ?s = "s\<lparr>feed_requests := (feed_requests s)(fresh_request_id T (block_number s)
      \<mapsto> recorded_request T who' k n (block_number s) feed)\<rparr>"
  assume push: "push_message T (last (iter_keys T (submitter_by_names s)))
      (request_message T (block_number s) feed) ?s = (Inr pos, t')"
    and t: "t = t'\<lparr>events := events t' @ [oracle_event T
      (OracleRequest who' (fresh_request_id T (block_number s)) k)]\<rparr>"
    and who: "Signed who = Signed who'"
  from withinD [OF push_message_states push] obtain kv where "t' = ?s\<lparr>states := kv\<rparr>"
    unfolding only_states_def ..
  with t who show ?thesis by auto
qed

lemma request_data:
  assumes "oracle_request T origin k n s = (Inr u, t)"
  shows "feed_data t = feed_data s"
  using assms by (rule request_shape) simp

section \<open>Names and stores\<close>

lemma paraxiom_call_owners:
  assumes "dispatch (paraxiom a b c) origin call s = (r, t)"
  shows "owners_kept s t"
  using assms
proof (cases rule: dispatch_cases)
  case (register key u p)
  then show ?thesis
    by (elim register_feed_OkE) (auto simp: owners_kept_def)
next
  case (unregister key)
  then show ?thesis
    by (elim unregister_feed_OkE) (auto simp: owners_kept_def)
next
  case (claim name)
  then show ?thesis by (intro withinD [OF claim_name_within])
next
  case (rollup name tx n)
  then show ?thesis by (intro withinD [OF chain_anchor.rollup_owners])
next
  case (request key n)
  then show ?thesis
    by (elim request_shape) (simp add: owners_kept_def)
qed (simp_all add: owners_kept_def)

lemma paraxiom_step_owners: "chain_step (paraxiom a b c) s t \<Longrightarrow> owners_kept s t"
  by (erule chain_stepE) (auto simp: next_block_def owners_kept_def dest: paraxiom_call_owners)

text \<open>Which call can have changed a value of the store.\<close>

definition queue_slot :: "('ev, 'acc, 's, 'x) anchor_config_scheme \<Rightarrow> KeyBytes \<Rightarrow> bool" where
  "queue_slot T key \<longleftrightarrow> key = store_key T tail_field \<or> (\<exists>i. key = store_key T (Index i))"

interpretation slot_frame: call_frame
    "\<lambda>s t. \<forall>m key. \<not> queue_slot T key \<longrightarrow> states t (m, key) = states s (m, key)" for T
  by unfold_locales simp_all

lemma anchor_kept_slots:
  "within anchor_kept m \<Longrightarrow>
   within (\<lambda>s t. \<forall>m key. \<not> queue_slot T key \<longrightarrow> states t (m, key) = states s (m, key)) m"
  by (erule within_mono) (simp add: anchor_kept_def)

lemma push_message_slots:
  assumes "anchor_config_ok T"
  shows "within (\<lambda>s t. \<forall>m key. \<not> queue_slot T key \<longrightarrow> states t (m, key) = states s (m, key))
           (push_message T name data)"
proof -
  have set: "within (\<lambda>s t. \<forall>m key. \<not> queue_slot T key \<longrightarrow> states t (m, key) = states s (m, key))
      (queue_set T name i d)" if "i = tail_field \<or> (\<exists>n. i = Index n)" for i d
    using that assms
    by (auto simp: queue_set_run within_def modify_def queue_slot_def)
  show ?thesis
    unfolding push_message_def queue_tail_set_def queue_set_u32_def
    by (intro slot_frame.within_seq slot_frame.within_ensure slot_frame.within_gets
        slot_frame.within_ret slot_frame.within_expect anchor_kept_slots queue_reads_within set) auto
qed

lemma paraxiom_store_change:
  assumes "dispatch (paraxiom a b c) origin call s = (r, t)"
    and "states t (name, key) \<noteq> states s (name, key)"
  shows "(\<exists>tx n who. call = Rollup name tx n \<and> origin = Signed who \<and> submitter_by_names s name = Some who)
       \<or> (\<exists>k n. call = RequestFeed k n) \<and> queue_slot (paraxiom a b c) key"
  using assms(1)
proof (cases rule: dispatch_cases)
  case (register k u p)
  with assms(2) show ?thesis by (elim register_feed_OkE) simp
next
  case (unregister k)
  with assms(2) show ?thesis
    by (elim unregister_feed_OkE) simp
next
  case (claim m)
  with assms(2) show ?thesis by (elim claim_name_OkE) simp
next
  case (rollup m tx n)
  have "only_store_of m s t"
    using withinD [OF chain_anchor.rollup_within rollup(2)] .
  with assms(2) have "m = name" by (auto simp: only_store_of_def)
  with rollup show ?thesis by (auto elim: rollup_OkE)
next
  case (request k n)
  from request(2) show ?thesis
  proof (rule request_OkE)
    fix who feed pos t'
    assume "push_message (paraxiom a b c) (last (iter_keys (paraxiom a b c) (submitter_by_names s)))
          (request_message (paraxiom a b c) (block_number s) feed)
          (s\<lparr>feed_requests := (feed_requests s)(fresh_request_id (paraxiom a b c) (block_number s) \<mapsto>
               recorded_request (paraxiom a b c) who k n (block_number s) feed)\<rparr>) = (Inr pos, t')"
      and "t = t'\<lparr>events := events t' @
           [oracle_event (paraxiom a b c) (OracleRequest who (fresh_request_id (paraxiom a b c) (block_number s)) k)]\<rparr>"
    with withinD [OF push_message_slots [OF paraxiom_config_ok]] assms(2)
    have "queue_slot (paraxiom a b c) key" by fastforce
    with request(1) show ?thesis by blast
  qed
qed (use assms(2) in simp_all)

section \<open>An oracle nobody can reach\<close>

text \<open>
  No feed is active, so no request was ever recorded and no response accepted. The
  predicate speaks of the registry's and the oracle's storage only.
\<close>

definition idle_oracle :: "('ev, 'acc, 'm) oracle_state_scheme \<Rightarrow> bool" where
  "idle_oracle s \<longleftrightarrow> no_active_feed s \<and> feed_requests s = Map.empty \<and> feed_data s = Map.empty
     \<and> price_feeds s = Map.empty \<and> averages s = Map.empty"

lemma idle_ignores [simp]:
  "idle_oracle (s\<lparr>states := kv\<rparr>) = idle_oracle s"
  "idle_oracle (s\<lparr>events := es\<rparr>) = idle_oracle s"
  "idle_oracle (s\<lparr>submitter_by_names := sub\<rparr>) = idle_oracle s"
  "idle_oracle (s\<lparr>block_number := n\<rparr>) = idle_oracle s"
  by (simp_all add: idle_oracle_def no_active_feed_def)

lemma idle_genesis: "idle_oracle genesis"
  by (simp add: idle_oracle_def no_active_feed_def genesis_def)

lemma idle_request:
  assumes "idle_oracle s"
  shows "\<exists>e. oracle_request T origin key n s = (Inl (Err e), s)
      \<and> e \<in> {BadOrigin, Oracle FailedToGetApiFeed, Oracle ApiFeedNotActive}"
proof (cases origin)
  case (Signed who)
  with assms show ?thesis
    by (auto simp: request_signed idle_oracle_def no_active_feed_def split: option.split)
qed (simp_all add: oracle_unsigned)

lemma idle_response:
  "idle_oracle s \<Longrightarrow> \<exists>e. oracle_on_response T name who data s = (Inl (Err (Oracle e)), s)"
  by (simp add: oracle_response_run idle_oracle_def split: option.split)

text \<open>What a rollup keeps: it writes the store and the events and calls the response handler.\<close>

lemma rollup_preserves:
  assumes kv: "\<And>s kv. P s \<Longrightarrow> P (s\<lparr>states := kv\<rparr>)" and es: "\<And>s es. P s \<Longrightarrow> P (s\<lparr>events := es\<rparr>)"
    and response: "\<And>s name who data. P s \<Longrightarrow> P (snd (oracle_on_response (paraxiom a b c) name who data s))"
  shows "within (\<lambda>s t. P s \<longrightarrow> P t) (rollup (paraxiom a b c) origin name tx n)"
proof -
  have head: "within (\<lambda>s t. P s \<longrightarrow> P t) (queue_head_set (paraxiom a b c) name i)" for i
    by (rule within_mono [OF queue_head_set_states]) (auto simp: only_states_def kv)
  have resp: "within (\<lambda>s t. P s \<longrightarrow> P t) (on_response (paraxiom a b c) name who data)" for who data
    unfolding within_def paraxiom_on_response using response by blast
  have upd: "within (\<lambda>s t. P s \<longrightarrow> P t) (apply_update name u)" for u
    by (cases u) (simp add: within_def apply_update_run kv)
  have act: "within (\<lambda>s t. P s \<longrightarrow> P t) (exec_action (paraxiom a b c) name who raw)" for who raw
    unfolding exec_action_def
    by (auto intro!: kept.within_seq kept.within_ok_or head resp split: action.split)
  have cond: "within (\<lambda>s t. P s \<longrightarrow> P t) (check_cond name x)" for x
    by (simp add: within_def check_cond_run)
  have own: "within (\<lambda>s t. P s \<longrightarrow> P t) (ensure_name_owner name who)" for who
    unfolding ensure_name_owner_def
    by (intro kept.within_seq kept.within_gets kept.within_ok_or kept.within_ensure)
  have dep: "within (\<lambda>s t. P s \<longrightarrow> P t) (deposit_event ev)" for ev
    by (simp add: within_def deposit_event_def modify_def es)
  show ?thesis
    unfolding rollup_def
    by (intro kept.within_transactional kept.within_seq kept.within_for_each
        kept.within_ensure_signed upd act cond own dep)
qed

lemma idle_rollup:
  "within (\<lambda>s t. idle_oracle s \<longrightarrow> idle_oracle t) (rollup (paraxiom a b c) origin name tx n)"
  by (rule rollup_preserves) (simp_all, metis idle_response snd_conv)

text \<open>A call does not change the number of the block it runs in.\<close>

lemma dispatch_block:
  assumes "dispatch (paraxiom a b c) origin call s = (r, t)"
  shows "block_number t = block_number s"
  using assms
proof (cases rule: dispatch_cases)
  case (rollup name tx n)
  have "within (\<lambda>s' t. block_number s' = block_number s \<longrightarrow> block_number t = block_number s)
      (rollup (paraxiom a b c) origin name tx n)"
    by (rule rollup_preserves) (auto simp: oracle_response_run split: option.split prod.split)
  from withinD [OF this rollup(2)] show ?thesis by simp
next
  case (request key n)
  from request(2) show ?thesis by (rule request_shape) simp
qed (auto elim: register_feed_OkE unregister_feed_OkE claim_name_OkE)

lemma idle_registry:
  "register_feed T origin key u p s = (Inr (), t) \<Longrightarrow> idle_oracle s \<Longrightarrow> idle_oracle t"
  "unregister_feed T origin key s = (Inr (), t) \<Longrightarrow> idle_oracle s \<Longrightarrow> idle_oracle t"
  by (elim register_feed_OkE unregister_feed_OkE;
      auto simp: idle_oracle_def no_active_feed_def status_is_active_def split: if_splits)+

lemma idle_step: "chain_step (paraxiom a b c) s t \<Longrightarrow> idle_oracle s \<Longrightarrow> idle_oracle t"
proof (erule chain_stepE)
  assume "idle_oracle s" and "t = next_block s"
  then show "idle_oracle t" by (simp add: next_block_def)
next
  fix call origin r
  assume idle: "idle_oracle s" and "dispatch (paraxiom a b c) origin call s = (r, t)"
  from this(2) show "idle_oracle t"
  proof (cases rule: dispatch_cases)
    case (claim name)
    then show ?thesis using idle by (elim claim_name_OkE) simp
  next
    case (rollup name tx n)
    then show ?thesis using withinD [OF idle_rollup rollup(2)] idle by simp
  next
    case (request key n)
    then show ?thesis using idle_request [OF idle, of "paraxiom a b c" origin key n] by auto
  qed (use idle in \<open>auto dest: idle_registry\<close>)
qed

section \<open>Bounds of the store\<close>

text \<open>Every key and value of the store is within its type's bound.\<close>

definition store_bounded :: "('ev, 'acc, 'm) anchor_state_scheme \<Rightarrow> bool" where
  "store_bounded s \<longleftrightarrow> (\<forall>name key v. states s (name, key) = Some v \<longrightarrow>
     length key \<le> key_bytes_bound \<and> length v \<le> value_bytes_bound)"

lemma store_bounded_ignores [simp]:
  "store_bounded (s\<lparr>events := es\<rparr>) = store_bounded s"
  "store_bounded (s\<lparr>submitter_by_names := sub\<rparr>) = store_bounded s"
  "store_bounded (s\<lparr>block_number := n\<rparr>) = store_bounded s"
  "store_bounded (s\<lparr>api_feeds := af\<rparr>) = store_bounded s"
  "store_bounded (s'\<lparr>feed_requests := fr\<rparr>) = store_bounded s'"
  "store_bounded (s'\<lparr>feed_data := fd\<rparr>) = store_bounded s'"
  by (simp_all add: store_bounded_def)

lemma store_bounded_genesis: "store_bounded genesis"
  by (simp add: store_bounded_def genesis_def)

lemma store_bounded_kept: "anchor_kept s t \<Longrightarrow> store_bounded s \<longrightarrow> store_bounded t"
  by (simp add: anchor_kept_def store_bounded_def)

lemma queue_writes_bounded:
  "length data \<le> value_bytes_bound \<Longrightarrow>
   within (\<lambda>s t. store_bounded s \<longrightarrow> store_bounded t) (queue_set T name i data)"
  "within (\<lambda>s t. store_bounded s \<longrightarrow> store_bounded t) (queue_remove T name i)"
  unfolding within_def queue_set_def queue_remove_def queue_key_def
  by (auto simp: store_bounded_def try_bounded_def expect_def seq_def modify_def)

lemma queue_set_u32_bounded:
  "within (\<lambda>s t. store_bounded s \<longrightarrow> store_bounded t) (queue_set_u32 T name i v)"
  using queue_writes_bounded(1) [of "enc (u32_codec T) v" T name i]
  by (auto simp: within_def queue_set_u32_def try_bounded_def expect_def seq_def)

lemmas kept_rules = kept.within_seq kept.within_ensure kept.within_gets kept.within_ret
  kept.within_for_each kept.within_expect kept.within_ok_or kept.within_transactional
  kept.within_ensure_signed

lemma queue_head_set_bounded:
  "within (\<lambda>s t. store_bounded s \<longrightarrow> store_bounded t) (queue_head_set T name i)"
  unfolding queue_head_set_def
  by (intro kept_rules within_mono [OF queue_reads_within(3) store_bounded_kept]
      within_mono [OF queue_reads_within(4) store_bounded_kept]
      queue_writes_bounded(2) queue_set_u32_bounded)

lemma push_message_bounded:
  "length data \<le> value_bytes_bound \<Longrightarrow>
   within (\<lambda>s t. store_bounded s \<longrightarrow> store_bounded t) (push_message T name data)"
  unfolding push_message_def queue_tail_set_def
  by (intro kept_rules within_mono [OF queue_reads_within(4) store_bounded_kept]
      within_mono [OF queue_reads_within(5) store_bounded_kept]
      queue_writes_bounded(1) queue_set_u32_bounded)

lemma rollup_bounded:
  assumes "list_all update_bounded (updates tx)"
  shows "within (\<lambda>s t. store_bounded s \<longrightarrow> store_bounded t) (rollup (paraxiom a b c) origin name tx n)"
proof -
  have upd: "within (\<lambda>s t. store_bounded s \<longrightarrow> store_bounded t) (apply_update name u)"
    if "u \<in> set (updates tx)" for u
  proof -
    have "update_bounded u" using assms that by (simp add: list_all_iff)
    then show ?thesis
      by (cases u) (auto simp: within_def apply_update_run store_bounded_def update_bounded_def split: option.splits)
  qed
  have act: "within (\<lambda>s t. store_bounded s \<longrightarrow> store_bounded t) (exec_action (paraxiom a b c) name who raw)"
    for who raw
    unfolding exec_action_def
    by (auto intro!: kept_rules queue_head_set_bounded
        within_mono [OF chain_anchor.handler_within store_bounded_kept] split: action.split)
  show ?thesis
    unfolding rollup_def
    by (intro kept_rules upd act within_mono [OF check_cond_within store_bounded_kept]
        within_mono [OF ensure_name_owner_within store_bounded_kept]
        within_mono [OF within_deposit_event_anchor store_bounded_kept])
qed

lemma store_bounded_step:
  "chain_step (paraxiom a b c) s t \<Longrightarrow> store_bounded s \<Longrightarrow> store_bounded t"
proof (erule chain_stepE)
  assume "store_bounded s" and "t = next_block s"
  then show "store_bounded t" by (simp add: next_block_def)
next
  fix call origin r
  assume bounded: "store_bounded s" and call: "call_bounded (paraxiom a b c) call"
    and "dispatch (paraxiom a b c) origin call s = (r, t)"
  from this(3) show "store_bounded t"
  proof (cases rule: dispatch_cases)
    case (register key u p)
    then show ?thesis using bounded by (elim register_feed_OkE) simp
  next
    case (unregister key)
    then show ?thesis using bounded by (elim unregister_feed_OkE) simp
  next
    case (claim name)
    then show ?thesis using bounded by (elim claim_name_OkE) simp
  next
    case (rollup name tx n)
    then have "list_all update_bounded (updates tx)" using call by (simp add: call_bounded_def)
    from withinD [OF rollup_bounded [OF this] rollup(2)] bounded show ?thesis by simp
  next
    case (request key n)
    from request(2) show ?thesis
    proof (rule request_OkE)
      fix who feed pos t'
      assume len: "length (request_message (paraxiom a b c) (block_number s) feed) \<le> value_bytes_bound"
        and push: "push_message (paraxiom a b c) (last (iter_keys (paraxiom a b c) (submitter_by_names s)))
          (request_message (paraxiom a b c) (block_number s) feed)
          (s\<lparr>feed_requests := (feed_requests s)(fresh_request_id (paraxiom a b c) (block_number s) \<mapsto>
               recorded_request (paraxiom a b c) who key n (block_number s) feed)\<rparr>) = (Inr pos, t')"
        and t: "t = t'\<lparr>events := events t' @
          [oracle_event (paraxiom a b c) (OracleRequest who (fresh_request_id (paraxiom a b c) (block_number s)) key)]\<rparr>"
      from withinD [OF push_message_bounded [OF len] push] bounded t show ?thesis by simp
    qed
  qed (use bounded in simp_all)
qed

section \<open>Keys outside the queue\<close>

text \<open>The queue's operations write under the queue's prefix only.\<close>

definition in_queue_space :: "('ev, 'acc, 's, 'x) anchor_config_scheme \<Rightarrow> KeyBytes \<Rightarrow> bool" where
  "in_queue_space T key \<longleftrightarrow> take (length (queue_prefix T)) key = queue_prefix T"

definition outside_kept ::
    "('ev, 'acc, 's, 'x) anchor_config_scheme \<Rightarrow> ('ev, 'acc, 'm) anchor_state_scheme \<Rightarrow>
     ('ev, 'acc, 'm) anchor_state_scheme \<Rightarrow> bool" where
  "outside_kept T s t \<longleftrightarrow>
     (\<forall>name key. \<not> in_queue_space T key \<longrightarrow> states t (name, key) = states s (name, key))"

interpretation outside_frame: call_frame "outside_kept T" for T
  by unfold_locales (simp_all add: outside_kept_def)

lemma anchor_kept_outside: "anchor_kept s t \<Longrightarrow> outside_kept T s t"
  by (simp add: anchor_kept_def outside_kept_def)

lemma queue_key_space: "queue_key T i s = (Inr key, t) \<Longrightarrow> t = s \<and> in_queue_space T key"
  by (auto simp: queue_key_def call_ok try_bounded_Some in_queue_space_def)

lemma queue_writes_outside:
  "within (outside_kept T) (queue_set T name i data)"
  "within (outside_kept T) (queue_remove T name i)"
  unfolding within_def queue_set_def queue_remove_def
  by (auto simp: seq_def modify_def outside_kept_def queue_key_def expect_def try_bounded_def
      in_queue_space_def split: option.split)

lemma queue_head_set_outside: "within (outside_kept T) (queue_head_set T name i)"
  unfolding queue_head_set_def queue_set_u32_def
  by (intro outside_frame.within_seq outside_frame.within_ensure outside_frame.within_for_each
      outside_frame.within_expect within_mono [OF queue_reads_within(3) anchor_kept_outside]
      within_mono [OF queue_reads_within(4) anchor_kept_outside] queue_writes_outside)

lemma actions_outside:
  "within (outside_kept (paraxiom a b c)) (for_each raws (exec_action (paraxiom a b c) name who))"
  unfolding exec_action_def
  by (auto intro!: outside_frame.within_for_each outside_frame.within_seq outside_frame.within_ok_or
      queue_head_set_outside within_mono [OF chain_anchor.handler_within anchor_kept_outside]
      split: action.split)

lemma write_updates_map_of:
  "write_updates name us kv (name, key) =
     (case map_of (rev us) key of None \<Rightarrow> kv (name, key) | Some v \<Rightarrow> v)"
proof (induction us arbitrary: kv)
  case (Cons u us)
  then show ?case
    by (cases u) (auto simp: map_add_def split: option.split)
qed simp

lemma rollup_writes:
  assumes "rollup (paraxiom a b c) origin name tx n s = (Inr (), t)"
    and "\<not> in_queue_space (paraxiom a b c) key"
  shows "states t (name, key) =
    (case map_of (rev (updates tx)) key of None \<Rightarrow> states s (name, key) | Some v \<Rightarrow> v)"
  using assms(1)
proof (rule rollup_OkE)
  fix who t'
  assume "for_each (actions tx) (exec_action (paraxiom a b c) name who)
      (s\<lparr>states := write_updates name (updates tx) (states s)\<rparr>) = (Inr (), t')"
    and "t = t'\<lparr>events := events t' @ [anchor_event (paraxiom a b c) (RollupExecuted who name n)]\<rparr>"
  with withinD [OF actions_outside] assms(2) show ?thesis
    by (fastforce simp: outside_kept_def write_updates_map_of)
qed

section \<open>Who changes a feed\<close>

lemma feed_change:
  assumes "dispatch (paraxiom a b c) origin call s = (r, t)"
    and "api_feeds t (who, key) \<noteq> api_feeds s (who, key)"
  shows "origin = Signed who \<and> (call = UnregisterFeed key \<or> (\<exists>u p. call = RegisterFeed key u p))"
  using assms(1)
proof (cases rule: dispatch_cases)
  case (register k u p)
  with assms(2) show ?thesis by (elim register_feed_OkE) (auto split: if_splits)
next
  case (unregister k)
  with assms(2) show ?thesis by (elim unregister_feed_OkE) (auto split: if_splits)
next
  case (claim name)
  with assms(2) show ?thesis by (elim claim_name_OkE) simp
next
  case (rollup name tx n)
  have "within (\<lambda>s t. api_feeds s = f \<longrightarrow> api_feeds t = f) (rollup (paraxiom a b c) origin name tx n)" for f
  proof -
    have head: "within (\<lambda>s t. api_feeds s = f \<longrightarrow> api_feeds t = f) (queue_head_set (paraxiom a b c) name i)" for i
      by (rule within_mono [OF queue_head_set_states]) (auto simp: only_states_def)
    have resp: "within (\<lambda>s t. api_feeds s = f \<longrightarrow> api_feeds t = f)
        (on_response (paraxiom a b c) name who data)" for who data
      unfolding within_def paraxiom_on_response by (simp add: oracle_response_run split: option.split)
    have "within (\<lambda>s t. api_feeds s = f \<longrightarrow> api_feeds t = f) (exec_action (paraxiom a b c) name who raw)" for who raw
      unfolding exec_action_def
      by (auto intro!: kept_rules head resp split: action.split)
    moreover have "within (\<lambda>s t. api_feeds s = f \<longrightarrow> api_feeds t = f) (apply_update name u)" for u
      by (cases u) (simp add: within_def apply_update_run)
    ultimately show ?thesis
      unfolding rollup_def ensure_name_owner_def deposit_event_def
      by (intro kept_rules kept.within_modify) (simp_all add: within_def check_cond_run)
  qed
  from withinD [OF this rollup(2)] assms(2) show ?thesis by simp
next
  case (request k n)
  with assms(2) show ?thesis by (elim request_shape) simp
qed (use assms(2) in simp_all)

section \<open>Sizes on the wire\<close>

lemma length_enc_compact_cases:
  "length (enc_compact n) = (if n < 64 then 1 else if n < 16384 then 2 else if n < 1073741824 then 4 else 5)"
  by (simp add: enc_compact_def)

lemma length_enc_response:
  "length (enc response_scale r) =
     104 + length (enc_compact (length (response_data r))) + length (response_data r)"
  by (simp add: response_scale_def via_codec_def pair_codec_def response_tuple_def vec_scale_def
      enc_vec_def h256_scale_def u64_scale_def word_codec_def)

lemma length_enc_message:
  "length (enc message_scale (i, u, p)) =
     32 + (length (enc_compact (length u)) + length u) + (length (enc_compact (length p)) + length p)"
  by (simp add: message_scale_def pair_codec_def vec_scale_def enc_vec_def h256_scale_def word_codec_def)

lemma length_enc_reply:
  "length (enc action_scale (Reply d)) = 1 + length (enc_compact (length d)) + length d"
  by (simp add: action_scale_def enc_action_def vec_scale_def enc_vec_def)

lemma length_request_message:
  assumes "feed_bounded (paraxiom a b c) k (url feed) (path feed)"
  shows "length (request_message (paraxiom a b c) now feed) \<le> 804"
  using assms
  by (simp add: request_message_def length_enc_message length_enc_compact_cases feed_bounded_def)

section \<open>A request that succeeds\<close>

lemma queue_ignores_requests [simp]:
  "queue_inv T name (s\<lparr>feed_requests := fr\<rparr>) = queue_inv T name s"
  "queue_abs T name (s\<lparr>feed_requests := fr\<rparr>) = queue_abs T name s"
  "tail_pos T name (s\<lparr>feed_requests := fr\<rparr>) = tail_pos T name s"
  by (simp_all add: queue_inv_def queue_abs_def tail_pos_def head_pos_def stored_u32_def)

lemma request_success:
  assumes "queue_ready (paraxiom a b c) name submitter s"
    and "last (c (submitter_by_names s)) = name" and "c (submitter_by_names s) \<noteq> []"
    and "api_feeds s (who, k) = Some feed" and "status_is_active (status feed)"
    and "feed_bounded (paraxiom a b c) k (url feed) (path feed)"
    and "length (queue_abs (paraxiom a b c) name s) < 128"
    and "tail_pos (paraxiom a b c) name s \<noteq> - 1"
  shows "\<exists>t. oracle_request (paraxiom a b c) (Signed who) k n s = (Inr (), t)
    \<and> queue_abs (paraxiom a b c) name t = queue_abs (paraxiom a b c) name s
        @ [request_message (paraxiom a b c) (block_number s) feed]
    \<and> tail_pos (paraxiom a b c) name t = tail_pos (paraxiom a b c) name s + 1
    \<and> queue_ready (paraxiom a b c) name submitter t \<and> api_feeds t = api_feeds s"
proof -
  let ?T = "paraxiom a b c"
  let ?msg = "request_message ?T (block_number s) feed"
  let ?s = "s\<lparr>feed_requests := (feed_requests s)(fresh_request_id ?T (block_number s)
      \<mapsto> recorded_request ?T who k n (block_number s) feed)\<rparr>"
  have inv: "queue_inv ?T name ?s" and sub: "submitter_by_names ?s name = Some submitter"
    using assms(1) by (simp_all add: queue_ready_def)
  have tail: "tail_pos ?T name ?s \<noteq> - 1" using assms(8) by simp
  have push: "push_message ?T name ?msg ?s = (Inr (tail_pos ?T name s), after_push ?T name ?msg ?s)"
    using sub assms(7) by (simp add: push_message_run [OF paraxiom_config_ok inv])
  have "\<not> value_bytes_bound < length ?msg"
    using length_request_message [OF assms(6), of "block_number s"] by (simp add: value_bytes_bound_def)
  then have "oracle_request ?T (Signed who) k n s =
      (Inr (), (after_push ?T name ?msg ?s)\<lparr>events := events (after_push ?T name ?msg ?s) @
         [OracleEvent (OracleRequest who (fresh_request_id ?T (block_number s)) k)]\<rparr>)"
    using assms(2-5) push by (simp add: request_signed)
  moreover have "api_feeds (after_push ?T name ?msg ?s) = api_feeds s"
    by (simp add: after_push_def)
  ultimately show ?thesis
    using after_push_inv [OF paraxiom_config_ok inv tail, of ?msg] sub
    by (simp add: after_push_positions queue_ready_def)
qed

section \<open>A response that is delivered\<close>

lemma reply_delivered:
  assumes "submitter_by_names s name = Some who"
    and "phat_contract_id resp = name" and "feed_requests s (request_id resp) = Some req"
    and "length (response_data resp) \<le> value_bytes_bound"
    and "length (enc response_scale resp) \<le> action_bytes_bound"
  shows "\<exists>t. rollup (paraxiom a b c) (Signed who) name
      \<lparr>conds = [], actions = [enc action_scale (Reply (enc response_scale resp))], updates = []\<rparr> n s = (Inr (), t)
    \<and> feed_data t = (feed_data s)((who, req) \<mapsto> response_data resp)
    \<and> feed_requests t = feed_requests s \<and> submitter_by_names t = submitter_by_names s"
proof -
  have "dec action_scale (enc action_scale (Reply (enc response_scale resp)))
      = Some (Reply (enc response_scale resp), [])"
    using assms(5) by (intro action_wire.dec_enc_Nil) simp
  moreover have "dec response_scale (enc response_scale resp) = Some (resp, [])"
    using assms(4) by (rule response_wire.dec_enc_Nil)
  ultimately show ?thesis
    using assms(1-3)
    by (simp add: rollup_signed seq_def exec_action_def ok_or_def paraxiom_on_response oracle_response_run ret_def)
qed

end
