(* ===== verification/Chain_Run.thy ===== *)
theory Chain_Run
  imports Chain
begin

text \<open>
  Runs of the chain: a list of items, each a new block or a call with its origin, executed
  in order. The lemmas say what a run leaves alone: \<open>run_items_invariant\<close> is the induction
  over the items, \<open>run_items_key\<close> and \<open>run_items_outside\<close> apply it to one key of a store, and
  \<open>push_poisoned_run\<close> to a queue whose head does not decode. At the end, what a rollup does on
  a queue whose head lies behind its tail.
\<close>

section \<open>Runs\<close>

datatype chain_item = NewBlock | Extrinsic "AccountId origin" call_of_chain

fun run_items :: "chain_config \<Rightarrow> chain_item list \<Rightarrow> chain_state \<Rightarrow> bool list \<times> chain_state" where
  "run_items T [] s = ([], s)"
| "run_items T (NewBlock # items) s =
     (case run_items T items (next_block s) of (oks, t) \<Rightarrow> (True # oks, t))"
| "run_items T (Extrinsic origin c # items) s =
     (case dispatch T origin c s of (r, s') \<Rightarrow>
        (case run_items T items s' of (oks, t) \<Rightarrow> ((\<not> isl r) # oks, t)))"

fun item_bounded :: "chain_config \<Rightarrow> chain_item \<Rightarrow> bool" where
  "item_bounded T NewBlock = True"
| "item_bounded T (Extrinsic origin c) = call_bounded T c"

lemma snd_run_items:
  "snd (run_items T (NewBlock # items) s) = snd (run_items T items (next_block s))"
  "snd (run_items T (Extrinsic origin c # items) s) = snd (run_items T items (snd (dispatch T origin c s)))"
  by (simp_all add: case_prod_unfold)

lemma run_items_append:
  "snd (run_items T (xs @ ys) s) = snd (run_items T ys (snd (run_items T xs s)))"
proof (induction xs arbitrary: s)
  case (Cons x xs)
  show ?case by (cases x) (simp_all only: append_Cons snd_run_items Cons.IH)
qed simp

lemma run_items_invariant:
  assumes "P s" and "list_all Q items"
    and block: "\<And>s. P s \<Longrightarrow> Q NewBlock \<Longrightarrow> P (next_block s)"
    and call: "\<And>s origin c r t. P s \<Longrightarrow> Q (Extrinsic origin c) \<Longrightarrow> dispatch T origin c s = (r, t) \<Longrightarrow> P t"
  shows "P (snd (run_items T items s))"
  using assms(1,2)
proof (induction items arbitrary: s)
  case (Cons it items)
  show ?case
  proof (cases it)
    case NewBlock
    have "P (next_block s)" by (rule block) (use Cons.prems NewBlock in simp_all)
    then show ?thesis
      unfolding NewBlock snd_run_items by (rule Cons.IH) (use Cons.prems in simp)
  next
    case (Extrinsic origin c)
    have "P (snd (dispatch T origin c s))"
      by (rule call [OF _ _ prod.collapse [symmetric]]) (use Cons.prems Extrinsic in simp_all)
    then show ?thesis
      unfolding Extrinsic snd_run_items by (rule Cons.IH) (use Cons.prems in simp)
  qed
qed simp

section \<open>What a run leaves alone\<close>

fun no_rollup_of :: "H256 \<Rightarrow> chain_item \<Rightarrow> bool" where
  "no_rollup_of name (Extrinsic origin (Rollup m tx n)) \<longleftrightarrow> m \<noteq> name"
| "no_rollup_of name it \<longleftrightarrow> True"

text \<open>No rollup of any name updates a key under the prefix.\<close>

fun spares_prefix :: "bytes \<Rightarrow> chain_item \<Rightarrow> bool" where
  "spares_prefix p (Extrinsic origin (Rollup m tx n)) \<longleftrightarrow>
     list_all (\<lambda>u. take (length p) (fst u) \<noteq> p) (updates tx)"
| "spares_prefix p it \<longleftrightarrow> True"

lemma next_block_sel [simp]:
  "states (next_block s) = states s" "submitter_by_names (next_block s) = submitter_by_names s"
  "feed_requests (next_block s) = feed_requests s" "feed_data (next_block s) = feed_data s"
  "api_feeds (next_block s) = api_feeds s"
  by (simp_all add: next_block_def)

lemma run_items_owner:
  assumes "submitter_by_names s name = Some who"
  shows "submitter_by_names (snd (run_items (paraxiom a b c) items s)) name = Some who"
proof (rule run_items_invariant [where P = "\<lambda>s. submitter_by_names s name = Some who" and Q = "\<lambda>_. True"])
  fix s t :: chain_state and origin call r
  assume "submitter_by_names s name = Some who" "dispatch (paraxiom a b c) origin call s = (r, t)"
  then show "submitter_by_names t name = Some who"
    using paraxiom_call_owners by (fastforce simp: owners_kept_def map_le_def dom_def)
qed (use assms in \<open>simp_all add: list.pred_True\<close>)

lemma run_items_key:
  assumes "list_all (no_rollup_of name) items" and "\<not> queue_slot (paraxiom a b c) key"
  shows "states (snd (run_items (paraxiom a b c) items s)) (name, key) = states s (name, key)"
proof (rule run_items_invariant [where P = "\<lambda>t. states t (name, key) = states s (name, key)"])
  show "list_all (no_rollup_of name) items" by fact
  fix u t :: chain_state and origin call r
  assume "states u (name, key) = states s (name, key)" and "no_rollup_of name (Extrinsic origin call)"
    and "dispatch (paraxiom a b c) origin call u = (r, t)"
  with paraxiom_store_change [OF this(3), of name key] assms(2)
  show "states t (name, key) = states s (name, key)" by (cases call) auto
qed simp_all

lemma queue_slot_space: "queue_slot T key \<Longrightarrow> in_queue_space T key"
  by (auto simp: queue_slot_def in_queue_space_def store_key_def)

lemma dispatch_rollup_outside:
  assumes "dispatch (paraxiom a b c) origin (Rollup m tx n) s = (r, t)"
    and "key \<notin> fst ` set (updates tx)" and "\<not> in_queue_space (paraxiom a b c) key"
  shows "states t (name, key) = states s (name, key)"
  using assms(1)
proof (cases rule: dispatch_cases)
  case (rollup m' tx' n')
  have "map_of (rev (updates tx)) key = None"
    using assms(2) by (auto simp: map_of_eq_None_iff)
  with rollup rollup_writes [OF rollup(2) assms(3)] withinD [OF chain_anchor.rollup_within rollup(2)]
  show ?thesis by (cases "m = name") (auto simp: only_store_of_def)
qed simp_all

lemma run_items_outside:
  assumes "list_all (spares_prefix p) items" and "take (length p) key = p"
    and "\<not> in_queue_space (paraxiom a b c) key"
  shows "states (snd (run_items (paraxiom a b c) items s)) (name, key) = states s (name, key)"
proof (rule run_items_invariant [where P = "\<lambda>t. states t (name, key) = states s (name, key)"])
  show "list_all (spares_prefix p) items" by fact
  fix u t :: chain_state and origin call r
  assume same: "states u (name, key) = states s (name, key)" and spares: "spares_prefix p (Extrinsic origin call)"
    and d: "dispatch (paraxiom a b c) origin call u = (r, t)"
  have "states t (name, key) = states u (name, key)"
  proof (cases "\<exists>m tx n. call = Rollup m tx n")
    case True
    then obtain m tx n where call: "call = Rollup m tx n" by blast
    with spares assms(2) have "key \<notin> fst ` set (updates tx)" by (auto simp: list_all_iff)
    from dispatch_rollup_outside [OF d [unfolded call] this assms(3)] show ?thesis .
  next
    case False
    with paraxiom_store_change [OF d, of name key] queue_slot_space assms(3) show ?thesis by blast
  qed
  with same show "states t (name, key) = states s (name, key)" by simp
qed simp_all

text \<open>Calls of one block.\<close>

lemma run_items_same_block:
  assumes "NewBlock \<notin> set items"
  shows "block_number (snd (run_items (paraxiom a b c) items s)) = block_number s"
proof (rule run_items_invariant [where P = "\<lambda>t. block_number t = block_number s" and Q = "\<lambda>it. it \<noteq> NewBlock"])
  show "list_all (\<lambda>it. it \<noteq> NewBlock) items" using assms by (auto simp: list_all_iff)
qed (simp_all add: dispatch_block)

section \<open>A head that does not decode\<close>

lemma head_no_slot: "anchor_config_ok T \<Longrightarrow> \<not> queue_slot T (store_key T head_field)"
  unfolding queue_slot_def by (metis store_key_fields(1,3))

lemma queue_len_poisoned:
  "anchor_config_ok T \<Longrightarrow> stored_u32 T name head_field s = None \<Longrightarrow> queue_len T name s = (Inl Panic, s)"
  by (simp add: queue_len_def seq_def queue_tail_run queue_head_run split: option.split)

lemma push_poisoned:
  assumes "anchor_config_ok T" and "submitter_by_names s name \<noteq> None" and "stored_u32 T name head_field s = None"
  shows "push_message T name data s = (Inl Panic, s)"
proof -
  have "queue_len T name s = (Inl (Panic :: anchor_error fault), s)"
    by (rule queue_len_poisoned [OF assms(1,3)])
  then show ?thesis
    using assms(2) by (simp add: push_message_def call_simps) (simp add: seq_def)
qed

lemma push_poisoned_run:
  assumes "submitter_by_names s name = Some who" and "stored_u32 (paraxiom a b c) name head_field s = None"
    and "list_all (no_rollup_of name) items"
  shows "push_message (paraxiom a b c) name data (snd (run_items (paraxiom a b c) items s)) =
    (Inl Panic, snd (run_items (paraxiom a b c) items s))"
proof -
  have "states (snd (run_items (paraxiom a b c) items s)) (name, store_key (paraxiom a b c) head_field) =
      states s (name, store_key (paraxiom a b c) head_field)"
    by (rule run_items_key [OF assms(3) head_no_slot]) simp
  then have "stored_u32 (paraxiom a b c) name head_field (snd (run_items (paraxiom a b c) items s)) = None"
    using assms(2) by (simp add: stored_u32_def)
  then show ?thesis
    using run_items_owner [OF assms(1)] by (intro push_poisoned) simp_all
qed

section \<open>A head behind the tail\<close>

lemma head_set_passed:
  assumes "anchor_config_ok T" and "stored_u32 T name head_field s = Some h"
    and "stored_u32 T name tail_field s = Some e" and "e < h"
  shows "queue_head_set T name index s = (Inl (Err (Anchor InvalidQueueHead)), s)"
proof -
  have passed: "(h \<le> index \<and> index \<le> e) = False" using assms(4) by (auto dest: order_trans)
  show ?thesis
    unfolding queue_head_set_def
    by (simp add: seq_def queue_head_run queue_tail_run assms(1-3) ensure_def passed del: de_Morgan_conj)
qed

text \<open>Every list of actions with a \<open>SetQueueHead\<close> in it fails there.\<close>

lemma actions_passed:
  assumes "stored_u32 (paraxiom a b c) name head_field s = Some h"
    and "stored_u32 (paraxiom a b c) name tail_field s = Some e" and "e < h"
    and "raw \<in> set raws" and "dec action_scale raw = Some (SetQueueHead index, rest)"
  shows "for_each raws (exec_action (paraxiom a b c) name who) s \<noteq> (Inr u, t)"
  using assms(1,2,4)
proof (induction raws arbitrary: s)
  case (Cons x xs)
  have passed: "exec_action (paraxiom a b c) name who raw s = (Inl (Err (Anchor InvalidQueueHead)), s)"
    using assms(5) head_set_passed [OF paraxiom_config_ok Cons.prems(1,2) assms(3)]
    by (simp add: exec_action_def call_simps)
  show ?case
  proof
    assume "for_each (x # xs) (exec_action (paraxiom a b c) name who) s = (Inr u, t)"
    then obtain v where x: "exec_action (paraxiom a b c) name who x s = (Inr (), v)"
        and xs: "for_each xs (exec_action (paraxiom a b c) name who) v = (Inr u, t)"
      by (auto simp: call_ok)
    with passed Cons.prems(3) have mem: "raw \<in> set xs" by auto
    have "states v = states s"
    proof (cases "dec action_scale x")
      case None
      with x show ?thesis by (simp add: exec_action_def call_simps)
    next
      case (Some y)
      then obtain act r where y: "dec action_scale x = Some (act, r)" by (cases y) simp
      show ?thesis
      proof (cases act)
        case (Reply d)
        with x y have "on_response (paraxiom a b c) name who d s = (Inr (), v)"
          by (simp add: exec_action_def call_simps)
        with withinD [OF chain_anchor.handler_within] show ?thesis by (auto simp: anchor_kept_def)
      next
        case (SetQueueHead i)
        with x y head_set_passed [OF paraxiom_config_ok Cons.prems(1,2) assms(3)] show ?thesis
          by (simp add: exec_action_def call_simps)
      qed
    qed
    then have "stored_u32 (paraxiom a b c) name head_field v = Some h"
        "stored_u32 (paraxiom a b c) name tail_field v = Some e"
      using Cons.prems(1,2) by (simp_all add: stored_u32_def)
    from Cons.IH [OF this mem] xs show False by blast
  qed
qed simp

lemma rollup_passed:
  assumes "stored_u32 (paraxiom a b c) name head_field s = Some h"
    and "stored_u32 (paraxiom a b c) name tail_field s = Some e" and "e < h"
    and "raw \<in> set (actions tx)" and "dec action_scale raw = Some (SetQueueHead index, rest)"
    and "list_all (\<lambda>u. fst u \<noteq> store_key (paraxiom a b c) head_field
       \<and> fst u \<noteq> store_key (paraxiom a b c) tail_field) (updates tx)"
  shows "\<exists>e. rollup (paraxiom a b c) origin name tx n s = (Inl e, s)"
proof -
  let ?T = "paraxiom a b c"
  have kept: "write_updates name (updates tx) (states s) (name, store_key ?T f) = states s (name, store_key ?T f)"
    if "f = head_field \<or> f = tail_field" for f
  proof -
    have "map_of (rev (updates tx)) (store_key ?T f) = None"
      using assms(6) that by (force simp: map_of_eq_None_iff list_all_iff)
    then show ?thesis by (simp add: write_updates_map_of)
  qed
  have "rollup ?T origin name tx n s \<noteq> (Inr u, t)" for u t
  proof
    assume "rollup ?T origin name tx n s = (Inr u, t)"
    then show False
    proof (rule rollup_OkE)
      fix who t'
      assume "for_each (actions tx) (exec_action ?T name who)
          (s\<lparr>states := write_updates name (updates tx) (states s)\<rparr>) = (Inr (), t')"
      then show False
        using assms(1,2) actions_passed [OF _ _ assms(3-5), where a = a and b = b and c = c and name = name]
        by (simp add: stored_u32_def kept)
    qed
  qed
  then obtain f t where "rollup ?T origin name tx n s = (Inl f, t)" by (metis surj_pair sum.exhaust)
  with rollup_faultD show ?thesis by blast
qed

end
