(* ===== verification/Demo_Chain.thy ===== *)
theory Demo_Chain
  imports Chain_Run
begin

text \<open>
  A concrete chain for the theorems that apply a property to concrete values.
  \<open>demo_chain\<close> has the runtime's constants, a randomness source that counts, and a
  storage order over one name; \<open>claimed\<close> is its storage after account 1 claimed name 42.
\<close>

definition demo_chain :: chain_config where
  "demo_chain = paraxiom (\<lambda>now. (7, now)) (\<lambda>now seed. (of_nat (length seed), now))
     (\<lambda>m. if m 42 = None then [] else [42])"

definition claimed :: chain_state where
  "claimed = genesis\<lparr>submitter_by_names := [42 \<mapsto> 1], events := [AnchorEvent (NameClaimed 1 42)]\<rparr>"

definition write_tx :: "KeyBytes \<Rightarrow> ValueBytes option \<Rightarrow> ValueBytes option \<Rightarrow> rollup_tx" where
  "write_tx key old new = \<lparr>conds = [Eq key old], actions = [], updates = [(key, new)]\<rparr>"

lemma claimed_by_call: "dispatch demo_chain (Signed 1) (ClaimName 42) genesis = (Inr (), claimed)"
  by (simp add: dispatch_def claim_name_signed claimed_def demo_chain_def run_transactional_Ok
      genesis_def)

lemma claimed_reachable: "reachable demo_chain claimed"
  using reachable_call [OF reachable_genesis, of demo_chain "ClaimName 42" "Signed 1"]
  by (simp add: call_bounded_def claimed_by_call)

lemma claimed_sel [simp]:
  "submitter_by_names claimed = [42 \<mapsto> 1]" "states claimed = Map.empty"
  "api_feeds claimed = Map.empty" "feed_requests claimed = Map.empty" "block_number claimed = 0"
  "feed_data claimed = Map.empty"
  by (simp_all add: claimed_def genesis_def)

lemma demo_space: "\<not> in_queue_space demo_chain [9]"
  by (simp add: demo_chain_def in_queue_space_def queue_prefix_bytes_def)

lemma demo_write:
  "rollup demo_chain (Signed 1) 42 (write_tx [9] None (Some [5])) 0 claimed =
     (Inr (), claimed\<lparr>states := [(42, [9]) \<mapsto> [5]],
        events := events claimed @ [AnchorEvent (RollupExecuted 1 42 0)]\<rparr>)"
  by (simp add: rollup_signed write_tx_def demo_chain_def call_simps)

end
