(* ===== verification/Chain_Service.thy ===== *)
theory Chain_Service
  imports Demo_Chain
begin

text \<open>
  What the registry, the anchor and the oracle promise together, as one abstract service:
  names with owners, for each name a store that the owner's rollups compare and swap, for
  each account the feeds it registered. The service says of every call whether it is
  granted and what it then changes. The part of the stores the message queue lives in is
  not the service's: a rollup that touches it (by an action, or by a condition on a key
  there) may be refused for reasons the service does not see.

  \<open>service_of\<close> reads the service's state off the storage of the three pallets, and
  \<open>chain_implements_service\<close> says that every run of the chain is a run of the service,
  call by call, with the same calls granted.
\<close>

section \<open>The service\<close>

record service =
  owners :: "H256 \<rightharpoonup> AccountId"
  stores :: "H256 \<Rightarrow> KeyBytes \<rightharpoonup> ValueBytes"
  registered_feeds :: "AccountId \<Rightarrow> bytes \<rightharpoonup> bytes \<times> bytes"

definition no_service :: service where
  "no_service = \<lparr>owners = Map.empty, stores = (\<lambda>_. Map.empty), registered_feeds = (\<lambda>_. Map.empty)\<rparr>"

text \<open>The keys the service keeps, and what one of them holds after a list of updates.\<close>

definition kept_key :: "KeyBytes \<Rightarrow> bool" where
  "kept_key key \<longleftrightarrow> take (length queue_prefix_bytes) key \<noteq> queue_prefix_bytes"

definition updated :: "(KeyBytes \<times> ValueBytes option) list \<Rightarrow> (KeyBytes \<rightharpoonup> ValueBytes) \<Rightarrow> KeyBytes \<rightharpoonup> ValueBytes" where
  "updated us m = (\<lambda>key. if kept_key key then (case map_of (rev us) key of None \<Rightarrow> m key | Some v \<Rightarrow> v) else m key)"

fun agrees :: "(KeyBytes \<rightharpoonup> ValueBytes) \<Rightarrow> cond \<Rightarrow> bool" where
  "agrees m (Eq key v) = (kept_key key \<longrightarrow> m key = v)"

fun serve_signed :: "AccountId \<Rightarrow> call_of_chain \<Rightarrow> service \<Rightarrow> service option" where
  "serve_signed who (RegisterFeed key u p) A =
     Some (A\<lparr>registered_feeds := (registered_feeds A)(who := (registered_feeds A who)(key \<mapsto> (u, p)))\<rparr>)"
| "serve_signed who (UnregisterFeed key) A =
     (if registered_feeds A who key = None then None
      else Some (A\<lparr>registered_feeds := (registered_feeds A)(who := (registered_feeds A who)(key := None))\<rparr>))"
| "serve_signed who (ClaimName name) A =
     (if owners A name = None then Some (A\<lparr>owners := (owners A)(name \<mapsto> who)\<rparr>) else None)"
| "serve_signed who (Rollup name tx n) A =
     (if owners A name = Some who \<and> list_all (agrees (stores A name)) (conds tx)
      then Some (A\<lparr>stores := (stores A)(name := updated (updates tx) (stores A name))\<rparr>) else None)"
| "serve_signed who (RequestFeed key n) A = None"
| "serve_signed who (Feeds name data n) A = Some A"
| "serve_signed who Average A = None"

definition serve :: "AccountId origin \<Rightarrow> call_of_chain \<Rightarrow> service \<Rightarrow> service option" where
  "serve origin c A = (case origin of Signed who \<Rightarrow> serve_signed who c A | _ \<Rightarrow> None)"

fun touches_queue :: "call_of_chain \<Rightarrow> bool" where
  "touches_queue (Rollup name tx n) \<longleftrightarrow>
     actions tx \<noteq> [] \<or> list_ex (\<lambda>c. case c of Eq key v \<Rightarrow> \<not> kept_key key) (conds tx)"
| "touches_queue _ \<longleftrightarrow> False"

text \<open>\<open>service_run items oks A B\<close>: the items take the service from \<open>A\<close> to \<open>B\<close>, \<open>oks\<close> granted.\<close>

inductive service_run :: "chain_item list \<Rightarrow> bool list \<Rightarrow> service \<Rightarrow> service \<Rightarrow> bool" where
  nothing: "service_run [] [] A A"
| new_block: "service_run items oks A B \<Longrightarrow> service_run (NewBlock # items) (True # oks) A B"
| granted: "serve origin c A = Some A' \<Longrightarrow> service_run items oks A' B \<Longrightarrow>
    service_run (Extrinsic origin c # items) (True # oks) A B"
| refused: "serve origin c A = None \<or> touches_queue c \<Longrightarrow> service_run items oks A B \<Longrightarrow>
    service_run (Extrinsic origin c # items) (False # oks) A B"

section \<open>The chain\<close>

definition service_of :: "chain_state \<Rightarrow> service" where
  "service_of s = \<lparr>owners = submitter_by_names s,
     stores = (\<lambda>name key. if kept_key key then states s (name, key) else None),
     registered_feeds = (\<lambda>who key. map_option (\<lambda>f. (url f, path f)) (api_feeds s (who, key)))\<rparr>"

lemma service_of_sel [simp]:
  "owners (service_of s) = submitter_by_names s"
  "stores (service_of s) name key = (if kept_key key then states s (name, key) else None)"
  "registered_feeds (service_of s) who key = map_option (\<lambda>f. (url f, path f)) (api_feeds s (who, key))"
  by (simp_all add: service_of_def)

lemma service_of_block [simp]: "service_of (next_block s) = service_of s"
  by (simp add: service_of_def next_block_def fun_eq_iff)

lemma service_eqI:
  "owners A = owners B \<Longrightarrow> (\<And>n k. stores A n k = stores B n k) \<Longrightarrow>
   (\<And>w k. registered_feeds A w k = registered_feeds B w k) \<Longrightarrow> A = (B :: service)"
  by (intro service.equality ext) auto

lemma kept_key_space: "kept_key key \<longleftrightarrow> \<not> in_queue_space (paraxiom a b c) key"
  by (simp add: kept_key_def in_queue_space_def)

section \<open>Each call\<close>

lemma agrees_conds:
  assumes "list_all (agrees (stores (service_of s) name)) cs"
    and "\<not> list_ex (\<lambda>c. case c of Eq key v \<Rightarrow> \<not> kept_key key) cs"
  shows "\<forall>c \<in> set cs. cond_holds name s c"
proof
  fix c assume c: "c \<in> set cs"
  obtain key v where eq: "c = Eq key v" by (cases c)
  have "kept_key key" using assms(2) c eq by (force simp: list_ex_iff)
  moreover have "agrees (stores (service_of s) name) c" using assms(1) c by (simp add: list_all_iff)
  ultimately show "cond_holds name s c" using eq by simp
qed

lemma conds_agree:
  assumes "\<forall>c \<in> set cs. cond_holds name s c"
  shows "list_all (agrees (stores (service_of s) name)) cs"
  unfolding list_all_iff
proof
  fix c assume "c \<in> set cs"
  with assms show "agrees (stores (service_of s) name) c" by (cases c) auto
qed

lemma rollup_keeps:
  assumes "dispatch (paraxiom a b c) origin (Rollup name tx n) s = (r, t)"
  shows "api_feeds t = api_feeds s"
proof
  fix x
  show "api_feeds t x = api_feeds s x"
    using feed_change [OF assms, of "fst x" "snd x"] by auto
qed

lemma serve_rollup:
  assumes "rollup (paraxiom a b c) (Signed who) name tx n s = (Inr (), t)"
  shows "serve_signed who (Rollup name tx n) (service_of s) = Some (service_of t)"
proof -
  have d: "dispatch (paraxiom a b c) (Signed who) (Rollup name tx n) s = (Inr (), t)"
    using assms by (simp add: dispatch_def run_transactional_Ok)
  have owner: "submitter_by_names s name = Some who" and conds: "\<forall>c \<in> set (conds tx). cond_holds name s c"
    using assms by (auto elim: rollup_OkE)
  have frame: "only_store_of name s t"
    using withinD [OF chain_anchor.rollup_within assms] .
  have "service_of t = (service_of s)\<lparr>stores := (stores (service_of s))
      (name := updated (updates tx) (stores (service_of s) name))\<rparr>"
  proof (rule service_eqI)
    fix m key
    show "stores (service_of t) m key = stores ((service_of s)\<lparr>stores := (stores (service_of s))
      (name := updated (updates tx) (stores (service_of s) name))\<rparr>) m key"
      using frame rollup_writes [OF assms, of key] kept_key_space [of key a b c]
      by (auto simp: only_store_of_def updated_def split: option.split)
  qed (use frame rollup_keeps [OF d] in \<open>simp_all add: only_store_of_def\<close>)
  with owner conds_agree [OF conds] show ?thesis by simp
qed

lemma refuse_rollup:
  assumes "rollup (paraxiom a b c) (Signed who) name tx n s = (Inl e, t)" and "\<not> touches_queue (Rollup name tx n)"
  shows "serve_signed who (Rollup name tx n) (service_of s) = None"
proof (rule ccontr)
  assume "serve_signed who (Rollup name tx n) (service_of s) \<noteq> None"
  then have "submitter_by_names s name = Some who" and "list_all (agrees (stores (service_of s) name)) (conds tx)"
    by (auto split: if_splits)
  moreover from this(2) have "\<forall>c \<in> set (conds tx). cond_holds name s c"
    by (rule agrees_conds) (use assms(2) in simp)
  ultimately show False using assms by (simp add: rollup_signed call_simps)
qed

lemma serve_granted:
  assumes "idle_oracle s" and "dispatch (paraxiom a b c) origin call s = (Inr (), t)"
  shows "serve origin call (service_of s) = Some (service_of t)"
proof (cases call)
  case (RegisterFeed key u p)
  with assms(2) have "register_feed (paraxiom a b c) origin key u p s = (Inr (), t)"
    by (simp add: dispatch_def call_ok)
  then show ?thesis
  proof (rule register_feed_OkE)
    fix who feed es
    assume "origin = Signed who" "url feed = u" "path feed = p"
      "t = s\<lparr>api_feeds := (api_feeds s)((who, key) \<mapsto> feed), events := es\<rparr>"
    with RegisterFeed show ?thesis by (auto simp: serve_def intro!: service_eqI)
  qed
next
  case (UnregisterFeed key)
  with assms(2) have ok: "unregister_feed (paraxiom a b c) origin key s = (Inr (), t)"
    by (simp add: dispatch_def call_ok)
  then show ?thesis
  proof (rule unregister_feed_OkE)
    fix who es
    assume *: "origin = Signed who" "t = s\<lparr>api_feeds := (api_feeds s)((who, key) := None), events := es\<rparr>"
    with ok have "api_feeds s (who, key) \<noteq> None"
      by (auto simp: unregister_feed_signed split: option.splits)
    with * UnregisterFeed show ?thesis by (auto simp: serve_def intro!: service_eqI)
  qed
next
  case (ClaimName name)
  with assms(2) have "claim_name (paraxiom a b c) origin name s = (Inr (), t)"
    by (simp add: dispatch_def call_ok)
  then show ?thesis using ClaimName
    by (elim claim_name_OkE) (auto simp: serve_def intro!: service_eqI)
next
  case (Rollup name tx n)
  with assms(2) have ok: "rollup (paraxiom a b c) origin name tx n s = (Inr (), t)"
    by (simp add: dispatch_def call_ok)
  then obtain who where "origin = Signed who" by (auto elim: rollup_OkE)
  with ok Rollup serve_rollup show ?thesis by (simp add: serve_def del: serve_signed.simps)
next
  case (RequestFeed key n)
  with assms(2) have "oracle_request (paraxiom a b c) origin key n s = (Inr (), t)"
    by (simp add: dispatch_def call_ok)
  with idle_request [OF assms(1), of "paraxiom a b c" origin key n] show ?thesis by auto
next
  case (Feeds name data n)
  with assms(2) show ?thesis
    by (auto simp: dispatch_def feeds_def call_ok serve_def split: origin.splits)
next
  case Average
  with assms(2) show ?thesis by (auto simp: dispatch_def average_def call_ok)
qed

lemma serve_refused:
  assumes "dispatch (paraxiom a b c) origin call s = (Inl e, t)"
  shows "serve origin call (service_of s) = None \<or> touches_queue call"
proof (cases origin)
  case (Signed who)
  show ?thesis
  proof (cases call)
    case (RegisterFeed key u p)
    with assms Signed show ?thesis by (simp add: dispatch_def transactional_def call_simps)
  next
    case (UnregisterFeed key)
    with assms Signed show ?thesis
      by (auto simp: dispatch_def transactional_def call_simps serve_def split: option.splits)
  next
    case (ClaimName name)
    with assms Signed show ?thesis
      by (auto simp: dispatch_def transactional_def call_simps serve_def split: if_splits)
  next
    case (Rollup name tx n)
    obtain r u where r: "rollup (paraxiom a b c) (Signed who) name tx n s = (r, u)" by fastforce
    with assms Signed Rollup have "r = Inl e"
      by (auto simp: dispatch_def transactional_def split: sum.splits)
    with r refuse_rollup Rollup Signed show ?thesis by (auto simp: serve_def simp del: serve_signed.simps)
  next
    case (Feeds name data n)
    with assms Signed show ?thesis by (simp add: dispatch_def transactional_def call_simps)
  qed (simp_all add: serve_def Signed)
qed (simp_all add: serve_def)

section \<open>Every run\<close>

lemma run_items_serve:
  assumes "reachable (paraxiom a b c) s" and "list_all (item_bounded (paraxiom a b c)) items"
    and "run_items (paraxiom a b c) items s = (oks, t)"
  shows "service_run items oks (service_of s) (service_of t)"
  using assms
proof (induction items arbitrary: s oks)
  case Nil
  then show ?case by (auto intro: service_run.nothing)
next
  case (Cons it items)
  show ?case
  proof (cases it)
    case NewBlock
    obtain oks' where run: "run_items (paraxiom a b c) items (next_block s) = (oks', t)" "oks = True # oks'"
      using Cons.prems(3) by (auto simp: NewBlock split: prod.splits)
    have "reachable (paraxiom a b c) (next_block s)"
      by (rule reachable_step [OF Cons.prems(1) step_block])
    from Cons.IH [OF this _ run(1)] Cons.prems(2) have "service_run items oks' (service_of s) (service_of t)"
      by simp
    then show ?thesis by (simp add: NewBlock run(2) service_run.new_block)
  next
    case (Extrinsic origin call)
    obtain r u where d: "dispatch (paraxiom a b c) origin call s = (r, u)" by fastforce
    obtain oks' where run: "run_items (paraxiom a b c) items u = (oks', t)" "oks = (\<not> isl r) # oks'"
      using Cons.prems(3) by (auto simp: Extrinsic d split: prod.splits)
    have "reachable (paraxiom a b c) u"
      using reachable_step [OF Cons.prems(1) step_call [OF _ d]] Cons.prems(2) by (simp add: Extrinsic)
    with Cons.IH run(1) Cons.prems(2) have rest: "service_run items oks' (service_of u) (service_of t)"
      by simp
    have idle: "idle_oracle s" by (rule reachable_invariant [where P = idle_oracle, OF Cons.prems(1) idle_genesis idle_step])
    show ?thesis
    proof (cases r)
      case (Inl e)
      then have "u = s" using d dispatch_fault by blast
      with rest service_run.refused [OF serve_refused [OF d [unfolded Inl]]] Inl run(2) Extrinsic
      show ?thesis by simp
    next
      case (Inr x)
      with d have "dispatch (paraxiom a b c) origin call s = (Inr (), u)" by simp
      from service_run.granted [OF serve_granted [OF idle this] rest] Inr run(2) Extrinsic
      show ?thesis by simp
    qed
  qed
qed

lemma service_of_genesis: "service_of genesis = no_service"
  by (simp add: service_of_def genesis_def no_service_def fun_eq_iff)

text \<open>
  C1. The registry, the anchor and the oracle, wired as in the runtime, implement one service.
  Take any run of the chain from its genesis, blocks and calls of any origin whose
  arguments fit their types. Read off the storage before and after (names and owners, the
  stores outside the queue's prefix, the accounts' feeds), it is a run of the service in
  which exactly the calls are granted that the chain answers with \<open>Ok\<close>: claiming a name
  that is free, a rollup by the name's owner whose conditions hold, which writes its
  updates, later ones over earlier ones, registering and unregistering one's own feeds.
  The service refuses every request for a feed. Only a rollup that touches the queue may
  be refused although the service would grant it.
\<close>

theorem chain_implements_service:
  assumes "list_all (item_bounded (paraxiom a b c)) items"
    and "run_items (paraxiom a b c) items genesis = (oks, t)"
  shows "service_run items oks no_service (service_of t)"
  using run_items_serve [OF reachable_genesis assms] by (simp add: service_of_genesis)

text \<open>
  Two accounts and a name: the second claim is refused, so is the rollup of the account
  that does not own the name, and the owner's second rollup, prepared against another value.
\<close>

definition demo_run :: "chain_item list" where
  "demo_run = [Extrinsic (Signed 1) (ClaimName 42), Extrinsic (Signed 2) (ClaimName 42), NewBlock,
     Extrinsic (Signed 1) (Rollup 42 (write_tx [9] None (Some [5])) 0),
     Extrinsic (Signed 2) (Rollup 42 (write_tx [9] (Some [5]) (Some [6])) 0),
     Extrinsic (Signed 1) (Rollup 42 (write_tx [9] None (Some [7])) 0)]"

lemma demo_run_oks: "fst (run_items demo_chain demo_run genesis) = [True, False, True, True, False, False]"
  by (simp add: demo_run_def claimed_by_call dispatch_def claim_name_signed rollup_signed write_tx_def
      transactional_def call_simps next_block_def claimed_def demo_chain_def genesis_def split: prod.split)

theorem chain_implements_service_witness:
  "\<exists>B. service_run demo_run [True, False, True, True, False, False] no_service B \<and> stores B 42 [9] = Some [5]"
proof -
  obtain t where t: "run_items demo_chain demo_run genesis = ([True, False, True, True, False, False], t)"
    using demo_run_oks by (metis prod.collapse)
  have "list_all (item_bounded demo_chain) demo_run"
    by (simp add: demo_run_def call_bounded_def write_tx_def cond_bounded_def update_bounded_def
        key_bytes_bound_def value_bytes_bound_def)
  then have run: "service_run demo_run [True, False, True, True, False, False] no_service (service_of t)"
    using chain_implements_service t unfolding demo_chain_def by blast
  moreover have "stores (service_of t) 42 [9] = Some [5]"
  proof -
    have "states t (42, [9]) = Some [5]"
      using arg_cong [OF t, of snd]
      by (auto simp: demo_run_def claimed_by_call dispatch_def claim_name_signed rollup_signed write_tx_def
          transactional_def call_simps next_block_def claimed_def demo_chain_def genesis_def split: prod.splits)
    then show ?thesis by (simp add: kept_key_def queue_prefix_bytes_def)
  qed
  ultimately show ?thesis by blast
qed

end
