(* ===== verification/Chain_Properties.thy ===== *)
theory Chain_Properties
  imports Demo_Chain
begin

text \<open>
  The properties of the rollup anchor, the oracle and the registry as the runtime
  composes them, each with a theorem that applies it to the concrete chain of
  \<open>Demo_Chain\<close>.
\<close>

section \<open>Rollup transactions\<close>

text \<open>
  A rollup without actions is a compare-and-swap. Sent by the owner of the name, it
  commits exactly if every condition holds in the store as it is, and then every key of
  the name holds what the last update of that key says (a write or a deletion), or what
  it held before. Otherwise it ends in \<open>CondNotMet\<close> and the storage is unchanged.
\<close>

theorem rollup_compare_and_swap:
  assumes "submitter_by_names s name = Some who" and "actions tx = []"
  shows "(if \<forall>c \<in> set (conds tx). cond_holds name s c
     then \<exists>t. rollup (paraxiom a b c) (Signed who) name tx n s = (Inr (), t)
       \<and> (\<forall>key. states t (name, key) =
            (case map_of (rev (updates tx)) key of None \<Rightarrow> states s (name, key) | Some v \<Rightarrow> v))
     else rollup (paraxiom a b c) (Signed who) name tx n s = (Inl (Err (Anchor CondNotMet)), s))"
  using assms by (simp add: rollup_signed call_simps write_updates_map_of)

theorem rollup_compare_and_swap_witness:
  "\<exists>t. rollup demo_chain (Signed 1) 42 (write_tx [9] None (Some [5])) 0 claimed = (Inr (), t)
     \<and> states t (42, [9]) = Some [5]"
proof -
  have "submitter_by_names claimed 42 = Some 1" "actions (write_tx [9] None (Some [5])) = []"
    by (simp_all add: write_tx_def)
  from rollup_compare_and_swap [OF this, of "\<lambda>now. (7, now)" "\<lambda>now seed. (of_nat (length seed), now)"
      "\<lambda>m. if m 42 = None then [] else [42]" 0]
  show ?thesis unfolding demo_chain_def [symmetric] by (auto simp: write_tx_def)
qed

text \<open>
  C7. Optimistic concurrency is sound: once a committed rollup has given a key outside
  the queue a new value, every rollup that was prepared against another value of that
  key is rejected and changes nothing, whatever else it carries.
\<close>

theorem rollup_conflict_rejected:
  assumes "rollup (paraxiom a b c) origin name tx n s = (Inr (), t)"
    and "map_of (rev (updates tx)) key = Some w"
    and "\<not> in_queue_space (paraxiom a b c) key"
    and "Eq key v \<in> set (conds tx')" and "v \<noteq> w"
  shows "\<exists>e \<in> {BadOrigin, Anchor NotOwner, Anchor CondNotMet}.
    rollup (paraxiom a b c) origin' name tx' n' t = (Inl (Err e), t)"
proof (cases origin')
  case (Signed who')
  have w: "states t (name, key) = w"
    using rollup_writes [OF assms(1,3)] assms(2) by simp
  have "\<not> (\<forall>c \<in> set (conds tx'). cond_holds name t c)"
    using assms(4,5) w by force
  moreover have "submitter_by_names t name \<noteq> None"
    using withinD [OF chain_anchor.rollup_within assms(1)] assms(1)
    by (auto simp: only_store_of_def elim: rollup_OkE)
  ultimately show ?thesis by (auto simp: Signed rollup_signed)
qed (simp_all add: rollup_unsigned)

theorem rollup_conflict_rejected_witness:
  "\<exists>t. rollup demo_chain (Signed 1) 42 (write_tx [9] None (Some [5])) 0 claimed = (Inr (), t)
     \<and> (\<exists>e. rollup demo_chain (Signed 1) 42 (write_tx [9] None (Some [6])) 1 t = (Inl (Err e), t))"
proof -
  have "map_of (rev (updates (write_tx [9] None (Some [5])))) [9] = Some (Some [5])"
    and "Eq [9] None \<in> set (conds (write_tx [9] None (Some [6])))"
    by (simp_all add: write_tx_def)
  with rollup_conflict_rejected [OF demo_write [unfolded demo_chain_def] _ demo_space [unfolded demo_chain_def],
      of "Some [5]" None "write_tx [9] None (Some [6])" "Signed 1" 1]
  show ?thesis unfolding demo_chain_def [symmetric] using demo_write by auto
qed

text \<open>
  C27. A rollup is all or nothing over its actions: if an action does not decode, no
  update and no effect of an earlier action stays, even though the updates were written
  and the earlier actions ran before it.
\<close>

theorem rollup_bad_action_undone:
  assumes "actions tx = acts @ raw # rest" and "dec action_scale raw = None"
  shows "\<exists>e. rollup (paraxiom a b c) origin name tx n s = (Inl e, s)"
proof -
  have bad: "exec_action (paraxiom a b c) name who raw t = (Inl (Err (Anchor FailedToDecodeAction)), t)"
    for who t
    using assms(2) by (simp add: exec_action_def call_simps)
  have "for_each (actions tx) (exec_action (paraxiom a b c) name who) t \<noteq> (Inr u, t')" for who t u t'
    unfolding assms(1) for_each_Ok_append by (auto simp: call_ok bad)
  then have "rollup (paraxiom a b c) origin name tx n s \<noteq> (Inr u, t)" for u t
    by (metis rollup_OkE old.unit.exhaust)
  then obtain e t where "rollup (paraxiom a b c) origin name tx n s = (Inl e, t)"
    by (metis surj_pair sum.exhaust)
  with rollup_faultD show ?thesis by blast
qed

theorem rollup_bad_action_undone_witness:
  "\<exists>e. rollup demo_chain (Signed 1) 42
     \<lparr>conds = [], actions = [[1, 0, 0, 0, 0], [2]], updates = [([9], Some [5])]\<rparr> 0 claimed = (Inl e, claimed)"
proof -
  have "dec action_scale [2] = None" by (simp add: action_scale_def dec_action_def)
  from rollup_bad_action_undone [where acts = "[[1, 0, 0, 0, 0]]" and rest = "[]", OF _ this]
  show ?thesis by (simp add: demo_chain_def)
qed

section \<open>Isolation\<close>

text \<open>
  C8. A value in the store of a name changes only by a rollup that the owner of the
  name signed, or, for the tail field and the message slots of the queue, by an oracle
  request. No other call, and no account other than the owner, writes it.
\<close>

theorem store_changed_by_owner:
  assumes "dispatch (paraxiom a b c) origin call s = (r, t)"
    and "states t (name, key) \<noteq> states s (name, key)"
  shows "(\<exists>tx n who. call = Rollup name tx n \<and> origin = Signed who \<and> submitter_by_names s name = Some who)
       \<or> (\<exists>k n. call = RequestFeed k n) \<and> queue_slot (paraxiom a b c) key"
  using assms by (rule paraxiom_store_change)

theorem store_changed_by_owner_witness:
  "(\<exists>tx n who. Rollup 42 (write_tx [9] None (Some [5])) 0 = Rollup 42 tx n \<and> Signed (1::H256) = Signed who
      \<and> submitter_by_names claimed 42 = Some who)
   \<or> (\<exists>k n. Rollup 42 (write_tx [9] None (Some [5])) 0 = RequestFeed k n) \<and> queue_slot demo_chain [9]"
proof -
  have "dispatch demo_chain (Signed 1) (Rollup 42 (write_tx [9] None (Some [5])) 0) claimed =
      (Inr (), claimed\<lparr>states := [(42, [9]) \<mapsto> [5]],
         events := events claimed @ [AnchorEvent (RollupExecuted 1 42 0)]\<rparr>)"
    by (simp add: dispatch_def run_transactional_Ok demo_write)
  from store_changed_by_owner [OF this [unfolded demo_chain_def], of 42 "[9]"]
  show ?thesis unfolding demo_chain_def [symmetric] by simp
qed

text \<open>
  A claimed name is claimed for ever: along every run of the chain the owner of a
  name stays its owner, and every later \<open>claim_name\<close> of it, by anyone, fails with
  \<open>NameAlreadyClaimed\<close> and changes nothing.
\<close>

theorem name_owner_permanent:
  assumes "chain_steps (paraxiom a b c) s t" and "submitter_by_names s name = Some who"
  shows "submitter_by_names t name = Some who
    \<and> claim_name (paraxiom a b c) (Signed other) name t = (Inl (Err (Anchor NameAlreadyClaimed)), t)"
proof -
  have "owners_kept s t"
    using assms(1) owners_frame.call_frame_axioms paraxiom_step_owners by (rule steps_frame)
  with assms(2) have "submitter_by_names t name = Some who"
    by (auto simp: owners_kept_def map_le_def dom_def)
  then show ?thesis by (simp add: claim_name_signed)
qed

theorem name_owner_permanent_witness:
  "submitter_by_names (next_block claimed) 42 = Some 1
    \<and> claim_name demo_chain (Signed 2) 42 (next_block claimed)
        = (Inl (Err (Anchor NameAlreadyClaimed)), next_block claimed)"
proof -
  have "chain_steps demo_chain claimed (next_block claimed)"
    by (rule steps_step [OF steps_refl step_block])
  from name_owner_permanent [OF this [unfolded demo_chain_def], of 42 1 2]
  show ?thesis unfolding demo_chain_def [symmetric] by simp
qed

text \<open>
  Feeds belong to the account that registered them: the entry of an account changes
  only by its own signed \<open>register_feed\<close> or \<open>unregister_feed\<close> of that key.
\<close>

theorem feed_changed_by_owner:
  assumes "dispatch (paraxiom a b c) origin call s = (r, t)"
    and "api_feeds t (who, key) \<noteq> api_feeds s (who, key)"
  shows "origin = Signed who \<and> (call = UnregisterFeed key \<or> (\<exists>u p. call = RegisterFeed key u p))"
  using assms by (rule feed_change)

theorem feed_changed_by_owner_witness:
  "Signed (3::H256) = Signed 3 \<and> (RegisterFeed [1] [2] [3] = UnregisterFeed [1]
     \<or> (\<exists>u p. RegisterFeed [1] [2] [3] = RegisterFeed [1] u p))"
proof -
  obtain t where t: "dispatch demo_chain (Signed 3) (RegisterFeed [1] [2] [3]) claimed = (Inr (), t)"
      "api_feeds t (3, [1]) \<noteq> api_feeds claimed (3, [1])"
    by (simp add: dispatch_def transactional_def register_feed_signed)
  from feed_changed_by_owner [OF t(1) [unfolded demo_chain_def] t(2)] show ?thesis .
qed

section \<open>The message queue\<close>

lemma claimed_queue_ready: "queue_ready demo_chain 42 1 claimed"
  by (simp add: queue_ready_def demo_chain_def queue_inv_def stored_u32_def head_pos_def tail_pos_def)

lemma claimed_queue_pos: "head_pos demo_chain 42 claimed = 0" "queue_abs demo_chain 42 claimed = []"
  by (simp_all add: demo_chain_def queue_abs_def stored_u32_def head_pos_def tail_pos_def word_range_def
      List.map_filter_def)

text \<open>
  C6. The queue is first in, first out, loses nothing and delivers nothing twice: in
  every run of pushes by the pallet and pops by the owner's rollups, what was queued at
  the start followed by what was accepted is what the accepted pops took off followed
  by what is queued at the end. A queue that starts within the capacity of 128 stays
  within it. The positions are 32-bit counters that never come back, so the run must
  not use them up.
\<close>

theorem queue_fifo:
  assumes "queue_ready (paraxiom a b c) name who s"
    and "unat (head_pos (paraxiom a b c) name s) + length (queue_abs (paraxiom a b c) name s) + length ops
           \<le> 2 ^ 32 - 1"
  shows "case client_run (push_op (paraxiom a b c) name) (pop_op (paraxiom a b c) name who n)
      (queue_abs (paraxiom a b c) name) ops s of (ins, outs, t) \<Rightarrow>
    queue_abs (paraxiom a b c) name s @ ins = outs @ queue_abs (paraxiom a b c) name t
    \<and> queue_ready (paraxiom a b c) name who t
    \<and> (length (queue_abs (paraxiom a b c) name s) \<le> 128 \<longrightarrow>
       length (queue_abs (paraxiom a b c) name t) \<le> 128)"
proof -
  obtain ins outs t where run: "client_run (push_op (paraxiom a b c) name)
      (pop_op (paraxiom a b c) name who n) (queue_abs (paraxiom a b c) name) ops s = (ins, outs, t)"
    by (metis prod_cases3)
  from anchor_queue.run_fifo [OF assms this] run show ?thesis by simp
qed

theorem queue_fifo_witness:
  "case client_run (push_op demo_chain 42) (pop_op demo_chain 42 1 0)
      (queue_abs demo_chain 42) [Push [1], Push [2], Pop 1, Pop 7] claimed of (ins, outs, t) \<Rightarrow>
    ins = outs @ queue_abs demo_chain 42 t"
  using queue_fifo [OF claimed_queue_ready [unfolded demo_chain_def],
      of "[Push [1], Push [2], Pop 1, Pop 7]" 0]
  unfolding demo_chain_def [symmetric]
  by (auto simp: claimed_queue_pos split: prod.splits)

text \<open>
  C29. \<open>push_message\<close> on a well-formed queue: an unclaimed name is refused with
  \<open>NameNotExist\<close>, a queue of 128 messages with \<open>QueueIsFull\<close>, both without any
  change; otherwise the message is appended, the result is its position, and the queue
  stays well formed as long as the counter is not used up.
\<close>

theorem push_message_spec:
  assumes "queue_inv (paraxiom a b c) name s"
  shows "(submitter_by_names s name = None \<longrightarrow>
      push_message (paraxiom a b c) name data s = (Inl (Err NameNotExist), s))
    \<and> (submitter_by_names s name \<noteq> None \<and> 128 \<le> length (queue_abs (paraxiom a b c) name s) \<longrightarrow>
      push_message (paraxiom a b c) name data s = (Inl (Err QueueIsFull), s))
    \<and> (submitter_by_names s name \<noteq> None \<and> length (queue_abs (paraxiom a b c) name s) < 128
        \<and> tail_pos (paraxiom a b c) name s \<noteq> - 1 \<longrightarrow>
      (\<exists>t. push_message (paraxiom a b c) name data s = (Inr (tail_pos (paraxiom a b c) name s), t)
         \<and> queue_abs (paraxiom a b c) name t = queue_abs (paraxiom a b c) name s @ [data]
         \<and> queue_inv (paraxiom a b c) name t))"
  by (simp add: push_message_run [OF paraxiom_config_ok assms]
      after_push_inv [OF paraxiom_config_ok assms])

theorem push_message_spec_witness:
  "\<exists>t. push_message demo_chain 42 [1, 2] claimed = (Inr 0, t) \<and> queue_abs demo_chain 42 t = [[1, 2]]"
proof -
  have "queue_inv demo_chain 42 claimed" using claimed_queue_ready by (simp add: queue_ready_def)
  from push_message_spec [OF this [unfolded demo_chain_def], of "[1, 2]"]
  have "\<exists>t. push_message demo_chain 42 [1, 2] claimed = (Inr (tail_pos demo_chain 42 claimed), t)
      \<and> queue_abs demo_chain 42 t = queue_abs demo_chain 42 claimed @ [[1, 2]]"
    unfolding demo_chain_def [symmetric]
    by (auto simp: claimed_queue_pos) (auto simp: demo_chain_def tail_pos_def stored_u32_def)
  then show ?thesis
    by (simp add: claimed_queue_pos) (simp add: demo_chain_def tail_pos_def stored_u32_def)
qed

text \<open>
  C34. The owner of a name can make its queue panic: the head is an ordinary key of the
  store, so a rollup may write bytes there that do not decode, and is accepted. From then on,
  through blocks and calls of any kind except rollups of this name, every \<open>push_message\<close> to the
  name panics, where its result type promises an error. Only a rollup of the name ends it:
  when the owner deletes both position keys, the next push is accepted at position 0.
\<close>

theorem queue_head_poisoned:
  assumes "submitter_by_names s name = Some who" and "dec u32_scale bad = None"
    and "list_all (no_rollup_of name) items"
  shows "\<exists>t u v. dispatch (paraxiom a b c) (Signed who) (Rollup name \<lparr>conds = [], actions = [],
         updates = [(store_key (paraxiom a b c) head_field, Some bad)]\<rparr> n) s = (Inr (), t)
     \<and> u = snd (run_items (paraxiom a b c) items t)
     \<and> push_message (paraxiom a b c) name data u = (Inl Panic, u)
     \<and> dispatch (paraxiom a b c) (Signed who) (Rollup name \<lparr>conds = [], actions = [],
         updates = [(store_key (paraxiom a b c) head_field, None),
                    (store_key (paraxiom a b c) tail_field, None)]\<rparr> m) u = (Inr (), v)
     \<and> fst (push_message (paraxiom a b c) name data v) = Inr 0"
proof -
  let ?T = "paraxiom a b c"
  let ?t = "s\<lparr>states := (states s)((name, store_key ?T head_field) \<mapsto> bad),
              events := events s @ [AnchorEvent (RollupExecuted who name n)]\<rparr>"
  let ?u = "snd (run_items ?T items ?t)"
  let ?v = "?u\<lparr>states := (states ?u)((name, store_key ?T head_field) := None, (name, store_key ?T tail_field) := None),
              events := events ?u @ [AnchorEvent (RollupExecuted who name m)]\<rparr>"
  have "stored_u32 ?T name head_field ?t = None" using assms(2) by (simp add: stored_u32_def)
  then have "push_message ?T name data ?u = (Inl Panic, ?u)"
    using assms(1) by (intro push_poisoned_run [OF _ _ assms(3), where who = who]) simp_all
  moreover have owner: "submitter_by_names ?u name = Some who"
    using assms(1) by (intro run_items_owner) simp
  moreover have "fst (push_message ?T name data ?v) = Inr 0"
  proof -
    have fields: "stored_u32 ?T name head_field ?v = Some 0" "stored_u32 ?T name tail_field ?v = Some 0"
      by (simp_all add: stored_u32_def)
    then have "queue_inv ?T name ?v" and "queue_abs ?T name ?v = []" and "tail_pos ?T name ?v = 0"
      by (simp_all add: queue_inv_def queue_abs_def head_pos_def tail_pos_def word_range_def List.map_filter_def)
    with owner show ?thesis by (simp add: push_message_run [OF paraxiom_config_ok])
  qed
  ultimately show ?thesis
    using assms(1)
    by (intro exI [of _ ?t] exI [of _ ?u] exI [of _ ?v] conjI)
      (simp_all add: dispatch_def run_transactional_Ok rollup_signed call_simps)
qed

theorem queue_head_poisoned_witness:
  "\<exists>t u v. dispatch demo_chain (Signed 1) (Rollup 42 \<lparr>conds = [], actions = [],
         updates = [(store_key demo_chain head_field, Some [7])]\<rparr> 0) claimed = (Inr (), t)
     \<and> u = snd (run_items demo_chain [NewBlock, Extrinsic (Signed 2) (ClaimName 43),
         Extrinsic (Signed 2) (Rollup 43 (write_tx [9] None (Some [5])) 0)] t)
     \<and> push_message demo_chain 42 [1] u = (Inl Panic, u)
     \<and> dispatch demo_chain (Signed 1) (Rollup 42 \<lparr>conds = [], actions = [],
         updates = [(store_key demo_chain head_field, None), (store_key demo_chain tail_field, None)]\<rparr> 1) u
       = (Inr (), v)
     \<and> fst (push_message demo_chain 42 [1] v) = Inr 0"
proof -
  have "dec u32_scale [7] = None" by (simp add: u32_scale_def word_codec_def dec_le_def)
  moreover have "list_all (no_rollup_of 42) [NewBlock, Extrinsic (Signed 2) (ClaimName 43),
      Extrinsic (Signed 2) (Rollup 43 (write_tx [9] None (Some [5])) 0)]"
    by simp
  ultimately show ?thesis
    unfolding demo_chain_def by (intro queue_head_poisoned) simp_all
qed





section \<open>The oracle\<close>

text \<open>
  C15. No account can ever use the oracle: \<open>register_feed\<close> stores the status
  \<open>Registered\<close> and nothing in the runtime stores \<open>Active\<close>, so in every reachable
  storage each \<open>request\<close> fails before it records anything (with \<open>BadOrigin\<close>,
  \<open>FailedToGetApiFeed\<close> or \<open>ApiFeedNotActive\<close>) and each response a rollup
  carries is refused.
\<close>

theorem oracle_unusable:
  assumes "reachable (paraxiom a b c) s"
  shows "(\<exists>e \<in> {BadOrigin, Oracle FailedToGetApiFeed, Oracle ApiFeedNotActive}.
      dispatch (paraxiom a b c) origin (RequestFeed key n) s = (Inl (Err e), s))
    \<and> (\<exists>e. on_response (paraxiom a b c) name who data s = (Inl (Err (Oracle e)), s))
    \<and> feed_requests s = Map.empty \<and> feed_data s = Map.empty"
proof -
  have idle: "idle_oracle s"
    using assms idle_genesis idle_step by (rule reachable_invariant)
  obtain e where e: "e \<in> {BadOrigin, Oracle FailedToGetApiFeed, Oracle ApiFeedNotActive}"
      and req: "oracle_request (paraxiom a b c) origin key n s = (Inl (Err e), s)"
    using idle_request [OF idle, of "paraxiom a b c" origin key n] by auto
  obtain e' where resp: "oracle_on_response (paraxiom a b c) name who data s = (Inl (Err (Oracle e')), s)"
    using idle_response [OF idle, of "paraxiom a b c" name who data] by auto
  have "dispatch (paraxiom a b c) origin (RequestFeed key n) s = (Inl (Err e), s)"
    by (simp add: dispatch_def transactional_def req)
  moreover have "feed_requests s = Map.empty \<and> feed_data s = Map.empty"
    using idle by (simp add: idle_oracle_def)
  ultimately show ?thesis using e resp unfolding paraxiom_on_response by blast
qed

theorem oracle_unusable_witness:
  "\<exists>e. dispatch demo_chain (Signed 1) (RequestFeed [1] 0) claimed = (Inl (Err e), claimed)"
  using oracle_unusable [OF claimed_reachable [unfolded demo_chain_def]]
  unfolding demo_chain_def [symmetric] by blast

text \<open>
  C30. The key-value store respects its types: in every reachable storage each key is
  at most 128 bytes and each value at most 2048, whatever rollups, queue operations and
  requests have written.
\<close>

theorem store_within_bounds:
  assumes "reachable (paraxiom a b c) s" and "states s (name, key) = Some v"
  shows "length key \<le> 128 \<and> length v \<le> 2048"
proof -
  have "store_bounded s"
    using assms(1) store_bounded_genesis store_bounded_step by (rule reachable_invariant)
  with assms(2) show ?thesis
    by (auto simp: store_bounded_def key_bytes_bound_def value_bytes_bound_def)
qed

theorem store_within_bounds_witness:
  "\<exists>s. reachable demo_chain s \<and> states s (42, [9]) = Some [5]
     \<and> length [9 :: u8] \<le> 128 \<and> length [5 :: u8] \<le> 2048"
proof -
  let ?c = "Rollup 42 (write_tx [9] None (Some [5])) 0"
  let ?s = "claimed\<lparr>states := [(42, [9]) \<mapsto> [5]],
        events := events claimed @ [AnchorEvent (RollupExecuted 1 42 0)]\<rparr>"
  have "call_bounded demo_chain ?c"
    by (simp add: call_bounded_def write_tx_def cond_bounded_def update_bounded_def
        key_bytes_bound_def value_bytes_bound_def)
  moreover have "dispatch demo_chain (Signed 1) ?c claimed = (Inr (), ?s)"
    by (simp add: dispatch_def run_transactional_Ok demo_write)
  ultimately have "reachable demo_chain ?s"
    using reachable_step [OF claimed_reachable step_call] by blast
  moreover from store_within_bounds [OF this [unfolded demo_chain_def], of 42 "[9]" "[5]"]
  have "length [9 :: u8] \<le> 128 \<and> length [5 :: u8] \<le> 2048" by simp
  ultimately show ?thesis by (intro exI [of _ ?s]) simp
qed

text \<open>
  C33. Two requests that are accepted in one block (which needs feeds that are active) get the
  same identifier, whoever sends them, whatever nonce they carry and whatever calls the block
  executes in between: the seed is taken as the first component of the pair of randomness and
  nonce. So the second request replaces the first in the request log, and as long as it is
  there, a response for that identifier, rolled up by the owner of the name it carries and of
  at most 147 bytes, is accepted and filed under the second request, with the account, the feed
  and the nonce of the second.
\<close>

theorem request_ids_collide:
  assumes "dispatch (paraxiom a b c) (Signed w1) (RequestFeed k1 n1) s = (Inr (), t)"
    and "NewBlock \<notin> set items"
    and "dispatch (paraxiom a b c) (Signed w2) (RequestFeed k2 n2) (snd (run_items (paraxiom a b c) items t))
           = (Inr (), u)"
  shows "\<exists>i r1 r2. caller r1 = w1 \<and> registry_feed_key r1 = k1 \<and> nonce r1 = n1
    \<and> caller r2 = w2 \<and> registry_feed_key r2 = k2 \<and> nonce r2 = n2
    \<and> feed_requests t = (feed_requests s)(i \<mapsto> r1)
    \<and> feed_requests u = (feed_requests (snd (run_items (paraxiom a b c) items t)))(i \<mapsto> r2)
    \<and> (\<forall>v who resp m. feed_requests v i = Some r2 \<and> request_id resp = i
         \<and> submitter_by_names v (phat_contract_id resp) = Some who \<and> length (response_data resp) \<le> 147
       \<longrightarrow> (\<exists>w. dispatch (paraxiom a b c) (Signed who) (Rollup (phat_contract_id resp)
              \<lparr>conds = [], actions = [enc action_scale (Reply (enc response_scale resp))], updates = []\<rparr> m) v
              = (Inr (), w)
            \<and> feed_data w = (feed_data v)((who, r2) \<mapsto> response_data resp)))"
proof -
  let ?T = "paraxiom a b c"
  let ?i = "fresh_request_id ?T (block_number s)"
  have run: "oracle_request ?T (Signed w1) k1 n1 s = (Inr (), t)"
      "oracle_request ?T (Signed w2) k2 n2 (snd (run_items ?T items t)) = (Inr (), u)"
    using assms(1,3) by (simp_all add: dispatch_def call_ok)
  have "block_number (snd (run_items ?T items t)) = block_number s"
    using run_items_same_block [OF assms(2)] dispatch_block [OF assms(1)] by simp
  then obtain f1 f2 where recorded:
      "feed_requests t = (feed_requests s)(?i \<mapsto> recorded_request ?T w1 k1 n1 (block_number s) f1)"
      "feed_requests u = (feed_requests (snd (run_items ?T items t)))
         (?i \<mapsto> recorded_request ?T w2 k2 n2 (block_number s) f2)"
    using request_effect [OF run(1)] request_effect [OF run(2)] by auto
  have "\<exists>w. dispatch ?T (Signed who) (Rollup (phat_contract_id resp)
        \<lparr>conds = [], actions = [enc action_scale (Reply (enc response_scale resp))], updates = []\<rparr> m) v = (Inr (), w)
      \<and> feed_data w = (feed_data v)((who, r) \<mapsto> response_data resp)"
    if "feed_requests v ?i = Some r" "request_id resp = ?i"
      "submitter_by_names v (phat_contract_id resp) = Some who" "length (response_data resp) \<le> 147" for v who resp m r
  proof -
    have "length (enc response_scale resp) \<le> action_bytes_bound" "length (response_data resp) \<le> value_bytes_bound"
      using that(4)
      by (simp_all add: length_enc_response length_enc_compact_cases action_bytes_bound_def value_bytes_bound_def)
    from reply_delivered [OF that(3) refl _ this(2,1), of r a b c m] that(1,2)
    show ?thesis by (auto simp: dispatch_def run_transactional_Ok)
  qed
  with recorded show ?thesis
    by (intro exI [of _ ?i] exI [of _ "recorded_request ?T w1 k1 n1 (block_number s) f1"]
        exI [of _ "recorded_request ?T w2 k2 n2 (block_number s) f2"])
      (simp add: recorded_request_def)
qed

text \<open>Two accounts with an active feed each, over the claimed name.\<close>

definition demo_feed :: api_feed where
  "demo_feed = \<lparr>started_at = 0, url = [1], path = [2], status = Active\<rparr>"

definition served :: chain_state where
  "served = claimed\<lparr>api_feeds := [(1, [1]) \<mapsto> demo_feed, (2, [1]) \<mapsto> demo_feed]\<rparr>"

lemma served_ready: "queue_ready demo_chain 42 1 served"
  using claimed_queue_ready
  by (simp add: served_def queue_ready_def queue_inv_def stored_u32_def head_pos_def tail_pos_def)

lemma served_queue: "queue_abs demo_chain 42 served = []" "tail_pos demo_chain 42 served = 0"
  by (simp_all add: served_def demo_chain_def queue_abs_def stored_u32_def head_pos_def tail_pos_def
      word_range_def List.map_filter_def)

lemma demo_keys: "m 42 \<noteq> None \<Longrightarrow> iter_keys demo_chain m = [42]"
  by (simp add: demo_chain_def)

lemma demo_feed_bounded: "feed_bounded demo_chain [1] (url demo_feed) (path demo_feed)"
  by (simp add: feed_bounded_def demo_chain_def demo_feed_def)

lemma demo_feed_active: "status_is_active (status demo_feed)"
  by (simp add: demo_feed_def status_is_active_def)

lemma served_feeds: "api_feeds served (1, [1]) = Some demo_feed" "api_feeds served (2, [1]) = Some demo_feed"
  by (simp_all add: served_def)

lemma demo_request:
  assumes "queue_ready demo_chain 42 1 s" and "api_feeds s (who, [1]) = Some demo_feed"
    and "length (queue_abs demo_chain 42 s) < 128" and "tail_pos demo_chain 42 s \<noteq> - 1"
  shows "\<exists>t. oracle_request demo_chain (Signed who) [1] n s = (Inr (), t)
    \<and> queue_abs demo_chain 42 t = queue_abs demo_chain 42 s
        @ [request_message demo_chain (block_number s) demo_feed]
    \<and> tail_pos demo_chain 42 t = tail_pos demo_chain 42 s + 1
    \<and> queue_ready demo_chain 42 1 t \<and> api_feeds t = api_feeds s"
proof -
  have "submitter_by_names s 42 \<noteq> None" using assms(1) by (simp add: queue_ready_def)
  then have "last ((\<lambda>m. if m 42 = None then [] else [42 :: H256]) (submitter_by_names s)) = 42"
      and "(\<lambda>m. if m 42 = None then [] else [42 :: H256]) (submitter_by_names s) \<noteq> []"
    by auto
  from request_success [OF assms(1) [unfolded demo_chain_def] this assms(2) demo_feed_active
      demo_feed_bounded [unfolded demo_chain_def] assms(3) [unfolded demo_chain_def] assms(4) [unfolded demo_chain_def]]
  show ?thesis unfolding demo_chain_def .
qed

theorem request_ids_collide_witness:
  "\<exists>t u v i r1 r2. dispatch demo_chain (Signed 1) (RequestFeed [1] 5) served = (Inr (), t)
     \<and> dispatch demo_chain (Signed 2) (RequestFeed [1] 6)
         (snd (run_items demo_chain [Extrinsic (Signed 2) (ClaimName 42)] t)) = (Inr (), u)
     \<and> dispatch demo_chain (Signed 1) (Rollup 42 \<lparr>conds = [], actions = [enc action_scale (Reply
         (enc response_scale \<lparr>owner = 1, phat_contract_id = 42, request_id = i, response_data = [8], timestamp_ms = 0\<rparr>))],
         updates = []\<rparr> 0) u = (Inr (), v)
     \<and> feed_requests t i = Some r1 \<and> caller r1 = 1 \<and> nonce r1 = 5
     \<and> caller r2 = 2 \<and> nonce r2 = 6 \<and> feed_data v = [(1, r2) \<mapsto> [8]]"
proof -
  obtain t where t: "oracle_request demo_chain (Signed 1) [1] 5 served = (Inr (), t)"
      "queue_ready demo_chain 42 1 t" "length (queue_abs demo_chain 42 t) = 1"
      "tail_pos demo_chain 42 t = 1" "api_feeds t = api_feeds served"
    using demo_request [OF served_ready served_feeds(1), of 5] by (auto simp: served_queue)
  obtain u where u: "oracle_request demo_chain (Signed 2) [1] 6 t = (Inr (), u)" "queue_ready demo_chain 42 1 u"
    using demo_request [OF t(2), of 2 6] t(3-5) by (auto simp: served_feeds)
  have between: "snd (run_items demo_chain [Extrinsic (Signed 2) (ClaimName 42)] t) = t"
    using t(2) by (simp add: dispatch_def claim_name_signed transactional_def queue_ready_def split: prod.split)
  have "dispatch demo_chain (Signed 1) (RequestFeed [1] 5) served = (Inr (), t)"
      "NewBlock \<notin> set [Extrinsic (Signed 2) (ClaimName 42)]"
      "dispatch demo_chain (Signed 2) (RequestFeed [1] 6)
         (snd (run_items demo_chain [Extrinsic (Signed 2) (ClaimName 42)] t)) = (Inr (), u)"
    unfolding between by (simp_all add: dispatch_def run_transactional_Ok t(1) u(1))
  note calls = this
  from request_ids_collide [OF calls [unfolded demo_chain_def], folded demo_chain_def]
  obtain i r1 r2 where i: "caller r1 = 1" "nonce r1 = 5" "caller r2 = 2" "nonce r2 = 6"
      "feed_requests t = (feed_requests served)(i \<mapsto> r1)" "feed_requests u i = Some r2"
    and answer: "\<forall>v who resp m. feed_requests v i = Some r2 \<and> request_id resp = i
         \<and> submitter_by_names v (phat_contract_id resp) = Some who \<and> length (response_data resp) \<le> 147
       \<longrightarrow> (\<exists>w. dispatch demo_chain (Signed who) (Rollup (phat_contract_id resp)
              \<lparr>conds = [], actions = [enc action_scale (Reply (enc response_scale resp))], updates = []\<rparr> m) v
              = (Inr (), w)
            \<and> feed_data w = (feed_data v)((who, r2) \<mapsto> response_data resp))"
    by (elim exE conjE) simp
  let ?resp = "\<lparr>owner = 1, phat_contract_id = 42, request_id = i, response_data = [8], timestamp_ms = 0\<rparr>"
  have "submitter_by_names u 42 = Some 1" using u(2) by (simp add: queue_ready_def)
  then obtain v where "dispatch demo_chain (Signed 1) (Rollup 42 \<lparr>conds = [],
         actions = [enc action_scale (Reply (enc response_scale ?resp))], updates = []\<rparr> 0) u = (Inr (), v)"
      "feed_data v = (feed_data u)((1, r2) \<mapsto> [8])"
    using answer [rule_format, of u ?resp 1 0] i(6) by auto
  moreover have "feed_data u = Map.empty"
    using request_data [OF u(1)] request_data [OF t(1)] by (simp add: served_def)
  moreover have "feed_requests t i = Some r1" using i(5) by simp
  ultimately show ?thesis
    using calls(1,3) i(1-4)
    by - (rule exI [of _ t], rule exI [of _ u], rule exI [of _ v], rule exI [of _ i], rule exI [of _ r1],
        rule exI [of _ r2], simp only: simp_thms)
qed

text \<open>
  A request for an active feed reaches the queue of the name it selects: if the
  feed is within the bounds and the queue of that name is well formed, not full and not
  worn out, the call succeeds, the message with the request's identifier, URL and path
  is the last of the queue, and the request is on record under the identifier.
\<close>

theorem request_reaches_queue:
  assumes "queue_ready (paraxiom a b c) name submitter s"
    and "last (c (submitter_by_names s)) = name" and "c (submitter_by_names s) \<noteq> []"
    and "api_feeds s (who, k) = Some feed" and "status_is_active (status feed)"
    and "feed_bounded (paraxiom a b c) k (url feed) (path feed)"
    and "length (queue_abs (paraxiom a b c) name s) < 128"
    and "tail_pos (paraxiom a b c) name s \<noteq> - 1"
  shows "\<exists>t req. oracle_request (paraxiom a b c) (Signed who) k n s = (Inr (), t)
    \<and> queue_abs (paraxiom a b c) name t = queue_abs (paraxiom a b c) name s
        @ [enc message_scale (fresh_request_id (paraxiom a b c) (block_number s), url feed, path feed)]
    \<and> feed_requests t (fresh_request_id (paraxiom a b c) (block_number s)) = Some req
    \<and> caller req = who \<and> registry_feed_key req = k \<and> nonce req = n"
proof -
  obtain t where t: "oracle_request (paraxiom a b c) (Signed who) k n s = (Inr (), t)"
      "queue_abs (paraxiom a b c) name t = queue_abs (paraxiom a b c) name s
         @ [request_message (paraxiom a b c) (block_number s) feed]"
    using request_success [OF assms(1) _ _ assms(4-8)] assms(2,3) by auto
  from request_effect [OF t(1)] t show ?thesis
    by (auto simp: recorded_request_def request_message_def)
qed

theorem request_reaches_queue_witness:
  "\<exists>t. oracle_request demo_chain (Signed 2) [1] 6 served = (Inr (), t)
     \<and> queue_abs demo_chain 42 t = [enc message_scale (fresh_request_id demo_chain 0, [1], [2])]"
proof -
  let ?order = "\<lambda>m. if m 42 = None then [] else [42 :: H256]"
  have "last (?order (submitter_by_names served)) = 42" "?order (submitter_by_names served) \<noteq> []"
    by (simp_all add: served_def)
  from request_reaches_queue [OF served_ready [unfolded demo_chain_def] this served_feeds(2) demo_feed_active
      demo_feed_bounded [unfolded demo_chain_def], of 6]
  have "\<exists>t. oracle_request demo_chain (Signed 2) [1] 6 served = (Inr (), t)
     \<and> queue_abs demo_chain 42 t = queue_abs demo_chain 42 served
         @ [enc message_scale (fresh_request_id demo_chain (block_number served), url demo_feed, path demo_feed)]"
    unfolding demo_chain_def [symmetric] by (auto simp: served_queue)
  then show ?thesis by (simp add: served_queue) (simp add: served_def demo_feed_def)
qed

text \<open>
  A response comes home: if the owner of a name rolls up a \<open>Reply\<close> whose bytes are
  a response record that names this contract and a recorded request, the response data
  is stored under the submitter and that request. The request stays on record, so the
  same owner may answer it again, and the last answer is the one that is kept.
\<close>

theorem response_delivered:
  assumes "submitter_by_names s name = Some who"
    and "phat_contract_id resp = name" and "feed_requests s (request_id resp) = Some req"
    and "length (response_data resp) \<le> value_bytes_bound"
    and "length (enc response_scale resp) \<le> action_bytes_bound"
  shows "\<exists>t. rollup (paraxiom a b c) (Signed who) name
      \<lparr>conds = [], actions = [enc action_scale (Reply (enc response_scale resp))], updates = []\<rparr> n s = (Inr (), t)
    \<and> feed_data t = (feed_data s)((who, req) \<mapsto> response_data resp)
    \<and> feed_requests t = feed_requests s \<and> submitter_by_names t = submitter_by_names s"
  using assms by (rule reply_delivered)

theorem response_delivered_witness:
  "\<exists>resp req t. rollup demo_chain (Signed 1) 42
      \<lparr>conds = [], actions = [enc action_scale (Reply (enc response_scale resp))], updates = []\<rparr> 0
      (claimed\<lparr>feed_requests := [7 \<mapsto> req]\<rparr>) = (Inr (), t) \<and> feed_data t (1, req) = Some [8]"
proof -
  let ?resp = "\<lparr>owner = 1, phat_contract_id = 42, request_id = 7, response_data = [8], timestamp_ms = 0\<rparr>"
  let ?req = "\<lparr>registry_feed_key = [1], caller = 3, nonce = 0, requested_data = []\<rparr>"
  have "length (enc response_scale ?resp) \<le> action_bytes_bound"
    by (simp add: length_enc_response length_enc_compact_cases action_bytes_bound_def)
  with response_delivered [of "claimed\<lparr>feed_requests := [7 \<mapsto> ?req]\<rparr>" 42 1 ?resp ?req]
  show ?thesis unfolding demo_chain_def by (fastforce simp: value_bytes_bound_def)
qed

text \<open>
  The wire format limits a response to 147 bytes: the type \<open>ResponseData\<close> admits
  2048, but an action of a rollup is at most 256 bytes, and it carries the tag of
  \<open>Reply\<close>, two lengths and the four fixed fields of the record besides the data.
\<close>

theorem response_data_limit:
  "length (enc action_scale (Reply (enc response_scale resp))) \<le> action_bytes_bound
   \<longleftrightarrow> length (response_data resp) \<le> 147"
  by (auto simp: length_enc_reply length_enc_response length_enc_compact_cases action_bytes_bound_def)

end
