(* ===== verification/Extrinsics.thy ===== *)
theory Extrinsics
  imports Chain
begin

text \<open>
  The calls of the registry, the anchor and the oracle as bytes. An extrinsic carries its
  call as the index of the pallet in the runtime (\<open>construct_runtime!\<close>), the index of
  the call in the pallet (\<open>call_index\<close>) and the arguments in order, all in the SCALE
  format. This theory gives the codecs of options, vectors and variants, the derived
  codecs of \<open>Cond\<close> and \<open>RollupTx\<close> and the codec of a call, with the law of each.

  Calls of pallets of other repositories are not decoded here: for them \<open>dec_call\<close>
  is \<open>None\<close>.
\<close>

section \<open>Pallets of the runtime\<close>

datatype pallet =
    System | ParachainSystem | Timestamp | ParachainInfo
  | Balances | TransactionPayment
  | Authorship | CollatorSelection | Session | Aura | AuraExt
  | XcmpQueue | PolkadotXcm | CumulusXcm | DmpQueue
  | Registry | RandomnessCollectiveFlip | Contracts | Assets
  | Democracy | Scheduler | Preimage
  | PhatRollupAnchor | PhatOracle

fun pallet_index :: "pallet \<Rightarrow> u8" where
  "pallet_index System = 0"
| "pallet_index ParachainSystem = 1"
| "pallet_index Timestamp = 2"
| "pallet_index ParachainInfo = 3"
| "pallet_index Balances = 10"
| "pallet_index TransactionPayment = 11"
| "pallet_index Authorship = 20"
| "pallet_index CollatorSelection = 21"
| "pallet_index Session = 22"
| "pallet_index Aura = 23"
| "pallet_index AuraExt = 24"
| "pallet_index XcmpQueue = 30"
| "pallet_index PolkadotXcm = 31"
| "pallet_index CumulusXcm = 32"
| "pallet_index DmpQueue = 33"
| "pallet_index Registry = 40"
| "pallet_index RandomnessCollectiveFlip = 50"
| "pallet_index Contracts = 51"
| "pallet_index Assets = 52"
| "pallet_index Democracy = 60"
| "pallet_index Scheduler = 61"
| "pallet_index Preimage = 62"
| "pallet_index PhatRollupAnchor = 100"
| "pallet_index PhatOracle = 101"

section \<open>Options, vectors, variants\<close>

definition u128_scale :: "u128 codec" where
  "u128_scale = word_codec 16"

definition option_codec :: "'a codec \<Rightarrow> 'a option codec" where
  "option_codec c =
     \<lparr>enc = (\<lambda>x. case x of None \<Rightarrow> [0] | Some y \<Rightarrow> 1 # enc c y),
      dec = (\<lambda>bs. case bs of
               [] \<Rightarrow> None
             | b # r \<Rightarrow>
                 (if b = 0 then Some (None, r)
                  else if b = 1 then map_option (\<lambda>(y, r'). (Some y, r')) (dec c r)
                  else None))\<rparr>"

fun dec_many :: "(bytes \<Rightarrow> ('a \<times> bytes) option) \<Rightarrow> nat \<Rightarrow> bytes \<Rightarrow> ('a list \<times> bytes) option" where
  "dec_many d 0 bs = Some ([], bs)"
| "dec_many d (Suc n) bs =
     (case d bs of
        None \<Rightarrow> None
      | Some (x, r) \<Rightarrow> map_option (\<lambda>(xs, r'). (x # xs, r')) (dec_many d n r))"

definition list_codec :: "'a codec \<Rightarrow> 'a list codec" where
  "list_codec c =
     \<lparr>enc = (\<lambda>xs. enc_compact (length xs) @ concat (map (enc c) xs)),
      dec = (\<lambda>bs. case dec_compact bs of None \<Rightarrow> None | Some (n, r) \<Rightarrow> dec_many (dec c) n r)\<rparr>"

text \<open>One variant of an enumeration: its index, then its fields.\<close>

definition variant_codec :: "u8 \<Rightarrow> 'a codec \<Rightarrow> 'a codec" where
  "variant_codec k c =
     \<lparr>enc = (\<lambda>x. k # enc c x),
      dec = (\<lambda>bs. case bs of [] \<Rightarrow> None | b # r \<Rightarrow> if b = k then dec c r else None)\<rparr>"

text \<open>A decoder yields values of \<open>V\<close> only.\<close>

definition decodes_into :: "'a codec \<Rightarrow> ('a \<Rightarrow> bool) \<Rightarrow> bool" where
  "decodes_into c V \<longleftrightarrow> (\<forall>bs x r. dec c bs = Some (x, r) \<longrightarrow> V x)"

section \<open>Laws of the combinators\<close>

lemma u128_law: "codec_ok u128_scale (\<lambda>_. True)"
  by (simp add: codec_ok_def u128_scale_def dec_word_codec)

lemma option_codec_law: "codec_ok c V \<Longrightarrow> codec_ok (option_codec c) (\<lambda>x. case x of None \<Rightarrow> True | Some y \<Rightarrow> V y)"
  by (auto simp: codec_ok_def option_codec_def split: option.split)

lemma dec_many_enc:
  "codec_ok c V \<Longrightarrow> list_all V xs \<Longrightarrow> dec_many (dec c) (length xs) (concat (map (enc c) xs) @ r) = Some (xs, r)"
  by (induction xs) (simp_all add: codec_ok_def)

lemma list_codec_law:
  "codec_ok c V \<Longrightarrow> codec_ok (list_codec c) (\<lambda>xs. length xs < 4294967296 \<and> list_all V xs)"
proof -
  assume law: "codec_ok c V"
  show ?thesis
    unfolding codec_ok_def
    by (auto simp: list_codec_def dec_compact_enc dec_many_enc [OF law])
qed

lemma variant_codec_law: "codec_ok c V \<Longrightarrow> codec_ok (variant_codec k c) V"
  by (simp add: codec_ok_def variant_codec_def)

lemma vec_into: "decodes_into (vec_scale bound) (\<lambda>xs. length xs \<le> bound)"
  by (auto simp: decodes_into_def vec_scale_def dec_bounded_vec_def split: option.splits if_splits)

lemma any_into: "decodes_into c (\<lambda>_. True)"
  by (simp add: decodes_into_def)

lemma option_into: "decodes_into c V \<Longrightarrow> decodes_into (option_codec c) (\<lambda>x. case x of None \<Rightarrow> True | Some y \<Rightarrow> V y)"
  unfolding decodes_into_def option_codec_def by (auto split: list.splits if_splits) blast

lemma pair_into:
  "decodes_into c V \<Longrightarrow> decodes_into d W \<Longrightarrow> decodes_into (pair_codec c d) (\<lambda>(x, y). V x \<and> W y)"
  by (fastforce simp: decodes_into_def pair_codec_def split: option.splits)

lemma dec_many_into:
  "decodes_into c V \<Longrightarrow> dec_many (dec c) n bs = Some (xs, r) \<Longrightarrow> list_all V xs"
  unfolding decodes_into_def
  by (induction n arbitrary: bs xs) (fastforce split: option.splits)+

lemma list_into: "decodes_into c V \<Longrightarrow> decodes_into (list_codec c) (list_all V)"
proof -
  assume "decodes_into c V"
  then have "list_all V xs" if "dec_many (dec c) n bs = Some (xs, r)" for n bs xs r
    using that by (rule dec_many_into)
  then show ?thesis
    by (auto simp: decodes_into_def list_codec_def split: option.splits)
qed

lemma variant_into: "decodes_into c V \<Longrightarrow> decodes_into (variant_codec k c) V"
  by (auto simp: decodes_into_def variant_codec_def split: list.splits if_splits)

lemma via_into: "decodes_into c V \<Longrightarrow> decodes_into (via_codec f g c) (\<lambda>y. \<exists>x. y = g x \<and> V x)"
  by (auto simp: decodes_into_def via_codec_def)

lemma decodes_into_mono: "decodes_into c V \<Longrightarrow> (\<And>x. V x \<Longrightarrow> W x) \<Longrightarrow> decodes_into c W"
  by (auto simp: decodes_into_def)

lemma decodes_intoD: "decodes_into c V \<Longrightarrow> dec c bs = Some (x, r) \<Longrightarrow> V x"
  by (auto simp: decodes_into_def)

section \<open>Rollup transactions\<close>

definition cond_scale :: "cond codec" where
  "cond_scale = variant_codec 0
     (via_codec (\<lambda>c. case c of Eq key v \<Rightarrow> (key, v)) (\<lambda>(key, v). Eq key v)
       (pair_codec (vec_scale key_bytes_bound) (option_codec (vec_scale value_bytes_bound))))"

definition update_scale :: "(KeyBytes \<times> ValueBytes option) codec" where
  "update_scale = pair_codec (vec_scale key_bytes_bound) (option_codec (vec_scale value_bytes_bound))"

definition rollup_tx_scale :: "rollup_tx codec" where
  "rollup_tx_scale =
     via_codec (\<lambda>tx. (conds tx, actions tx, updates tx))
       (\<lambda>(cs, as, us). \<lparr>conds = cs, actions = as, updates = us\<rparr>)
       (pair_codec (list_codec cond_scale)
         (pair_codec (list_codec (vec_scale action_bytes_bound)) (list_codec update_scale)))"

section \<open>Calls\<close>

definition register_args :: "chain_config \<Rightarrow> (bytes \<times> bytes \<times> bytes) codec" where
  "register_args T = pair_codec (vec_scale (unat (max_key_size T)))
     (pair_codec (vec_scale (unat (max_url_size T))) (vec_scale (unat (max_path_size T))))"

definition rollup_args :: "(H256 \<times> rollup_tx \<times> u128) codec" where
  "rollup_args = pair_codec h256_scale (pair_codec rollup_tx_scale u128_scale)"

definition request_args :: "chain_config \<Rightarrow> (bytes \<times> u128) codec" where
  "request_args T = pair_codec (vec_scale (unat (max_key_size T))) u128_scale"

definition feeds_args :: "(H256 \<times> bytes \<times> u128) codec" where
  "feeds_args = pair_codec h256_scale (pair_codec (vec_scale 64) u128_scale)"

definition enc_call :: "chain_config \<Rightarrow> call_of_chain \<Rightarrow> bytes" where
  "enc_call T c =
     (case c of
        RegisterFeed key u p \<Rightarrow> pallet_index Registry # 0 # enc (register_args T) (key, u, p)
      | UnregisterFeed key \<Rightarrow> pallet_index Registry # 1 # enc (vec_scale (unat (max_key_size T))) key
      | ClaimName name \<Rightarrow> pallet_index PhatRollupAnchor # 0 # enc h256_scale name
      | Rollup name tx n \<Rightarrow> pallet_index PhatRollupAnchor # 1 # enc rollup_args (name, tx, n)
      | RequestFeed key n \<Rightarrow> pallet_index PhatOracle # 0 # enc (request_args T) (key, n)
      | Feeds name data n \<Rightarrow> pallet_index PhatOracle # 1 # enc feeds_args (name, data, n)
      | Average \<Rightarrow> [pallet_index PhatOracle, 2])"

definition dec_registry_call :: "chain_config \<Rightarrow> u8 \<Rightarrow> bytes \<Rightarrow> (call_of_chain \<times> bytes) option" where
  "dec_registry_call T i r =
     (if i = 0 then map_option (\<lambda>((key, u, p), r'). (RegisterFeed key u p, r')) (dec (register_args T) r)
      else if i = 1 then map_option (\<lambda>(key, r'). (UnregisterFeed key, r')) (dec (vec_scale (unat (max_key_size T))) r)
      else None)"

definition dec_anchor_call :: "u8 \<Rightarrow> bytes \<Rightarrow> (call_of_chain \<times> bytes) option" where
  "dec_anchor_call i r =
     (if i = 0 then map_option (\<lambda>(name, r'). (ClaimName name, r')) (dec h256_scale r)
      else if i = 1 then map_option (\<lambda>((name, tx, n), r'). (Rollup name tx n, r')) (dec rollup_args r)
      else None)"

definition dec_oracle_call :: "chain_config \<Rightarrow> u8 \<Rightarrow> bytes \<Rightarrow> (call_of_chain \<times> bytes) option" where
  "dec_oracle_call T i r =
     (if i = 0 then map_option (\<lambda>((key, n), r'). (RequestFeed key n, r')) (dec (request_args T) r)
      else if i = 1 then map_option (\<lambda>((name, data, n), r'). (Feeds name data n, r')) (dec feeds_args r)
      else if i = 2 then Some (Average, r)
      else None)"

definition dec_call :: "chain_config \<Rightarrow> bytes \<Rightarrow> (call_of_chain \<times> bytes) option" where
  "dec_call T bs =
     (case bs of
        p # i # r \<Rightarrow>
          (if p = pallet_index Registry then dec_registry_call T i r
           else if p = pallet_index PhatRollupAnchor then dec_anchor_call i r
           else if p = pallet_index PhatOracle then dec_oracle_call T i r
           else None)
      | _ \<Rightarrow> None)"

definition call_scale :: "chain_config \<Rightarrow> call_of_chain codec" where
  "call_scale T = \<lparr>enc = enc_call T, dec = dec_call T\<rparr>"

text \<open>The counts of a transaction's vectors fit the compact format used here.\<close>

definition counts_fit :: "call_of_chain \<Rightarrow> bool" where
  "counts_fit c \<longleftrightarrow>
     (case c of
        Rollup name tx n \<Rightarrow> length (conds tx) < 4294967296 \<and> length (actions tx) < 4294967296
          \<and> length (updates tx) < 4294967296
      | _ \<Rightarrow> True)"

section \<open>Laws of the calls\<close>

lemma pallet_index_inject: "pallet_index p = pallet_index q \<longleftrightarrow> p = q"
  by (cases p; cases q) simp_all

lemma short_vec_u32: "short_vec (unat (n :: u32)) xs \<longleftrightarrow> length xs \<le> unat n"
  using unsigned_less [of n, where 'a = nat] by (auto simp: short_vec_def)

lemma update_law: "codec_ok update_scale update_bounded"
  unfolding update_scale_def
  by (rule codec_ok_mono [OF pair_codec_law [OF vec_law option_codec_law [OF vec_law]]])
    (auto simp: update_bounded_def short_vec_def key_bytes_bound_def value_bytes_bound_def split: option.splits)

lemma cond_law: "codec_ok cond_scale cond_bounded"
  unfolding cond_scale_def
  by (rule variant_codec_law, rule codec_ok_mono [OF via_codec_law [OF pair_codec_law [OF vec_law option_codec_law [OF vec_law]]]])
    (auto simp: cond_bounded_def short_vec_def key_bytes_bound_def value_bytes_bound_def split: option.splits cond.splits)

lemma rollup_tx_law:
  "codec_ok rollup_tx_scale (\<lambda>tx. list_all cond_bounded (conds tx) \<and> list_all update_bounded (updates tx)
     \<and> list_all (\<lambda>a. length a \<le> action_bytes_bound) (actions tx)
     \<and> length (conds tx) < 4294967296 \<and> length (actions tx) < 4294967296 \<and> length (updates tx) < 4294967296)"
  unfolding rollup_tx_scale_def
  by (rule codec_ok_mono [OF via_codec_law [OF pair_codec_law [OF list_codec_law [OF cond_law]
        pair_codec_law [OF list_codec_law [OF vec_law] list_codec_law [OF update_law]]]]])
    (auto simp: list_all_iff short_vec_def action_bytes_bound_def)

lemmas args_law = pair_codec_law [OF vec_law pair_codec_law [OF vec_law vec_law]]
  pair_codec_law [OF h256_codec.law pair_codec_law [OF rollup_tx_law u128_law]]
  pair_codec_law [OF vec_law u128_law]
  pair_codec_law [OF h256_codec.law pair_codec_law [OF vec_law u128_law]]

lemma call_law: "codec_ok (call_scale T) (\<lambda>c. call_bounded T c \<and> counts_fit c)"
  unfolding codec_ok_def
proof (intro allI impI)
  fix c r
  assume valid: "call_bounded T c \<and> counts_fit c"
  show "dec (call_scale T) (enc (call_scale T) c @ r) = Some (c, r)"
  proof (cases c)
    case (RegisterFeed key u p)
    with valid have "dec (register_args T) (enc (register_args T) (key, u, p) @ r) = Some ((key, u, p), r)"
      unfolding register_args_def
      by (intro codec_okD [OF args_law(1)]) (simp add: call_bounded_def feed_bounded_def short_vec_u32)
    with RegisterFeed show ?thesis
      by (simp add: call_scale_def enc_call_def dec_call_def dec_registry_call_def)
  next
    case (UnregisterFeed key)
    with valid have "dec (vec_scale (unat (max_key_size T))) (enc (vec_scale (unat (max_key_size T))) key @ r) = Some (key, r)"
      by (intro codec_okD [OF vec_law]) (simp add: call_bounded_def short_vec_u32)
    with UnregisterFeed show ?thesis
      by (simp add: call_scale_def enc_call_def dec_call_def dec_registry_call_def)
  next
    case (ClaimName name)
    then show ?thesis
      by (simp add: call_scale_def enc_call_def dec_call_def dec_anchor_call_def h256_codec.dec_enc)
  next
    case (Rollup name tx n)
    with valid have "dec rollup_args (enc rollup_args (name, tx, n) @ r) = Some ((name, tx, n), r)"
      unfolding rollup_args_def
      by (intro codec_okD [OF args_law(2)]) (simp add: call_bounded_def counts_fit_def)
    with Rollup show ?thesis
      by (simp add: call_scale_def enc_call_def dec_call_def dec_anchor_call_def)
  next
    case (RequestFeed key n)
    with valid have "dec (request_args T) (enc (request_args T) (key, n) @ r) = Some ((key, n), r)"
      unfolding request_args_def
      by (intro codec_okD [OF args_law(3)]) (simp add: call_bounded_def short_vec_u32)
    with RequestFeed show ?thesis
      by (simp add: call_scale_def enc_call_def dec_call_def dec_oracle_call_def)
  next
    case (Feeds name data n)
    with valid have "dec feeds_args (enc feeds_args (name, data, n) @ r) = Some ((name, data, n), r)"
      unfolding feeds_args_def
      by (intro codec_okD [OF args_law(4)]) (simp add: call_bounded_def short_vec_def)
    with Feeds show ?thesis
      by (simp add: call_scale_def enc_call_def dec_call_def dec_oracle_call_def)
  next
    case Average
    then show ?thesis
      by (simp add: call_scale_def enc_call_def dec_call_def dec_oracle_call_def)
  qed
qed

interpretation call_wire: scale_codec "call_scale T" "\<lambda>c. call_bounded T c \<and> counts_fit c" for T
  using call_law by (simp add: codec_ok_iff_locale)

section \<open>What decoding yields\<close>

lemma update_into: "decodes_into update_scale update_bounded"
  unfolding update_scale_def
  by (rule decodes_into_mono [OF pair_into [OF vec_into option_into [OF vec_into]]])
    (auto simp: update_bounded_def split: option.splits)

lemma cond_into: "decodes_into cond_scale cond_bounded"
  unfolding cond_scale_def
  by (rule variant_into, rule decodes_into_mono [OF via_into [OF pair_into [OF vec_into option_into [OF vec_into]]]])
    (auto simp: cond_bounded_def split: option.splits)

lemma rollup_tx_into:
  "decodes_into rollup_tx_scale (\<lambda>tx. list_all cond_bounded (conds tx) \<and> list_all update_bounded (updates tx)
     \<and> list_all (\<lambda>a. length a \<le> action_bytes_bound) (actions tx))"
  unfolding rollup_tx_scale_def
  by (rule decodes_into_mono [OF via_into [OF pair_into [OF list_into [OF cond_into]
        pair_into [OF list_into [OF vec_into] list_into [OF update_into]]]]]) auto

lemmas args_into = pair_into [OF vec_into pair_into [OF vec_into vec_into]]
  pair_into [OF any_into pair_into [OF rollup_tx_into any_into]]
  pair_into [OF vec_into any_into]
  pair_into [OF any_into pair_into [OF vec_into any_into]]

lemma registry_call_into: "dec_registry_call T i bs = Some (c, r) \<Longrightarrow> call_bounded T c"
  by (auto simp: dec_registry_call_def call_bounded_def feed_bounded_def register_args_def
      split: if_splits dest!: decodes_intoD [OF args_into(1)] decodes_intoD [OF vec_into])

lemma anchor_call_into: "dec_anchor_call i bs = Some (c, r) \<Longrightarrow> call_bounded T c"
  by (auto simp: dec_anchor_call_def call_bounded_def rollup_args_def
      split: if_splits dest!: decodes_intoD [OF args_into(2)])

lemma oracle_call_into: "dec_oracle_call T i bs = Some (c, r) \<Longrightarrow> call_bounded T c"
  unfolding dec_oracle_call_def request_args_def feeds_args_def
  by (auto simp: call_bounded_def split: if_splits
      dest: decodes_intoD [OF args_into(3)] decodes_intoD [OF args_into(4)])

lemma call_into: "decodes_into (call_scale T) (call_bounded T)"
  by (auto simp: decodes_into_def call_scale_def dec_call_def split: list.splits if_splits
      dest: registry_call_into anchor_call_into oracle_call_into)

end
