(* ===== verification/Clients.thy ===== *)
theory Clients
  imports Extrinsics
begin

text \<open>
  The clients of the anchor: contracts that read a snapshot of their name's store, compute
  off the chain and submit what they computed as a rollup transaction. The glue between a
  client's session and the pallet is the one in the test module of
  \<open>src/pallets/offchain-rollup/src/anchor.rs\<close> (\<open>ChainStorage::get\<close> and
  \<open>rollup_tx\<close>); the session library itself is outside the repository, so what it
  resolves a session to is a parameter.

  A \<open>client\<close> is an optimistic session: it reads some keys, computes from the values
  read, and sends those values as its conditions. \<open>sched_step\<close> interleaves any number of
  clients with each other, with other calls and with new blocks; \<open>serial\<close> is the
  schedule in which every accepted session runs without interruption.
\<close>

section \<open>Sessions\<close>

text \<open>What the session library resolves a session to.\<close>

record session_output =
  so_conditions :: "(bytes \<times> bytes option) list"
  so_updates :: "(bytes \<times> bytes option) list"
  so_queue_head :: "u32 option"

text \<open>\<open>KvSnapshot::get\<close> of the chain's storage; a key beyond the bound panics.\<close>

definition snapshot_get ::
    "H256 \<Rightarrow> bytes \<Rightarrow> ('e, ('ev, 'acc, 'm) anchor_state_scheme, bytes option) call" where
  "snapshot_get name key =
     seq (expect (try_bounded key_bytes_bound key)) (\<lambda>k. gets (\<lambda>s. states s (name, k)))"

text \<open>\<open>bvec\<close>: a bounded vector of the bytes that fit.\<close>

definition bvec :: "nat \<Rightarrow> bytes \<Rightarrow> bytes" where
  "bvec bound raw = take bound raw"

definition bounded_entry :: "bytes \<times> bytes option \<Rightarrow> (KeyBytes \<times> ValueBytes option) option" where
  "bounded_entry e =
     (case e of (k, v) \<Rightarrow>
        (case try_bounded key_bytes_bound k of
           None \<Rightarrow> None
         | Some k' \<Rightarrow>
             (case v of
                None \<Rightarrow> Some (k', None)
              | Some w \<Rightarrow> map_option (\<lambda>w'. (k', Some w')) (try_bounded value_bytes_bound w))))"

definition session_rollup_tx ::
    "('tx \<Rightarrow> session_output option) \<Rightarrow> (session_output \<Rightarrow> bool) \<Rightarrow> 'tx \<Rightarrow>
     ('e, 's, rollup_tx option) call" where
  "session_rollup_tx resolve has_updates tx =
     (case resolve tx of
        None \<Rightarrow> ret None
      | Some out \<Rightarrow>
          if \<not> has_updates out then ret None
          else seq (expect (those (map bounded_entry (so_conditions out)))) (\<lambda>cs.
               seq (expect (those (map bounded_entry (so_updates out)))) (\<lambda>us.
               ret (Some \<lparr>conds = map (\<lambda>(k, v). Eq k v) cs,
                          actions = (case so_queue_head out of
                              None \<Rightarrow> []
                            | Some head \<Rightarrow> [bvec action_bytes_bound (enc action_scale (SetQueueHead head))]),
                          updates = us\<rparr>))))"

section \<open>Clients and schedules\<close>

record client =
  client_account :: AccountId
  client_name :: H256
  client_reads :: "KeyBytes list"
  client_compute :: "ValueBytes option list \<Rightarrow> (bytes \<times> bytes option) list \<times> u32 option"

definition client_output :: "client \<Rightarrow> (KeyBytes \<Rightarrow> ValueBytes option) \<Rightarrow> session_output" where
  "client_output c snap =
     (case client_compute c (map snap (client_reads c)) of (upds, head) \<Rightarrow>
        \<lparr>so_conditions = map (\<lambda>k. (k, snap k)) (client_reads c), so_updates = upds, so_queue_head = head\<rparr>)"

text \<open>The call a client submits, if its session ends in a transaction.\<close>

definition client_call ::
    "(session_output \<Rightarrow> bool) \<Rightarrow> client \<Rightarrow> (KeyBytes \<Rightarrow> ValueBytes option) \<Rightarrow> u128 \<Rightarrow> call_of_chain option" where
  "client_call has_updates c snap n =
     (case session_rollup_tx Some has_updates (client_output c snap) () :: (unit fault + rollup_tx option) \<times> unit of
        (Inr (Some tx), _) \<Rightarrow> Some (Rollup (client_name c) tx n)
      | _ \<Rightarrow> None)"

datatype sched_op = Begin nat | Commit nat u128 | OtherCall "AccountId origin" call_of_chain | NextBlock

type_synonym snapshots = "nat \<Rightarrow> KeyBytes \<Rightarrow> ValueBytes option"

definition store_of :: "H256 \<Rightarrow> chain_state \<Rightarrow> KeyBytes \<Rightarrow> ValueBytes option" where
  "store_of name s = (\<lambda>k. states s (name, k))"

text \<open>A commit's outcome: the result and the storage of the call, if there is a call.\<close>

definition commit_result ::
    "chain_config \<Rightarrow> (session_output \<Rightarrow> bool) \<Rightarrow> client \<Rightarrow> (KeyBytes \<Rightarrow> ValueBytes option) \<Rightarrow> u128 \<Rightarrow>
     chain_state \<Rightarrow> bool \<times> chain_state" where
  "commit_result T has_updates c snap n s =
     (case client_call has_updates c snap n of
        None \<Rightarrow> (False, s)
      | Some call \<Rightarrow> (case dispatch T (Signed (client_account c)) call s of (r, t) \<Rightarrow> (\<not> isl r, t)))"

fun sched_step ::
    "chain_config \<Rightarrow> (session_output \<Rightarrow> bool) \<Rightarrow> (nat \<Rightarrow> client) \<Rightarrow> sched_op \<Rightarrow>
     chain_state \<times> snapshots \<Rightarrow> chain_state \<times> snapshots" where
  "sched_step T has_updates cl (Begin i) (s, sn) = (s, sn(i := store_of (client_name (cl i)) s))"
| "sched_step T has_updates cl (Commit i n) (s, sn) = (snd (commit_result T has_updates (cl i) (sn i) n s), sn)"
| "sched_step T has_updates cl (OtherCall origin call) (s, sn) = (snd (dispatch T origin call s), sn)"
| "sched_step T has_updates cl NextBlock (s, sn) = (next_block s, sn)"

definition run_sched ::
    "chain_config \<Rightarrow> (session_output \<Rightarrow> bool) \<Rightarrow> (nat \<Rightarrow> client) \<Rightarrow> sched_op list \<Rightarrow>
     chain_state \<times> snapshots \<Rightarrow> chain_state \<times> snapshots" where
  "run_sched T has_updates cl ops st = fold (sched_step T has_updates cl) ops st"

text \<open>
  The serial schedule: rejected commits are left out, every accepted one follows its own
  reading of the store at once, everything else stays where it is.
\<close>

fun serial_op ::
    "chain_config \<Rightarrow> (session_output \<Rightarrow> bool) \<Rightarrow> (nat \<Rightarrow> client) \<Rightarrow> sched_op \<Rightarrow> chain_state \<times> snapshots \<Rightarrow>
     sched_op list" where
  "serial_op T has_updates cl (Begin i) st = []"
| "serial_op T has_updates cl (Commit i n) (s, sn) =
     (if fst (commit_result T has_updates (cl i) (sn i) n s) then [Begin i, Commit i n] else [])"
| "serial_op T has_updates cl (OtherCall origin call) st = [OtherCall origin call]"
| "serial_op T has_updates cl NextBlock st = [NextBlock]"

fun serial ::
    "chain_config \<Rightarrow> (session_output \<Rightarrow> bool) \<Rightarrow> (nat \<Rightarrow> client) \<Rightarrow> sched_op list \<Rightarrow> chain_state \<times> snapshots \<Rightarrow>
     sched_op list" where
  "serial T has_updates cl [] st = []"
| "serial T has_updates cl (op # ops) st =
     serial_op T has_updates cl op st @ serial T has_updates cl ops (sched_step T has_updates cl op st)"

text \<open>Every commit of the schedule is accepted, and has just read the store.\<close>

fun commits_fresh ::
    "chain_config \<Rightarrow> (session_output \<Rightarrow> bool) \<Rightarrow> (nat \<Rightarrow> client) \<Rightarrow> sched_op list \<Rightarrow> chain_state \<times> snapshots \<Rightarrow>
     bool" where
  "commits_fresh T has_updates cl [] st \<longleftrightarrow> True"
| "commits_fresh T has_updates cl (op # ops) (s, sn) \<longleftrightarrow>
     (case op of
        Commit i n \<Rightarrow> fst (commit_result T has_updates (cl i) (sn i) n s) \<and> sn i = store_of (client_name (cl i)) s
      | _ \<Rightarrow> True) \<and>
     commits_fresh T has_updates cl ops (sched_step T has_updates cl op (s, sn))"

section \<open>What a session submits\<close>

lemma bounded_entry_Some: "bounded_entry e = Some e' \<Longrightarrow> e' = e \<and> update_bounded e"
  by (cases e) (auto simp: bounded_entry_def update_bounded_def try_bounded_Some split: option.splits)

lemma those_bounded:
  "those (map bounded_entry es) = Some es' \<Longrightarrow> es' = es \<and> list_all update_bounded es"
  by (induction es arbitrary: es') (auto dest: bounded_entry_Some split: option.splits)

lemma client_callE:
  assumes "client_call has_updates c snap n = Some call"
  obtains tx where "call = Rollup (client_name c) tx n"
    and "conds tx = map (\<lambda>k. Eq k (snap k)) (client_reads c)"
    and "list_all cond_bounded (conds tx)" and "list_all update_bounded (updates tx)"
    and "list_all (\<lambda>a. length a \<le> action_bytes_bound) (actions tx)"
proof -
  obtain upds head where out: "client_compute c (map snap (client_reads c)) = (upds, head)"
    by fastforce
  let ?cs = "map (\<lambda>k. (k, snap k)) (client_reads c)"
  from assms obtain cs us where
      tx: "call = Rollup (client_name c) \<lparr>conds = map (\<lambda>(k, v). Eq k v) cs,
        actions = (case head of None \<Rightarrow> [] | Some h \<Rightarrow> [bvec action_bytes_bound (enc action_scale (SetQueueHead h))]),
        updates = us\<rparr> n"
    and cs: "those (map bounded_entry ?cs) = Some cs"
    and us: "those (map bounded_entry upds) = Some us"
    by (auto simp: client_call_def session_rollup_tx_def client_output_def out ret_def seq_def expect_def
        split: if_splits option.splits sum.splits prod.splits)
  have "cs = ?cs" "list_all update_bounded ?cs" "list_all update_bounded us"
    using those_bounded [OF cs] those_bounded [OF us] by auto
  then show thesis
    by (intro that [OF tx])
      (auto simp: list_all_iff cond_bounded_def update_bounded_def bvec_def split: option.splits)
qed

lemma snapshot_get_run:
  "snapshot_get name key s = (if length key \<le> key_bytes_bound then (Inr (states s (name, key)), s) else (Inl Panic, s))"
  by (simp add: snapshot_get_def try_bounded_def call_simps)

text \<open>Every call a client submits is one the chain can decode.\<close>

lemma client_call_bounded: "client_call has_updates c snap n = Some call \<Longrightarrow> call_bounded T call"
  by (erule client_callE) (simp add: call_bounded_def)

text \<open>A commit that is accepted computed from the store as it is.\<close>

lemma commit_accepted_fresh:
  assumes "commit_result T has_updates c snap n s = (True, t)"
  shows "client_output c snap = client_output c (store_of (client_name c) s)"
proof -
  from assms obtain call where call: "client_call has_updates c snap n = Some call"
      and ok: "dispatch T (Signed (client_account c)) call s = (Inr (), t)"
    by (auto simp: commit_result_def split: option.splits prod.splits sum.splits) (metis old.unit.exhaust sum.collapse(2))
  from call obtain tx where tx: "call = Rollup (client_name c) tx n"
      "conds tx = map (\<lambda>k. Eq k (snap k)) (client_reads c)"
    by (rule client_callE)
  from ok have "rollup T (Signed (client_account c)) (client_name c) tx n s = (Inr (), t)"
    by (simp add: tx(1) dispatch_def call_ok)
  then have "\<forall>x \<in> set (conds tx). cond_holds (client_name c) s x"
    by (rule rollup_OkE)
  then have "\<forall>k \<in> set (client_reads c). snap k = store_of (client_name c) s k"
    by (auto simp: tx(2) store_of_def)
  then have "map snap (client_reads c) = map (store_of (client_name c) s) (client_reads c)"
    "map (\<lambda>k. (k, snap k)) (client_reads c) = map (\<lambda>k. (k, store_of (client_name c) s k)) (client_reads c)"
    by simp_all
  then show ?thesis by (simp only: client_output_def)
qed

lemma commit_result_output:
  "client_output c snap = client_output c snap' \<Longrightarrow>
   commit_result T has_updates c snap n s = commit_result T has_updates c snap' n s"
  by (simp add: commit_result_def client_call_def)

lemma commit_accepted_current:
  "commit_result T has_updates c snap n s = (True, t) \<Longrightarrow>
   commit_result T has_updates c (store_of (client_name c) s) n s = (True, t)"
  using commit_result_output [OF commit_accepted_fresh] by metis

lemma commit_refused: "commit_result T has_updates c snap n s = (False, t) \<Longrightarrow> t = s"
  by (auto simp: commit_result_def split: option.splits prod.splits sum.splits dest: dispatch_fault)
    (metis dispatch_fault isl_def)

section \<open>The serial schedule\<close>

lemma serial_op_same:
  "fst (fold (sched_step T has_updates cl) (serial_op T has_updates cl op (s, sn)) (s, sn')) =
   fst (sched_step T has_updates cl op (s, sn))"
proof (cases op)
  case (Commit i n)
  show ?thesis
  proof (cases "commit_result T has_updates (cl i) (sn i) n s")
    case (Pair accepted t)
    show ?thesis
    proof (cases accepted)
      case True
      with Pair commit_accepted_current [of T has_updates "cl i" "sn i" n s t] show ?thesis
        by (simp add: Commit)
    next
      case False
      with Pair commit_refused [of T has_updates "cl i" "sn i" n s t] show ?thesis
        by (simp add: Commit)
    qed
  qed
qed simp_all

lemma serial_same:
  "fst (run_sched T has_updates cl (serial T has_updates cl ops (s, sn)) (s, sn')) =
   fst (run_sched T has_updates cl ops (s, sn))"
proof (induction ops arbitrary: s sn sn')
  case Nil
  show ?case by (simp add: run_sched_def)
next
  case (Cons op ops)
  obtain t tn where step: "sched_step T has_updates cl op (s, sn) = (t, tn)" by fastforce
  obtain u un where first: "fold (sched_step T has_updates cl) (serial_op T has_updates cl op (s, sn)) (s, sn') = (u, un)"
    by fastforce
  have "u = t" using serial_op_same [of T has_updates cl op s sn sn'] step first by simp
  with Cons.IH [of t tn un] step first show ?case
    by (simp add: run_sched_def)
qed

lemma commits_fresh_append:
  "commits_fresh T has_updates cl (xs @ ys) st \<longleftrightarrow>
   commits_fresh T has_updates cl xs st \<and> commits_fresh T has_updates cl ys (fold (sched_step T has_updates cl) xs st)"
  by (induction T has_updates cl xs st rule: commits_fresh.induct) auto

lemma serial_op_fresh: "commits_fresh T has_updates cl (serial_op T has_updates cl op (s, sn)) (s, sn')"
proof (cases op)
  case (Commit i n)
  show ?thesis
  proof (cases "commit_result T has_updates (cl i) (sn i) n s")
    case (Pair accepted t)
    with commit_accepted_current [of T has_updates "cl i" "sn i" n s t] show ?thesis
      by (cases accepted) (simp_all add: Commit)
  qed
qed simp_all

lemma serial_fresh: "commits_fresh T has_updates cl (serial T has_updates cl ops (s, sn)) (s, sn')"
proof (induction ops arbitrary: s sn sn')
  case Nil
  show ?case by simp
next
  case (Cons op ops)
  obtain t tn where step: "sched_step T has_updates cl op (s, sn) = (t, tn)" by fastforce
  obtain u un where first: "fold (sched_step T has_updates cl) (serial_op T has_updates cl op (s, sn)) (s, sn') = (u, un)"
    by fastforce
  have "u = t" using serial_op_same [of T has_updates cl op s sn sn'] step first by simp
  with Cons.IH [of t tn un] step first serial_op_fresh [of T has_updates cl op s sn sn'] show ?case
    by (simp add: commits_fresh_append)
qed

end
