(* ===== verification/Clients_Properties.thy ===== *)
theory Clients_Properties
  imports Clients Demo_Chain
begin

text \<open>
  The properties of the calls as bytes and of the optimistic clients, applied to the
  chain of \<open>Demo_Chain\<close>.
\<close>

section \<open>Calls as bytes\<close>

text \<open>
  C25. The type of a call is established by decoding it: whatever bytes an extrinsic
  carries, if they decode to a call of the registry, the anchor or the oracle, then every
  bounded vector of the call is within its bound, so dispatching it from any origin leads
  from a reachable storage to a reachable one and all invariants of the chain hold.
\<close>

theorem decoded_calls_bounded:
  assumes "dec (call_scale T) bs = Some (call, rest)" and "reachable T s"
  shows "call_bounded T call \<and> reachable T (snd (dispatch T origin call s))"
  using decodes_intoD [OF call_into assms(1)] reachable_call [OF assms(2)] by blast

definition one_write :: call_of_chain where
  "one_write = Rollup 42 \<lparr>conds = [], actions = [], updates = [([9], Some [5])]\<rparr> 3"

theorem decoded_calls_bounded_witness:
  "dec (call_scale demo_chain) (enc (call_scale demo_chain) one_write @ [8]) = Some (one_write, [8]) \<and>
   reachable demo_chain (snd (dispatch demo_chain (Signed 1) one_write claimed))"
proof -
  have "call_bounded demo_chain one_write \<and> counts_fit one_write"
    by (simp add: one_write_def call_bounded_def counts_fit_def update_bounded_def key_bytes_bound_def
        value_bytes_bound_def)
  then have "dec (call_scale demo_chain) (enc (call_scale demo_chain) one_write @ [8]) = Some (one_write, [8])"
    by (rule call_wire.dec_enc)
  from decoded_calls_bounded [OF this claimed_reachable, of "Signed 1"] this show ?thesis by blast
qed

text \<open>
  C24. Calls survive the wire: a call whose vectors are within their bounds is read back
  from its bytes, whatever follows them, and two different calls never share an encoding
  nor is one encoding a prefix of the other.
\<close>

theorem call_wire_roundtrip:
  assumes "call_bounded T call" and "counts_fit call"
  shows "dec (call_scale T) (enc (call_scale T) call @ rest) = Some (call, rest) \<and>
    (\<forall>other rest'. call_bounded T other \<and> counts_fit other \<and>
       enc (call_scale T) call @ rest = enc (call_scale T) other @ rest' \<longrightarrow> other = call \<and> rest' = rest)"
  using assms call_wire.dec_enc call_wire.enc_prefix_free by blast

theorem call_wire_roundtrip_witness:
  "dec (call_scale demo_chain) (enc (call_scale demo_chain) (RequestFeed [1, 2] 7) @ [3]) =
     Some (RequestFeed [1, 2] 7, [3])"
proof -
  have "call_bounded demo_chain (RequestFeed [1, 2] 7)" "counts_fit (RequestFeed [1, 2] 7)"
    by (simp_all add: call_bounded_def counts_fit_def demo_chain_def)
  from call_wire_roundtrip [OF this, of "[3]"] show ?thesis by blast
qed

section \<open>Optimistic clients\<close>

text \<open>
  C5. Rollup sessions are serializable. Take any interleaving of clients that read
  snapshots, compute and commit (for any names, several sessions of one client too), of
  other calls and of blocks. The storage it ends in is the one of the serial schedule, in
  which rejected commits do not happen and each accepted session reads the store
  immediately before it commits; in that schedule every session is accepted.
\<close>

theorem sessions_serializable:
  "fst (run_sched T has_updates cl ops (s, sn)) =
     fst (run_sched T has_updates cl (serial T has_updates cl ops (s, sn)) (s, sn')) \<and>
   commits_fresh T has_updates cl (serial T has_updates cl ops (s, sn)) (s, sn')"
  using serial_same serial_fresh by metis

text \<open>Two clients that count in one key: each reads it and writes one more.\<close>

definition counter :: client where
  "counter = \<lparr>client_account = 1, client_name = 42, client_reads = [[9]],
     client_compute = (\<lambda>vs. case vs of
         [Some [n]] \<Rightarrow> ([([9], Some [n + 1])], None)
       | _ \<Rightarrow> ([([9], Some [1])], None))\<rparr>"

definition always :: "session_output \<Rightarrow> bool" where
  "always out \<longleftrightarrow> True"

definition race :: "sched_op list" where
  "race = [Begin 0, Begin 1, Commit 0 0, Commit 1 0]"

lemma counter_sel: "client_account counter = 1" "client_name counter = 42"
  by (simp_all add: counter_def)

lemma counter_call:
  "client_call always counter (store_of 42 claimed) 0 = Some (Rollup 42 (write_tx [9] None (Some [1])) 0)"
  by (simp add: client_call_def client_output_def counter_def session_rollup_tx_def always_def
      store_of_def bounded_entry_def try_bounded_def key_bytes_bound_def value_bytes_bound_def
      write_tx_def call_simps)

theorem sessions_serializable_witness:
  "serial demo_chain always (\<lambda>_. counter) race (claimed, \<lambda>_ _. None) = [Begin 0, Commit 0 0] \<and>
   fst (run_sched demo_chain always (\<lambda>_. counter) race (claimed, \<lambda>_ _. None)) =
     claimed\<lparr>states := [(42, [9]) \<mapsto> [1]],
        events := events claimed @ [AnchorEvent (RollupExecuted 1 42 0)]\<rparr>"
proof -
  let ?t = "claimed\<lparr>states := [(42, [9]) \<mapsto> [1]],
      events := events claimed @ [AnchorEvent (RollupExecuted 1 42 0)]\<rparr>"
  have first: "commit_result demo_chain always counter (store_of 42 claimed) 0 claimed = (True, ?t)"
    by (simp add: commit_result_def counter_call counter_sel dispatch_def run_transactional_Ok rollup_signed write_tx_def
        demo_chain_def call_simps)
  have second: "commit_result demo_chain always counter (store_of 42 claimed) 0 ?t = (False, ?t)"
    by (simp add: commit_result_def counter_call counter_sel dispatch_def transactional_def rollup_signed write_tx_def
        demo_chain_def call_simps)
  have "serial demo_chain always (\<lambda>_. counter) race (claimed, \<lambda>_ _. None) = [Begin 0, Commit 0 0]"
    by (simp add: race_def first second counter_sel)
  moreover have "fst (run_sched demo_chain always (\<lambda>_. counter) [Begin 0, Commit 0 0] (claimed, \<lambda>_ _. None)) = ?t"
    by (simp add: run_sched_def first counter_sel)
  ultimately show ?thesis
    using sessions_serializable [of demo_chain always "\<lambda>_. counter" race claimed "\<lambda>_ _. None" "\<lambda>_ _. None"]
    by simp
qed

end
