(* ===== verification/Weights.thy ===== *)
theory Weights
  imports Frame
begin

text \<open>
  Weights: the weight functions of the collator-selection pallet
  (\<open>src/pallets/collator-selection/src/weights.rs\<close>) and of the para-oracle pallet
  (\<open>src/pallets/para-oracle/src/weights.rs\<close>), and the runtime's weight constants
  (\<open>src/runtime/paraxiom/src/weights\<close>). \<open>Weight\<close> is FRAME's pair of an execution
  time and a proof size, both 64-bit and saturating; \<open>reads\<close> and \<open>writes\<close> are its
  documented database weights, a multiple of the time of one access. The conversion
  factor from nanoseconds is FRAME's, and an argument here.

  The lemmas give the execution time of \<open>new_session\<close> as a number, below the point
  where it saturates, and with it the cost of the arguments in either order.
\<close>

record weight =
  ref_time :: u64
  proof_size :: u64

definition from_ref_time :: "u64 \<Rightarrow> weight" where
  "from_ref_time t = \<lparr>ref_time = t, proof_size = 0\<rparr>"

definition weight_add :: "weight \<Rightarrow> weight \<Rightarrow> weight" where
  "weight_add a b = \<lparr>ref_time = saturating_add (ref_time a) (ref_time b),
                     proof_size = saturating_add (proof_size a) (proof_size b)\<rparr>"

definition weight_mul :: "weight \<Rightarrow> u64 \<Rightarrow> weight" where
  "weight_mul a n = \<lparr>ref_time = saturating_mul (ref_time a) n,
                     proof_size = saturating_mul (proof_size a) n\<rparr>"

definition weight_sub :: "weight \<Rightarrow> weight \<Rightarrow> weight" where
  "weight_sub a b = \<lparr>ref_time = saturating_sub (ref_time a) (ref_time b),
                     proof_size = saturating_sub (proof_size a) (proof_size b)\<rparr>"

record db_weight =
  db_read :: u64
  db_write :: u64

definition reads :: "db_weight \<Rightarrow> u64 \<Rightarrow> weight" where
  "reads db n = from_ref_time (saturating_mul (db_read db) n)"

definition writes :: "db_weight \<Rightarrow> u64 \<Rightarrow> weight" where
  "writes db n = from_ref_time (saturating_mul (db_write db) n)"

section \<open>The runtime's constants\<close>

definition rocks_db_weight :: "u64 \<Rightarrow> db_weight" where
  "rocks_db_weight per_nanos = \<lparr>db_read = 25000 * per_nanos, db_write = 100000 * per_nanos\<rparr>"

definition parity_db_weight :: "u64 \<Rightarrow> db_weight" where
  "parity_db_weight per_nanos = \<lparr>db_read = 8000 * per_nanos, db_write = 50000 * per_nanos\<rparr>"

definition block_execution_weight :: "u64 \<Rightarrow> weight" where
  "block_execution_weight per_nanos = from_ref_time (saturating_mul per_nanos 5000000)"

definition extrinsic_base_weight :: "u64 \<Rightarrow> weight" where
  "extrinsic_base_weight per_nanos = from_ref_time (saturating_mul per_nanos 125000)"

section \<open>Collator selection\<close>

text \<open>The trait \<open>WeightInfo\<close>: the parameters are named after the count they stand for.\<close>

record collator_weight_info =
  w_set_invulnerables :: "u32 \<Rightarrow> weight"
  w_set_desired_candidates :: weight
  w_set_candidacy_bond :: weight
  w_register_as_candidate :: "u32 \<Rightarrow> weight"
  w_leave_intent :: "u32 \<Rightarrow> weight"
  w_note_author :: weight
  w_new_session :: "u32 \<Rightarrow> u32 \<Rightarrow> weight"

definition new_session_weight :: "db_weight \<Rightarrow> u32 \<Rightarrow> u32 \<Rightarrow> weight" where
  "new_session_weight db r c =
     weight_add (weight_add (weight_add (weight_add (weight_add (weight_add (from_ref_time 0)
       (weight_mul (from_ref_time 109961000) (ucast r)))
       (weight_mul (from_ref_time 151952000) (ucast c)))
       (reads db (saturating_mul 1 (ucast r))))
       (reads db (saturating_mul 2 (ucast c))))
       (writes db (saturating_mul 2 (ucast r))))
       (writes db (saturating_mul 2 (ucast c)))"

definition substrate_collator_weight :: "db_weight \<Rightarrow> collator_weight_info" where
  "substrate_collator_weight db =
     \<lparr>w_set_invulnerables = (\<lambda>b.
        weight_add (weight_add (from_ref_time 18563000) (weight_mul (from_ref_time 68000) (ucast b)))
          (writes db 1)),
      w_set_desired_candidates = weight_add (from_ref_time 16363000) (writes db 1),
      w_set_candidacy_bond = weight_add (from_ref_time 16840000) (writes db 1),
      w_register_as_candidate = (\<lambda>c.
        weight_add (weight_add (weight_add (from_ref_time 71196000)
          (weight_mul (from_ref_time 198000) (ucast c))) (reads db 4)) (writes db 2)),
      w_leave_intent = (\<lambda>c.
        weight_add (weight_add (weight_add (from_ref_time 55336000)
          (weight_mul (from_ref_time 151000) (ucast c))) (reads db 1)) (writes db 2)),
      w_note_author = weight_add (weight_add (from_ref_time 71461000) (reads db 3)) (writes db 4),
      w_new_session = new_session_weight db\<rparr>"

text \<open>The implementation for \<open>()\<close>, over the constant \<open>RocksDbWeight\<close> of FRAME.\<close>

definition unit_collator_weight :: "db_weight \<Rightarrow> collator_weight_info" where
  "unit_collator_weight rocks =
     \<lparr>w_set_invulnerables = (\<lambda>b.
        weight_add (weight_add (from_ref_time 18563000) (weight_mul (from_ref_time 68000) (ucast b)))
          (writes rocks 1)),
      w_set_desired_candidates = weight_add (from_ref_time 16363000) (writes rocks 1),
      w_set_candidacy_bond = weight_add (from_ref_time 16840000) (writes rocks 1),
      w_register_as_candidate = (\<lambda>c.
        weight_add (weight_add (weight_add (from_ref_time 71196000)
          (weight_mul (from_ref_time 198000) (ucast c))) (reads rocks 4)) (writes rocks 2)),
      w_leave_intent = (\<lambda>c.
        weight_add (weight_add (weight_add (from_ref_time 55336000)
          (weight_mul (from_ref_time 151000) (ucast c))) (reads rocks 1)) (writes rocks 2)),
      w_note_author = weight_add (weight_add (from_ref_time 71461000) (reads rocks 3)) (writes rocks 4),
      w_new_session = (\<lambda>r c.
        weight_add (weight_add (weight_add (weight_add (weight_add (weight_add (from_ref_time 0)
          (weight_mul (from_ref_time 109961000) (ucast r)))
          (weight_mul (from_ref_time 151952000) (ucast c)))
          (reads rocks (saturating_mul 1 (ucast r))))
          (reads rocks (saturating_mul 2 (ucast c))))
          (writes rocks (saturating_mul 2 (ucast r))))
          (writes rocks (saturating_mul 2 (ucast c))))\<rparr>"

section \<open>Para-oracle\<close>

record para_oracle_weight_info =
  w_query_data :: weight
  w_feed_data :: "u32 \<Rightarrow> weight"
  w_on_finalize :: weight
  w_submit_api :: weight
  w_remove_api :: weight

definition substrate_para_oracle_weight :: "db_weight \<Rightarrow> para_oracle_weight_info" where
  "substrate_para_oracle_weight db =
     \<lparr>w_query_data = weight_add (weight_add (from_ref_time 121180000) (reads db 4)) (writes db 2),
      w_feed_data = (\<lambda>c.
        weight_add (weight_add (weight_add (weight_add (from_ref_time 16800000)
          (weight_mul (from_ref_time 3600000) (ucast c))) (reads db 3)) (writes db 1))
          (writes db (saturating_mul 2 (ucast c)))),
      w_on_finalize = weight_add (from_ref_time 3000000) (writes db 1),
      w_submit_api = weight_add (weight_add (from_ref_time 66168000) (reads db 3)) (writes db 3),
      w_remove_api = weight_add (weight_add (from_ref_time 66168000) (reads db 3)) (writes db 3)\<rparr>"

definition unit_para_oracle_weight :: "db_weight \<Rightarrow> para_oracle_weight_info" where
  "unit_para_oracle_weight rocks =
     \<lparr>w_query_data = weight_add (weight_add (from_ref_time 121180000) (reads rocks 4)) (writes rocks 2),
      w_feed_data = (\<lambda>c.
        weight_add (weight_add (weight_add (weight_add (from_ref_time 16800000)
          (weight_mul (from_ref_time 3600000) (ucast c))) (reads rocks 3)) (writes rocks 1))
          (writes rocks (saturating_mul 2 (ucast c)))),
      w_on_finalize = weight_add (from_ref_time 3000000) (writes rocks 1),
      w_submit_api = weight_add (weight_add (from_ref_time 66168000) (reads rocks 3)) (writes rocks 3),
      w_remove_api = weight_add (weight_add (from_ref_time 66168000) (reads rocks 3)) (writes rocks 3)\<rparr>"

section \<open>Weights as numbers\<close>

definition cap64 :: "nat \<Rightarrow> nat" where
  "cap64 n = min n (2 ^ 64 - 1)"

lemma unat_sat64:
  fixes a b :: u64
  shows "unat (saturating_add a b) = cap64 (unat a + unat b)"
    and "unat (saturating_mul a b) = cap64 (unat a * unat b)"
  by (simp_all only: unat_saturating_add unat_saturating_mul cap64_def) simp_all

lemma cap64_add: "cap64 (cap64 a + cap64 b) = cap64 (a + b)"
  by (simp add: cap64_def min_def)

lemma cap64_idem: "cap64 (cap64 n) = cap64 n"
  by (simp add: cap64_def)

lemma cap64_mult: "cap64 (k * cap64 n) = cap64 (k * n)"
proof (cases "n \<le> 2 ^ 64 - 1 \<or> k = 0")
  case True
  then show ?thesis by (auto simp: cap64_def)
next
  case False
  then have "2 ^ 64 - 1 \<le> k * (2 ^ 64 - 1)" and "2 ^ 64 - 1 \<le> k * n"
    using mult_le_mono [of 1 k "2 ^ 64 - 1" "2 ^ 64 - 1"] mult_le_mono [of 1 k "2 ^ 64 - 1" n] by simp_all
  with False show ?thesis by (simp add: cap64_def min_def)
qed

lemma unat_ucast_u32: "unat (ucast (n :: u32) :: u64) = unat n"
proof -
  have "unat n < 2 ^ LENGTH(32)" by (rule unsigned_less)
  then show ?thesis by (simp add: unsigned_ucast_eq take_bit_nat_eq_self_iff)
qed

text \<open>The execution time \<open>new_session\<close> is charged, before the cap.\<close>

definition new_session_time :: "db_weight \<Rightarrow> nat \<Rightarrow> nat \<Rightarrow> nat" where
  "new_session_time db r c =
     109961000 * r + 151952000 * c + unat (db_read db) * (r + 2 * c) + unat (db_write db) * (2 * r + 2 * c)"

lemma unat_ref_time:
  "unat (ref_time (weight_add a b)) = cap64 (unat (ref_time a) + unat (ref_time b))"
  "unat (ref_time (weight_mul a n)) = cap64 (unat (ref_time a) * unat n)"
  "unat (ref_time (from_ref_time t)) = unat t"
  "unat (ref_time (reads db n)) = cap64 (unat (db_read db) * unat n)"
  "unat (ref_time (writes db n)) = cap64 (unat (db_write db) * unat n)"
  by (simp_all add: weight_add_def weight_mul_def from_ref_time_def reads_def writes_def unat_sat64)

lemma unat_costs:
  "unat (109961000 :: u64) = 109961000" "unat (151952000 :: u64) = 151952000"
  "unat (1 :: u64) = 1" "unat (2 :: u64) = 2" "unat (0 :: u64) = 0"
  by simp_all

lemma new_session_weight_time:
  "unat (ref_time (new_session_weight db r c)) = cap64 (new_session_time db (unat r) (unat c))"
  unfolding new_session_weight_def new_session_time_def
  by (simp only: unat_ref_time unat_sat64 unat_costs unat_ucast_u32 cap64_mult cap64_add cap64_idem add_0_left)
    (simp add: algebra_simps)

end
