(* ===== verification/Queue_Work.thy ===== *)
theory Queue_Work
  imports Chain_Properties Weights
begin

text \<open>
  How long \<open>SetQueueHead\<close> runs. \<open>queue_head_set\<close> removes the positions
  \<open>head..index\<close> one by one; \<open>remove_loop\<close> is that \<open>for\<close> loop over a Rust range, one
  iteration per unit of fuel, whose result says whether the range was exhausted.
  \<open>remove_loop_run\<close> says what every amount of fuel does, so the loop ends after exactly
  as many iterations as the difference of the two positions.
\<close>

abbreviation remove_pos ::
    "('ev, 'acc, 's, 'x) anchor_config_scheme \<Rightarrow> H256 \<Rightarrow> u32 \<Rightarrow>
     (dispatch_error, ('ev, 'acc, 'm) anchor_state_scheme, unit) call" where
  "remove_pos T name i \<equiv> queue_remove T name (Index i)"

fun remove_loop ::
    "('ev, 'acc, 's, 'x) anchor_config_scheme \<Rightarrow> H256 \<Rightarrow> u32 \<Rightarrow> nat \<Rightarrow> u32 \<Rightarrow>
     (dispatch_error, ('ev, 'acc, 'm) anchor_state_scheme, bool) call" where
  "remove_loop T name index 0 i = ret (\<not> i < index)"
| "remove_loop T name index (Suc fuel) i =
     (if i < index then seq (queue_remove T name (Index i)) (\<lambda>_. remove_loop T name index fuel (i + 1))
      else ret True)"

text \<open>\<open>queue_head_set\<close> with that loop; \<open>None\<close> when the fuel does not reach.\<close>

definition queue_head_set_fuel ::
    "('ev, 'acc, 's, 'x) anchor_config_scheme \<Rightarrow> H256 \<Rightarrow> nat \<Rightarrow> u32 \<Rightarrow>
     (dispatch_error, ('ev, 'acc, 'm) anchor_state_scheme, unit option) call" where
  "queue_head_set_fuel T name fuel index =
     seq (queue_head T name) (\<lambda>head.
     seq (queue_tail T name) (\<lambda>tail.
     seq (ensure (head \<le> index \<and> index \<le> tail) (Anchor InvalidQueueHead)) (\<lambda>_.
     seq (remove_loop T name index fuel head) (\<lambda>finished.
     if finished then seq (queue_set_u32 T name head_field index) (\<lambda>_. ret (Some ()))
     else ret None))))"

lemma word_range_empty: "\<not> i < index \<Longrightarrow> word_range i index = []"
  by (simp add: word_range_def word_less_nat_alt)

lemma word_range_Cons:
  fixes i :: "'a::len word"
  assumes "i < index"
  shows "word_range i index = i # word_range (i + 1) index" and "unat (i + 1) = Suc (unat i)"
proof -
  have "i \<noteq> - 1" using assms by (auto simp: word_less_nat_alt) (metis assms not_less_iff_gr_or_eq word_n1_ge word_order.extremum_strict)
  then show suc: "unat (i + 1) = Suc (unat i)" by (rule unat_plus_one)
  have "[unat i..<unat index] = unat i # [Suc (unat i)..<unat index]"
    using assms by (simp add: word_less_nat_alt upt_conv_Cons)
  then show "word_range i index = i # word_range (i + 1) index"
    by (simp add: word_range_def suc)
qed

lemma queue_removes_ok:
  "anchor_config_ok T \<Longrightarrow> \<exists>t. for_each xs (remove_pos T name) s = (Inr (), t)"
  by (simp add: queue_remove_run for_each_modify)

lemma remove_loop_run:
  assumes "anchor_config_ok T"
  shows "remove_loop T name index fuel i s =
    (Inr (unat index - unat i \<le> fuel),
     snd (for_each (take fuel (word_range i index)) (remove_pos T name) s))"
proof (induction fuel arbitrary: i s)
  case 0
  show ?case by (simp add: ret_def not_less word_le_nat_alt)
next
  case (Suc fuel)
  show ?case
  proof (cases "i < index")
    case True
    obtain t where t: "remove_pos T name i s = (Inr (), t)"
      using queue_removes_ok [OF assms, of "[i]" name s] by (auto simp: call_ok)
    have "for_each (take (Suc fuel) (word_range i index)) (remove_pos T name) s =
        for_each (take fuel (word_range (i + 1) index)) (remove_pos T name) t"
      using t by (simp add: word_range_Cons(1) [OF True] run_seq_Ok)
    moreover have "remove_loop T name index (Suc fuel) i s = remove_loop T name index fuel (i + 1) t"
      using True t by (simp add: run_seq_Ok)
    moreover have "unat index - unat (i + 1) \<le> fuel \<longleftrightarrow> unat index - unat i \<le> Suc fuel"
      using word_range_Cons(2) [OF True] by auto
    ultimately show ?thesis by (simp only: Suc.IH)
  next
    case False
    then show ?thesis
      by (auto simp: word_range_empty ret_def word_less_nat_alt)
  qed
qed

text \<open>The loop with enough fuel is the loop of the model, with less it does not end.\<close>

lemma remove_loop_enough:
  assumes "anchor_config_ok T"
  shows "unat index - unat i \<le> fuel \<Longrightarrow>
      remove_loop T name index fuel i s =
        seq (for_each (word_range i index) (remove_pos T name)) (\<lambda>_. ret True) s"
    and "fuel < unat index - unat i \<Longrightarrow> \<exists>t. remove_loop T name index fuel i s = (Inr False, t)"
proof -
  assume "unat index - unat i \<le> fuel"
  then have "remove_loop T name index fuel i s =
      (Inr True, snd (for_each (word_range i index) (remove_pos T name) s))"
    by (simp add: remove_loop_run [OF assms])
  moreover obtain t where "for_each (word_range i index) (remove_pos T name) s = (Inr (), t)"
    using queue_removes_ok [OF assms] by blast
  ultimately show "remove_loop T name index fuel i s =
        seq (for_each (word_range i index) (remove_pos T name)) (\<lambda>_. ret True) s"
    by (simp add: run_seq_Ok ret_def)
qed (simp add: remove_loop_run [OF assms])

lemma queue_head_set_fuel_run:
  assumes "anchor_config_ok T"
    and "queue_head T name s = (Inr head :: dispatch_error fault + u32, s)"
    and "queue_tail T name s = (Inr tail :: dispatch_error fault + u32, s)"
  shows "\<not> (head \<le> index \<and> index \<le> tail) \<Longrightarrow>
      queue_head_set_fuel T name fuel index s = (Inl (Err (Anchor InvalidQueueHead)), s)"
    and "head \<le> index \<Longrightarrow> index \<le> tail \<Longrightarrow> unat index - unat head \<le> fuel \<Longrightarrow>
      queue_head_set_fuel T name fuel index s =
        seq (queue_head_set T name index) (\<lambda>_. ret (Some ())) s"
    and "head \<le> index \<Longrightarrow> index \<le> tail \<Longrightarrow> fuel < unat index - unat head \<Longrightarrow>
      \<exists>t. queue_head_set_fuel T name fuel index s = (Inr None, t)"
proof -
  note reads = run_seq_Ok [where m = "queue_head T name", OF assms(2)]
    run_seq_Ok [where m = "queue_tail T name", OF assms(3)]
  show "queue_head_set_fuel T name fuel index s = (Inl (Err (Anchor InvalidQueueHead)), s)"
    if "\<not> (head \<le> index \<and> index \<le> tail)"
    using that by (auto simp: queue_head_set_fuel_def reads call_simps)
  show "queue_head_set_fuel T name fuel index s = seq (queue_head_set T name index) (\<lambda>_. ret (Some ())) s"
    if "head \<le> index" "index \<le> tail" "unat index - unat head \<le> fuel"
  proof -
    obtain t where t: "for_each (word_range head index) (remove_pos T name) s = (Inr (), t)"
      using queue_removes_ok [OF assms(1)] by blast
    then have "remove_loop T name index fuel head s = (Inr True, t)"
      unfolding remove_loop_enough(1) [OF assms(1) that(3)] by (simp add: run_seq_Ok ret_def)
    with t that show ?thesis
      by (simp add: queue_head_set_fuel_def queue_head_set_def reads call_simps run_seq_Ok)
  qed
  show "\<exists>t. queue_head_set_fuel T name fuel index s = (Inr None, t)"
    if "head \<le> index" "index \<le> tail" "fuel < unat index - unat head"
  proof -
    have "\<exists>t. remove_loop T name index fuel head s = (Inr False, t)"
      by (rule remove_loop_enough(2) [OF assms(1) that(3)])
    then obtain t where "remove_loop T name index fuel head s = (Inr False, t)" ..
    with that show ?thesis
      by (simp add: queue_head_set_fuel_def reads call_simps) (simp add: seq_def ret_def)
  qed
qed

section \<open>Properties\<close>

text \<open>
  C22. \<open>SetQueueHead\<close> terminates, and how long it takes is what it takes off: on a
  well-formed queue the loop of removals ends after exactly as many iterations as
  messages are dropped. With that much fuel it is the model's \<open>queue_head_set\<close>, with
  less it has not finished, and a position outside the queue is refused at once. So
  while the queue is within its capacity, 128 iterations are always enough.
\<close>

theorem set_queue_head_terminates:
  assumes "queue_inv (paraxiom a b c) name s"
  shows "(if head_pos (paraxiom a b c) name s \<le> index \<and> index \<le> tail_pos (paraxiom a b c) name s
     then unat index - unat (head_pos (paraxiom a b c) name s) \<le> length (queue_abs (paraxiom a b c) name s)
       \<and> (if unat index - unat (head_pos (paraxiom a b c) name s) \<le> fuel
          then \<exists>t. queue_head_set_fuel (paraxiom a b c) name fuel index s = (Inr (Some ()), t)
            \<and> queue_head_set (paraxiom a b c) name index s = (Inr (), t)
            \<and> queue_abs (paraxiom a b c) name s = take (unat index - unat (head_pos (paraxiom a b c) name s))
                (queue_abs (paraxiom a b c) name s) @ queue_abs (paraxiom a b c) name t
          else \<exists>t. queue_head_set_fuel (paraxiom a b c) name fuel index s = (Inr None, t))
     else queue_head_set_fuel (paraxiom a b c) name fuel index s = (Inl (Err (Anchor InvalidQueueHead)), s)
       \<and> queue_head_set (paraxiom a b c) name index s = (Inl (Err (Anchor InvalidQueueHead)), s))"
proof (cases "head_pos (paraxiom a b c) name s \<le> index \<and> index \<le> tail_pos (paraxiom a b c) name s")
  case False
  have "queue_head_set_fuel (paraxiom a b c) name fuel index s = (Inl (Err (Anchor InvalidQueueHead)), s)"
    by (rule queue_head_set_fuel_run(1) [OF paraxiom_config_ok queue_inv_reads [OF paraxiom_config_ok assms] False])
  moreover have "queue_head_set (paraxiom a b c) name index s = (Inl (Err (Anchor InvalidQueueHead)), s)"
    using False queue_head_set_run [OF paraxiom_config_ok assms] by auto
  ultimately show ?thesis by (subst if_not_P [OF False]) blast
next
  case True
  let ?T = "paraxiom a b c"
  let ?h = "head_pos ?T name s"
  have len: "unat index - unat ?h \<le> length (queue_abs ?T name s)"
    using True assms by (simp add: length_queue_abs word_le_nat_alt diff_le_mono)
  have run: "queue_head_set ?T name index s = (Inr (), after_head_set ?T name index s)"
    using True queue_head_set_run [OF paraxiom_config_ok assms] by simp
  have rest: "queue_abs ?T name (after_head_set ?T name index s) = drop (unat index - unat ?h) (queue_abs ?T name s)"
    using True after_head_set_inv(2) [OF paraxiom_config_ok assms] by simp
  show ?thesis
  proof (cases "unat index - unat ?h \<le> fuel")
    case enough: True
    have "queue_head_set_fuel ?T name fuel index s = seq (queue_head_set ?T name index) (\<lambda>_. ret (Some ())) s"
      using queue_head_set_fuel_run(2) [OF paraxiom_config_ok queue_inv_reads [OF paraxiom_config_ok assms]]
        True enough by simp
    also have "\<dots> = (Inr (Some ()), after_head_set ?T name index s)"
      by (simp add: seq_def run ret_def)
    finally show ?thesis using True enough len run rest by simp
  next
    case False
    then have "\<exists>t. queue_head_set_fuel ?T name fuel index s = (Inr None, t)"
      using queue_head_set_fuel_run(3) [OF paraxiom_config_ok queue_inv_reads [OF paraxiom_config_ok assms]]
        True by simp
    with True False len show ?thesis by simp
  qed
qed

text \<open>Two messages wait in the queue of name 42.\<close>

definition two_waiting :: chain_state where
  "two_waiting = after_push demo_chain 42 [2] (after_push demo_chain 42 [1] claimed)"

lemma claimed_positions: "head_pos demo_chain 42 claimed = 0" "tail_pos demo_chain 42 claimed = 0"
    "queue_abs demo_chain 42 claimed = []" "queue_inv demo_chain 42 claimed"
  using claimed_queue_ready
  by (simp_all add: claimed_queue_pos queue_ready_def) (simp add: demo_chain_def tail_pos_def stored_u32_def)

lemma demo_config_ok: "anchor_config_ok demo_chain"
  by (simp add: demo_chain_def)

lemma two_waiting_queue:
  "queue_inv demo_chain 42 two_waiting" "queue_abs demo_chain 42 two_waiting = [[1], [2]]"
  "head_pos demo_chain 42 two_waiting = 0" "tail_pos demo_chain 42 two_waiting = 2"
proof -
  let ?s = "after_push demo_chain 42 [1] claimed"
  have one: "queue_inv demo_chain 42 ?s" "queue_abs demo_chain 42 ?s = [[1]]"
      "head_pos demo_chain 42 ?s = 0" "tail_pos demo_chain 42 ?s = 1"
    using after_push_inv [OF demo_config_ok claimed_positions(4)]
    by (simp_all add: claimed_positions after_push_positions [OF demo_config_ok])
  show "queue_inv demo_chain 42 two_waiting" "queue_abs demo_chain 42 two_waiting = [[1], [2]]"
      "head_pos demo_chain 42 two_waiting = 0" "tail_pos demo_chain 42 two_waiting = 2"
    using after_push_inv [OF demo_config_ok one(1)]
    by (simp_all add: two_waiting_def one claimed_positions after_push_positions [OF demo_config_ok])
qed

theorem set_queue_head_terminates_witness:
  "(\<exists>t. queue_head_set_fuel demo_chain 42 2 2 two_waiting = (Inr (Some ()), t) \<and> queue_abs demo_chain 42 t = []) \<and>
   (\<exists>t. queue_head_set_fuel demo_chain 42 1 2 two_waiting = (Inr None, t))"
proof -
  note spec = set_queue_head_terminates [OF two_waiting_queue(1) [unfolded demo_chain_def], of 2,
      folded demo_chain_def]
  from spec [of 2] spec [of 1] show ?thesis
    by (auto simp: two_waiting_queue)
qed

section \<open>Unpaid work\<close>

text \<open>The weights the pallets declare for their calls.\<close>

definition registry_call_weight :: "db_weight \<Rightarrow> weight" where
  "registry_call_weight db =
     weight_add (from_ref_time 10000) (weight_add (reads db 1) (writes db 1))"

definition anchor_call_weight :: weight where
  "anchor_call_weight = from_ref_time 0"

definition oracle_call_weight :: weight where
  "oracle_call_weight = from_ref_time 0"

definition declared_weight :: "db_weight \<Rightarrow> call_of_chain \<Rightarrow> weight" where
  "declared_weight db call =
     (case call of
        RegisterFeed _ _ _ \<Rightarrow> registry_call_weight db
      | UnregisterFeed _ \<Rightarrow> registry_call_weight db
      | ClaimName _ \<Rightarrow> anchor_call_weight
      | Rollup _ _ _ \<Rightarrow> anchor_call_weight
      | RequestFeed _ _ \<Rightarrow> oracle_call_weight
      | Feeds _ _ _ \<Rightarrow> oracle_call_weight
      | Average \<Rightarrow> oracle_call_weight)"

text \<open>Moves the tail to the last position, then the head after it.\<close>

definition exhausting_tx :: "chain_config \<Rightarrow> rollup_tx" where
  "exhausting_tx T = \<lparr>conds = [], actions = [enc action_scale (SetQueueHead (- 1))],
     updates = [(store_key T tail_field, Some (enc u32_scale (- 1)))]\<rparr>"

text \<open>
  C23. The bound of 128 iterations is not the chain's to keep: tail and head are keys of
  the store that the owner of a name may write, so one small rollup, of declared weight
  zero, commits after removing as many positions as are left of the 32-bit counter, over
  four thousand million on a fresh name. No fuel below that reaches the end of its loop.
\<close>

theorem queue_work_unpaid:
  assumes "queue_inv (paraxiom a b c) name s" and "submitter_by_names s name = Some who"
  shows "call_bounded (paraxiom a b c) (Rollup name (exhausting_tx (paraxiom a b c)) n) \<and>
    declared_weight db (Rollup name (exhausting_tx (paraxiom a b c)) n) = from_ref_time 0 \<and>
    (\<exists>t. dispatch (paraxiom a b c) (Signed who) (Rollup name (exhausting_tx (paraxiom a b c)) n) s = (Inr (), t)) \<and>
    (\<forall>fuel < 2 ^ 32 - 1 - unat (head_pos (paraxiom a b c) name s). \<exists>t.
       queue_head_set_fuel (paraxiom a b c) name fuel (- 1)
         (s\<lparr>states := write_updates name (updates (exhausting_tx (paraxiom a b c))) (states s)\<rparr>) = (Inr None, t))"
proof -
  let ?T = "paraxiom a b c"
  let ?s = "s\<lparr>states := write_updates name (updates (exhausting_tx ?T)) (states s)\<rparr>"
  have head: "stored_u32 ?T name head_field ?s = stored_u32 ?T name head_field s"
    using store_key_fields(3) [OF paraxiom_config_ok, of a b c]
    by (simp add: exhausting_tx_def stored_u32_def)
  have tail: "stored_u32 ?T name tail_field ?s = Some (- 1)"
    by (simp add: exhausting_tx_def stored_u32_def u32_codec.dec_enc_Nil)
  obtain h where h: "stored_u32 ?T name head_field s = Some h"
    using assms(1) by (auto simp: queue_inv_def)
  have reads: "queue_head ?T name ?s = (Inr (head_pos ?T name s), ?s)" "queue_tail ?T name ?s = (Inr (- 1), ?s)"
    using head tail h by (simp_all add: queue_head_run queue_tail_run head_pos_def)
  have top: "i \<le> - 1" "unat (- 1 :: u32) = 2 ^ 32 - 1" for i :: u32
    by (simp_all add: unsigned_minus_1_eq_mask mask_eq_exp_minus_1)
  have slow: "\<exists>t. queue_head_set_fuel ?T name fuel (- 1) ?s = (Inr None, t)"
    if "fuel < 2 ^ 32 - 1 - unat (head_pos ?T name s)" for fuel
    using that queue_head_set_fuel_run(3) [OF paraxiom_config_ok reads top(1) top(1)]
    unfolding top(2) by blast
  have "\<exists>t. queue_head_set ?T name (- 1) ?s = (Inr (), t)"
    by (simp add: queue_head_set_def run_seq_Ok [where m = "queue_head ?T name", OF reads(1)]
        run_seq_Ok [where m = "queue_tail ?T name", OF reads(2)] call_simps queue_remove_run
        queue_set_u32_run top(1))
  then obtain t where "queue_head_set ?T name (- 1) ?s = (Inr (), t)" ..
  moreover have "dec action_scale (enc action_scale (SetQueueHead (- 1))) = Some (SetQueueHead (- 1), [])"
    by (rule action_wire.dec_enc_Nil) simp
  ultimately have "for_each (actions (exhausting_tx ?T)) (exec_action ?T name who) ?s = (Inr (), t)"
    by (simp add: exhausting_tx_def exec_action_def seq_def ok_or_def ret_def)
  then have "\<exists>t. dispatch ?T (Signed who) (Rollup name (exhausting_tx ?T) n) s = (Inr (), t)"
    using assms(2) by (simp add: dispatch_def transactional_def rollup_signed exhausting_tx_def)
  moreover have "call_bounded ?T (Rollup name (exhausting_tx ?T) n)"
    by (simp add: call_bounded_def exhausting_tx_def update_bounded_def store_key_def tail_field_def
        queue_prefix_bytes_def key_bytes_bound_def value_bytes_bound_def action_bytes_bound_def
        action_scale_def enc_action_def)
  moreover have "declared_weight db (Rollup name (exhausting_tx ?T) n) = from_ref_time 0"
    by (simp add: declared_weight_def anchor_call_weight_def)
  ultimately show ?thesis using slow by blast
qed

theorem queue_work_unpaid_witness:
  "(\<exists>t. dispatch demo_chain (Signed 1) (Rollup 42 (exhausting_tx demo_chain) 0) claimed = (Inr (), t)) \<and>
   (\<exists>t. queue_head_set_fuel demo_chain 42 1000000 (- 1)
      (claimed\<lparr>states := write_updates 42 (updates (exhausting_tx demo_chain)) (states claimed)\<rparr>) = (Inr None, t))"
proof -
  have "submitter_by_names claimed 42 = Some 1" by simp
  note spec = queue_work_unpaid [OF claimed_positions(4) [unfolded demo_chain_def] this, of 0, folded demo_chain_def]
  have "(1000000 :: nat) < 2 ^ 32 - 1 - unat (head_pos demo_chain 42 claimed)"
    by (simp add: claimed_positions)
  with spec show ?thesis by blast
qed

end
