(* ===== verification/Oracle_Flow.thy ===== *)
theory Oracle_Flow
  imports Queue_Work
begin

text \<open>
  A whole turn of the oracle: an account requests a feed, the message reaches the queue of
  the contract's name, the contract answers with a rollup that carries the response and
  takes the message off the queue. The registry, the oracle and the anchor all take part;
  \<open>oracle_turn\<close> composes what the other theories show of each.
\<close>

section \<open>Both actions of an answer\<close>

definition answer_tx :: "AccountId response_record \<Rightarrow> u32 \<Rightarrow> rollup_tx" where
  "answer_tx resp next_head = \<lparr>conds = [],
     actions = [enc action_scale (Reply (enc response_scale resp)), enc action_scale (SetQueueHead next_head)],
     updates = []\<rparr>"

lemma queue_ignores_data [simp]:
  "queue_inv T name (s\<lparr>feed_data := fd\<rparr>) = queue_inv T name s"
  "queue_abs T name (s\<lparr>feed_data := fd\<rparr>) = queue_abs T name s"
  "tail_pos T name (s\<lparr>feed_data := fd\<rparr>) = tail_pos T name s"
  "head_pos T name (s\<lparr>feed_data := fd\<rparr>) = head_pos T name s"
  by (simp_all add: queue_inv_def queue_abs_def tail_pos_def head_pos_def stored_u32_def)

lemma answer_run:
  assumes "queue_ready (paraxiom a b c) name who s"
    and "phat_contract_id resp = name" and "feed_requests s (request_id resp) = Some req"
    and "length (response_data resp) \<le> value_bytes_bound"
    and "length (enc response_scale resp) \<le> action_bytes_bound"
    and "head_pos (paraxiom a b c) name s \<le> i" and "i \<le> tail_pos (paraxiom a b c) name s"
  shows "\<exists>t. rollup (paraxiom a b c) (Signed who) name (answer_tx resp i) n s = (Inr (), t)
    \<and> queue_ready (paraxiom a b c) name who t
    \<and> queue_abs (paraxiom a b c) name t
        = drop (unat i - unat (head_pos (paraxiom a b c) name s)) (queue_abs (paraxiom a b c) name s)
    \<and> feed_data t = (feed_data s)((who, req) \<mapsto> response_data resp)
    \<and> feed_requests t = feed_requests s \<and> tail_pos (paraxiom a b c) name t = tail_pos (paraxiom a b c) name s"
proof -
  let ?T = "paraxiom a b c"
  let ?ev = "OracleEvent (ResponseRecordReceived who name (request_id resp) (response_data resp) (timestamp_ms resp))"
  let ?s = "s\<lparr>feed_data := (feed_data s)((who, req) \<mapsto> response_data resp), events := events s @ [?ev]\<rparr>"
  have inv: "queue_inv ?T name s" and owner: "submitter_by_names s name = Some who"
    using assms(1) by (simp_all add: queue_ready_def)
  have "dec action_scale (enc action_scale (Reply (enc response_scale resp)))
      = Some (Reply (enc response_scale resp), [])"
    using assms(5) by (intro action_wire.dec_enc_Nil) simp
  moreover have "dec response_scale (enc response_scale resp) = Some (resp, [])"
    using assms(4) by (rule response_wire.dec_enc_Nil)
  ultimately have reply: "exec_action ?T name who (enc action_scale (Reply (enc response_scale resp))) s = (Inr (), ?s)"
    using assms(2,3)
    by (simp add: exec_action_def call_simps paraxiom_on_response oracle_response_run)
  have inv': "queue_inv ?T name ?s" using inv by simp
  have "dec action_scale (enc action_scale (SetQueueHead i)) = Some (SetQueueHead i, [])"
    by (rule action_wire.dec_enc_Nil) simp
  then have set: "exec_action ?T name who (enc action_scale (SetQueueHead i)) ?s = (Inr (), after_head_set ?T name i ?s)"
    using assms(6,7) by (simp add: exec_action_def call_simps queue_head_set_run [OF paraxiom_config_ok inv'])
  have "rollup ?T (Signed who) name (answer_tx resp i) n s =
      (Inr (), (after_head_set ?T name i ?s)\<lparr>events := events (after_head_set ?T name i ?s)
         @ [AnchorEvent (RollupExecuted who name n)]\<rparr>)"
    using owner reply set by (simp add: rollup_signed answer_tx_def seq_def ret_def)
  moreover have "feed_data (after_head_set ?T name i ?s) = feed_data ?s"
      "feed_requests (after_head_set ?T name i ?s) = feed_requests s"
    by (simp_all add: after_head_set_def)
  moreover have "queue_inv ?T name (after_head_set ?T name i ?s)"
      "queue_abs ?T name (after_head_set ?T name i ?s) = drop (unat i - unat (head_pos ?T name s)) (queue_abs ?T name s)"
    using after_head_set_inv [OF paraxiom_config_ok inv', of i] assms(6,7) by simp_all
  ultimately show ?thesis
    using owner by (simp add: queue_ready_def after_head_set_positions)
qed

section \<open>A turn\<close>

lemma request_recorded:
  assumes "oracle_request T (Signed who) k n s = (Inr u, t)" and "api_feeds s (who, k) = Some feed"
  shows "feed_requests t (fresh_request_id T (block_number s)) = Some (recorded_request T who k n (block_number s) feed)
    \<and> feed_data t = feed_data s"
  using assms(1)
proof (rule request_OkE)
  fix who' feed' pos t'
  let ?s = "s\<lparr>feed_requests := (feed_requests s)(fresh_request_id T (block_number s)
      \<mapsto> recorded_request T who' k n (block_number s) feed')\<rparr>"
  assume push: "push_message T (last (iter_keys T (submitter_by_names s)))
      (request_message T (block_number s) feed') ?s = (Inr pos, t')"
    and t: "t = t'\<lparr>events := events t' @ [oracle_event T
      (OracleRequest who' (fresh_request_id T (block_number s)) k)]\<rparr>"
    and who: "Signed who = Signed who'" "api_feeds s (who', k) = Some feed'"
  from withinD [OF push_message_states push] obtain kv where "t' = ?s\<lparr>states := kv\<rparr>"
    unfolding only_states_def ..
  with t who assms(2) show ?thesis by auto
qed

lemma whole_queue:
  assumes "queue_inv T name s"
  shows "drop (unat (tail_pos T name s) - unat (head_pos T name s)) (queue_abs T name s) = []"
    and "head_pos T name s \<le> tail_pos T name s"
  using assms by (simp_all add: length_queue_abs queue_inv_def)

text \<open>With a full queue the push fails and the request is undone.\<close>

lemma request_full:
  assumes "queue_ready (paraxiom a b c) name submitter s"
    and "last (c (submitter_by_names s)) = name" and "c (submitter_by_names s) \<noteq> []"
    and "api_feeds s (who, k) = Some feed" and "status_is_active (status feed)"
    and "feed_bounded (paraxiom a b c) k (url feed) (path feed)"
    and "128 \<le> length (queue_abs (paraxiom a b c) name s)"
  shows "oracle_request (paraxiom a b c) (Signed who) k n s = (Inl (Err (Oracle FailedToPushMessageToAnchor)), s)"
proof -
  let ?T = "paraxiom a b c"
  let ?s = "s\<lparr>feed_requests := (feed_requests s)(fresh_request_id ?T (block_number s)
      \<mapsto> recorded_request ?T who k n (block_number s) feed)\<rparr>"
  have "queue_inv ?T name ?s" and "submitter_by_names ?s name = Some submitter"
    using assms(1) by (simp_all add: queue_ready_def)
  then have "push_message ?T name (request_message ?T (block_number s) feed) ?s = (Inl (Err QueueIsFull), ?s)"
    using assms(7) by (simp add: push_message_run [OF paraxiom_config_ok])
  moreover have "\<not> value_bytes_bound < length (request_message ?T (block_number s) feed)"
    using length_request_message [OF assms(6), of "block_number s"] by (simp add: value_bytes_bound_def)
  ultimately show ?thesis using assms(2-5) by (simp add: request_signed)
qed

text \<open>
  C14. How the oracle turns once a feed is active (\<open>register_feed\<close> never makes one active, so
  this describes storages that only another writer of the status would produce). Let a name be
  the one the oracle picks, its queue well formed and owned by the worker, its tail below the
  largest 32-bit value, the feed's key, URL and path within their bounds. With fewer than 128
  messages queued the request is accepted and its message (identifier, URL, path) is the last
  of the queue; then the worker's answer for that identifier and this name, of at most 147
  bytes, is accepted in one rollup with the new head position: the answer is stored under the
  worker and the request as it was made, every message is off the queue, and the queue is ready
  for the next turn. With 128 messages or more the request is refused with
  \<open>FailedToPushMessageToAnchor\<close> and records nothing.
\<close>

theorem oracle_turn:
  assumes "queue_ready (paraxiom a b c) name worker s"
    and "c (submitter_by_names s) \<noteq> []" and "last (c (submitter_by_names s)) = name"
    and "api_feeds s (who, k) = Some feed" and "status_is_active (status feed)"
    and "feed_bounded (paraxiom a b c) k (url feed) (path feed)"
    and "tail_pos (paraxiom a b c) name s \<noteq> - 1"
    and "phat_contract_id resp = name"
    and "request_id resp = fresh_request_id (paraxiom a b c) (block_number s)"
    and "length (response_data resp) \<le> 147"
  shows "if length (queue_abs (paraxiom a b c) name s) < 128
    then \<exists>t u. oracle_request (paraxiom a b c) (Signed who) k n s = (Inr (), t)
    \<and> queue_abs (paraxiom a b c) name t = queue_abs (paraxiom a b c) name s
        @ [enc message_scale (request_id resp, url feed, path feed)]
    \<and> rollup (paraxiom a b c) (Signed worker) name
        (answer_tx resp (tail_pos (paraxiom a b c) name s + 1)) m t = (Inr (), u)
    \<and> feed_data u = (feed_data s)((worker, \<lparr>registry_feed_key = k, caller = who, nonce = n,
        requested_data = enc message_scale (request_id resp, url feed, path feed)\<rparr>) \<mapsto> response_data resp)
    \<and> queue_abs (paraxiom a b c) name u = [] \<and> queue_ready (paraxiom a b c) name worker u
    else oracle_request (paraxiom a b c) (Signed who) k n s
      = (Inl (Err (Oracle FailedToPushMessageToAnchor)), s)"
proof (cases "length (queue_abs (paraxiom a b c) name s) < 128")
  case False
  with request_full [where a = a and b = b, OF assms(1,3,2,4-6)] show ?thesis by simp
next
  case True
  let ?T = "paraxiom a b c"
  obtain t where t: "oracle_request ?T (Signed who) k n s = (Inr (), t)"
      "queue_abs ?T name t = queue_abs ?T name s @ [request_message ?T (block_number s) feed]"
      "tail_pos ?T name t = tail_pos ?T name s + 1" "queue_ready ?T name worker t"
    using request_success [OF assms(1,3,2,4-6) True assms(7)] by blast
  have msg: "request_message ?T (block_number s) feed = enc message_scale (request_id resp, url feed, path feed)"
    by (simp add: request_message_def assms(9))
  have req: "feed_requests t (request_id resp) = Some (recorded_request ?T who k n (block_number s) feed)"
      "feed_data t = feed_data s"
    using request_recorded [OF t(1) assms(4)] assms(9) by simp_all
  have inv: "queue_inv ?T name t" using t(4) by (simp add: queue_ready_def)
  have "length (response_data resp) \<le> value_bytes_bound" "length (enc response_scale resp) \<le> action_bytes_bound"
    using assms(10)
    by (simp_all add: value_bytes_bound_def action_bytes_bound_def length_enc_response length_enc_compact_cases)
  from answer_run [OF t(4) assms(8) req(1) this whole_queue(2) [OF inv] order.refl] whole_queue(1) [OF inv]
  obtain u where "rollup ?T (Signed worker) name (answer_tx resp (tail_pos ?T name t)) m t = (Inr (), u)"
      "queue_ready ?T name worker u" "queue_abs ?T name u = []"
      "feed_data u = (feed_data s)((worker, recorded_request ?T who k n (block_number s) feed) \<mapsto> response_data resp)"
    by (auto simp: req(2))
  then show ?thesis
    using True t msg by (auto simp: recorded_request_def)
qed

definition served_answer :: "AccountId response_record" where
  "served_answer = \<lparr>owner = 1, phat_contract_id = 42, request_id = fresh_request_id demo_chain 0,
     response_data = [8, 9], timestamp_ms = 5\<rparr>"

theorem oracle_turn_witness:
  "\<exists>t u req. oracle_request demo_chain (Signed 2) [1] 6 served = (Inr (), t)
     \<and> rollup demo_chain (Signed 1) 42 (answer_tx served_answer 1) 0 t = (Inr (), u)
     \<and> feed_data u (1, req) = Some [8, 9] \<and> caller req = 2 \<and> queue_abs demo_chain 42 u = []"
proof -
  let ?order = "\<lambda>m. if m 42 = None then [] else [42 :: H256]"
  have order: "?order (submitter_by_names served) \<noteq> []" "last (?order (submitter_by_names served)) = 42"
    by (simp_all add: served_def)
  have room: "length (queue_abs demo_chain 42 served) < 128" "tail_pos demo_chain 42 served \<noteq> - 1"
    by (simp_all add: served_queue)
  have answer: "phat_contract_id served_answer = 42" "length (response_data served_answer) \<le> 147"
      "request_id served_answer = fresh_request_id demo_chain (block_number served)"
    by (simp_all add: served_answer_def served_def)
  from oracle_turn [OF served_ready [unfolded demo_chain_def] order served_feeds(2) demo_feed_active
      demo_feed_bounded [unfolded demo_chain_def] room(2) [unfolded demo_chain_def] answer(1)
      answer(3) [unfolded demo_chain_def] answer(2), of 6 0]
  show ?thesis
    unfolding demo_chain_def [symmetric]
    by (fastforce simp: served_queue served_answer_def)
qed

end
