(* ===== verification/Test_Harness.thy ===== *)
theory Test_Harness
  imports Frame
begin

text \<open>
  The assertions the repository's unit tests and benchmarks are written with
  (\<open>assert!\<close>, \<open>assert_eq!\<close> and FRAME's \<open>assert_ok!\<close>, \<open>assert_noop!\<close>), as calls: an
  assertion that does not hold is a panic. A test is a call over the storage, and it
  passes if it returns \<open>Ok\<close>. \<open>assert_noop!\<close> also asks that the storage is unchanged.

  The step lemmas run a test forward, one assertion at a time.
\<close>

definition assert_that :: "('s \<Rightarrow> bool) \<Rightarrow> ('e, 's, unit) call" where
  "assert_that P = (\<lambda>s. if P s then (Inr (), s) else (Inl Panic, s))"

definition assert_ok :: "('e, 's, 'a) call \<Rightarrow> ('f, 's, unit) call" where
  "assert_ok m = seq (attempt m) (\<lambda>r. case r of Inr _ \<Rightarrow> ret () | Inl _ \<Rightarrow> panic)"

text \<open>\<open>assert_eq!(m, Ok(v))\<close>, or \<open>assert_eq!(m, v)\<close> where \<open>m\<close> cannot fail.\<close>

definition assert_value :: "('e, 's, 'a) call \<Rightarrow> 'a \<Rightarrow> ('f, 's, unit) call" where
  "assert_value m v = seq (attempt m) (\<lambda>r. if r = Inr v then ret () else panic)"

text \<open>\<open>assert_eq!(m, Err(e))\<close>.\<close>

definition assert_error :: "('e, 's, 'a) call \<Rightarrow> 'e \<Rightarrow> ('f, 's, unit) call" where
  "assert_error m e = seq (attempt m) (\<lambda>r. if r = Inl e then ret () else panic)"

definition assert_noop :: "('e, 's, 'a) call \<Rightarrow> 'e \<Rightarrow> ('f, 's, unit) call" where
  "assert_noop m e = (\<lambda>s. case m s of
     (Inl (Err e'), t) \<Rightarrow> (if e' = e \<and> t = s then (Inr (), t) else (Inl Panic, t))
   | (_, t) \<Rightarrow> (Inl Panic, t))"

definition passes :: "('e, 's, unit) call \<Rightarrow> 's \<Rightarrow> bool" where
  "passes m s \<longleftrightarrow> fst (m s) = Inr ()"

section \<open>Running a test\<close>

lemma assert_that_step [call_simps]: "P s \<Longrightarrow> seq (assert_that P) f s = f () s"
  by (simp add: assert_that_def seq_def)

lemma assert_ok_step: "m s = (Inr a, t) \<Longrightarrow> seq (assert_ok m) f s = f () t"
  by (simp add: assert_ok_def attempt_def seq_def ret_def)

lemma assert_value_step: "m s = (Inr v, t) \<Longrightarrow> seq (assert_value m v) f s = f () t"
  by (simp add: assert_value_def attempt_def seq_def ret_def)

lemma assert_error_step: "m s = (Inl (Err e), t) \<Longrightarrow> seq (assert_error m e) f s = f () t"
  by (simp add: assert_error_def attempt_def seq_def ret_def)

lemma assert_noop_step: "m s = (Inl (Err e), s) \<Longrightarrow> seq (assert_noop m e) f s = f () s"
  by (simp add: assert_noop_def seq_def)

lemma passes_then: "m s = (Inr a, t) \<Longrightarrow> passes (f a) t \<Longrightarrow> passes (seq m f) s"
  by (simp add: passes_def seq_def)

lemma passes_that: "P s \<Longrightarrow> passes (f ()) s \<Longrightarrow> passes (seq (assert_that P) f) s"
  by (simp add: passes_def assert_that_step)

lemma passes_ok: "m s = (Inr a, t) \<Longrightarrow> passes (f ()) t \<Longrightarrow> passes (seq (assert_ok m) f) s"
  by (simp add: passes_def assert_ok_step)

lemma passes_value: "m s = (Inr v, t) \<Longrightarrow> passes (f ()) t \<Longrightarrow> passes (seq (assert_value m v) f) s"
  by (simp add: passes_def assert_value_step)

lemma passes_error: "m s = (Inl (Err e), t) \<Longrightarrow> passes (f ()) t \<Longrightarrow> passes (seq (assert_error m e) f) s"
  by (simp add: passes_def assert_error_step)

lemma passes_noop: "m s = (Inl (Err e), s) \<Longrightarrow> passes (f ()) s \<Longrightarrow> passes (seq (assert_noop m e) f) s"
  by (simp add: passes_def assert_noop_step)

lemma passes_last:
  "P s \<Longrightarrow> passes (assert_that P) s"
  "m s = (Inr a, t) \<Longrightarrow> passes (assert_ok m) s"
  "m s = (Inr v, t) \<Longrightarrow> passes (assert_value m v) s"
  "m s = (Inl (Err e), s) \<Longrightarrow> passes (assert_noop m e) s"
  by (simp_all add: passes_def assert_that_def assert_ok_def assert_value_def assert_noop_def
      attempt_def seq_def ret_def)

text \<open>A loop of assertions that each hold and leave the storage as it is.\<close>

lemma for_each_same:
  "(\<And>x. x \<in> set xs \<Longrightarrow> f x s = (Inr (), s)) \<Longrightarrow> for_each xs f s = (Inr (), s)"
  by (induction xs) (simp_all add: seq_def ret_def)

end
