(* ===== verification/Anchor_Mock.thy ===== *)
theory Anchor_Mock
  imports Clients Test_Harness
begin

text \<open>
  The unit tests of the anchor (the test module of
  \<open>src/pallets/offchain-rollup/src/anchor.rs\<close>) and the mock runtime they run in
  (\<open>mock.rs\<close>), as calls of the model. Accounts are 64-bit numbers; the mock's block
  number is 64 bits wide too, the model's 32, and the tests only set it to 1.

  The mock's configuration of the oracle lacks \<open>DataCount\<close> and \<open>OracleRandomness\<close>, which
  the pallet requires; they are arguments of \<open>test_config\<close>, with the codec of the response
  record and the storage's order. \<open>rollup_works\<close> is modelled up to its last part, which
  speaks of fields and an event the code no longer has. The session library of
  \<open>queue_e2e\<close> is outside the repository: what it resolves the two sessions of the test
  to is an argument, described by \<open>e2e_sessions\<close>.
\<close>

section \<open>The mock runtime\<close>

datatype test_event =
    TestRegistry "u64 registry_event"
  | TestAnchor "u64 anchor_event"
  | TestOracle "u64 oracle_event"

type_synonym test_state = "(test_event, u64) oracle_state"

type_synonym test_oracle_config = "(test_event, u64, test_state) oracle_config"

definition test_config ::
    "u32 \<Rightarrow> (u32 \<Rightarrow> H256 \<times> u32) \<Rightarrow> (u32 \<Rightarrow> bytes \<Rightarrow> H256 \<times> u32) \<Rightarrow> u64 response_record codec \<Rightarrow>
     ((H256 \<rightharpoonup> u64) \<Rightarrow> H256 list) \<Rightarrow> test_oracle_config" where
  "test_config counts seed_source random_source response key_order = with_oracle
     \<lparr>registry_event = TestRegistry, max_url_size = 256, max_key_size = 256, max_path_size = 256,
      anchor_event = TestAnchor, on_response = (\<lambda>_ _ _. ret ()),
      queue_prefix = queue_prefix_bytes, queue_capacity = 3,
      u32_codec = u32_scale, action_codec = action_scale,
      oracle_event = TestOracle, quotes_count = 1, data_count = counts,
      random_seed = seed_source, random = random_source,
      enc_seed = enc (pair_codec h256_scale u32_scale), enc_message = enc message_scale,
      response_codec = response, iter_keys = key_order\<rparr>"

definition new_test_ext :: test_state where
  "new_test_ext = \<lparr>block_number = 0, events = [], api_feeds = Map.empty, submitter_by_names = Map.empty,
     states = Map.empty, price_feeds = Map.empty, feed_data = Map.empty,
     feed_requests = Map.empty, averages = Map.empty\<rparr>"

definition set_block_1 :: "('e, ('ev, 'm) system_state_scheme, unit) call" where
  "set_block_1 = modify (\<lambda>s. s\<lparr>block_number := 1\<rparr>)"

definition take_events :: "('e, ('ev, 'm) system_state_scheme, 'ev list) call" where
  "take_events = seq (gets events) (\<lambda>evt. seq (modify (\<lambda>s. s\<lparr>events := []\<rparr>)) (\<lambda>_. ret evt))"

section \<open>The tests\<close>

text \<open>\<open>H256([1u8; 32])\<close>.\<close>

definition name1 :: H256 where
  "name1 = of_nat (le_value (replicate 32 1))"

definition key_bytes :: bytes where
  "key_bytes = [107, 101, 121]"

definition value_bytes :: bytes where
  "value_bytes = [118, 97, 108, 117, 101]"

definition new_value_bytes :: bytes where
  "new_value_bytes = [110, 101, 119, 45, 118, 97, 108, 117, 101]"

definition foo_bytes :: bytes where
  "foo_bytes = [102, 111, 111]"

definition rollup_works :: "test_oracle_config \<Rightarrow> (dispatch_error, test_state, unit) call" where
  "rollup_works T =
     seq set_block_1 (\<lambda>_.
     seq (assert_ok (claim_name T (Signed 1) name1)) (\<lambda>_.
     seq (assert_ok (rollup T (Signed 1) name1
       \<lparr>conds = [], actions = [],
        updates = [(bvec key_bytes_bound key_bytes, Some (bvec value_bytes_bound value_bytes))]\<rparr> 1)) (\<lambda>_.
     seq (assert_that (\<lambda>s. states s (name1, key_bytes) = Some value_bytes)) (\<lambda>_.
     seq (assert_ok (rollup T (Signed 1) name1
       \<lparr>conds = [Eq (bvec key_bytes_bound key_bytes) (Some (bvec value_bytes_bound value_bytes))], actions = [],
        updates = [(bvec key_bytes_bound key_bytes, Some (bvec value_bytes_bound new_value_bytes))]\<rparr> 2)) (\<lambda>_.
     seq (assert_that (\<lambda>s. states s (name1, key_bytes) = Some new_value_bytes)) (\<lambda>_.
     seq (assert_noop (rollup T (Signed 1) name1
       \<lparr>conds = [Eq (bvec key_bytes_bound key_bytes) (Some (bvec value_bytes_bound value_bytes))], actions = [],
        updates = []\<rparr> 3) (Anchor CondNotMet)) (\<lambda>_.
     seq (assert_ok (rollup T (Signed 1) name1
       \<lparr>conds = [], actions = [], updates = [(bvec key_bytes_bound key_bytes, None)]\<rparr> 4)) (\<lambda>_.
     assert_that (\<lambda>s. states s (name1, key_bytes) = None)))))))))"

definition name_cannot_claim_twice :: "test_oracle_config \<Rightarrow> (dispatch_error, test_state, unit) call" where
  "name_cannot_claim_twice T =
     seq set_block_1 (\<lambda>_.
     seq (assert_ok (claim_name T (Signed 1) name1)) (\<lambda>_.
     assert_noop (claim_name T (Signed 2) name1) (Anchor NameAlreadyClaimed)))"

definition queue_key_is_correct :: "test_oracle_config \<Rightarrow> (dispatch_error, test_state, unit) call" where
  "queue_key_is_correct T =
     seq (assert_value (queue_key T (Index 1) :: (dispatch_error, test_state, KeyBytes) call)
       [95, 113, 117, 101, 117, 101, 47, 1, 0, 0, 0]) (\<lambda>_.
     assert_value (queue_key T head_field :: (dispatch_error, test_state, KeyBytes) call)
       [95, 113, 117, 101, 117, 101, 47, 95, 104, 101, 97, 100])"

definition assert_queue ::
    "test_oracle_config \<Rightarrow> u32 \<Rightarrow> u32 \<Rightarrow> u32 \<Rightarrow> (dispatch_error, test_state, unit) call" where
  "assert_queue T head tail len =
     seq (assert_value (queue_head T name1 :: (dispatch_error, test_state, u32) call) head) (\<lambda>_.
     seq (assert_value (queue_tail T name1 :: (dispatch_error, test_state, u32) call) tail) (\<lambda>_.
     assert_value (queue_len T name1 :: (dispatch_error, test_state, u32) call) len))"

definition assert_stored ::
    "test_oracle_config \<Rightarrow> bool \<Rightarrow> u32 \<Rightarrow> (dispatch_error, test_state, unit) call" where
  "assert_stored T present i =
     seq (queue_get T name1 (Index i)) (\<lambda>o_value. assert_that (\<lambda>_. (o_value \<noteq> None) = present))"

definition head_tx :: "u32 \<Rightarrow> rollup_tx" where
  "head_tx i = \<lparr>conds = [], actions = [bvec action_bytes_bound (enc action_scale (SetQueueHead i))], updates = []\<rparr>"

definition queue_works :: "test_oracle_config \<Rightarrow> (dispatch_error, test_state, unit) call" where
  "queue_works T =
     seq set_block_1 (\<lambda>_.
     seq (assert_ok (claim_name T (Signed 1) name1)) (\<lambda>_.
     seq (assert_queue T 0 0 0) (\<lambda>_.
     seq (assert_value (push_message T name1 (bvec value_bytes_bound foo_bytes)) 0) (\<lambda>_.
     seq (assert_queue T 0 1 1) (\<lambda>_.
     let cap = queue_capacity T in
     seq (for_each (word_range 1 cap) (\<lambda>i.
       assert_value (push_message T name1 (bvec value_bytes_bound foo_bytes)) i)) (\<lambda>_.
     seq (assert_queue T 0 cap cap) (\<lambda>_.
     seq (assert_error (push_message T name1 (bvec value_bytes_bound foo_bytes)) QueueIsFull) (\<lambda>_.
     seq (assert_queue T 0 cap cap) (\<lambda>_.
     seq (for_each (word_range 0 cap) (assert_stored T True)) (\<lambda>_.
     seq (assert_ok (rollup T (Signed 1) name1 (head_tx (cap - 1)) 1)) (\<lambda>_.
     seq (assert_queue T (cap - 1) cap 1) (\<lambda>_.
     seq (for_each (word_range 0 (cap - 1)) (assert_stored T False)) (\<lambda>_.
     seq (assert_stored T True (cap - 1)) (\<lambda>_.
     seq (assert_ok (rollup T (Signed 1) name1 (head_tx cap) 1)) (\<lambda>_.
     seq (assert_value (queue_len T name1 :: (dispatch_error, test_state, u32) call) 0) (\<lambda>_.
     assert_noop (rollup T (Signed 1) name1 (head_tx (cap + 1)) 1) (Anchor InvalidQueueHead)))))))))))))))))"

text \<open>
  \<open>queue_e2e\<close>: \<open>resolve\<close> is the session library on the committed transactions of the two
  clients, the first of which popped the queue empty and put \<open>bar\<close> at \<open>foo\<close>.
\<close>

definition tom_bytes :: bytes where
  "tom_bytes = [84, 111, 109]"

definition kitty_bytes :: bytes where
  "kitty_bytes = [75, 105, 116, 116, 121]"

definition bar_bytes :: bytes where
  "bar_bytes = [98, 97, 114]"

definition queue_e2e ::
    "test_oracle_config \<Rightarrow> ('tx \<Rightarrow> session_output option) \<Rightarrow> (session_output \<Rightarrow> bool) \<Rightarrow> 'tx \<Rightarrow> 'tx \<Rightarrow>
     (dispatch_error, test_state, unit) call" where
  "queue_e2e T resolve has_updates tx dup_tx =
     seq set_block_1 (\<lambda>_.
     seq (assert_ok (claim_name T (Signed 1) name1)) (\<lambda>_.
     seq (assert_queue T 0 0 0) (\<lambda>_.
     seq (assert_value (push_message T name1 (bvec value_bytes_bound tom_bytes)) 0) (\<lambda>_.
     seq (assert_value (push_message T name1 (bvec value_bytes_bound kitty_bytes)) 1) (\<lambda>_.
     seq (assert_queue T 0 2 2) (\<lambda>_.
     seq (session_rollup_tx resolve has_updates tx) (\<lambda>o_rollup.
     seq (expect o_rollup) (\<lambda>rollup_arg.
     seq (session_rollup_tx resolve has_updates dup_tx) (\<lambda>o_dup.
     seq (expect o_dup) (\<lambda>dup_rollup.
     seq (assert_ok (rollup T (Signed 1) name1 rollup_arg 1)) (\<lambda>_.
     seq (assert_queue T 2 2 0) (\<lambda>_.
     seq (assert_value (snapshot_get name1 foo_bytes :: (dispatch_error, test_state, bytes option) call)
       (Some bar_bytes)) (\<lambda>_.
     assert_noop (rollup T (Signed 1) name1 dup_rollup 1) (Anchor CondNotMet))))))))))))))"

section \<open>Running the tests\<close>

lemma test_config_sel [simp]:
  "queue_prefix (test_config dc ss rs rc ko) = queue_prefix_bytes"
  "queue_capacity (test_config dc ss rs rc ko) = 3"
  "u32_codec (test_config dc ss rs rc ko) = u32_scale"
  "action_codec (test_config dc ss rs rc ko) = action_scale"
  "anchor_event (test_config dc ss rs rc ko) = TestAnchor"
  by (simp_all add: test_config_def)

lemma test_config_ok [simp]: "anchor_config_ok (test_config dc ss rs rc ko)"
  by (simp add: anchor_config_ok_def queue_prefix_bytes_def key_bytes_bound_def u32_codec.law)

lemma test_action_codec_ok [simp]: "action_codec_ok (test_config dc ss rs rc ko)"
  by (auto simp: action_codec_ok_def intro: codec_ok_mono [OF action_wire.law])

text \<open>The storage every test starts from: block 1, the name claimed by account 1.\<close>

definition test_claimed :: test_state where
  "test_claimed = new_test_ext\<lparr>block_number := 1, submitter_by_names := [name1 \<mapsto> 1],
     events := [TestAnchor (NameClaimed 1 name1)]\<rparr>"

lemma test_start:
  "passes (f ()) test_claimed \<Longrightarrow>
   passes (seq set_block_1 (\<lambda>_. seq (assert_ok (claim_name (test_config dc ss rs rc ko) (Signed 1) name1)) f))
     new_test_ext"
proof -
  assume body: "passes (f ()) test_claimed"
  have "claim_name (test_config dc ss rs rc ko) (Signed 1) name1 (new_test_ext\<lparr>block_number := 1\<rparr>)
      = (Inr (), test_claimed)"
    by (simp add: claim_name_signed new_test_ext_def test_claimed_def)
  with body show ?thesis
    by (simp add: passes_def set_block_1_def call_simps assert_ok_step)
qed

text \<open>The queue of the tests' name at a storage.\<close>

definition queue_at :: "test_oracle_config \<Rightarrow> u32 \<Rightarrow> u32 \<Rightarrow> bytes list \<Rightarrow> test_state \<Rightarrow> bool" where
  "queue_at T head tail msgs s \<longleftrightarrow>
     queue_ready T name1 1 s \<and> head_pos T name1 s = head \<and> tail_pos T name1 s = tail \<and> queue_abs T name1 s = msgs"

lemma queue_atD:
  assumes "queue_at T head tail msgs s"
  shows "anchor_config_ok T" "queue_inv T name1 s" "submitter_by_names s name1 = Some 1"
    and "head_pos T name1 s = head" "tail_pos T name1 s = tail" "queue_abs T name1 s = msgs"
  using assms by (simp_all add: queue_at_def queue_ready_def)

lemma queue_at_start: "queue_at (test_config dc ss rs rc ko) 0 0 [] test_claimed"
  by (simp add: queue_at_def queue_ready_def queue_inv_def stored_u32_def head_pos_def tail_pos_def
      queue_abs_def word_range_def List.map_filter_def test_claimed_def new_test_ext_def)

lemma assert_queue_run:
  assumes "queue_at T head tail msgs s" and "tail - head = len"
  shows "assert_queue T head tail len s = (Inr (), s)"
proof -
  note q = queue_atD [OF assms(1)]
  have "queue_head T name1 s = (Inr head :: dispatch_error fault + u32, s)"
    "queue_tail T name1 s = (Inr tail :: dispatch_error fault + u32, s)"
    "queue_len T name1 s = (Inr len :: dispatch_error fault + u32, s)"
    using queue_inv_reads [OF q(1,2)] queue_inv_len [OF q(1,2)] q(4,5) assms(2) by simp_all
  then show ?thesis
    by (simp add: assert_queue_def assert_value_step)
      (simp add: assert_value_def attempt_def seq_def ret_def)
qed

lemma queue_at_push:
  assumes "queue_at T head tail msgs s" and "length msgs < unat (queue_capacity T)" and "tail \<noteq> - 1"
  shows "push_message T name1 m s = (Inr tail, after_push T name1 m s)"
    and "queue_at T head (tail + 1) (msgs @ [m]) (after_push T name1 m s)"
proof -
  note q = queue_atD [OF assms(1)]
  show "push_message T name1 m s = (Inr tail, after_push T name1 m s)"
    using assms(2) q(3,5,6) by (simp add: push_message_run [OF q(1,2)])
  have "tail_pos T name1 s \<noteq> - 1" using q(5) assms(3) by simp
  from after_push_inv [OF q(1,2) this] show "queue_at T head (tail + 1) (msgs @ [m]) (after_push T name1 m s)"
    using assms(1) q by (simp add: queue_at_def queue_ready_def after_push_positions)
qed

lemma queue_at_full:
  "queue_at T head tail msgs s \<Longrightarrow> unat (queue_capacity T) \<le> length msgs \<Longrightarrow>
   push_message T name1 m s = (Inl (Err QueueIsFull), s)"
  by (frule queue_atD(1), frule queue_atD(2)) (simp add: push_message_run queue_atD)

lemma head_tx_is: "action_codec T = action_scale \<Longrightarrow> head_tx i = pop_tx T i"
  by (simp add: head_tx_def pop_tx_def bvec_def action_bytes_bound_def action_scale_def enc_action_def)

definition popped :: "test_oracle_config \<Rightarrow> u32 \<Rightarrow> u128 \<Rightarrow> test_state \<Rightarrow> test_state" where
  "popped T i n s = (after_head_set T name1 i s)\<lparr>events := events s @ [anchor_event T (RollupExecuted 1 name1 n)]\<rparr>"

lemma queue_at_pop:
  assumes "queue_at T head tail msgs s" and "action_codec T = action_scale"
  shows "head \<le> i \<Longrightarrow> i \<le> tail \<Longrightarrow> rollup T (Signed 1) name1 (head_tx i) n s = (Inr (), popped T i n s)"
    and "head \<le> i \<Longrightarrow> i \<le> tail \<Longrightarrow> queue_at T i tail (drop (unat i - unat head) msgs) (popped T i n s)"
    and "tail < i \<Longrightarrow> rollup T (Signed 1) name1 (head_tx i) n s = (Inl (Err (Anchor InvalidQueueHead)), s)"
    and "head \<le> j \<Longrightarrow> j < i \<Longrightarrow> states (popped T i n s) (name1, store_key T (Index j)) = None"
proof -
  note q = queue_atD [OF assms(1)]
  have ready: "queue_ready T name1 1 s" using assms(1) by (simp add: queue_at_def)
  note run = pop_rollup_run [OF ready, of i n, folded head_tx_is [OF assms(2)], unfolded q]
  show "rollup T (Signed 1) name1 (head_tx i) n s = (Inr (), popped T i n s)" if "head \<le> i" "i \<le> tail"
    using that run by (simp add: popped_def)
  show "rollup T (Signed 1) name1 (head_tx i) n s = (Inl (Err (Anchor InvalidQueueHead)), s)" if "tail < i"
    using that run by (simp add: not_le)
  show "queue_at T i tail (drop (unat i - unat head) msgs) (popped T i n s)" if "head \<le> i" "i \<le> tail"
    using that after_head_set_inv [OF q(1,2), unfolded q, of i] ready q
    by (simp add: queue_at_def queue_ready_def popped_def after_head_set_positions)
  show "states (popped T i n s) (name1, store_key T (Index j)) = None" if "head \<le> j" "j < i"
    using that q(1,4) by (auto simp: popped_def after_head_set_def set_word_range)
qed

lemma assert_stored_run:
  assumes "queue_at T head tail msgs s"
    and "(states s (name1, store_key T (Index i)) \<noteq> None) = present"
  shows "assert_stored T present i s = (Inr (), s)"
  using assms queue_atD(1) [OF assms(1)]
  by (simp add: assert_stored_def queue_get_def queue_key_eq call_simps assert_that_def)

lemma queue_at_stored:
  assumes "queue_at T head tail msgs s" and "head \<le> i" and "i < tail"
  shows "assert_stored T True i s = (Inr (), s)"
proof -
  note q = queue_atD [OF assms(1)]
  have "states s (name1, store_key T (Index i)) \<noteq> None"
    using q(2,4,5) assms(2,3) by (auto simp: queue_inv_def)
  with assms(1) show ?thesis by (intro assert_stored_run) auto
qed

text \<open>A rollup without actions, by the owner.\<close>

lemma test_rollup:
  assumes "submitter_by_names s name1 = Some 1"
  shows "\<forall>x \<in> set cs. cond_holds name1 s x \<Longrightarrow>
      rollup (test_config dc ss rs rc ko) (Signed 1) name1 \<lparr>conds = cs, actions = [], updates = us\<rparr> n s =
        (Inr (), s\<lparr>states := write_updates name1 us (states s),
           events := events s @ [TestAnchor (RollupExecuted 1 name1 n)]\<rparr>)"
    and "\<not> (\<forall>x \<in> set cs. cond_holds name1 s x) \<Longrightarrow>
      rollup (test_config dc ss rs rc ko) (Signed 1) name1 \<lparr>conds = cs, actions = [], updates = us\<rparr> n s =
        (Inl (Err (Anchor CondNotMet)), s)"
  using assms by (simp_all add: rollup_signed ret_def)

lemma test_bytes:
  "bvec key_bytes_bound key_bytes = key_bytes" "bvec value_bytes_bound value_bytes = value_bytes"
  "bvec value_bytes_bound new_value_bytes = new_value_bytes" "new_value_bytes \<noteq> value_bytes"
  by (simp_all add: bvec_def key_bytes_def value_bytes_def new_value_bytes_def key_bytes_bound_def
      value_bytes_bound_def)

lemma rollup_works_passes: "passes (rollup_works (test_config dc ss rs rc ko)) new_test_ext"
  unfolding rollup_works_def test_bytes(1-3)
  apply (rule test_start)
  apply (rule passes_ok, rule test_rollup(1))
  apply (simp add: test_claimed_def)
  apply simp
  apply (rule passes_that, simp)
  apply (rule passes_ok, rule test_rollup(1))
  apply (simp add: test_claimed_def)
  apply simp
  apply (rule passes_that, simp)
  apply (rule passes_noop, rule test_rollup(2))
  apply (simp add: test_claimed_def)
  apply (simp add: test_bytes)
  apply (rule passes_ok, rule test_rollup(1))
  apply (simp add: test_claimed_def)
  apply simp
  apply (rule passes_last(1), simp)
  done

lemma name_cannot_claim_twice_passes:
  "passes (name_cannot_claim_twice (test_config dc ss rs rc ko)) new_test_ext"
  unfolding name_cannot_claim_twice_def
  by (rule test_start, rule passes_last(4)) (simp add: claim_name_signed test_claimed_def)

lemma queue_key_is_correct_passes:
  "passes (queue_key_is_correct (test_config dc ss rs rc ko)) new_test_ext"
proof -
  have "enc u32_scale 1 = [1, 0, 0, 0]"
    by code_simp
  then show ?thesis
    by (simp add: queue_key_is_correct_def queue_key_eq store_key_def queue_prefix_bytes_def
        head_field_def assert_value_def attempt_def passes_def seq_def ret_def queue_field_def)
qed

lemma test_ranges: "word_range 1 (3 :: u32) = [1, 2]"
  by code_simp

lemma drop_two: "drop 2 [x, y, z] = [z]"
  by (simp add: numeral_2_eq_2)

lemma queue_works_passes: "passes (queue_works (test_config dc ss rs rc ko)) new_test_ext"
proof -
  let ?T = "test_config dc ss rs rc ko"
  let ?m = "bvec value_bytes_bound foo_bytes"
  let ?s0 = test_claimed
  let ?s1 = "after_push ?T name1 ?m ?s0"
  let ?s2 = "after_push ?T name1 ?m ?s1"
  let ?s3 = "after_push ?T name1 ?m ?s2"
  let ?s4 = "popped ?T 2 1 ?s3"
  let ?s5 = "popped ?T 3 1 ?s4"
  have cap: "unat (queue_capacity ?T) = 3" by simp
  note q0 = queue_at_start [of dc ss rs rc ko]
  have q1: "push_message ?T name1 ?m ?s0 = (Inr 0, ?s1)" "queue_at ?T 0 1 [?m] ?s1"
    using queue_at_push [OF q0, of ?m] by simp_all
  have q2: "push_message ?T name1 ?m ?s1 = (Inr 1, ?s2)" "queue_at ?T 0 2 [?m, ?m] ?s2"
    using queue_at_push [OF q1(2), of ?m] by simp_all
  have q3: "push_message ?T name1 ?m ?s2 = (Inr 2, ?s3)" "queue_at ?T 0 3 [?m, ?m, ?m] ?s3"
    using queue_at_push [OF q2(2), of ?m] by simp_all
  have full: "push_message ?T name1 ?m ?s3 = (Inl (Err QueueIsFull), ?s3)"
    using queue_at_full [OF q3(2)] by simp
  have two: "(0 :: u32) \<le> 2" "(2 :: u32) \<le> 3" "(3 :: u32) < 4" by simp_all
  have q4: "rollup ?T (Signed 1) name1 (head_tx 2) 1 ?s3 = (Inr (), ?s4)" "queue_at ?T 2 3 [?m] ?s4"
    using queue_at_pop(1,2) [OF q3(2) _ two(1,2)] by (simp_all add: drop_two)
  have q5: "rollup ?T (Signed 1) name1 (head_tx 3) 1 ?s4 = (Inr (), ?s5)" "queue_at ?T 3 3 [] ?s5"
    using queue_at_pop(1,2) [OF q4(2) _ two(2) order.refl] by simp_all
  have more: "rollup ?T (Signed 1) name1 (head_tx 4) 1 ?s5 = (Inl (Err (Anchor InvalidQueueHead)), ?s5)"
    using queue_at_pop(3) [OF q5(2) _ two(3)] by simp
  have gone: "assert_stored ?T False i ?s4 = (Inr (), ?s4)" if "i < 2" for i
    using queue_at_pop(4) [OF q3(2) _ _ that] by (intro assert_stored_run [OF q4(2)]) simp
  have pushes: "for_each (word_range 1 3) (\<lambda>i. assert_value (push_message ?T name1 ?m) i) ?s1 = (Inr (), ?s3)"
    by (simp add: test_ranges assert_value_def attempt_def seq_def q2(1) q3(1) ret_def)
  have present: "for_each (word_range 0 3) (assert_stored ?T True) ?s3 = (Inr (), ?s3)"
    by (rule for_each_same) (auto simp: set_word_range intro: queue_at_stored [OF q3(2)])
  have absent: "for_each (word_range 0 2) (assert_stored ?T False) ?s4 = (Inr (), ?s4)"
    by (rule for_each_same) (auto simp: set_word_range intro: gone)
  have len: "queue_len ?T name1 ?s5 = (Inr 0 :: dispatch_error fault + u32, ?s5)"
    using queue_inv_len [OF queue_atD(1,2) [OF q5(2)]] queue_atD [OF q5(2)] by simp
  show ?thesis
    unfolding queue_works_def Let_def
    apply (rule test_start)
    apply simp
    apply (rule passes_then, rule assert_queue_run [OF q0], simp)
    apply (rule passes_value, rule q1(1))
    apply (rule passes_then, rule assert_queue_run [OF q1(2)], simp)
    apply (rule passes_then, rule pushes)
    apply (rule passes_then, rule assert_queue_run [OF q3(2)], simp)
    apply (rule passes_error, rule full)
    apply (rule passes_then, rule assert_queue_run [OF q3(2)], simp)
    apply (rule passes_then, rule present)
    apply (rule passes_ok, rule q4(1))
    apply (rule passes_then, rule assert_queue_run [OF q4(2)], simp)
    apply (rule passes_then, rule absent)
    apply (rule passes_then, rule queue_at_stored [OF q4(2)], simp, simp)
    apply (rule passes_ok, rule q5(1))
    apply (rule passes_value, rule len)
    apply (rule passes_last(4), rule more)
    done
qed

section \<open>Running the end-to-end test\<close>

text \<open>
  What the test relies on of the session library: the sessions' conditions hold in the
  store they read, what they write fits the bounds and stays outside the queue's keys,
  the first session moves the head past both messages and writes \<open>foo\<close>, and the two
  conflict (the second has a condition on a key the first changes).
\<close>

definition e2e_sessions ::
    "test_oracle_config \<Rightarrow> (KeyBytes \<Rightarrow> ValueBytes option) \<Rightarrow> session_output \<Rightarrow> session_output \<Rightarrow> bool" where
  "e2e_sessions T store out dup \<longleftrightarrow>
     (\<forall>(k, v) \<in> set (so_conditions out) \<union> set (so_conditions dup). store k = v)
     \<and> list_all update_bounded (so_conditions out @ so_conditions dup @ so_updates out @ so_updates dup)
     \<and> (\<forall>(k, v) \<in> set (so_updates out). \<not> in_queue_space T k)
     \<and> so_queue_head out = Some 2
     \<and> map_of (rev (so_updates out)) foo_bytes = Some (Some bar_bytes)
     \<and> (\<exists>(k, v) \<in> set (so_conditions dup). \<exists>w. map_of (rev (so_updates out)) k = Some w \<and> w \<noteq> v)"

lemma those_bounded_entry: "list_all update_bounded es \<Longrightarrow> those (map bounded_entry es) = Some es"
  by (induction es) (auto simp: bounded_entry_def update_bounded_def try_bounded_def split: option.splits)

lemma session_rollup_run:
  assumes "resolve tx = Some out" and "has_updates out"
    and "list_all update_bounded (so_conditions out)" and "list_all update_bounded (so_updates out)"
  shows "session_rollup_tx resolve has_updates tx s =
    (Inr (Some \<lparr>conds = map (\<lambda>(k, v). Eq k v) (so_conditions out),
       actions = (case so_queue_head out of None \<Rightarrow> []
         | Some head \<Rightarrow> [bvec action_bytes_bound (enc action_scale (SetQueueHead head))]),
       updates = so_updates out\<rparr>), s)"
  using assms by (simp add: session_rollup_tx_def those_bounded_entry call_simps)

lemma store_key_in_space: "in_queue_space T (store_key T i)"
  by (simp add: in_queue_space_def store_key_def)

lemma updates_outside:
  "(\<forall>(k, v) \<in> set us. \<not> in_queue_space T k) \<Longrightarrow>
   write_updates name us kv (m, store_key T i) = kv (m, store_key T i)"
  using store_key_in_space [of T i] by (intro write_updates_other) force

lemma queue_at_outside:
  assumes "queue_at T head tail msgs s" and "\<forall>(k, v) \<in> set us. \<not> in_queue_space T k"
  shows "queue_at T head tail msgs (s\<lparr>states := write_updates name1 us (states s)\<rparr>)"
proof -
  let ?t = "s\<lparr>states := write_updates name1 us (states s)\<rparr>"
  have stored: "states ?t (name1, store_key T i) = states s (name1, store_key T i)" for i
    by (simp add: updates_outside [OF assms(2)])
  then have "stored_u32 T name1 i ?t = stored_u32 T name1 i s" for i
    by (simp add: stored_u32_def)
  then have "head_pos T name1 ?t = head_pos T name1 s" "tail_pos T name1 ?t = tail_pos T name1 s"
      "queue_inv T name1 ?t = queue_inv T name1 s" "queue_abs T name1 ?t = queue_abs T name1 s"
    using stored by (simp_all add: head_pos_def tail_pos_def queue_inv_def queue_abs_def)
  then show ?thesis
    using assms(1) by (simp add: queue_at_def queue_ready_def)
qed

lemma after_head_set_outside:
  "\<not> in_queue_space T k \<Longrightarrow> states (after_head_set T name i s) (m, k) = states s (m, k)"
  using store_key_in_space [of T] by (auto simp: after_head_set_def)

lemma head_action_run:
  assumes "queue_at T head tail msgs s" and "action_codec T = action_scale" and "head \<le> i" and "i \<le> tail"
  shows "for_each [bvec action_bytes_bound (enc action_scale (SetQueueHead i))] (exec_action T name1 1) s =
    (Inr (), after_head_set T name1 i s)"
proof -
  note q = queue_atD [OF assms(1)]
  have "bvec action_bytes_bound (enc action_scale (SetQueueHead i)) = enc action_scale (SetQueueHead i)"
    by (simp add: bvec_def action_bytes_bound_def action_scale_def enc_action_def)
  moreover have "dec action_scale (enc action_scale (SetQueueHead i)) = Some (SetQueueHead i, [])"
    by (rule action_wire.dec_enc_Nil) simp
  ultimately show ?thesis
    using assms(2-4) q(4,5)
    by (simp add: exec_action_def seq_def ok_or_def ret_def queue_head_set_run [OF q(1,2)])
qed

lemma queue_e2e_passes:
  assumes "resolve tx = Some out" and "resolve dup_tx = Some dup" and "has_updates out" and "has_updates dup"
    and "\<And>s. queue_at (test_config dc ss rs rc ko) 0 2 [tom_bytes, kitty_bytes] s \<Longrightarrow>
      (\<forall>k. \<not> in_queue_space (test_config dc ss rs rc ko) k \<longrightarrow> states s (name1, k) = None) \<Longrightarrow>
      e2e_sessions (test_config dc ss rs rc ko) (\<lambda>k. states s (name1, k)) out dup"
  shows "passes (queue_e2e (test_config dc ss rs rc ko) resolve has_updates tx dup_tx) new_test_ext"
proof -
  let ?T = "test_config dc ss rs rc ko"
  have bytes: "bvec value_bytes_bound tom_bytes = tom_bytes" "bvec value_bytes_bound kitty_bytes = kitty_bytes"
    by (simp_all add: bvec_def value_bytes_bound_def tom_bytes_def kitty_bytes_def)
  let ?s0 = test_claimed
  let ?s1 = "after_push ?T name1 tom_bytes ?s0"
  let ?s2 = "after_push ?T name1 kitty_bytes ?s1"
  note q0 = queue_at_start [of dc ss rs rc ko]
  have q1: "push_message ?T name1 tom_bytes ?s0 = (Inr 0, ?s1)" "queue_at ?T 0 1 [tom_bytes] ?s1"
    using queue_at_push [OF q0, of tom_bytes] by simp_all
  have q2: "push_message ?T name1 kitty_bytes ?s1 = (Inr 1, ?s2)" "queue_at ?T 0 2 [tom_bytes, kitty_bytes] ?s2"
    using queue_at_push [OF q1(2), of kitty_bytes] by simp_all
  have "\<forall>k. \<not> in_queue_space ?T k \<longrightarrow> states ?s2 (name1, k) = None"
    using store_key_in_space [of ?T] by (auto simp: after_push_def test_claimed_def new_test_ext_def)
  then have e2e: "e2e_sessions ?T (\<lambda>k. states ?s2 (name1, k)) out dup" by (rule assms(5) [OF q2(2)])
  let ?tx = "\<lparr>conds = map (\<lambda>(k, v). Eq k v) (so_conditions out),
      actions = [bvec action_bytes_bound (enc action_scale (SetQueueHead 2))], updates = so_updates out\<rparr>"
  let ?dup = "\<lparr>conds = map (\<lambda>(k, v). Eq k v) (so_conditions dup),
      actions = (case so_queue_head dup of None \<Rightarrow> []
         | Some head \<Rightarrow> [bvec action_bytes_bound (enc action_scale (SetQueueHead head))]),
      updates = so_updates dup\<rparr>"
  have tx: "session_rollup_tx resolve has_updates tx s = (Inr (Some ?tx), s)"
    and dup: "session_rollup_tx resolve has_updates dup_tx s = (Inr (Some ?dup), s)" for s :: test_state
    using e2e assms(1-4) by (simp_all add: session_rollup_run e2e_sessions_def)
  let ?w = "?s2\<lparr>states := write_updates name1 (so_updates out) (states ?s2)\<rparr>"
  let ?t = "(after_head_set ?T name1 2 ?w)\<lparr>events := events (after_head_set ?T name1 2 ?w)
      @ [TestAnchor (RollupExecuted 1 name1 1)]\<rparr>"
  have outside: "\<forall>(k, v) \<in> set (so_updates out). \<not> in_queue_space ?T k"
    using e2e by (simp add: e2e_sessions_def)
  have qw: "queue_at ?T 0 2 [tom_bytes, kitty_bytes] ?w" by (rule queue_at_outside [OF q2(2) outside])
  have "states ?s2 (name1, k) = v" if "(k, v) \<in> set (so_conditions out)" for k v
    using bspec [OF conjunct1 [OF e2e [unfolded e2e_sessions_def]], of "(k, v)"] that by simp
  then have "\<forall>c \<in> set (conds ?tx). cond_holds name1 ?s2 c"
    by auto
  then have commit: "rollup ?T (Signed 1) name1 ?tx 1 ?s2 = (Inr (), ?t)"
    using head_action_run [OF qw, of 2] queue_atD(3) [OF q2(2)] by (simp add: rollup_signed)
  have qt: "queue_at ?T 2 2 [] ?t"
    using after_head_set_inv [OF queue_atD(1,2) [OF qw], of 2] queue_atD [OF qw] qw
    by (simp add: queue_at_def queue_ready_def after_head_set_positions)
  have wrote: "states ?t (name1, k) = w" if "map_of (rev (so_updates out)) k = Some w" for k w
  proof -
    from that have "(k, w) \<in> set (so_updates out)" by (auto dest: map_of_SomeD)
    with outside have "\<not> in_queue_space ?T k" by auto
    with that show ?thesis by (simp add: after_head_set_outside write_updates_map_of)
  qed
  have foo: "snapshot_get name1 foo_bytes ?t = (Inr (Some bar_bytes) :: dispatch_error fault + bytes option, ?t)"
    using wrote e2e by (simp add: snapshot_get_run e2e_sessions_def foo_bytes_def key_bytes_bound_def)
  from e2e obtain k v w where "(k, v) \<in> set (so_conditions dup)"
      "map_of (rev (so_updates out)) k = Some w" "w \<noteq> v"
    by (auto simp: e2e_sessions_def)
  then have "\<not> (\<forall>c \<in> set (conds ?dup). cond_holds name1 ?t c)"
    using wrote by force
  then have refused: "rollup ?T (Signed 1) name1 ?dup 1 ?t = (Inl (Err (Anchor CondNotMet)), ?t)"
    using queue_atD(3) [OF qt] by (simp add: rollup_signed)
  show ?thesis
    unfolding queue_e2e_def bytes
    apply (rule test_start)
    apply (rule passes_then, rule assert_queue_run [OF q0], simp)
    apply (rule passes_value, rule q1(1))
    apply (rule passes_value, rule q2(1))
    apply (rule passes_then, rule assert_queue_run [OF q2(2)], simp)
    apply (rule passes_then, rule tx, rule passes_then, simp add: call_simps)
    apply (rule passes_then, rule dup, rule passes_then, simp add: call_simps)
    apply (rule passes_ok, rule commit)
    apply (rule passes_then, rule assert_queue_run [OF qt], simp)
    apply (rule passes_value, rule foo)
    apply (rule passes_last(4), rule refused)
    done
qed

end
