(* ===== verification/Anchor_Mock_Properties.thy ===== *)
theory Anchor_Mock_Properties
  imports Anchor_Mock
begin

text \<open>
  What the anchor's own unit tests say of the model.
\<close>

text \<open>
  The anchor passes its unit tests: on the model, \<open>rollup_works\<close> (up to the response),
  \<open>name_cannot_claim_twice\<close>, \<open>queue_key_is_correct\<close> and \<open>queue_works\<close> run to their
  end without a failed assertion, whatever the parts of the configuration the mock
  leaves open are.
\<close>

theorem anchor_tests_pass:
  "passes (rollup_works (test_config dc ss rs rc ko)) new_test_ext \<and>
   passes (name_cannot_claim_twice (test_config dc ss rs rc ko)) new_test_ext \<and>
   passes (queue_key_is_correct (test_config dc ss rs rc ko)) new_test_ext \<and>
   passes (queue_works (test_config dc ss rs rc ko)) new_test_ext"
  by (intro conjI rollup_works_passes name_cannot_claim_twice_passes queue_key_is_correct_passes
      queue_works_passes)

text \<open>
  The end-to-end test holds for every session library that behaves as the test
  expects: after the pallet queued two messages, the first session's rollup empties the
  queue and its value is in the store, and the second session, prepared against the same
  store and in conflict with the first, is rejected with \<open>CondNotMet\<close> and no change.
\<close>

theorem end_to_end_test_passes:
  assumes "resolve tx = Some out" and "resolve dup_tx = Some dup" and "has_updates out" and "has_updates dup"
    and "\<And>s. queue_at (test_config dc ss rs rc ko) 0 2 [tom_bytes, kitty_bytes] s \<Longrightarrow>
      (\<forall>k. \<not> in_queue_space (test_config dc ss rs rc ko) k \<longrightarrow> states s (name1, k) = None) \<Longrightarrow>
      e2e_sessions (test_config dc ss rs rc ko) (\<lambda>k. states s (name1, k)) out dup"
  shows "passes (queue_e2e (test_config dc ss rs rc ko) resolve has_updates tx dup_tx) new_test_ext"
  using assms by (rule queue_e2e_passes)

text \<open>Sessions with versioned keys: \<open>foo_ver\<close> counts the versions of \<open>foo\<close>.\<close>

definition foo_version :: bytes where
  "foo_version = foo_bytes @ [95, 118, 101, 114]"

definition demo_session :: "bytes \<Rightarrow> u32 option \<Rightarrow> session_output" where
  "demo_session v head = \<lparr>so_conditions = [(foo_version, None)],
     so_updates = [(foo_bytes, Some v), (foo_version, Some [1, 0, 0, 0])], so_queue_head = head\<rparr>"

theorem end_to_end_test_passes_witness:
  "passes (queue_e2e (test_config 6 (\<lambda>now. (7, now)) (\<lambda>now seed. (0, now)) \<lparr>enc = \<lambda>_. [], dec = \<lambda>_. None\<rparr> (\<lambda>_. []))
     Some (\<lambda>_. True) (demo_session bar_bytes (Some 2)) (demo_session [98, 97, 122] None)) new_test_ext"
proof (rule end_to_end_test_passes [where out = "demo_session bar_bytes (Some 2)" and dup = "demo_session [98, 97, 122] None"],
    simp, simp, simp, simp)
  let ?T = "test_config 6 (\<lambda>now. (7, now)) (\<lambda>now seed. (0, now)) \<lparr>enc = \<lambda>_. [], dec = \<lambda>_. None\<rparr> (\<lambda>_. [])"
  fix s
  assume fresh: "\<forall>k. \<not> in_queue_space ?T k \<longrightarrow> states s (name1, k) = None"
  have "\<not> in_queue_space ?T foo_version" "\<not> in_queue_space ?T foo_bytes"
    by (simp_all add: in_queue_space_def queue_prefix_bytes_def foo_version_def foo_bytes_def)
  with fresh show "e2e_sessions ?T (\<lambda>k. states s (name1, k)) (demo_session bar_bytes (Some 2)) (demo_session [98, 97, 122] None)"
    by (simp add: e2e_sessions_def demo_session_def update_bounded_def foo_version_def foo_bytes_def
        bar_bytes_def key_bytes_bound_def value_bytes_bound_def)
qed

text \<open>
  The last part of \<open>rollup_works\<close> cannot pass: it expects a response to be accepted that
  nobody requested. Without a recorded request, a rollup with a reply is refused by the
  oracle, whatever the bytes of the reply are, and changes nothing.
\<close>

theorem unrequested_reply_refused:
  assumes "submitter_by_names s name1 = Some 1" and "feed_requests s = Map.empty" and "length d \<le> 253"
  shows "\<exists>e. rollup (test_config dc ss rs rc ko) (Signed 1) name1
      \<lparr>conds = [], actions = [bvec action_bytes_bound (enc action_scale (Reply d))], updates = []\<rparr> 5 s =
    (Inl (Err (Oracle e)), s)"
proof -
  let ?T = "test_config dc ss rs rc ko"
  have "bvec action_bytes_bound (enc action_scale (Reply d)) = enc action_scale (Reply d)"
    using assms(3)
    by (simp add: bvec_def length_enc_reply length_enc_compact_cases action_bytes_bound_def)
  moreover have "dec action_scale (enc action_scale (Reply d)) = Some (Reply d, [])"
    using assms(3) by (intro action_wire.dec_enc_Nil) (simp add: action_bytes_bound_def)
  moreover have "\<exists>e. on_response ?T name1 1 d s = (Inl (Err (Oracle e)), s)"
    using assms(2) by (simp add: test_config_def oracle_response_run split: option.split)
  ultimately show ?thesis
    using assms(1) by (auto simp: rollup_signed exec_action_def seq_def ok_or_def)
qed

theorem unrequested_reply_refused_witness:
  "\<exists>e. rollup (test_config 6 (\<lambda>now. (7, now)) (\<lambda>now seed. (0, now)) \<lparr>enc = \<lambda>_. [], dec = \<lambda>_. None\<rparr> (\<lambda>_. []))
      (Signed 1) name1 \<lparr>conds = [], actions = [bvec action_bytes_bound (enc action_scale (Reply [9]))], updates = []\<rparr>
      5 test_claimed = (Inl (Err (Oracle e)), test_claimed)"
  by (rule unrequested_reply_refused) (simp_all add: test_claimed_def new_test_ext_def)

end
