(* ===== verification/Collator.thy ===== *)
theory Collator
  imports Weights
begin

text \<open>
  The collator-selection pallet (\<open>src/pallets/collator-selection/src/lib.rs\<close>): the
  model. Candidates and invulnerables are lists, as the code's bounded vectors;
  \<open>LastAuthoredBlock\<close> is a partial map whose missing entries read as 0.

  The currency and the session pallet are outside the repository. Their storage is one
  abstract component \<open>world\<close> of the state, their operations are fields of the
  configuration that act on it. The configuration also holds the account the pot's
  identifier stands for. The extra weight a hook registers is appended to a log.

  A \<open>StorageValue::try_mutate\<close> whose closure fails does not write its value back.
\<close>

section \<open>Data and storage\<close>

record 'acc candidate_info =
  cand_who :: 'acc
  cand_deposit :: u128

datatype 'acc collator_event =
    NewInvulnerables "'acc list"
  | NewDesiredCandidates u32
  | NewCandidacyBond u128
  | CandidateAdded 'acc u128
  | CandidateRemoved 'acc

record ('ev, 'acc, 'vid, 'w) collator_config =
  collator_event :: "'acc collator_event \<Rightarrow> 'ev"
  update_origin :: "'acc origin \<Rightarrow> bool"
  pot_account :: 'acc
  max_candidates :: u32
  min_candidates :: u32
  max_invulnerables :: u32
  kick_threshold :: u32
  validator_id_of :: "'acc \<Rightarrow> 'vid option"
  is_registered :: "'vid \<Rightarrow> 'w \<Rightarrow> bool"
  reserve :: "'acc \<Rightarrow> u128 \<Rightarrow> (dispatch_error, 'w, unit) call"
  unreserve :: "'acc \<Rightarrow> u128 \<Rightarrow> 'w \<Rightarrow> u128 \<times> 'w"
  transfer_keep_alive :: "'acc \<Rightarrow> 'acc \<Rightarrow> u128 \<Rightarrow> (dispatch_error, 'w, unit) call"
  free_balance :: "'acc \<Rightarrow> 'w \<Rightarrow> u128"
  minimum_balance :: u128
  weight_info :: collator_weight_info

record ('ev, 'acc, 'w) collator_state = "'ev system_state" +
  invulnerables :: "'acc list"
  candidates :: "'acc candidate_info list"
  last_authored_block :: "'acc \<rightharpoonup> u32"
  desired_candidates :: u32
  candidacy_bond :: u128
  extra_weights :: "weight list"
  world :: 'w

text \<open>\<open>IdentityCollator::convert\<close>.\<close>

definition identity_collator :: "'x \<Rightarrow> 'x option" where
  "identity_collator t = Some t"

text \<open>Running an operation of another pallet on the rest of the storage.\<close>

definition on_world ::
    "('e, 'w, 'a) call \<Rightarrow> ('e, ('ev, 'acc, 'w, 'm) collator_state_scheme, 'a) call" where
  "on_world m = (\<lambda>s. case m (world s) of (r, w) \<Rightarrow> (r, s\<lparr>world := w\<rparr>))"

definition register_extra_weight ::
    "weight \<Rightarrow> ('e, ('ev, 'acc, 'w, 'm) collator_state_scheme, unit) call" where
  "register_extra_weight w = modify (\<lambda>s. s\<lparr>extra_weights := extra_weights s @ [w]\<rparr>)"

definition last_block_of :: "('ev, 'acc, 'w, 'm) collator_state_scheme \<Rightarrow> 'acc \<Rightarrow> u32" where
  "last_block_of s a = (case last_authored_block s a of None \<Rightarrow> 0 | Some n \<Rightarrow> n)"

fun position :: "('x \<Rightarrow> bool) \<Rightarrow> 'x list \<Rightarrow> nat option" where
  "position P [] = None"
| "position P (x # xs) = (if P x then Some 0 else map_option Suc (position P xs))"

definition remove_at :: "nat \<Rightarrow> 'x list \<Rightarrow> 'x list" where
  "remove_at i xs = take i xs @ drop (Suc i) xs"

section \<open>Genesis\<close>

record 'acc collator_genesis =
  g_invulnerables :: "'acc list"
  g_candidacy_bond :: u128
  g_desired_candidates :: u32

definition genesis_build ::
    "('ev, 'acc, 'vid, 'w, 'x) collator_config_scheme \<Rightarrow> 'acc collator_genesis \<Rightarrow>
     ('e, ('ev, 'acc, 'w, 'm) collator_state_scheme, unit) call" where
  "genesis_build T g =
     seq (if card (set (g_invulnerables g)) = length (g_invulnerables g) then ret () else panic) (\<lambda>_.
     seq (expect (try_bounded (unat (max_invulnerables T)) (g_invulnerables g))) (\<lambda>bounded.
     seq (if g_desired_candidates g \<le> max_candidates T then ret () else panic) (\<lambda>_.
     seq (modify (\<lambda>s. s\<lparr>desired_candidates := g_desired_candidates g\<rparr>)) (\<lambda>_.
     seq (modify (\<lambda>s. s\<lparr>candidacy_bond := g_candidacy_bond g\<rparr>)) (\<lambda>_.
     modify (\<lambda>s. s\<lparr>invulnerables := bounded\<rparr>))))))"

section \<open>Dispatchables\<close>

definition ensure_registered ::
    "('ev, 'acc, 'vid, 'w, 'x) collator_config_scheme \<Rightarrow> 'acc \<Rightarrow>
     (dispatch_error, ('ev, 'acc, 'w, 'm) collator_state_scheme, unit) call" where
  "ensure_registered T account_id =
     seq (ok_or (validator_id_of T account_id) (Collator NoAssociatedValidatorId)) (\<lambda>validator_key.
     seq (gets (\<lambda>s. is_registered T validator_key (world s))) (\<lambda>registered.
     ensure registered (Collator ValidatorNotRegistered)))"

definition set_invulnerables ::
    "('ev, 'acc, 'vid, 'w, 'x) collator_config_scheme \<Rightarrow> 'acc origin \<Rightarrow> 'acc list \<Rightarrow>
     (dispatch_error, ('ev, 'acc, 'w, 'm) collator_state_scheme, weight option) call" where
  "set_invulnerables T origin new =
     seq (ensure (update_origin T origin) BadOrigin) (\<lambda>_.
     seq (ok_or (try_bounded (unat (max_invulnerables T)) new) (Collator TooManyInvulnerables)) (\<lambda>bounded.
     seq (for_each bounded (ensure_registered T)) (\<lambda>_.
     seq (modify (\<lambda>s. s\<lparr>invulnerables := bounded\<rparr>)) (\<lambda>_.
     seq (deposit_event (collator_event T (NewInvulnerables bounded))) (\<lambda>_.
     ret None)))))"

definition set_desired_candidates ::
    "('ev, 'acc, 'vid, 'w, 'x) collator_config_scheme \<Rightarrow> 'acc origin \<Rightarrow> u32 \<Rightarrow>
     (dispatch_error, ('ev, 'acc, 'w, 'm) collator_state_scheme, weight option) call" where
  "set_desired_candidates T origin n =
     seq (ensure (update_origin T origin) BadOrigin) (\<lambda>_.
     seq (modify (\<lambda>s. s\<lparr>desired_candidates := n\<rparr>)) (\<lambda>_.
     seq (deposit_event (collator_event T (NewDesiredCandidates n))) (\<lambda>_.
     ret None)))"

definition set_candidacy_bond ::
    "('ev, 'acc, 'vid, 'w, 'x) collator_config_scheme \<Rightarrow> 'acc origin \<Rightarrow> u128 \<Rightarrow>
     (dispatch_error, ('ev, 'acc, 'w, 'm) collator_state_scheme, weight option) call" where
  "set_candidacy_bond T origin bond =
     seq (ensure (update_origin T origin) BadOrigin) (\<lambda>_.
     seq (modify (\<lambda>s. s\<lparr>candidacy_bond := bond\<rparr>)) (\<lambda>_.
     seq (deposit_event (collator_event T (NewCandidacyBond bond))) (\<lambda>_.
     ret None)))"

definition register_as_candidate ::
    "('ev, 'acc, 'vid, 'w, 'x) collator_config_scheme \<Rightarrow> 'acc origin \<Rightarrow>
     (dispatch_error, ('ev, 'acc, 'w, 'm) collator_state_scheme, weight option) call" where
  "register_as_candidate T origin =
     seq (ensure_signed origin) (\<lambda>who.
     seq (gets (\<lambda>s. of_nat (length (candidates s)) < desired_candidates s)) (\<lambda>below.
     seq (ensure below (Collator TooManyCandidates)) (\<lambda>_.
     seq (gets (\<lambda>s. who \<in> set (invulnerables s))) (\<lambda>invulnerable.
     seq (ensure (\<not> invulnerable) (Collator AlreadyInvulnerable)) (\<lambda>_.
     seq (ensure_registered T who) (\<lambda>_.
     seq (gets candidacy_bond) (\<lambda>deposit.
     seq (gets candidates) (\<lambda>cs.
     seq (ensure (\<not> list_ex (\<lambda>c. cand_who c = who) cs) (Collator AlreadyCandidate)) (\<lambda>_.
     seq (on_world (reserve T who deposit)) (\<lambda>_.
     seq (ok_or (try_bounded (unat (max_candidates T)) (cs @ [\<lparr>cand_who = who, cand_deposit = deposit\<rparr>]))
           (Collator TooManyCandidates)) (\<lambda>cs'.
     seq (gets block_number) (\<lambda>now.
     seq (modify (\<lambda>s. s\<lparr>last_authored_block := (last_authored_block s)(who \<mapsto> now + kick_threshold T)\<rparr>)) (\<lambda>_.
     seq (modify (\<lambda>s. s\<lparr>candidates := cs'\<rparr>)) (\<lambda>_.
     seq (deposit_event (collator_event T (CandidateAdded who deposit))) (\<lambda>_.
     ret (Some (w_register_as_candidate (weight_info T) (of_nat (length cs')))))))))))))))))))"

definition try_remove_candidate ::
    "('ev, 'acc, 'vid, 'w, 'x) collator_config_scheme \<Rightarrow> 'acc \<Rightarrow>
     (dispatch_error, ('ev, 'acc, 'w, 'm) collator_state_scheme, nat) call" where
  "try_remove_candidate T who =
     seq (gets candidates) (\<lambda>cs.
     seq (ok_or (position (\<lambda>c. cand_who c = who) cs) (Collator NotCandidate)) (\<lambda>index.
     let candidate = cs ! index; cs' = remove_at index cs in
     seq (modify (\<lambda>s. s\<lparr>world := snd (unreserve T who (cand_deposit candidate) (world s))\<rparr>)) (\<lambda>_.
     seq (modify (\<lambda>s. s\<lparr>last_authored_block := (last_authored_block s)(who := None)\<rparr>)) (\<lambda>_.
     seq (modify (\<lambda>s. s\<lparr>candidates := cs'\<rparr>)) (\<lambda>_.
     seq (deposit_event (collator_event T (CandidateRemoved who))) (\<lambda>_.
     ret (length cs')))))))"

definition leave_intent ::
    "('ev, 'acc, 'vid, 'w, 'x) collator_config_scheme \<Rightarrow> 'acc origin \<Rightarrow>
     (dispatch_error, ('ev, 'acc, 'w, 'm) collator_state_scheme, weight option) call" where
  "leave_intent T origin =
     seq (ensure_signed origin) (\<lambda>who.
     seq (gets (\<lambda>s. min_candidates T < of_nat (length (candidates s)))) (\<lambda>enough.
     seq (ensure enough (Collator TooFewCandidates)) (\<lambda>_.
     seq (try_remove_candidate T who) (\<lambda>current_count.
     ret (Some (w_leave_intent (weight_info T) (of_nat current_count)))))))"

section \<open>Session and authorship hooks\<close>

definition assemble_collators ::
    "'acc list \<Rightarrow> ('e, ('ev, 'acc, 'w, 'm) collator_state_scheme, 'acc list) call" where
  "assemble_collators active = gets (\<lambda>s. invulnerables s @ active)"

text \<open>The closure of \<open>filter_map\<close> in \<open>kick_stale_candidates\<close>, over the remaining candidates.\<close>

fun kick_loop ::
    "('ev, 'acc, 'vid, 'w, 'x) collator_config_scheme \<Rightarrow> u32 \<Rightarrow> 'acc candidate_info list \<Rightarrow>
     (dispatch_error, ('ev, 'acc, 'w, 'm) collator_state_scheme, 'acc list) call" where
  "kick_loop T now [] = ret []"
| "kick_loop T now (c # cs) =
     seq (gets (\<lambda>s. saturating_sub now (last_block_of s (cand_who c)) < kick_threshold T
                  \<or> of_nat (length (candidates s)) \<le> min_candidates T)) (\<lambda>stays.
     if stays then seq (kick_loop T now cs) (\<lambda>rest. ret (cand_who c # rest))
     else seq (attempt (try_remove_candidate T (cand_who c))) (\<lambda>_. kick_loop T now cs))"

definition kick_stale_candidates ::
    "('ev, 'acc, 'vid, 'w, 'x) collator_config_scheme \<Rightarrow> 'acc candidate_info list \<Rightarrow>
     (dispatch_error, ('ev, 'acc, 'w, 'm) collator_state_scheme, 'acc list) call" where
  "kick_stale_candidates T cs =
     seq (gets block_number) (\<lambda>now.
     seq (kick_loop T now cs) (\<lambda>active.
     expect (try_bounded (unat (max_candidates T)) active)))"

definition note_author ::
    "('ev, 'acc, 'vid, 'w, 'x) collator_config_scheme \<Rightarrow> 'acc \<Rightarrow>
     (dispatch_error, ('ev, 'acc, 'w, 'm) collator_state_scheme, unit) call" where
  "note_author T author =
     seq (gets (\<lambda>s. free_balance T (pot_account T) (world s))) (\<lambda>pot_balance.
     let reward = (case checked_sub pot_balance (minimum_balance T) of None \<Rightarrow> 0 | Some r \<Rightarrow> r) div 2 in
     seq (attempt (on_world (transfer_keep_alive T (pot_account T) author reward))) (\<lambda>_.
     seq (gets block_number) (\<lambda>now.
     seq (modify (\<lambda>s. s\<lparr>last_authored_block := (last_authored_block s)(author \<mapsto> now)\<rparr>)) (\<lambda>_.
     register_extra_weight (w_note_author (weight_info T))))))"

definition new_session ::
    "('ev, 'acc, 'vid, 'w, 'x) collator_config_scheme \<Rightarrow> u32 \<Rightarrow>
     (dispatch_error, ('ev, 'acc, 'w, 'm) collator_state_scheme, 'acc list option) call" where
  "new_session T index =
     seq (gets candidates) (\<lambda>cs.
     let candidates_len_before = length cs in
     seq (kick_stale_candidates T cs) (\<lambda>active.
     let removed = candidates_len_before - length active in
     seq (assemble_collators active) (\<lambda>result.
     seq (register_extra_weight (w_new_session (weight_info T) (of_nat candidates_len_before) (of_nat removed))) (\<lambda>_.
     ret (Some result)))))"

end
