(* ===== verification/Collator_Session.thy ===== *)
theory Collator_Session
  imports Collator
begin

text \<open>
  What is proved about the collator-selection pallet. \<open>kick_ref\<close> is the loop of
  \<open>kick_stale_candidates\<close> as a function on the list of candidates alone; the loop,
  which reads the storage afresh for every candidate and writes it on every removal,
  is shown to compute it (\<open>kick_loop_run\<close>). \<open>collator_inv\<close> holds of every storage
  the machine \<open>collator_step\<close> reaches: the calls, the hooks of the authorship and the
  session pallet, new blocks, and any change to the storage of other pallets.
\<close>

section \<open>The invariant\<close>

definition collator_inv ::
    "('ev, 'acc, 'vid, 'w, 'x) collator_config_scheme \<Rightarrow> ('ev, 'acc, 'w, 'm) collator_state_scheme \<Rightarrow> bool" where
  "collator_inv T s \<longleftrightarrow>
     distinct (map cand_who (candidates s))
     \<and> length (candidates s) \<le> unat (max_candidates T)
     \<and> length (invulnerables s) \<le> unat (max_invulnerables T)
     \<and> (\<forall>c \<in> set (candidates s). last_authored_block s (cand_who c) \<noteq> None)"

section \<open>The loop as a function\<close>

fun kick_ref :: "('acc \<Rightarrow> bool) \<Rightarrow> nat \<Rightarrow> nat \<Rightarrow> 'acc candidate_info list \<Rightarrow> 'acc candidate_info list" where
  "kick_ref stale least n [] = []"
| "kick_ref stale least n (c # cs) =
     (if \<not> stale (cand_who c) \<or> n \<le> least then c # kick_ref stale least n cs
      else kick_ref stale least (n - 1) cs)"

text \<open>The candidates it removes, in order, and what their removal does to the other pallets.\<close>

fun kick_out :: "('acc \<Rightarrow> bool) \<Rightarrow> nat \<Rightarrow> nat \<Rightarrow> 'acc candidate_info list \<Rightarrow> 'acc candidate_info list" where
  "kick_out stale least n [] = []"
| "kick_out stale least n (c # cs) =
     (if \<not> stale (cand_who c) \<or> n \<le> least then kick_out stale least n cs
      else c # kick_out stale least (n - 1) cs)"

definition return_deposits ::
    "('ev, 'acc, 'vid, 'w, 'x) collator_config_scheme \<Rightarrow> 'acc candidate_info list \<Rightarrow> 'w \<Rightarrow> 'w" where
  "return_deposits T cs w = fold (\<lambda>c w. snd (unreserve T (cand_who c) (cand_deposit c) w)) cs w"

definition stale_in ::
    "('ev, 'acc, 'vid, 'w, 'x) collator_config_scheme \<Rightarrow> ('ev, 'acc, 'w, 'm) collator_state_scheme \<Rightarrow> 'acc \<Rightarrow> bool" where
  "stale_in T s a \<longleftrightarrow> kick_threshold T \<le> saturating_sub (block_number s) (last_block_of s a)"

lemma kick_ref_cong:
  "(\<And>c. c \<in> set cs \<Longrightarrow> stale (cand_who c) = stale' (cand_who c)) \<Longrightarrow>
   kick_ref stale least n cs = kick_ref stale' least n cs"
  by (induction cs arbitrary: n) auto

lemma kick_ref_subset: "set (kick_ref stale least n cs) \<subseteq> set cs"
  by (induction cs arbitrary: n) auto

lemma kick_out_cong:
  "(\<And>c. c \<in> set cs \<Longrightarrow> stale (cand_who c) = stale' (cand_who c)) \<Longrightarrow>
   kick_out stale least n cs = kick_out stale' least n cs"
  by (induction cs arbitrary: n) auto

lemma kick_out_subset: "set (kick_out stale least n cs) \<subseteq> set cs"
  by (induction cs arbitrary: n) auto

lemma kick_out_iff:
  "distinct (map cand_who cs) \<Longrightarrow>
   c \<in> set (kick_out stale least n cs) \<longleftrightarrow> c \<in> set cs \<and> c \<notin> set (kick_ref stale least n cs)"
proof (induction cs arbitrary: n)
  case (Cons d cs)
  have "d \<notin> set cs" using Cons.prems by auto
  with Cons kick_ref_subset [of stale least _ cs] kick_out_subset [of stale least _ cs] show ?case by auto
qed simp

lemma distinct_kick_out: "distinct (map cand_who cs) \<Longrightarrow> distinct (map cand_who (kick_out stale least n cs))"
proof (induction cs arbitrary: n)
  case (Cons c cs)
  have "cand_who c \<notin> cand_who ` set (kick_out stale least k cs)" for k
    using Cons.prems kick_out_subset [of stale least k cs] by auto
  with Cons show ?case by auto
qed simp

lemma length_kick_ref: "length (kick_ref stale least n cs) \<le> length cs"
  by (induction cs arbitrary: n) (auto simp: le_SucI)

lemma kick_ref_fresh: "c \<in> set cs \<Longrightarrow> \<not> stale (cand_who c) \<Longrightarrow> c \<in> set (kick_ref stale least n cs)"
  by (induction cs arbitrary: n) auto

lemma kick_ref_least:
  "min least (m + length cs) \<le> m + length (kick_ref stale least (m + length cs) cs)"
proof (induction cs arbitrary: m)
  case (Cons c cs)
  have "m + length (c # cs) - 1 = m + length cs" by simp
  with Cons.IH [of m] Cons.IH [of "Suc m"] show ?case by (auto simp: min_def split: if_splits)
qed simp

lemma kick_ref_stale_kept:
  assumes "c \<in> set (kick_ref stale least (m + length cs) cs)" and "stale (cand_who c)"
  shows "m + length (kick_ref stale least (m + length cs) cs) \<le> least"
  using assms
proof (induction cs arbitrary: m)
  case (Cons d cs)
  show ?case
  proof (cases "\<not> stale (cand_who d) \<or> m + length (d # cs) \<le> least")
    case True
    show ?thesis
    proof (cases "m + length (d # cs) \<le> least")
      case small: True
      have "length (kick_ref stale least (m + length (d # cs)) (d # cs)) \<le> length (d # cs)"
        by (rule length_kick_ref)
      with small show ?thesis by linarith
    next
      case False
      with True Cons.prems have "c \<in> set (kick_ref stale least (Suc m + length cs) cs)"
        by auto
      from Cons.IH [OF this Cons.prems(2)] True show ?thesis by simp
    qed
  next
    case False
    then have "kick_ref stale least (m + length (d # cs)) (d # cs) = kick_ref stale least (m + length cs) cs"
      by simp
    with Cons.IH [of m] Cons.prems show ?thesis by simp
  qed
qed simp

lemma distinct_kick_ref: "distinct (map cand_who cs) \<Longrightarrow> distinct (map cand_who (kick_ref stale least n cs))"
proof (induction cs arbitrary: n)
  case (Cons c cs)
  have "cand_who c \<notin> cand_who ` set (kick_ref stale least k cs)" for k
    using Cons.prems kick_ref_subset [of stale least k cs] by auto
  with Cons show ?case by auto
qed simp

section \<open>Removing a candidate\<close>

lemma position_middle:
  "(\<And>x. x \<in> set pre \<Longrightarrow> \<not> P x) \<Longrightarrow> P c \<Longrightarrow> position P (pre @ c # rest) = Some (length pre)"
  by (induction pre) auto

lemma remove_at_middle [simp]: "remove_at (length pre) (pre @ c # rest) = pre @ rest"
  by (simp add: remove_at_def)

lemma position_None: "position P xs = None \<longleftrightarrow> (\<forall>x \<in> set xs. \<not> P x)"
  by (induction xs) auto

definition after_removal ::
    "('ev, 'acc, 'vid, 'w, 'x) collator_config_scheme \<Rightarrow> 'acc candidate_info \<Rightarrow> 'acc candidate_info list \<Rightarrow>
     ('ev, 'acc, 'w, 'm) collator_state_scheme \<Rightarrow> ('ev, 'acc, 'w, 'm) collator_state_scheme" where
  "after_removal T c cs s =
     s\<lparr>world := snd (unreserve T (cand_who c) (cand_deposit c) (world s)),
       last_authored_block := (last_authored_block s)(cand_who c := None),
       candidates := cs,
       events := events s @ [collator_event T (CandidateRemoved (cand_who c))]\<rparr>"

lemma after_removal_sel [simp]:
  "candidates (after_removal T c cs s) = cs"
  "invulnerables (after_removal T c cs s) = invulnerables s"
  "block_number (after_removal T c cs s) = block_number s"
  "last_authored_block (after_removal T c cs s) = (last_authored_block s)(cand_who c := None)"
  "desired_candidates (after_removal T c cs s) = desired_candidates s"
  "candidacy_bond (after_removal T c cs s) = candidacy_bond s"
  "world (after_removal T c cs s) = snd (unreserve T (cand_who c) (cand_deposit c) (world s))"
  "extra_weights (after_removal T c cs s) = extra_weights s"
  by (simp_all add: after_removal_def)

lemma try_remove_run:
  assumes "candidates s = pre @ c # rest" and "distinct (map cand_who (candidates s))"
  shows "try_remove_candidate T (cand_who c) s =
     (Inr (length (pre @ rest)), after_removal T c (pre @ rest) s)"
proof -
  have "cand_who c \<notin> cand_who ` set pre"
    using assms(2) by (simp add: assms(1))
  then have "\<And>x. x \<in> set pre \<Longrightarrow> cand_who x \<noteq> cand_who c" by (metis image_eqI)
  then have "position (\<lambda>x. cand_who x = cand_who c) (candidates s) = Some (length pre)"
    unfolding assms(1) by (intro position_middle) simp_all
  then show ?thesis
    by (simp add: try_remove_candidate_def call_simps Let_def assms(1)) (simp add: after_removal_def)
qed

lemma try_remove_absent:
  assumes "who \<notin> cand_who ` set (candidates s)"
  shows "try_remove_candidate T who s = (Inl (Err (Collator NotCandidate)), s)"
proof -
  have "position (\<lambda>c. cand_who c = who) (candidates s) = None"
    using assms by (auto simp: position_None)
  then show ?thesis by (simp add: try_remove_candidate_def call_simps)
qed

lemma try_remove_cases:
  assumes "distinct (map cand_who (candidates s))"
  obtains (present) pre c rest where "candidates s = pre @ c # rest" "cand_who c = who"
      "try_remove_candidate T who s = (Inr (length (pre @ rest)), after_removal T c (pre @ rest) s)"
  | (absent) "who \<notin> cand_who ` set (candidates s)"
      "try_remove_candidate T who s = (Inl (Err (Collator NotCandidate)), s)"
proof (cases "who \<in> cand_who ` set (candidates s)")
  case True
  then obtain c where "c \<in> set (candidates s)" and who: "cand_who c = who" by auto
  then obtain pre rest where "candidates s = pre @ c # rest" by (auto simp: in_set_conv_decomp)
  then have "candidates s = pre @ c # rest" .
  with present [OF this who] try_remove_run [OF this assms, of T] who show ?thesis by simp
next
  case False
  show ?thesis by (rule absent [OF False try_remove_absent [OF False]])
qed

section \<open>The loop computes the function\<close>

lemma kick_loop_stays:
  fixes s :: "('ev, 'acc, 'w, 'm) collator_state_scheme"
  assumes "length (candidates s) < 2 ^ 32"
  shows "(saturating_sub (block_number s) (last_block_of s a) < kick_threshold T
      \<or> of_nat (length (candidates s)) \<le> min_candidates T)
    \<longleftrightarrow> (\<not> stale_in T s a \<or> length (candidates s) \<le> unat (min_candidates T))"
proof -
  have "length (candidates s) < 2 ^ LENGTH(32)" using assms by simp
  then have "unat (of_nat (length (candidates s)) :: u32) = length (candidates s)"
    by (simp only: unsigned_of_nat of_nat_id take_bit_nat_eq_self)
  then show ?thesis by (auto simp: stale_in_def word_le_nat_alt word_less_nat_alt not_le)
qed

lemma kick_loop_run:
  fixes s :: "('ev, 'acc, 'w, 'm) collator_state_scheme"
  assumes "candidates s = pre @ cs" and "distinct (map cand_who (candidates s))"
    and "length (candidates s) < 2 ^ 32" and "now = block_number s"
  shows "\<exists>t. kick_loop T now cs s =
      (Inr (map cand_who (kick_ref (stale_in T s) (unat (min_candidates T)) (length pre + length cs) cs)), t)
    \<and> candidates t = pre @ kick_ref (stale_in T s) (unat (min_candidates T)) (length pre + length cs) cs
    \<and> invulnerables t = invulnerables s \<and> block_number t = block_number s
    \<and> desired_candidates t = desired_candidates s \<and> candidacy_bond t = candidacy_bond s
    \<and> extra_weights t = extra_weights s
    \<and> (\<forall>a. a \<notin> cand_who ` set (candidates s) \<or> a \<in> cand_who ` set (candidates t)
           \<longrightarrow> last_authored_block t a = last_authored_block s a)
    \<and> world t = return_deposits T
        (kick_out (stale_in T s) (unat (min_candidates T)) (length pre + length cs) cs) (world s)
    \<and> (\<forall>a. last_authored_block t a =
        (if a \<in> cand_who ` set (kick_out (stale_in T s) (unat (min_candidates T)) (length pre + length cs) cs)
         then None else last_authored_block s a))"
  using assms
proof (induction cs arbitrary: pre s)
  case Nil
  then show ?case by (simp add: call_simps return_deposits_def)
next
  case (Cons c cs)
  let ?least = "unat (min_candidates T)"
  note stays = kick_loop_stays [OF Cons.prems(3), of "cand_who c" T]
  show ?case
  proof (cases "\<not> stale_in T s (cand_who c) \<or> length (candidates s) \<le> ?least")
    case True
    with stays Cons.prems(4) have loop: "kick_loop T now (c # cs) s
        = seq (kick_loop T now cs) (\<lambda>rest. ret (cand_who c # rest)) s"
      by (simp add: call_simps)
    have "candidates s = (pre @ [c]) @ cs" using Cons.prems(1) by simp
    from Cons.IH [OF this Cons.prems(2-4)] obtain t where
      t: "kick_loop T now cs s = (Inr (map cand_who (kick_ref (stale_in T s) ?least
            (length (pre @ [c]) + length cs) cs)), t)"
        "candidates t = (pre @ [c]) @ kick_ref (stale_in T s) ?least (length (pre @ [c]) + length cs) cs"
        "invulnerables t = invulnerables s \<and> block_number t = block_number s
          \<and> desired_candidates t = desired_candidates s \<and> candidacy_bond t = candidacy_bond s
          \<and> extra_weights t = extra_weights s
          \<and> (\<forall>a. a \<notin> cand_who ` set (candidates s) \<or> a \<in> cand_who ` set (candidates t)
             \<longrightarrow> last_authored_block t a = last_authored_block s a)"
        "world t = return_deposits T
          (kick_out (stale_in T s) ?least (length (pre @ [c]) + length cs) cs) (world s)"
        "\<forall>a. last_authored_block t a =
          (if a \<in> cand_who ` set (kick_out (stale_in T s) ?least (length (pre @ [c]) + length cs) cs)
           then None else last_authored_block s a)"
      by blast
    have ref: "kick_ref (stale_in T s) ?least (length pre + length (c # cs)) (c # cs)
        = c # kick_ref (stale_in T s) ?least (length (pre @ [c]) + length cs) cs"
      using True by (auto simp: Cons.prems(1))
    have out: "kick_out (stale_in T s) ?least (length pre + length (c # cs)) (c # cs)
        = kick_out (stale_in T s) ?least (length (pre @ [c]) + length cs) cs"
      using True by (auto simp: Cons.prems(1))
    have "kick_loop T now (c # cs) s = (Inr (map cand_who (kick_ref (stale_in T s) ?least
        (length pre + length (c # cs)) (c # cs))), t)"
      unfolding loop ref by (simp add: seq_def t(1) ret_def)
    with t(2-5) show ?thesis unfolding ref out by (intro exI [of _ t]) simp
  next
    case False
    let ?t = "after_removal T c (pre @ cs) s"
    have rem: "try_remove_candidate T (cand_who c) s = (Inr (length (pre @ cs)), ?t)"
      by (rule try_remove_run [OF Cons.prems(1,2)])
    from False stays Cons.prems(4) have loop: "kick_loop T now (c # cs) s = kick_loop T now cs ?t"
      by (simp add: call_simps seq_def attempt_def rem)
    have who: "cand_who c \<notin> cand_who ` set (pre @ cs)"
      using Cons.prems(1,2) by auto
    have same: "stale_in T ?t (cand_who d) = stale_in T s (cand_who d)" if "d \<in> set cs" for d
    proof -
      from that have "d \<in> set (pre @ cs)" by simp
      with who have "cand_who d \<noteq> cand_who c" by (metis image_eqI)
      then show ?thesis by (simp add: stale_in_def last_block_of_def)
    qed
    have ref: "kick_ref (stale_in T ?t) ?least (length pre + length cs) cs
        = kick_ref (stale_in T s) ?least (length pre + length cs) cs"
      by (rule kick_ref_cong, rule same)
    have out: "kick_out (stale_in T ?t) ?least (length pre + length cs) cs
        = kick_out (stale_in T s) ?least (length pre + length cs) cs"
      by (rule kick_out_cong, rule same)
    have "candidates ?t = pre @ cs" "distinct (map cand_who (candidates ?t))"
        "length (candidates ?t) < 2 ^ 32" "now = block_number ?t"
      using Cons.prems by auto
    from Cons.IH [OF this] obtain t where t: "kick_loop T now cs ?t =
        (Inr (map cand_who (kick_ref (stale_in T s) ?least (length pre + length cs) cs)), t)"
      "candidates t = pre @ kick_ref (stale_in T s) ?least (length pre + length cs) cs"
      "invulnerables t = invulnerables s" "block_number t = block_number s"
      "desired_candidates t = desired_candidates s" "candidacy_bond t = candidacy_bond s"
      "extra_weights t = extra_weights s"
      "\<forall>a. a \<notin> cand_who ` set (pre @ cs) \<or> a \<in> cand_who ` set (candidates t)
           \<longrightarrow> last_authored_block t a = ((last_authored_block s)(cand_who c := None)) a"
      "world t = return_deposits T (kick_out (stale_in T s) ?least (length pre + length cs) cs) (world ?t)"
      "\<forall>a. last_authored_block t a =
        (if a \<in> cand_who ` set (kick_out (stale_in T s) ?least (length pre + length cs) cs)
         then None else last_authored_block ?t a)"
      unfolding ref out by auto
    have "cand_who c \<notin> cand_who ` set (candidates t)"
      using who t(2) kick_ref_subset [of "stale_in T s" ?least "length pre + length cs" cs] by auto
    moreover have "kick_out (stale_in T s) ?least (length pre + length (c # cs)) (c # cs)
        = c # kick_out (stale_in T s) ?least (length pre + length cs) cs"
      using False by (auto simp: Cons.prems(1))
    ultimately show ?thesis using t False loop Cons.prems(1)
      by (auto simp: return_deposits_def split: if_splits)
  qed
qed

section \<open>A new session\<close>

definition kept_candidates ::
    "('ev, 'acc, 'vid, 'w, 'x) collator_config_scheme \<Rightarrow> ('ev, 'acc, 'w, 'm) collator_state_scheme \<Rightarrow>
     'acc candidate_info list" where
  "kept_candidates T s =
     kick_ref (stale_in T s) (unat (min_candidates T)) (length (candidates s)) (candidates s)"

definition kicked_candidates ::
    "('ev, 'acc, 'vid, 'w, 'x) collator_config_scheme \<Rightarrow> ('ev, 'acc, 'w, 'm) collator_state_scheme \<Rightarrow>
     'acc candidate_info list" where
  "kicked_candidates T s =
     kick_out (stale_in T s) (unat (min_candidates T)) (length (candidates s)) (candidates s)"

lemma collator_inv_length: "collator_inv T s \<Longrightarrow> length (candidates s) < 2 ^ 32"
proof -
  assume "collator_inv T s"
  then have "length (candidates s) \<le> unat (max_candidates T)" by (simp add: collator_inv_def)
  also have "\<dots> < 2 ^ 32" using unsigned_less [of "max_candidates T", where 'a = nat] by simp
  finally show ?thesis .
qed

lemma new_session_run:
  assumes "collator_inv T s"
  shows "\<exists>t. new_session T i s = (Inr (Some (invulnerables s @ map cand_who (kept_candidates T s))), t)
    \<and> candidates t = kept_candidates T s
    \<and> invulnerables t = invulnerables s \<and> block_number t = block_number s
    \<and> desired_candidates t = desired_candidates s \<and> candidacy_bond t = candidacy_bond s
    \<and> (\<forall>a. a \<notin> cand_who ` set (candidates s) \<or> a \<in> cand_who ` set (candidates t)
           \<longrightarrow> last_authored_block t a = last_authored_block s a)
    \<and> extra_weights t = extra_weights s @ [w_new_session (weight_info T) (of_nat (length (candidates s)))
         (of_nat (length (candidates s) - length (kept_candidates T s)))]
    \<and> world t = return_deposits T (kicked_candidates T s) (world s)
    \<and> (\<forall>a. last_authored_block t a =
        (if a \<in> cand_who ` set (kicked_candidates T s) then None else last_authored_block s a))"
proof -
  have "distinct (map cand_who (candidates s))" and max: "length (candidates s) \<le> unat (max_candidates T)"
    using assms by (auto simp: collator_inv_def)
  from kick_loop_run [of s "[]" "candidates s" "block_number s" T] this collator_inv_length [OF assms]
  obtain t where t: "kick_loop T (block_number s) (candidates s) s = (Inr (map cand_who (kept_candidates T s)), t)"
      "candidates t = kept_candidates T s"
      "invulnerables t = invulnerables s" "block_number t = block_number s"
      "desired_candidates t = desired_candidates s" "candidacy_bond t = candidacy_bond s"
      "extra_weights t = extra_weights s"
      "\<forall>a. a \<notin> cand_who ` set (candidates s) \<or> a \<in> cand_who ` set (candidates t)
           \<longrightarrow> last_authored_block t a = last_authored_block s a"
      "world t = return_deposits T (kicked_candidates T s) (world s)"
      "\<forall>a. last_authored_block t a =
        (if a \<in> cand_who ` set (kicked_candidates T s) then None else last_authored_block s a)"
    by (auto simp: kept_candidates_def kicked_candidates_def)
  have "length (kept_candidates T s) \<le> unat (max_candidates T)"
    using max length_kick_ref [of "stale_in T s" "unat (min_candidates T)" "length (candidates s)" "candidates s"]
    by (simp add: kept_candidates_def)
  then have "kick_stale_candidates T (candidates s) s = (Inr (map cand_who (kept_candidates T s)), t)"
    by (simp add: kick_stale_candidates_def call_simps seq_def t(1) try_bounded_def)
  then have "new_session T i s = (Inr (Some (invulnerables s @ map cand_who (kept_candidates T s))),
      t\<lparr>extra_weights := extra_weights t @ [w_new_session (weight_info T) (of_nat (length (candidates s)))
         (of_nat (length (candidates s) - length (kept_candidates T s)))]\<rparr>)"
    by (simp add: new_session_def call_simps Let_def)
      (simp add: seq_def assemble_collators_def register_extra_weight_def gets_def modify_def ret_def t(3))
  then show ?thesis using t by simp
qed

section \<open>The dispatchables on every branch\<close>

lemma ensure_registered_run:
  "ensure_registered T a s =
     (case validator_id_of T a of
        None \<Rightarrow> (Inl (Err (Collator NoAssociatedValidatorId)), s)
      | Some v \<Rightarrow> if is_registered T v (world s) then (Inr (), s)
                  else (Inl (Err (Collator ValidatorNotRegistered)), s))"
  by (simp add: ensure_registered_def call_simps split: option.split)

lemma run_ensure_registered:
  "seq (ensure_registered T a) f s =
     (case validator_id_of T a of
        None \<Rightarrow> (Inl (Err (Collator NoAssociatedValidatorId)), s)
      | Some v \<Rightarrow> if is_registered T v (world s) then f () s
                  else (Inl (Err (Collator ValidatorNotRegistered)), s))"
  by (simp add: seq_def ensure_registered_run split: option.split)

lemma run_on_world:
  "seq (on_world m) f s =
     (case m (world s) of
        (Inl e, w) \<Rightarrow> (Inl e, s\<lparr>world := w\<rparr>)
      | (Inr a, w) \<Rightarrow> f a (s\<lparr>world := w\<rparr>))"
  by (simp add: seq_def on_world_def split: prod.split sum.split)

definition registered :: "('ev, 'acc, 'vid, 'w, 'x) collator_config_scheme \<Rightarrow> 'w \<Rightarrow> 'acc \<Rightarrow> bool" where
  "registered T w a \<longleftrightarrow> (case validator_id_of T a of None \<Rightarrow> False | Some v \<Rightarrow> is_registered T v w)"

lemma ensure_registered_all:
  "for_each as (ensure_registered T) s = (r, t) \<Longrightarrow>
   t = s \<and> (isl r \<longleftrightarrow> \<not> list_all (registered T (world s)) as)"
proof (induction as)
  case Nil
  then show ?case by (auto simp: call_simps)
next
  case (Cons a as)
  show ?case
    using Cons by (auto simp: seq_def ensure_registered_run registered_def split: option.splits if_splits)
qed

definition after_register ::
    "('ev, 'acc, 'vid, 'w, 'x) collator_config_scheme \<Rightarrow> 'acc \<Rightarrow> 'w \<Rightarrow>
     ('ev, 'acc, 'w, 'm) collator_state_scheme \<Rightarrow> ('ev, 'acc, 'w, 'm) collator_state_scheme" where
  "after_register T who w s =
     s\<lparr>world := w,
       last_authored_block := (last_authored_block s)(who \<mapsto> block_number s + kick_threshold T),
       candidates := candidates s @ [\<lparr>cand_who = who, cand_deposit = candidacy_bond s\<rparr>],
       events := events s @ [collator_event T (CandidateAdded who (candidacy_bond s))]\<rparr>"

lemma register_run:
  "register_as_candidate T (Signed who) s =
     (if \<not> of_nat (length (candidates s)) < desired_candidates s then (Inl (Err (Collator TooManyCandidates)), s)
      else if who \<in> set (invulnerables s) then (Inl (Err (Collator AlreadyInvulnerable)), s)
      else (case validator_id_of T who of
              None \<Rightarrow> (Inl (Err (Collator NoAssociatedValidatorId)), s)
            | Some v \<Rightarrow>
                (if \<not> is_registered T v (world s) then (Inl (Err (Collator ValidatorNotRegistered)), s)
                 else if who \<in> cand_who ` set (candidates s) then (Inl (Err (Collator AlreadyCandidate)), s)
                 else (case reserve T who (candidacy_bond s) (world s) of
                         (Inl e, w) \<Rightarrow> (Inl e, s\<lparr>world := w\<rparr>)
                       | (Inr _, w) \<Rightarrow>
                           (if length (candidates s) < unat (max_candidates T)
                            then (Inr (Some (w_register_as_candidate (weight_info T)
                                    (of_nat (Suc (length (candidates s)))))), after_register T who w s)
                            else (Inl (Err (Collator TooManyCandidates)), s\<lparr>world := w\<rparr>))))))"
  by (auto simp: register_as_candidate_def call_simps run_ensure_registered run_on_world
      list_ex_iff try_bounded_def after_register_def image_iff
      split: option.split prod.split sum.split)

lemma register_unsigned:
  "(\<And>who. origin \<noteq> Signed who) \<Longrightarrow> register_as_candidate T origin s = (Inl (Err BadOrigin), s)"
  by (simp add: register_as_candidate_def ensure_signed_bad)

lemma leave_run:
  "leave_intent T (Signed who) s =
     (if \<not> min_candidates T < of_nat (length (candidates s)) then (Inl (Err (Collator TooFewCandidates)), s)
      else (case try_remove_candidate T who s of
              (Inl e, t) \<Rightarrow> (Inl e, t)
            | (Inr n, t) \<Rightarrow> (Inr (Some (w_leave_intent (weight_info T) (of_nat n))), t)))"
  by (auto simp: leave_intent_def call_simps seq_def ret_def split: prod.split sum.split)

lemma leave_unsigned:
  "(\<And>who. origin \<noteq> Signed who) \<Longrightarrow> leave_intent T origin s = (Inl (Err BadOrigin), s)"
  by (simp add: leave_intent_def ensure_signed_bad)

lemma set_invulnerables_run:
  "\<exists>e. set_invulnerables T origin new s =
     (if \<not> update_origin T origin then (Inl (Err BadOrigin), s)
      else if unat (max_invulnerables T) < length new then (Inl (Err (Collator TooManyInvulnerables)), s)
      else if list_all (registered T (world s)) new
      then (Inr None, s\<lparr>invulnerables := new, events := events s @ [collator_event T (NewInvulnerables new)]\<rparr>)
      else (Inl e, s))"
proof (cases "for_each new (ensure_registered T) s" rule: prod.exhaust)
  case (Pair r t)
  with ensure_registered_all [OF Pair] show ?thesis
    by (cases r) (auto simp: set_invulnerables_def call_simps try_bounded_def
        seq_def [of "for_each new (ensure_registered T)"])
qed

lemma run_attempt_world:
  "seq (attempt (on_world m)) f s =
     (case m (world s) of
        (Inl (Err e), w) \<Rightarrow> f (Inl e) (s\<lparr>world := w\<rparr>)
      | (Inl Panic, w) \<Rightarrow> (Inl Panic, s\<lparr>world := w\<rparr>)
      | (Inr a, w) \<Rightarrow> f (Inr a) (s\<lparr>world := w\<rparr>))"
  by (simp add: seq_def attempt_def on_world_def split: prod.split sum.split fault.split)

lemma note_author_run:
  "note_author T author s =
     (case transfer_keep_alive T (pot_account T) author
             ((case checked_sub (free_balance T (pot_account T) (world s)) (minimum_balance T) of
                 None \<Rightarrow> 0 | Some r \<Rightarrow> r) div 2) (world s) of
        (Inl Panic, w) \<Rightarrow> (Inl Panic, s\<lparr>world := w\<rparr>)
      | (_, w) \<Rightarrow> (Inr (), s\<lparr>world := w,
           last_authored_block := (last_authored_block s)(author \<mapsto> block_number s),
           extra_weights := extra_weights s @ [w_note_author (weight_info T)]\<rparr>))"
  by (simp add: note_author_def call_simps Let_def run_attempt_world register_extra_weight_def
      split: prod.split sum.split fault.split)

section \<open>The pallet as a machine\<close>

datatype 'acc collator_call =
    SetInvulnerables "'acc list"
  | SetDesiredCandidates u32
  | SetCandidacyBond u128
  | RegisterAsCandidate
  | LeaveIntent

definition collator_dispatch ::
    "('ev, 'acc, 'vid, 'w, 'x) collator_config_scheme \<Rightarrow> 'acc origin \<Rightarrow> 'acc collator_call \<Rightarrow>
     (dispatch_error, ('ev, 'acc, 'w, 'm) collator_state_scheme, weight option) call" where
  "collator_dispatch T origin c = transactional
     (case c of
        SetInvulnerables new \<Rightarrow> set_invulnerables T origin new
      | SetDesiredCandidates n \<Rightarrow> set_desired_candidates T origin n
      | SetCandidacyBond bond \<Rightarrow> set_candidacy_bond T origin bond
      | RegisterAsCandidate \<Rightarrow> register_as_candidate T origin
      | LeaveIntent \<Rightarrow> leave_intent T origin)"

inductive collator_step ::
    "('ev, 'acc, 'vid, 'w, 'x) collator_config_scheme \<Rightarrow> ('ev, 'acc, 'w, 'm) collator_state_scheme \<Rightarrow>
     ('ev, 'acc, 'w, 'm) collator_state_scheme \<Rightarrow> bool" for T where
  call: "collator_dispatch T origin c s = (r, t) \<Longrightarrow> collator_step T s t"
| author: "note_author T a s = (r, t) \<Longrightarrow> collator_step T s t"
| session: "new_session T i s = (r, t) \<Longrightarrow> collator_step T s t"
| block: "collator_step T s (s\<lparr>block_number := block_number s + 1, events := []\<rparr>)"
| outside: "collator_step T s (s\<lparr>world := w\<rparr>)"

inductive collator_reachable ::
    "('ev, 'acc, 'vid, 'w, 'x) collator_config_scheme \<Rightarrow> ('ev, 'acc, 'w, 'm) collator_state_scheme \<Rightarrow> bool" for T where
  start: "genesis_build T g s0 = (Inr () :: dispatch_error fault + unit, s) \<Longrightarrow> candidates s0 = [] \<Longrightarrow> collator_reachable T s"
| step: "collator_reachable T s \<Longrightarrow> collator_step T s t \<Longrightarrow> collator_reachable T t"

inductive_cases collator_stepE: "collator_step T s t"

lemma register_OkE:
  assumes "register_as_candidate T origin s = (Inr r, t)"
  obtains who w where "origin = Signed who" "who \<notin> cand_who ` set (candidates s)"
    "who \<notin> set (invulnerables s)" "registered T (world s) who"
    "of_nat (length (candidates s)) < desired_candidates s"
    "length (candidates s) < unat (max_candidates T)"
    "reserve T who (candidacy_bond s) (world s) = (Inr (), w)"
    "t = after_register T who w s"
proof (cases origin)
  case (Signed who)
  from assms that [OF Signed] show ?thesis
    by (auto simp: Signed register_run registered_def split: if_splits option.splits prod.splits sum.splits)
qed (use assms register_unsigned [of origin T s] in simp_all)

lemma leave_OkE:
  assumes "leave_intent T origin s = (Inr r, t)" and "distinct (map cand_who (candidates s))"
  obtains who pre c rest where "origin = Signed who" "candidates s = pre @ c # rest" "cand_who c = who"
    "min_candidates T < of_nat (length (candidates s))"
    "t = after_removal T c (pre @ rest) s"
proof (cases origin)
  case (Signed who)
  from assms(2) show ?thesis
  proof (cases rule: try_remove_cases [of s who T])
    case (present pre c rest)
    with assms(1) that [OF Signed] show ?thesis by (auto simp: Signed leave_run split: if_splits)
  next
    case absent
    with assms(1) show ?thesis by (auto simp: Signed leave_run split: if_splits)
  qed
qed (use assms leave_unsigned [of origin T s] in simp_all)

lemma collator_inv_call:
  assumes "collator_dispatch T origin c s = (r, t)" and "collator_inv T s"
  shows "collator_inv T t"
proof (cases r)
  case (Inl e)
  with assms show ?thesis unfolding collator_dispatch_def by (metis transactional_atomic)
next
  case (Inr u)
  note ok = assms(1) [unfolded Inr]
  show ?thesis
  proof (cases c)
    case (SetInvulnerables new)
    obtain e where "set_invulnerables T origin new s =
     (if \<not> update_origin T origin then (Inl (Err BadOrigin), s)
      else if unat (max_invulnerables T) < length new then (Inl (Err (Collator TooManyInvulnerables)), s)
      else if list_all (registered T (world s)) new
      then (Inr None, s\<lparr>invulnerables := new, events := events s @ [collator_event T (NewInvulnerables new)]\<rparr>)
      else (Inl e, s))"
      using set_invulnerables_run by blast
    with ok assms(2) SetInvulnerables show ?thesis
      by (auto simp: collator_dispatch_def call_ok collator_inv_def split: if_splits)
  next
    case (SetDesiredCandidates n)
    with ok assms(2) show ?thesis
      by (auto simp: collator_dispatch_def set_desired_candidates_def call_ok collator_inv_def)
  next
    case (SetCandidacyBond n)
    with ok assms(2) show ?thesis
      by (auto simp: collator_dispatch_def set_candidacy_bond_def call_ok collator_inv_def)
  next
    case RegisterAsCandidate
    with ok have "register_as_candidate T origin s = (Inr u, t)"
      by (simp add: collator_dispatch_def call_ok)
    then show ?thesis
      using assms(2) by (elim register_OkE) (auto simp: after_register_def collator_inv_def)
  next
    case LeaveIntent
    with ok have "leave_intent T origin s = (Inr u, t)"
      by (simp add: collator_dispatch_def call_ok)
    then show ?thesis
    proof (rule leave_OkE)
      show "distinct (map cand_who (candidates s))" using assms(2) by (simp add: collator_inv_def)
      fix who pre x rest
      assume "candidates s = pre @ x # rest" and "t = after_removal T x (pre @ rest) s"
      with assms(2) show ?thesis by (auto simp: collator_inv_def image_iff)
    qed
  qed
qed

lemma collator_inv_session:
  assumes "new_session T i s = (r, t)" and "collator_inv T s"
  shows "collator_inv T t"
proof -
  obtain t' where t': "new_session T i s = (Inr (Some (invulnerables s @ map cand_who (kept_candidates T s))), t')"
      "candidates t' = kept_candidates T s" "invulnerables t' = invulnerables s"
      "\<forall>a. a \<notin> cand_who ` set (candidates s) \<or> a \<in> cand_who ` set (candidates t')
           \<longrightarrow> last_authored_block t' a = last_authored_block s a"
    using new_session_run [OF assms(2)] by blast
  have "set (kept_candidates T s) \<subseteq> set (candidates s)"
    and "length (kept_candidates T s) \<le> length (candidates s)"
    and "distinct (map cand_who (kept_candidates T s))"
    using assms(2)
    by (simp_all add: kept_candidates_def kick_ref_subset length_kick_ref distinct_kick_ref collator_inv_def)
  moreover have "t = t'" using t'(1) assms(1) by simp
  ultimately show ?thesis
    using assms(2) t'(2-4) by (auto simp: collator_inv_def)
qed

lemma collator_inv_step:
  assumes "collator_step T s t" and "collator_inv T s"
  shows "collator_inv T t"
  using assms(1)
proof (rule collator_stepE)
  fix a r assume "note_author T a s = (r, t)"
  with assms(2) show ?thesis
    by (auto simp: note_author_run collator_inv_def split: prod.splits sum.splits fault.splits)
next
  fix origin c r assume "collator_dispatch T origin c s = (r, t)"
  then show ?thesis using assms(2) by (rule collator_inv_call)
next
  fix i r assume "new_session T i s = (r, t)"
  then show ?thesis using assms(2) by (rule collator_inv_session)
qed (use assms(2) in \<open>simp_all add: collator_inv_def\<close>)

lemma collator_inv_start:
  assumes "genesis_build T g s0 = (Inr (), s)" and "candidates s0 = []"
  shows "collator_inv T s"
  using assms
  by (auto simp: genesis_build_def call_ok try_bounded_Some collator_inv_def split: if_splits)

lemma collator_reachable_inv: "collator_reachable T s \<Longrightarrow> collator_inv T s"
  by (induction rule: collator_reachable.induct) (auto intro: collator_inv_start collator_inv_step)

end
