(* ===== verification/Collator_Properties.thy ===== *)
theory Collator_Properties
  imports Collator_Session
begin

text \<open>
  The properties of the collator-selection pallet, with a theorem that applies each to
  a concrete pallet: accounts are numbers, the rest of the storage is a ledger of free
  and reserved balances, every account has a validator key, and the bounds are small.
  \<open>currency_laws\<close> states what \<open>ReservableCurrency\<close> documents of \<open>reserve\<close> and
  \<open>unreserve\<close>, for an observer \<open>res\<close> of the reserved balance.
\<close>

section \<open>The currency's contract and a concrete pallet\<close>

definition currency_laws ::
    "('ev, 'acc, 'vid, 'w, 'x) collator_config_scheme \<Rightarrow> ('acc \<Rightarrow> 'w \<Rightarrow> u128) \<Rightarrow> bool" where
  "currency_laws T res \<longleftrightarrow>
     (\<forall>who n w w'. reserve T who n w = (Inr (), w') \<longrightarrow>
        n \<le> free_balance T who w
        \<and> free_balance T who w' = free_balance T who w - n
        \<and> unat (res who w) + unat n < 2 ^ 128 \<and> res who w' = res who w + n
        \<and> (\<forall>a. a \<noteq> who \<longrightarrow> free_balance T a w' = free_balance T a w \<and> res a w' = res a w))
     \<and> (\<forall>who n w. let w' = snd (unreserve T who n w); m = min n (res who w) in
        free_balance T who w' = free_balance T who w + m
        \<and> res who w' = res who w - m
        \<and> (\<forall>a. a \<noteq> who \<longrightarrow> free_balance T a w' = free_balance T a w \<and> res a w' = res a w))"

type_synonym ledger = "nat \<Rightarrow> u128 \<times> u128"

definition demo_reserve :: "'acc \<Rightarrow> u128 \<Rightarrow> (dispatch_error, 'acc \<Rightarrow> u128 \<times> u128, unit) call" where
  "demo_reserve who n w =
     (if n \<le> fst (w who) \<and> unat (snd (w who)) + unat n < 2 ^ 128
      then (Inr (), w(who := (fst (w who) - n, snd (w who) + n)))
      else (Inl (Err (Foreign 2)), w))"

definition demo_unreserve ::
    "'acc \<Rightarrow> u128 \<Rightarrow> ('acc \<Rightarrow> u128 \<times> u128) \<Rightarrow> u128 \<times> ('acc \<Rightarrow> u128 \<times> u128)" where
  "demo_unreserve who n w =
     (let m = min n (snd (w who)) in (n - m, w(who := (fst (w who) + m, snd (w who) - m))))"

definition demo_transfer :: "'acc \<Rightarrow> 'acc \<Rightarrow> u128 \<Rightarrow> (dispatch_error, 'acc \<Rightarrow> u128 \<times> u128, unit) call" where
  "demo_transfer src dst n w =
     (if n \<le> fst (w src) \<and> 1 \<le> fst (w src) - n
      then (Inr (), if src = dst then w
         else w(src := (fst (w src) - n, snd (w src)), dst := (fst (w dst) + n, snd (w dst))))
      else (Inl (Err (Foreign 2)), w))"

definition demo_collators :: "(nat collator_event, nat, nat, ledger) collator_config" where
  "demo_collators =
     \<lparr>collator_event = (\<lambda>e. e), update_origin = (\<lambda>o'. o' = Root), pot_account = 0,
      max_candidates = 3, min_candidates = 1, max_invulnerables = 2, kick_threshold = 10,
      validator_id_of = identity_collator, is_registered = (\<lambda>_ _. True),
      reserve = demo_reserve, unreserve = demo_unreserve, transfer_keep_alive = demo_transfer,
      free_balance = (\<lambda>a w. fst (w a)), minimum_balance = 1,
      weight_info = unit_collator_weight (rocks_db_weight 1000)\<rparr>"

definition demo_start :: "(nat collator_event, nat, ledger) collator_state" where
  "demo_start = \<lparr>block_number = 5, events = [], invulnerables = [1], candidates = [],
     last_authored_block = Map.empty, desired_candidates = 3, candidacy_bond = 10,
     extra_weights = [], world = (\<lambda>_. (100, 0))\<rparr>"

lemma demo_laws: "currency_laws demo_collators (\<lambda>a w. snd (w a))"
  unfolding currency_laws_def demo_collators_def
  by (auto simp: demo_reserve_def demo_unreserve_def Let_def split: if_splits)

lemma demo_start_reachable: "collator_reachable demo_collators demo_start"
proof (rule collator_reachable.start)
  show "genesis_build demo_collators \<lparr>g_invulnerables = [1], g_candidacy_bond = 10, g_desired_candidates = 3\<rparr>
      (demo_start\<lparr>invulnerables := [], desired_candidates := 0, candidacy_bond := 0\<rparr>) =
      (Inr () :: dispatch_error fault + unit, demo_start)"
    by (simp add: genesis_build_def call_simps try_bounded_def demo_collators_def demo_start_def)
qed (simp add: demo_start_def)

lemma reachable_after_call:
  "collator_reachable T s \<Longrightarrow> collator_reachable T (snd (collator_dispatch T origin c s))"
  by (erule collator_reachable.step) (rule collator_step.call [OF prod.collapse [symmetric]])

definition demo_two :: "(nat collator_event, nat, ledger) collator_state" where
  "demo_two = snd (collator_dispatch demo_collators (Signed 3) RegisterAsCandidate
     (snd (collator_dispatch demo_collators (Signed 2) RegisterAsCandidate demo_start)))"

lemma demo_two_reachable: "collator_reachable demo_collators demo_two"
  unfolding demo_two_def by (intro reachable_after_call demo_start_reachable)

lemma demo_two_eq:
  "candidates demo_two = [\<lparr>cand_who = 2, cand_deposit = 10\<rparr>, \<lparr>cand_who = 3, cand_deposit = 10\<rparr>]"
  "invulnerables demo_two = [1]" "block_number demo_two = 5" "desired_candidates demo_two = 3"
  "last_authored_block demo_two = [2 \<mapsto> 15, 3 \<mapsto> 15]"
  by (simp_all add: demo_two_def collator_dispatch_def register_run transactional_def after_register_def
      demo_collators_def demo_start_def identity_collator_def demo_reserve_def)

lemma demo_register_four:
  "collator_dispatch demo_collators (Signed 4) RegisterAsCandidate demo_two =
     (Inr (Some (w_register_as_candidate (weight_info demo_collators) 3)),
      after_register demo_collators 4 ((world demo_two)(4 := (90, 10))) demo_two)"
  by (simp add: demo_two_def collator_dispatch_def register_run transactional_def after_register_def
      demo_collators_def demo_start_def identity_collator_def demo_reserve_def)

section \<open>Invariant\<close>

text \<open>
  C9. Whatever calls, hooks and blocks have happened, and whatever other pallets did to
  their storage: no account is a candidate twice, the candidates stay within
  \<open>MaxCandidates\<close> and the invulnerables within \<open>MaxInvulnerables\<close>, and every
  candidate has an entry in \<open>LastAuthoredBlock\<close>.
\<close>

theorem collators_invariant:
  assumes "collator_reachable T s"
  shows "distinct (map cand_who (candidates s))
    \<and> length (candidates s) \<le> unat (max_candidates T)
    \<and> length (invulnerables s) \<le> unat (max_invulnerables T)
    \<and> (\<forall>c \<in> set (candidates s). last_authored_block s (cand_who c) \<noteq> None)"
  using collator_reachable_inv [OF assms] by (simp add: collator_inv_def)

theorem collators_invariant_witness:
  "distinct (map cand_who (candidates demo_two)) \<and> length (candidates demo_two) \<le> 3"
  using collators_invariant [OF demo_two_reachable] by (simp add: demo_collators_def)

section \<open>Sessions\<close>

text \<open>
  C10. A new session never panics and returns the invulnerables followed by the
  candidates that stay, which are then exactly the stored candidates. Every candidate
  that produced a block within the threshold stays; the kicking stops at
  \<open>MinCandidates\<close>, and while more than that many remain, no stale candidate does.
\<close>

theorem new_session_collators:
  assumes "collator_reachable T s"
  shows "\<exists>t. new_session T i s = (Inr (Some (invulnerables s @ map cand_who (candidates t))), t)
    \<and> set (candidates t) \<subseteq> set (candidates s)
    \<and> (\<forall>c \<in> set (candidates s). \<not> stale_in T s (cand_who c) \<longrightarrow> c \<in> set (candidates t))
    \<and> min (unat (min_candidates T)) (length (candidates s)) \<le> length (candidates t)
    \<and> (unat (min_candidates T) < length (candidates t) \<longrightarrow>
         (\<forall>c \<in> set (candidates t). \<not> stale_in T s (cand_who c)))"
proof -
  let ?kept = "kept_candidates T s"
  obtain t where t: "new_session T i s = (Inr (Some (invulnerables s @ map cand_who ?kept)), t)"
      "candidates t = ?kept"
    using new_session_run [OF collator_reachable_inv [OF assms]] by blast
  have least: "min (unat (min_candidates T)) (length (candidates s)) \<le> length ?kept"
    using kick_ref_least [of "unat (min_candidates T)" 0 "candidates s" "stale_in T s"]
    by (simp add: kept_candidates_def)
  have stale: "length ?kept \<le> unat (min_candidates T)" if "c \<in> set ?kept" "stale_in T s (cand_who c)" for c
    using kick_ref_stale_kept [of c "stale_in T s" "unat (min_candidates T)" 0 "candidates s"] that
    by (simp add: kept_candidates_def)
  have "set ?kept \<subseteq> set (candidates s)"
    by (simp add: kept_candidates_def kick_ref_subset)
  moreover have "\<forall>c \<in> set (candidates s). \<not> stale_in T s (cand_who c) \<longrightarrow> c \<in> set ?kept"
    by (simp add: kept_candidates_def kick_ref_fresh)
  moreover have "unat (min_candidates T) < length ?kept \<longrightarrow> (\<forall>c \<in> set ?kept. \<not> stale_in T s (cand_who c))"
    using stale not_less by blast
  ultimately show ?thesis using t least by (intro exI [of _ t]) simp
qed

theorem new_session_collators_witness:
  "\<exists>t. new_session demo_collators 7 demo_two = (Inr (Some [1, 2, 3]), t)"
proof -
  from new_session_collators [OF demo_two_reachable, of 7] obtain t where
    t: "new_session demo_collators 7 demo_two = (Inr (Some (invulnerables demo_two @ map cand_who (candidates t))), t)"
    by blast
  have "\<not> stale_in demo_collators demo_two a" if "a \<in> {2, 3}" for a
    using that by (auto simp: stale_in_def demo_two_eq demo_collators_def last_block_of_def saturating_sub_def)
  then have "kept_candidates demo_collators demo_two = candidates demo_two"
    by (simp add: kept_candidates_def demo_two_eq)
  with t new_session_run [OF collator_reachable_inv [OF demo_two_reachable], of 7]
  show ?thesis by (auto simp: demo_two_eq)
qed

text \<open>
  C37. Nothing keeps the two lists apart: when the root origin names a current candidate
  among the new invulnerables, the call checks only the length of the list and that every
  account on it has its session keys registered. If so it succeeds, the account stays a
  candidate, and if it is not stale, a session that starts on the storage the call leaves
  lists it twice. If the list is longer than \<open>MaxInvulnerables\<close> or the keys of one
  of its accounts are not registered (any more), the call is refused and changes nothing.
\<close>

theorem invulnerable_candidate_listed_twice:
  assumes "collator_reachable T s" and "c \<in> set (candidates s)" and "\<not> stale_in T s (cand_who c)"
    and "update_origin T origin" and "cand_who c \<in> set new"
  shows "if length new \<le> unat (max_invulnerables T) \<and> (\<forall>a \<in> set new. registered T (world s) a)
    then \<exists>t collators u. collator_dispatch T origin (SetInvulnerables new) s = (Inr None, t)
      \<and> invulnerables t = new \<and> candidates t = candidates s
      \<and> new_session T i t = (Inr (Some collators), u) \<and> 2 \<le> count_list collators (cand_who c)
    else \<exists>e. collator_dispatch T origin (SetInvulnerables new) s = (Inl e, s)"
proof (cases "length new \<le> unat (max_invulnerables T) \<and> (\<forall>a \<in> set new. registered T (world s) a)")
  case True
  let ?t = "s\<lparr>invulnerables := new, events := events s @ [collator_event T (NewInvulnerables new)]\<rparr>"
  have "set_invulnerables T origin new s = (Inr None, ?t)"
    using set_invulnerables_run [of T origin new s] assms(4) True by (auto simp: list_all_iff)
  then have call: "collator_dispatch T origin (SetInvulnerables new) s = (Inr None, ?t)"
    by (simp add: collator_dispatch_def transactional_def)
  have "collator_inv T ?t"
    using collator_inv_call [OF call collator_reachable_inv [OF assms(1)]] .
  from new_session_run [OF this, of i] obtain u where
    u: "new_session T i ?t = (Inr (Some (new @ map cand_who (kept_candidates T ?t))), u)" by auto
  have "c \<in> set (kept_candidates T ?t)"
    using assms(2,3) by (auto simp: kept_candidates_def stale_in_def last_block_of_def intro!: kick_ref_fresh)
  then have "0 < count_list (map cand_who (kept_candidates T ?t)) (cand_who c)"
    by (metis count_list_0_iff gr0I image_eqI list.set_map)
  moreover have "0 < count_list new (cand_who c)"
    using assms(5) by (metis count_list_0_iff gr0I)
  ultimately have twice: "2 \<le> count_list (new @ map cand_who (kept_candidates T ?t)) (cand_who c)" by simp
  show ?thesis
    unfolding if_P [OF True]
    by (rule exI [of _ ?t], rule exI, rule exI, intro conjI, rule call, simp, simp, rule u, rule twice)
next
  case False
  then have "\<exists>e. set_invulnerables T origin new s = (Inl e, s)"
    using set_invulnerables_run [of T origin new s] assms(4) by (auto simp: list_all_iff)
  then have "\<exists>e. collator_dispatch T origin (SetInvulnerables new) s = (Inl e, s)"
    by (auto simp: collator_dispatch_def transactional_def)
  then show ?thesis unfolding if_not_P [OF False] .
qed

theorem invulnerable_candidate_listed_twice_witness:
  "\<exists>t collators u. collator_dispatch demo_collators Root (SetInvulnerables [2]) demo_two = (Inr None, t)
    \<and> new_session demo_collators 8 t = (Inr (Some collators), u) \<and> 2 \<le> count_list collators 2"
proof -
  let ?c = "\<lparr>cand_who = 2 :: nat, cand_deposit = 10\<rparr>"
  have given: "?c \<in> set (candidates demo_two)" "\<not> stale_in demo_collators demo_two (cand_who ?c)"
      "update_origin demo_collators Root" "cand_who ?c \<in> set [2]"
    by (simp_all add: demo_two_eq stale_in_def demo_collators_def last_block_of_def saturating_sub_def)
  have allowed: "length [2 :: nat] \<le> unat (max_invulnerables demo_collators)
      \<and> (\<forall>a \<in> set [2]. registered demo_collators (world demo_two) a)"
    by (simp add: demo_collators_def registered_def identity_collator_def)
  from invulnerable_candidate_listed_twice [OF demo_two_reachable given, of 8, unfolded if_P [OF allowed]]
  show ?thesis unfolding candidate_info.select_convs by blast
qed

section \<open>Joining and leaving\<close>

text \<open>
  C20. Joining: \<open>register_as_candidate\<close> succeeds exactly if the origin is signed, the
  number of candidates is below the desired number and below \<open>MaxCandidates\<close>, the
  account is neither an invulnerable nor a candidate, its validator key is registered,
  and the currency reserves the bond. It then is the last candidate, with the bond as
  its deposit. In every other case nothing changes, not even a reservation that
  succeeded before the call failed.
\<close>

theorem register_exactly_if:
  "((\<exists>w t. collator_dispatch T origin RegisterAsCandidate s = (Inr w, t)) \<longleftrightarrow>
    (\<exists>who world'. origin = Signed who
      \<and> of_nat (length (candidates s)) < desired_candidates s
      \<and> length (candidates s) < unat (max_candidates T)
      \<and> who \<notin> set (invulnerables s) \<and> who \<notin> cand_who ` set (candidates s)
      \<and> registered T (world s) who
      \<and> reserve T who (candidacy_bond s) (world s) = (Inr (), world')))
   \<and> (\<forall>e t. collator_dispatch T origin RegisterAsCandidate s = (Inl e, t) \<longrightarrow> t = s)
   \<and> (\<forall>w t. collator_dispatch T origin RegisterAsCandidate s = (Inr w, t) \<longrightarrow>
       (\<exists>who. origin = Signed who
         \<and> candidates t = candidates s @ [\<lparr>cand_who = who, cand_deposit = candidacy_bond s\<rparr>]))"
    (is "(?l \<longleftrightarrow> ?r) \<and> ?fail \<and> ?ok")
proof (intro conjI)
  have ok: "collator_dispatch T origin RegisterAsCandidate s = (Inr w, t)
      \<longleftrightarrow> register_as_candidate T origin s = (Inr w, t)" for w t
    by (simp add: collator_dispatch_def call_ok)
  show "?l \<longleftrightarrow> ?r"
  proof
    assume ?l
    then show ?r unfolding ok by (auto elim!: register_OkE)
  next
    assume ?r
    then show ?l unfolding ok by (auto simp: register_run registered_def split: option.splits)
  qed
  show ?fail
    unfolding collator_dispatch_def by (blast dest: transactional_atomic)
  show ?ok
    unfolding ok by (auto elim!: register_OkE simp: after_register_def)
qed

theorem register_exactly_if_witness:
  "\<exists>t w. collator_dispatch demo_collators (Signed 4) RegisterAsCandidate demo_two = (Inr w, t)
      \<and> candidates t = candidates demo_two @ [\<lparr>cand_who = 4, cand_deposit = candidacy_bond demo_two\<rparr>]"
proof -
  obtain w t where t: "collator_dispatch demo_collators (Signed 4) RegisterAsCandidate demo_two = (Inr w, t)"
    by (simp add: demo_register_four)
  with register_exactly_if [of demo_collators "Signed 4" demo_two] show ?thesis by auto
qed

text \<open>
  The deposit comes back: an account that registers and, with nothing in between,
  leaves again has its free and reserved balance as before, every other account too,
  and the list of candidates is as before. Leaving needs more than \<open>MinCandidates\<close>.
\<close>

theorem deposit_returned:
  assumes "currency_laws T res"
    and "collator_reachable T s"
    and "collator_dispatch T (Signed who) RegisterAsCandidate s = (Inr w, t)"
    and "min_candidates T < of_nat (length (candidates t))"
  shows "\<exists>w' u. collator_dispatch T (Signed who) LeaveIntent t = (Inr w', u)
    \<and> candidates u = candidates s
    \<and> (\<forall>a. free_balance T a (world u) = free_balance T a (world s) \<and> res a (world u) = res a (world s))"
proof -
  have "register_as_candidate T (Signed who) s = (Inr w, t)"
    using assms(3) by (simp add: collator_dispatch_def call_ok)
  then obtain w1 where w1: "reserve T who (candidacy_bond s) (world s) = (Inr (), w1)"
      and t: "t = after_register T who w1 s"
    by (auto elim: register_OkE)
  let ?c = "\<lparr>cand_who = who, cand_deposit = candidacy_bond s\<rparr>"
  have cands: "candidates t = candidates s @ ?c # []" by (simp add: t after_register_def)
  have "distinct (map cand_who (candidates t))"
    using collator_inv_call [OF assms(3) collator_reachable_inv [OF assms(2)]]
    by (simp add: collator_inv_def)
  from try_remove_run [OF cands this, of T] have
    rem: "try_remove_candidate T who t = (Inr (length (candidates s)), after_removal T ?c (candidates s) t)"
    by simp
  let ?u = "after_removal T ?c (candidates s) t"
  have leave: "collator_dispatch T (Signed who) LeaveIntent t
      = (Inr (Some (w_leave_intent (weight_info T) (of_nat (length (candidates s))))), ?u)"
    using assms(4) by (simp add: collator_dispatch_def transactional_def leave_run rem)
  let ?w2 = "snd (unreserve T who (candidacy_bond s) w1)"
  have res1: "free_balance T who w1 = free_balance T who (world s) - candidacy_bond s"
      "unat (res who (world s)) + unat (candidacy_bond s) < 2 ^ 128"
      "res who w1 = res who (world s) + candidacy_bond s"
      "\<And>a. a \<noteq> who \<Longrightarrow> free_balance T a w1 = free_balance T a (world s) \<and> res a w1 = res a (world s)"
    using assms(1) w1 unfolding currency_laws_def by blast+
  have "unat (res who w1) = unat (res who (world s)) + unat (candidacy_bond s)"
    using res1(2) by (simp add: res1(3) unat_word_ariths)
  then have m: "min (candidacy_bond s) (res who w1) = candidacy_bond s"
    by (simp add: min_def word_le_nat_alt)
  have res2: "free_balance T who ?w2 = free_balance T who w1 + candidacy_bond s"
      "res who ?w2 = res who w1 - candidacy_bond s"
      "\<And>a. a \<noteq> who \<Longrightarrow> free_balance T a ?w2 = free_balance T a w1 \<and> res a ?w2 = res a w1"
    using assms(1) unfolding currency_laws_def Let_def by (metis m)+
  have "free_balance T a ?w2 = free_balance T a (world s) \<and> res a ?w2 = res a (world s)" for a
    using res1 res2 by (cases "a = who") simp_all
  moreover have "world ?u = ?w2" by (simp add: t after_register_def)
  ultimately show ?thesis using leave by auto
qed

theorem deposit_returned_witness:
  "\<exists>w t w' u. collator_dispatch demo_collators (Signed 4) RegisterAsCandidate demo_two = (Inr w, t)
    \<and> collator_dispatch demo_collators (Signed 4) LeaveIntent t = (Inr w', u)
    \<and> candidates u = candidates demo_two \<and> fst (world u 4) = fst (world demo_two 4)"
proof -
  let ?t = "after_register demo_collators 4 ((world demo_two)(4 := (90, 10))) demo_two"
  have "min_candidates demo_collators < of_nat (length (candidates ?t))"
    by (simp add: after_register_def demo_two_eq) (simp add: demo_collators_def)
  from deposit_returned [OF demo_laws demo_two_reachable demo_register_four this]
  obtain w' u where "collator_dispatch demo_collators (Signed 4) LeaveIntent ?t = (Inr w', u)"
      "candidates u = candidates demo_two"
      "\<forall>a. free_balance demo_collators a (world u) = free_balance demo_collators a (world demo_two)"
    by blast
  moreover from this(3) have "fst (world u 4) = fst (world demo_two 4)"
    by (simp add: demo_collators_def)
  ultimately show ?thesis using demo_register_four by blast
qed

text \<open>
  A newcomer has time: after registering in block \<open>b\<close> it counts as fresh in every
  block before \<open>b + 2 * KickThreshold\<close>, since its entry in \<open>LastAuthoredBlock\<close> lies a
  threshold ahead, as long as the block number does not reach the end of 32 bits.
\<close>

theorem newcomer_not_stale:
  assumes "collator_dispatch T (Signed who) RegisterAsCandidate s = (Inr w, t)"
    and "0 < kick_threshold T"
    and "unat (block_number s) + unat (kick_threshold T) < 2 ^ 32"
    and "unat n < unat (block_number s) + 2 * unat (kick_threshold T)"
  shows "\<not> stale_in T (t\<lparr>block_number := n\<rparr>) who"
proof -
  have "register_as_candidate T (Signed who) s = (Inr w, t)"
    using assms(1) by (simp add: collator_dispatch_def call_ok)
  then have "last_authored_block t who = Some (block_number s + kick_threshold T)"
    by (auto elim: register_OkE simp: after_register_def)
  moreover have "unat (block_number s + kick_threshold T) = unat (block_number s) + unat (kick_threshold T)"
    using assms(3) by (simp add: unat_word_ariths)
  ultimately show ?thesis
    using assms(2,4) by (auto simp: stale_in_def last_block_of_def word_le_nat_alt word_less_nat_alt)
qed

theorem newcomer_not_stale_witness:
  "\<not> stale_in demo_collators ((snd (collator_dispatch demo_collators (Signed 2) RegisterAsCandidate demo_start))
       \<lparr>block_number := 24\<rparr>) 2"
proof -
  obtain w t where t: "collator_dispatch demo_collators (Signed 2) RegisterAsCandidate demo_start = (Inr w, t)"
    by (simp add: collator_dispatch_def register_run transactional_def
        demo_collators_def demo_start_def identity_collator_def demo_reserve_def)
  from newcomer_not_stale [OF this, of 24] show ?thesis
    by (simp add: t) (simp add: demo_collators_def demo_start_def)
qed

section \<open>Rewards and weights\<close>

text \<open>
  The author of a block is paid half of what the pot holds above the existential
  deposit, rounded down, so the pot keeps at least the deposit if it had it; a transfer
  that fails is ignored. The author's last block is the current one, and no other
  account's entry changes.
\<close>

theorem author_rewarded:
  assumes "\<And>n. fst (transfer_keep_alive T (pot_account T) author n (world s)) \<noteq> Inl Panic"
  shows "\<exists>reward t. note_author T author s = (Inr (), t)
    \<and> unat reward = (unat (free_balance T (pot_account T) (world s)) - unat (minimum_balance T)) div 2
    \<and> world t = snd (transfer_keep_alive T (pot_account T) author reward (world s))
    \<and> last_authored_block t = (last_authored_block s)(author \<mapsto> block_number s)"
proof -
  let ?pot = "free_balance T (pot_account T) (world s)"
  define reward where "reward = (case checked_sub ?pot (minimum_balance T) of None \<Rightarrow> 0 | Some r \<Rightarrow> r) div 2"
  have "unat reward = (unat ?pot - unat (minimum_balance T)) div 2"
    by (simp add: reward_def checked_sub_def unat_div unat_sub word_le_nat_alt)
  moreover obtain r w where r: "transfer_keep_alive T (pot_account T) author reward (world s) = (r, w)"
    by fastforce
  moreover have "r \<noteq> Inl Panic" using assms [of reward] r by simp
  ultimately show ?thesis
    unfolding note_author_run reward_def [symmetric]
    by (intro exI [of _ reward]) (auto split: sum.split fault.split)
qed

theorem author_rewarded_witness:
  "\<exists>reward t. note_author demo_collators 2 demo_two = (Inr (), t) \<and> unat (reward :: u128) = 49
     \<and> last_authored_block t 2 = Some 5"
proof -
  have pot: "fst (world demo_two 0) = 100"
    by (simp add: demo_two_def collator_dispatch_def register_run transactional_def after_register_def
        demo_collators_def demo_start_def identity_collator_def demo_reserve_def)
  have "fst (transfer_keep_alive demo_collators (pot_account demo_collators) 2 n (world demo_two)) \<noteq> Inl Panic" for n
    by (simp add: demo_collators_def demo_transfer_def)
  from author_rewarded [OF this] obtain reward t where
    "note_author demo_collators 2 demo_two = (Inr (), t)"
    "unat (reward :: u128) = (unat (free_balance demo_collators (pot_account demo_collators) (world demo_two))
        - unat (minimum_balance demo_collators)) div 2"
    "last_authored_block t = (last_authored_block demo_two)(2 \<mapsto> block_number demo_two)"
    by blast
  then show ?thesis
    by (intro exI [of _ reward] exI [of _ t]) (simp add: demo_collators_def pot demo_two_eq)
qed

text \<open>
  A session is charged less than its benchmark says: the weight function takes the
  number of removals first and that of the candidates second, \<open>new_session\<close> passes the
  candidates first. The charge falls short of the intended one by 41,991 microseconds of
  execution time and one database read for every candidate that stays.
\<close>

theorem new_session_undercharged:
  assumes "collator_reachable T s" and "w_new_session (weight_info T) = new_session_weight db"
    and "new_session_time db (length (candidates s)) (length (candidates s)) < 2 ^ 64"
  shows "\<exists>t charged removed. new_session T i s = (Inr (Some (invulnerables s @ map cand_who (candidates t))), t)
    \<and> extra_weights t = extra_weights s @ [charged]
    \<and> removed = length (candidates s) - length (candidates t)
    \<and> unat (ref_time charged) + (41991000 + unat (db_read db)) * length (candidates t)
        = new_session_time db removed (length (candidates s))"
proof -
  let ?c = "length (candidates s)" and ?kept = "kept_candidates T s"
  let ?r = "?c - length ?kept"
  let ?charged = "new_session_weight db (of_nat ?c) (of_nat ?r)"
  obtain t where t: "new_session T i s = (Inr (Some (invulnerables s @ map cand_who ?kept)), t)"
      "candidates t = ?kept" "extra_weights t = extra_weights s @ [?charged]"
    using new_session_run [OF collator_reachable_inv [OF assms(1)]] assms(2) by metis
  have le: "length ?kept \<le> ?c" by (simp add: kept_candidates_def length_kick_ref)
  have small: "?c < 2 ^ LENGTH(32)"
    using collator_inv_length [OF collator_reachable_inv [OF assms(1)]] by simp
  then have "unat (of_nat ?c :: u32) = ?c" and "unat (of_nat ?r :: u32) = ?r"
    by (simp_all only: unsigned_of_nat of_nat_id take_bit_nat_eq_self)
  moreover have "new_session_time db ?c ?r \<le> new_session_time db ?c ?c"
    by (simp add: new_session_time_def algebra_simps mult_le_mono add_mono)
  ultimately have "unat (ref_time ?charged) = new_session_time db ?c ?r"
    using assms(3) by (simp add: new_session_weight_time cap64_def)
  moreover obtain r where "?c = length ?kept + r" using le le_Suc_ex by blast
  ultimately have "unat (ref_time ?charged) + (41991000 + unat (db_read db)) * length ?kept
      = new_session_time db ?r ?c"
    by (simp add: new_session_time_def algebra_simps)
  with t show ?thesis by (intro exI [of _ t] exI [of _ ?charged] exI [of _ ?r]) simp
qed

theorem new_session_undercharged_witness:
  "\<exists>t (charged :: weight) removed. new_session demo_collators 7 demo_two = (Inr (Some (invulnerables demo_two @ map cand_who (candidates t))), t)
    \<and> unat (ref_time charged) + (41991000 + 25000000) * length (candidates t) = new_session_time (rocks_db_weight 1000) removed (length (candidates demo_two))"
proof -
  have "w_new_session (weight_info demo_collators) = new_session_weight (rocks_db_weight 1000)"
    by (simp add: demo_collators_def unit_collator_weight_def new_session_weight_def fun_eq_iff)
  moreover have "new_session_time (rocks_db_weight 1000) (length (candidates demo_two)) (length (candidates demo_two)) < 2 ^ 64"
    by (simp add: new_session_time_def rocks_db_weight_def demo_two_eq)
  ultimately obtain t removed and charged :: weight where
    "new_session demo_collators 7 demo_two = (Inr (Some (invulnerables demo_two @ map cand_who (candidates t))), t)"
    "unat (ref_time charged) + (41991000 + unat (db_read (rocks_db_weight 1000))) * length (candidates t)
        = new_session_time (rocks_db_weight 1000) removed (length (candidates demo_two))"
    using new_session_undercharged [OF demo_two_reachable, of "rocks_db_weight 1000" 7] by blast
  moreover have "unat (db_read (rocks_db_weight 1000)) = 25000000" by (simp add: rocks_db_weight_def)
  ultimately show ?thesis by metis
qed

end
