(* ===== verification/Collator_Deposits.thy ===== *)
theory Collator_Deposits
  imports Collator_Properties
begin

text \<open>
  The deposits of the candidates. The pallet keeps each candidate's deposit in its
  storage and the amount itself in the reserved balance of the account, which is another
  pallet's storage. \<open>backed_step\<close> is the machine of the pallet next to pallets that do not
  take away what is reserved for a candidate; along its runs every deposit is backed
  (\<open>deposits_backed\<close>), so leaving and being kicked give the whole of it back.
\<close>

section \<open>The machine\<close>

definition transfer_keeps ::
    "('ev, 'acc, 'vid, 'w, 'x) collator_config_scheme \<Rightarrow> ('acc \<Rightarrow> 'w \<Rightarrow> u128) \<Rightarrow> bool" where
  "transfer_keeps T res \<longleftrightarrow> (\<forall>a b n w r w' x. transfer_keep_alive T a b n w = (r, w') \<longrightarrow> res x w' = res x w)"

inductive backed_step ::
    "('ev, 'acc, 'vid, 'w, 'x) collator_config_scheme \<Rightarrow> ('acc \<Rightarrow> 'w \<Rightarrow> u128) \<Rightarrow>
     ('ev, 'acc, 'w, 'm) collator_state_scheme \<Rightarrow> ('ev, 'acc, 'w, 'm) collator_state_scheme \<Rightarrow> bool" for T res where
  call: "collator_dispatch T origin c s = (r, t) \<Longrightarrow> backed_step T res s t"
| author: "note_author T a s = (r, t) \<Longrightarrow> backed_step T res s t"
| session: "new_session T i s = (r, t) \<Longrightarrow> backed_step T res s t"
| block: "backed_step T res s (s\<lparr>block_number := block_number s + 1, events := []\<rparr>)"
| outside: "(\<And>c. c \<in> set (candidates s) \<Longrightarrow> res (cand_who c) (world s) \<le> res (cand_who c) w) \<Longrightarrow>
    backed_step T res s (s\<lparr>world := w\<rparr>)"

inductive backed_reachable ::
    "('ev, 'acc, 'vid, 'w, 'x) collator_config_scheme \<Rightarrow> ('acc \<Rightarrow> 'w \<Rightarrow> u128) \<Rightarrow>
     ('ev, 'acc, 'w, 'm) collator_state_scheme \<Rightarrow> bool" for T res where
  start: "genesis_build T g s0 = (Inr () :: dispatch_error fault + unit, s) \<Longrightarrow> candidates s0 = [] \<Longrightarrow> backed_reachable T res s"
| step: "backed_reachable T res s \<Longrightarrow> backed_step T res s t \<Longrightarrow> backed_reachable T res t"

inductive_cases backed_stepE: "backed_step T res s t"

lemma backed_step_collator: "backed_step T res s t \<Longrightarrow> collator_step T s t"
  by (induction rule: backed_step.induct) (auto intro: collator_step.intros)

lemma backed_reachable_collator: "backed_reachable T res s \<Longrightarrow> collator_reachable T s"
  by (induction rule: backed_reachable.induct) (auto intro: collator_reachable.intros backed_step_collator)

lemma backed_reachable_inv: "backed_reachable T res s \<Longrightarrow> collator_inv T s"
  by (rule collator_reachable_inv [OF backed_reachable_collator])

section \<open>Reserving and returning\<close>

definition backed ::
    "('acc \<Rightarrow> 'w \<Rightarrow> u128) \<Rightarrow> ('ev, 'acc, 'w, 'm) collator_state_scheme \<Rightarrow> bool" where
  "backed res s \<longleftrightarrow> (\<forall>c \<in> set (candidates s). cand_deposit c \<le> res (cand_who c) (world s))"

lemma reserve_law:
  assumes "currency_laws T res" and "reserve T who n w = (Inr (), w')"
  shows "n \<le> res who w'" and "a \<noteq> who \<Longrightarrow> res a w' = res a w"
proof -
  have law: "unat (res who w) + unat n < 2 ^ 128 \<and> res who w' = res who w + n
      \<and> (\<forall>a. a \<noteq> who \<longrightarrow> res a w' = res a w)"
    using assms unfolding currency_laws_def by blast
  then have "unat (res who w') = unat (res who w) + unat n" by (simp add: unat_word_ariths)
  then show "n \<le> res who w'" by (simp add: word_le_nat_alt)
  show "a \<noteq> who \<Longrightarrow> res a w' = res a w" using law by blast
qed

lemma unreserve_law:
  assumes "currency_laws T res" and "w' = snd (unreserve T who n w)"
  shows "n \<le> res who w \<Longrightarrow> free_balance T who w' = free_balance T who w + n \<and> res who w' = res who w - n"
    and "a \<noteq> who \<Longrightarrow> free_balance T a w' = free_balance T a w \<and> res a w' = res a w"
proof -
  have law: "free_balance T who w' = free_balance T who w + min n (res who w)
      \<and> res who w' = res who w - min n (res who w)
      \<and> (\<forall>a. a \<noteq> who \<longrightarrow> free_balance T a w' = free_balance T a w \<and> res a w' = res a w)"
    using assms unfolding currency_laws_def Let_def by blast
  then show "n \<le> res who w \<Longrightarrow> free_balance T who w' = free_balance T who w + n \<and> res who w' = res who w - n"
    by (simp add: min_def)
  show "a \<noteq> who \<Longrightarrow> free_balance T a w' = free_balance T a w \<and> res a w' = res a w" using law by blast
qed

lemma return_deposits_other:
  assumes "currency_laws T res" and "a \<notin> cand_who ` set cs"
  shows "free_balance T a (return_deposits T cs w) = free_balance T a w
    \<and> res a (return_deposits T cs w) = res a w"
  using assms(2)
proof (induction cs arbitrary: w)
  case (Cons c cs)
  then have "a \<noteq> cand_who c" by auto
  with Cons unreserve_law(2) [OF assms(1) refl this, of "cand_deposit c" w] show ?case
    by (simp add: return_deposits_def)
qed (simp add: return_deposits_def)

lemma return_deposits_own:
  assumes "currency_laws T res" and "distinct (map cand_who cs)" and "c \<in> set cs"
    and "cand_deposit c \<le> res (cand_who c) w"
  shows "free_balance T (cand_who c) (return_deposits T cs w) = free_balance T (cand_who c) w + cand_deposit c
    \<and> res (cand_who c) (return_deposits T cs w) = res (cand_who c) w - cand_deposit c"
  using assms(2-4)
proof (induction cs arbitrary: w)
  case (Cons d cs)
  let ?w = "snd (unreserve T (cand_who d) (cand_deposit d) w)"
  have rest: "return_deposits T (d # cs) w = return_deposits T cs ?w" by (simp add: return_deposits_def)
  show ?case
  proof (cases "c = d")
    case True
    then have "cand_who c \<notin> cand_who ` set cs" using Cons.prems(1) by auto
    with True Cons.prems(3) show ?thesis
      unfolding rest by (simp add: return_deposits_other [OF assms(1)] unreserve_law(1) [OF assms(1) refl])
  next
    case False
    then have c: "c \<in> set cs" using Cons.prems(2) by simp
    then have "cand_who c \<noteq> cand_who d" using Cons.prems(1) by (metis distinct.simps(2) image_eqI list.simps(9) set_map)
    note same = unreserve_law(2) [OF assms(1) refl this, of "cand_deposit d" w]
    with Cons.IH [of ?w] Cons.prems c show ?thesis unfolding rest by simp
  qed
qed simp

lemma distinct_map_middle: "distinct (map f (pre @ x # rest)) \<Longrightarrow> distinct (f x # map f (pre @ rest))"
  by auto

section \<open>The deposits stay backed\<close>

lemma backed_call:
  assumes "currency_laws T res" and "collator_dispatch T origin c s = (r, t)"
    and "collator_inv T s" and "backed res s"
  shows "backed res t"
proof (cases r)
  case (Inl e)
  with assms(2,4) show ?thesis unfolding collator_dispatch_def by (metis transactional_atomic)
next
  case (Inr u)
  note ok = assms(2) [unfolded Inr]
  have dist: "distinct (map cand_who (candidates s))" using assms(3) by (simp add: collator_inv_def)
  show ?thesis
  proof (cases c)
    case (SetInvulnerables new)
    obtain e where "set_invulnerables T origin new s =
     (if \<not> update_origin T origin then (Inl (Err BadOrigin), s)
      else if unat (max_invulnerables T) < length new then (Inl (Err (Collator TooManyInvulnerables)), s)
      else if list_all (registered T (world s)) new
      then (Inr None, s\<lparr>invulnerables := new, events := events s @ [collator_event T (NewInvulnerables new)]\<rparr>)
      else (Inl e, s))"
      using set_invulnerables_run by blast
    with ok assms(4) SetInvulnerables show ?thesis
      by (auto simp: collator_dispatch_def call_ok backed_def split: if_splits)
  next
    case (SetDesiredCandidates n)
    with ok assms(4) show ?thesis
      by (auto simp: collator_dispatch_def set_desired_candidates_def call_ok backed_def)
  next
    case (SetCandidacyBond n)
    with ok assms(4) show ?thesis
      by (auto simp: collator_dispatch_def set_candidacy_bond_def call_ok backed_def)
  next
    case RegisterAsCandidate
    with ok have "register_as_candidate T origin s = (Inr u, t)"
      by (simp add: collator_dispatch_def call_ok)
    then show ?thesis
    proof (rule register_OkE)
      fix who w
      assume who: "who \<notin> cand_who ` set (candidates s)"
        and w: "reserve T who (candidacy_bond s) (world s) = (Inr (), w)" and t: "t = after_register T who w s"
      show ?thesis
        using assms(4) who reserve_law [OF assms(1) w]
        by (auto simp: backed_def t after_register_def image_iff)
    qed
  next
    case LeaveIntent
    with ok have "leave_intent T origin s = (Inr u, t)"
      by (simp add: collator_dispatch_def call_ok)
    then show ?thesis
    proof (rule leave_OkE [OF _ dist])
      fix who pre x rest
      assume cs: "candidates s = pre @ x # rest" and t: "t = after_removal T x (pre @ rest) s"
      have "cand_who d \<noteq> cand_who x" if "d \<in> set (pre @ rest)" for d
        using that dist by (metis cs distinct.simps(2) distinct_map_middle image_eqI set_map)
      then show ?thesis
        using assms(4) by (auto simp: backed_def t cs unreserve_law(2) [OF assms(1) refl])
    qed
  qed
qed

lemma backed_session:
  assumes "currency_laws T res" and "new_session T i s = (r, t)" and "collator_inv T s" and "backed res s"
  shows "backed res t"
proof -
  obtain t' where t': "new_session T i s = (Inr (Some (invulnerables s @ map cand_who (kept_candidates T s))), t')"
      "candidates t' = kept_candidates T s" "world t' = return_deposits T (kicked_candidates T s) (world s)"
    using new_session_run [OF assms(3)] by blast
  have dist: "distinct (map cand_who (candidates s))" using assms(3) by (simp add: collator_inv_def)
  have "cand_deposit c \<le> res (cand_who c) (return_deposits T (kicked_candidates T s) (world s))"
    if c: "c \<in> set (kept_candidates T s)" for c
  proof -
    have "cand_who c \<notin> cand_who ` set (kicked_candidates T s)"
    proof
      assume "cand_who c \<in> cand_who ` set (kicked_candidates T s)"
      then obtain d where d: "d \<in> set (kicked_candidates T s)" "cand_who d = cand_who c" by auto
      then have "d \<in> set (candidates s)" "c \<in> set (candidates s)" "d \<notin> set (kept_candidates T s)"
        using c kick_ref_subset [of _ _ _ "candidates s"]
        by (auto simp: kicked_candidates_def kept_candidates_def kick_out_iff [OF dist])
      with d(2) dist c show False by (metis distinct_map inj_onD)
    qed
    moreover have "c \<in> set (candidates s)" using c kick_ref_subset unfolding kept_candidates_def by (rule rev_subsetD)
    ultimately show ?thesis
      using assms(4) return_deposits_other [OF assms(1), of "cand_who c"] by (auto simp: backed_def)
  qed
  moreover have "t = t'" using t'(1) assms(2) by simp
  ultimately show ?thesis by (auto simp: backed_def t'(2,3))
qed

lemma backed_author:
  assumes "transfer_keeps T res" and "note_author T a s = (r, t)" and "backed res s"
  shows "backed res t"
  using assms unfolding transfer_keeps_def
  by (auto simp: note_author_run backed_def split: prod.splits sum.splits fault.splits)

lemma backed_invariant:
  assumes "currency_laws T res" and "transfer_keeps T res" and "backed_reachable T res s"
  shows "backed res s"
  using assms(3)
proof (induction rule: backed_reachable.induct)
  case (start g s0 s)
  then show ?case by (auto simp: genesis_build_def call_ok try_bounded_Some backed_def split: if_splits)
next
  case (step s t)
  note inv = backed_reachable_inv [OF step.hyps(1)]
  from step.hyps(2) show ?case
  proof (rule backed_stepE)
    fix origin c r assume "collator_dispatch T origin c s = (r, t)"
    then show ?thesis using inv step.IH by (rule backed_call [OF assms(1)])
  next
    fix a r assume "note_author T a s = (r, t)"
    then show ?thesis using step.IH by (rule backed_author [OF assms(2)])
  next
    fix i r assume "new_session T i s = (r, t)"
    then show ?thesis using inv step.IH by (rule backed_session [OF assms(1)])
  next
    assume "t = s\<lparr>block_number := block_number s + 1, events := []\<rparr>"
    with step.IH show ?thesis by (simp add: backed_def)
  next
    fix w assume "t = s\<lparr>world := w\<rparr>"
      and "\<And>c. c \<in> set (candidates s) \<Longrightarrow> res (cand_who c) (world s) \<le> res (cand_who c) w"
    with step.IH show ?thesis by (auto simp: backed_def intro: order_trans)
  qed
qed

section \<open>Properties\<close>

lemma kicked_iff:
  assumes "collator_inv T s"
  shows "set (kicked_candidates T s) = set (candidates s) - set (kept_candidates T s)"
    and "distinct (map cand_who (kicked_candidates T s))"
  using assms kick_out_iff [of "candidates s"] distinct_kick_out [of "candidates s"]
  by (auto simp: collator_inv_def kicked_candidates_def kept_candidates_def)

text \<open>
  C12. The deposits are backed: whatever calls, hooks and blocks have happened, next to
  pallets that leave the candidates' reserves alone, every candidate's account holds at
  least its deposit in reserve, though the bond may have changed since it registered.
\<close>

theorem deposits_backed:
  assumes "currency_laws T res" and "transfer_keeps T res" and "backed_reachable T res s"
  shows "\<forall>c \<in> set (candidates s). cand_deposit c \<le> res (cand_who c) (world s)"
  using backed_invariant [OF assms] by (simp add: backed_def)

text \<open>
  C21. Hence nobody loses a deposit: a candidate that leaves, and every candidate a session
  removes, has the whole deposit moved from the reserved to the free balance, and a
  session changes no balance of anybody else.
\<close>

theorem deposits_given_back:
  assumes "currency_laws T res" and "transfer_keeps T res" and "backed_reachable T res s"
    and "new_session T i s = (r, t)"
  shows "(\<forall>c \<in> set (candidates s) - set (candidates t).
        free_balance T (cand_who c) (world t) = free_balance T (cand_who c) (world s) + cand_deposit c
        \<and> res (cand_who c) (world t) = res (cand_who c) (world s) - cand_deposit c)
    \<and> (\<forall>a. a \<notin> cand_who ` (set (candidates s) - set (candidates t)) \<longrightarrow>
        free_balance T a (world t) = free_balance T a (world s) \<and> res a (world t) = res a (world s))
    \<and> (\<forall>c \<in> set (candidates s). \<forall>x u. collator_dispatch T (Signed (cand_who c)) LeaveIntent s = (Inr x, u) \<longrightarrow>
        free_balance T (cand_who c) (world u) = free_balance T (cand_who c) (world s) + cand_deposit c
        \<and> res (cand_who c) (world u) = res (cand_who c) (world s) - cand_deposit c)"
proof -
  note inv = backed_reachable_inv [OF assms(3)] and backed = backed_invariant [OF assms(1-3)]
  have dist: "distinct (map cand_who (candidates s))" using inv by (simp add: collator_inv_def)
  have t: "candidates t = kept_candidates T s" "world t = return_deposits T (kicked_candidates T s) (world s)"
    using new_session_run [OF inv, of i] assms(4) by auto
  have out: "set (candidates s) - set (candidates t) = set (kicked_candidates T s)"
    by (simp add: t kicked_iff(1) [OF inv])
  have "free_balance T (cand_who c) (world u) = free_balance T (cand_who c) (world s) + cand_deposit c
      \<and> res (cand_who c) (world u) = res (cand_who c) (world s) - cand_deposit c"
    if c: "c \<in> set (candidates s)" and ok: "collator_dispatch T (Signed (cand_who c)) LeaveIntent s = (Inr x, u)" for c x u
  proof -
    have "leave_intent T (Signed (cand_who c)) s = (Inr x, u)"
      using ok by (simp add: collator_dispatch_def call_ok)
    then obtain pre d rest where "candidates s = pre @ d # rest" "cand_who d = cand_who c"
        "u = after_removal T d (pre @ rest) s"
      by (rule leave_OkE [OF _ dist]) auto
    moreover from this(1,2) c dist have "d = c" by (metis distinct_map in_set_conv_decomp inj_onD)
    ultimately show ?thesis
      using backed c by (simp add: backed_def unreserve_law(1) [OF assms(1) refl])
  qed
  then show ?thesis
    unfolding out t(2) using backed inv
    by (auto simp: backed_def kicked_iff(1) [OF inv] return_deposits_own [OF assms(1) kicked_iff(2) [OF inv]]
        return_deposits_other [OF assms(1)])
qed

subsection \<open>A concrete run\<close>

lemma demo_transfer_keeps: "transfer_keeps demo_collators (\<lambda>a w. snd (w a))"
  unfolding transfer_keeps_def demo_collators_def
  by (auto simp: demo_transfer_def split: if_splits)

lemma backed_after_call:
  "backed_reachable T res s \<Longrightarrow> backed_reachable T res (snd (collator_dispatch T origin c s))"
  by (erule backed_reachable.step) (rule backed_step.call [OF prod.collapse [symmetric]])

lemma demo_two_backed: "backed_reachable demo_collators (\<lambda>a w. snd (w a)) demo_two"
proof -
  have "genesis_build demo_collators \<lparr>g_invulnerables = [1], g_candidacy_bond = 10, g_desired_candidates = 3\<rparr>
      (demo_start\<lparr>invulnerables := [], desired_candidates := 0, candidacy_bond := 0\<rparr>) =
      (Inr () :: dispatch_error fault + unit, demo_start)"
    by (simp add: genesis_build_def call_simps try_bounded_def demo_collators_def demo_start_def)
  then have "backed_reachable demo_collators (\<lambda>a w. snd (w a)) demo_start"
    by (rule backed_reachable.start) (simp add: demo_start_def)
  then show ?thesis unfolding demo_two_def by (intro backed_after_call)
qed

text \<open>The same two candidates when twenty blocks have passed without one of theirs.\<close>

definition demo_idle :: "(nat collator_event, nat, ledger) collator_state" where
  "demo_idle = ((\<lambda>s. s\<lparr>block_number := block_number s + 1, events := []\<rparr>) ^^ 20) demo_two"

lemma demo_idle_eq:
  "candidates demo_idle = candidates demo_two" "world demo_idle = world demo_two"
  "block_number demo_idle = 25" "last_authored_block demo_idle = last_authored_block demo_two"
proof -
  let ?f = "\<lambda>s :: (nat collator_event, nat, ledger) collator_state. s\<lparr>block_number := block_number s + 1, events := []\<rparr>"
  have "candidates ((?f ^^ n) s) = candidates s \<and> world ((?f ^^ n) s) = world s
      \<and> block_number ((?f ^^ n) s) = block_number s + of_nat n
      \<and> last_authored_block ((?f ^^ n) s) = last_authored_block s" for n s
    by (induction n) simp_all
  from this [of 20 demo_two] show
    "candidates demo_idle = candidates demo_two" "world demo_idle = world demo_two"
    "block_number demo_idle = 25" "last_authored_block demo_idle = last_authored_block demo_two"
    by (simp_all add: demo_idle_def demo_two_eq(3))
qed

lemma demo_idle_backed: "backed_reachable demo_collators (\<lambda>a w. snd (w a)) demo_idle"
proof -
  have "backed_reachable demo_collators (\<lambda>a w. snd (w a))
      (((\<lambda>s. s\<lparr>block_number := block_number s + 1, events := []\<rparr>) ^^ n) demo_two)" for n
    by (induction n) (simp_all add: demo_two_backed backed_reachable.step [OF _ backed_step.block])
  then show ?thesis by (simp only: demo_idle_def)
qed

theorem deposits_backed_witness:
  "candidates demo_two = [\<lparr>cand_who = 2, cand_deposit = 10\<rparr>, \<lparr>cand_who = 3, cand_deposit = 10\<rparr>]
    \<and> 10 \<le> snd (world demo_two 2) \<and> 10 \<le> snd (world demo_two 3)"
  using deposits_backed [OF demo_laws demo_transfer_keeps demo_two_backed] by (simp add: demo_two_eq)

theorem deposits_given_back_witness:
  "\<exists>r t. new_session demo_collators 7 demo_idle = (r, t) \<and> map cand_who (candidates t) = [3]
    \<and> fst (world t 2) = 100 \<and> fst (world demo_idle 2) = 90"
proof -
  obtain r t where t: "new_session demo_collators 7 demo_idle = (r, t)" by fastforce
  have "world demo_two = (\<lambda>_. (100, 0))(2 := (90, 10), 3 := (90, 10))"
    by (simp add: demo_two_def collator_dispatch_def register_run transactional_def after_register_def
      demo_collators_def demo_start_def identity_collator_def demo_reserve_def)
  note idle' = demo_idle_eq [unfolded demo_two_eq this]
  have vals: "kick_threshold demo_collators = 10" "min_candidates demo_collators = 1"
      "free_balance demo_collators = (\<lambda>a w. fst (w a))"
    by (simp_all add: demo_collators_def)
  have "candidates t = kept_candidates demo_collators demo_idle"
    using new_session_run [OF backed_reachable_inv [OF demo_idle_backed], of 7] t by auto
  then have kept: "candidates t = [\<lparr>cand_who = 3, cand_deposit = 10\<rparr>]"
    by (simp add: kept_candidates_def stale_in_def last_block_of_def idle' vals saturating_sub_def)
  have "\<lparr>cand_who = 2, cand_deposit = 10\<rparr> \<in> set (candidates demo_idle) - set (candidates t)"
    by (simp add: kept idle')
  from bspec [OF conjunct1 [OF deposits_given_back [OF demo_laws demo_transfer_keeps demo_idle_backed t]] this]
  have "fst (world t 2) = 100" by (simp add: vals idle')
  with t kept show ?thesis by (intro exI [of _ r] exI [of _ t]) (simp add: idle')
qed

end
