(* ===== verification/Collator_Weights.thy ===== *)
theory Collator_Weights
  imports Collator_Properties
begin

text \<open>
  The weights the calls of the collator-selection pallet declare in their
  \<open>#[pallet::weight]\<close> attributes, before they run, and what is charged after: a call that
  returns a weight is charged that one. Both implementations of \<open>WeightInfo\<close> grow with
  their argument, so no call turns out dearer than it declared.
\<close>

section \<open>Declared and charged\<close>

definition set_invulnerables_declares :: "('ev, 'acc, 'vid, 'w, 'x) collator_config_scheme \<Rightarrow> 'acc list \<Rightarrow> weight" where
  "set_invulnerables_declares T new = w_set_invulnerables (weight_info T) (of_nat (length new))"

definition set_desired_candidates_declares :: "('ev, 'acc, 'vid, 'w, 'x) collator_config_scheme \<Rightarrow> weight" where
  "set_desired_candidates_declares T = w_set_desired_candidates (weight_info T)"

definition set_candidacy_bond_declares :: "('ev, 'acc, 'vid, 'w, 'x) collator_config_scheme \<Rightarrow> weight" where
  "set_candidacy_bond_declares T = w_set_candidacy_bond (weight_info T)"

definition register_as_candidate_declares :: "('ev, 'acc, 'vid, 'w, 'x) collator_config_scheme \<Rightarrow> weight" where
  "register_as_candidate_declares T = w_register_as_candidate (weight_info T) (max_candidates T)"

definition leave_intent_declares :: "('ev, 'acc, 'vid, 'w, 'x) collator_config_scheme \<Rightarrow> weight" where
  "leave_intent_declares T = w_leave_intent (weight_info T) (max_candidates T)"

fun declared_weight ::
    "('ev, 'acc, 'vid, 'w, 'x) collator_config_scheme \<Rightarrow> 'acc collator_call \<Rightarrow> weight" where
  "declared_weight T (SetInvulnerables new) = set_invulnerables_declares T new"
| "declared_weight T (SetDesiredCandidates _) = set_desired_candidates_declares T"
| "declared_weight T (SetCandidacyBond _) = set_candidacy_bond_declares T"
| "declared_weight T RegisterAsCandidate = register_as_candidate_declares T"
| "declared_weight T LeaveIntent = leave_intent_declares T"

definition weight_le :: "weight \<Rightarrow> weight \<Rightarrow> bool" where
  "weight_le a b \<longleftrightarrow> ref_time a \<le> ref_time b \<and> proof_size a \<le> proof_size b"

lemma weight_le_refl [simp]: "weight_le a a"
  by (simp add: weight_le_def)

lemma cap64_mono: "m \<le> n \<Longrightarrow> cap64 m \<le> cap64 n"
  by (simp add: cap64_def min_def)

lemma weight_add_mono: "weight_le a b \<Longrightarrow> weight_le (weight_add a c) (weight_add b c)"
  unfolding weight_le_def weight_add_def word_le_nat_alt
  by (simp add: unat_sat64 cap64_mono)

lemma weight_add_mono_right: "weight_le a b \<Longrightarrow> weight_le (weight_add c a) (weight_add c b)"
  unfolding weight_le_def weight_add_def word_le_nat_alt
  by (simp add: unat_sat64 cap64_mono)

lemma weight_mul_mono: "m \<le> n \<Longrightarrow> weight_le (weight_mul a m) (weight_mul a n)"
  unfolding weight_le_def weight_mul_def word_le_nat_alt
  by (simp add: unat_sat64 cap64_mono)

lemma ucast_mono: "c \<le> d \<Longrightarrow> (ucast (c :: u32) :: u64) \<le> ucast d"
  by (simp add: word_le_nat_alt unat_ucast_u32)

text \<open>What the pallet relies on in an implementation of \<open>WeightInfo\<close>, and both keep it.\<close>

definition weights_grow :: "collator_weight_info \<Rightarrow> bool" where
  "weights_grow W \<longleftrightarrow> (\<forall>c d. c \<le> d \<longrightarrow> weight_le (w_register_as_candidate W c) (w_register_as_candidate W d)
     \<and> weight_le (w_leave_intent W c) (w_leave_intent W d))"

lemma implementations_grow:
  "weights_grow (substrate_collator_weight db)" "weights_grow (unit_collator_weight db)"
  unfolding weights_grow_def substrate_collator_weight_def unit_collator_weight_def
  by (simp_all add: weight_add_mono weight_add_mono_right weight_mul_mono ucast_mono)

section \<open>No call is dearer than declared\<close>

text \<open>A number of candidates within the bound, as the code counts it.\<close>

lemma of_nat_le_max:
  assumes "n \<le> unat (max_candidates T)"
  shows "of_nat n \<le> max_candidates T"
proof -
  have "n < 2 ^ LENGTH(32)" using assms unsigned_less [of "max_candidates T", where 'a = nat] by linarith
  then have "unat (of_nat n :: u32) = n" by (simp only: unsigned_of_nat of_nat_id take_bit_nat_eq_self)
  with assms show ?thesis by (simp add: word_le_nat_alt)
qed

definition charged_weight ::
    "('ev, 'acc, 'vid, 'w, 'x) collator_config_scheme \<Rightarrow> 'acc collator_call \<Rightarrow> weight option \<Rightarrow> weight" where
  "charged_weight T k returned = (case returned of None \<Rightarrow> declared_weight T k | Some w \<Rightarrow> w)"

lemma returned_weight:
  assumes "collator_inv T s" and "collator_dispatch T origin k s = (Inr returned, t)"
  shows "returned = (case k of
      RegisterAsCandidate \<Rightarrow> Some (w_register_as_candidate (weight_info T) (of_nat (length (candidates t))))
    | LeaveIntent \<Rightarrow> Some (w_leave_intent (weight_info T) (of_nat (length (candidates t))))
    | _ \<Rightarrow> None)"
proof (cases k)
  case (SetInvulnerables new)
  with assms(2) show ?thesis by (auto simp: collator_dispatch_def set_invulnerables_def call_ok)
next
  case (SetDesiredCandidates n)
  with assms(2) show ?thesis by (auto simp: collator_dispatch_def set_desired_candidates_def call_ok)
next
  case (SetCandidacyBond n)
  with assms(2) show ?thesis by (auto simp: collator_dispatch_def set_candidacy_bond_def call_ok)
next
  case RegisterAsCandidate
  with assms(2) have ok: "register_as_candidate T origin s = (Inr returned, t)"
    by (simp add: collator_dispatch_def call_ok)
  then show ?thesis
    using register_unsigned [of origin T s] RegisterAsCandidate
    by (cases origin)
      (auto simp: register_run after_register_def split: if_splits option.splits prod.splits sum.splits)
next
  case LeaveIntent
  with assms(2) have ok: "leave_intent T origin s = (Inr returned, t)"
    by (simp add: collator_dispatch_def call_ok)
  have "distinct (map cand_who (candidates s))" using assms(1) by (simp add: collator_inv_def)
  then have "try_remove_candidate T who s = (Inr n, u) \<Longrightarrow> n = length (candidates u)" for who n u
    by (cases rule: try_remove_cases [of s who T]) auto
  with ok leave_unsigned [of origin T s] LeaveIntent show ?thesis
    by (cases origin) (auto simp: leave_run split: if_splits prod.splits sum.splits)
qed

text \<open>
  C28. No call of the pallet turns out dearer than it declares before it runs, with either
  implementation of the weights: joining and leaving declare the weight for the largest
  number of candidates and are charged the one for the number they leave; the calls of
  the root origin are charged what they declare.
\<close>

theorem charged_within_declared:
  assumes "collator_reachable T s" and "weight_info T \<in> {substrate_collator_weight db, unit_collator_weight db}"
    and "collator_dispatch T origin k s = (Inr returned, t)"
  shows "weight_le (charged_weight T k returned) (declared_weight T k)
    \<and> (case k of
        RegisterAsCandidate \<Rightarrow> charged_weight T k returned
          = w_register_as_candidate (weight_info T) (of_nat (length (candidates t)))
      | LeaveIntent \<Rightarrow> charged_weight T k returned = w_leave_intent (weight_info T) (of_nat (length (candidates t)))
      | _ \<Rightarrow> charged_weight T k returned = declared_weight T k)"
proof -
  have inv: "collator_inv T s" by (rule collator_reachable_inv [OF assms(1)])
  have "collator_inv T t" by (rule collator_inv_call [OF assms(3) inv])
  then have "(of_nat (length (candidates t)) :: u32) \<le> max_candidates T"
    by (intro of_nat_le_max) (simp add: collator_inv_def)
  moreover have "weights_grow (weight_info T)" using assms(2) implementations_grow by auto
  ultimately show ?thesis
    by (cases k) (simp_all add: charged_weight_def returned_weight [OF inv assms(3)] weights_grow_def
        register_as_candidate_declares_def leave_intent_declares_def)
qed

theorem charged_within_declared_witness:
  "\<exists>returned t. collator_dispatch demo_collators (Signed 9) RegisterAsCandidate demo_start = (Inr returned, t)
     \<and> weight_le (charged_weight demo_collators (RegisterAsCandidate :: nat collator_call) returned)
         (w_register_as_candidate (unit_collator_weight (rocks_db_weight 1000)) 3)"
proof -
  have W: "weight_info demo_collators
      \<in> {substrate_collator_weight (rocks_db_weight 1000), unit_collator_weight (rocks_db_weight 1000)}"
    by (simp add: demo_collators_def)
  have "\<exists>returned t. collator_dispatch demo_collators (Signed 9) RegisterAsCandidate demo_start = (Inr returned, t)"
    by (simp add: collator_dispatch_def register_run transactional_def after_register_def
        demo_collators_def demo_start_def identity_collator_def demo_reserve_def)
  then obtain returned t where
    ok: "collator_dispatch demo_collators (Signed 9) RegisterAsCandidate demo_start = (Inr returned, t)"
    by blast
  from charged_within_declared [OF demo_start_reachable W this] have
    "weight_le (charged_weight demo_collators (RegisterAsCandidate :: nat collator_call) returned)
      (declared_weight demo_collators (RegisterAsCandidate :: nat collator_call))"
    by blast
  with ok show ?thesis by (intro exI [of _ returned] exI [of _ t]) (simp add: demo_collators_def register_as_candidate_declares_def)
qed

section \<open>The desired number\<close>

text \<open>
  The comment at \<open>set_desired_candidates\<close>: apart from lowering the number, nothing makes the
  candidates more than desired.
\<close>

lemma candidates_within_desired:
  assumes "collator_dispatch T origin k s = (r, t)" and "collator_inv T s"
    and "length (candidates s) \<le> unat (desired_candidates s)"
    and "\<And>n. k = SetDesiredCandidates n \<Longrightarrow> length (candidates s) \<le> unat n"
  shows "length (candidates t) \<le> unat (desired_candidates t)"
proof (cases r)
  case (Inl e)
  with assms show ?thesis unfolding collator_dispatch_def by (metis transactional_atomic)
next
  case (Inr u)
  note ok = assms(1) [unfolded Inr]
  show ?thesis
  proof (cases k)
    case RegisterAsCandidate
    with ok have "register_as_candidate T origin s = (Inr u, t)" by (simp add: collator_dispatch_def call_ok)
    then show ?thesis
    proof (rule register_OkE)
      fix who w
      assume below: "of_nat (length (candidates s)) < desired_candidates s" and t: "t = after_register T who w s"
      have "unat (of_nat (length (candidates s)) :: u32) = length (candidates s)"
        using collator_inv_length [OF assms(2)] by (simp add: unsigned_of_nat take_bit_nat_eq_self)
      with below t show ?thesis by (simp add: after_register_def word_less_nat_alt)
    qed
  next
    case LeaveIntent
    with ok have "leave_intent T origin s = (Inr u, t)" by (simp add: collator_dispatch_def call_ok)
    then show ?thesis
    proof (rule leave_OkE)
      show "distinct (map cand_who (candidates s))" using assms(2) by (simp add: collator_inv_def)
    qed (use assms(3) in simp)
  qed (use ok assms(3,4) in \<open>auto simp: collator_dispatch_def set_invulnerables_def
      set_desired_candidates_def set_candidacy_bond_def call_ok ensure_registered_run
      dest: ensure_registered_all split: option.splits if_splits\<close>)
qed

end
