(* ===== verification/Collator_Bench.thy ===== *)
theory Collator_Bench
  imports Collator_Session Test_Harness
begin

text \<open>
  The benchmarks of the collator-selection pallet
  (\<open>src/pallets/collator-selection/src/benchmarking.rs\<close>) as calls: each sets a storage
  up, runs one operation of the pallet and verifies what it left. The accounts and keys
  the benchmarking crate generates, the currency's \<open>make_free_balance_be\<close>, the session
  pallet's \<open>set_keys\<close> and the successful origin are fields of \<open>bench_ops\<close>;
  \<open>bench_laws\<close> states what those pallets document, for observers of the reserved balance
  and of the session keys in use. \<open>whitelist!\<close> only tells the benchmarking tool which
  storage accesses not to count, and is left out.
\<close>

section \<open>The environment of a benchmark\<close>

record ('acc, 'w, 'keys) bench_ops =
  account_of :: "string \<Rightarrow> u32 \<Rightarrow> 'acc"
  whitelisted_caller :: 'acc
  make_free_balance_be :: "'acc \<Rightarrow> u128 \<Rightarrow> 'w \<Rightarrow> 'w"
  bench_keys :: "u32 \<Rightarrow> 'keys"
  session_set_keys :: "'acc \<Rightarrow> 'keys \<Rightarrow> (dispatch_error, 'w, unit) call"
  try_successful_origin :: "'acc origin option"

datatype bench_error = Weightless | DispatchFailed dispatch_error

definition set_free ::
    "('acc, 'w, 'keys) bench_ops \<Rightarrow> 'acc \<Rightarrow> u128 \<Rightarrow> ('e, ('ev, 'acc, 'w) collator_state, unit) call" where
  "set_free B who n = modify (\<lambda>s. s\<lparr>world := make_free_balance_be B who n (world s)\<rparr>)"

definition unwrap :: "('e, 's, 'a) call \<Rightarrow> ('f, 's, 'a) call" where
  "unwrap m = seq (attempt m) (\<lambda>r. case r of Inl _ \<Rightarrow> panic | Inr a \<Rightarrow> ret a)"

definition assert_last_event :: "'ev \<Rightarrow> ('e, ('ev, 'm) system_state_scheme, unit) call" where
  "assert_last_event ev = assert_that (\<lambda>s. events s \<noteq> [] \<and> last (events s) = ev)"

definition create_funded_user ::
    "('ev, 'acc, 'vid, 'w, 'x) collator_config_scheme \<Rightarrow> ('acc, 'w, 'keys) bench_ops \<Rightarrow> string \<Rightarrow> u32 \<Rightarrow> u32 \<Rightarrow>
     (bench_error, ('ev, 'acc, 'w) collator_state, 'acc) call" where
  "create_funded_user T B str n balance_factor =
     (let user = account_of B str n; balance = minimum_balance T * ucast balance_factor in
      seq (set_free B user balance) (\<lambda>_. ret user))"

definition bench_validator ::
    "('ev, 'acc, 'vid, 'w, 'x) collator_config_scheme \<Rightarrow> ('acc, 'w, 'keys) bench_ops \<Rightarrow> u32 \<Rightarrow>
     (bench_error, ('ev, 'acc, 'w) collator_state, 'acc \<times> 'keys) call" where
  "bench_validator T B c =
     seq (create_funded_user T B ''candidate'' c 1000) (\<lambda>user. ret (user, bench_keys B c))"

fun map_calls :: "('x \<Rightarrow> ('e, 's, 'y) call) \<Rightarrow> 'x list \<Rightarrow> ('e, 's, 'y list) call" where
  "map_calls f [] = ret []"
| "map_calls f (x # xs) = seq (f x) (\<lambda>y. seq (map_calls f xs) (\<lambda>ys. ret (y # ys)))"

abbreviation set_key ::
    "('acc, 'w, 'keys) bench_ops \<Rightarrow> 'acc \<times> 'keys \<Rightarrow> (bench_error, ('ev, 'acc, 'w) collator_state, unit) call" where
  "set_key B \<equiv> \<lambda>(who, keys). unwrap (on_world (session_set_keys B who keys))"

definition register_validators ::
    "('ev, 'acc, 'vid, 'w, 'x) collator_config_scheme \<Rightarrow> ('acc, 'w, 'keys) bench_ops \<Rightarrow> u32 \<Rightarrow>
     (bench_error, ('ev, 'acc, 'w) collator_state, 'acc list) call" where
  "register_validators T B count =
     seq (map_calls (bench_validator T B) (word_range 0 count)) (\<lambda>validators.
     seq (for_each validators (set_key B)) (\<lambda>_.
     ret (map fst validators)))"

definition add_candidate ::
    "('ev, 'acc, 'vid, 'w, 'x) collator_config_scheme \<Rightarrow> ('acc, 'w, 'keys) bench_ops \<Rightarrow> 'acc \<Rightarrow>
     (bench_error, ('ev, 'acc, 'w) collator_state, unit) call" where
  "add_candidate T B who =
     seq (gets candidacy_bond) (\<lambda>bond.
     seq (set_free B who (bond * 2)) (\<lambda>_.
     seq (unwrap (register_as_candidate T (Signed who))) (\<lambda>_. ret ())))"

definition register_candidates ::
    "('ev, 'acc, 'vid, 'w, 'x) collator_config_scheme \<Rightarrow> ('acc, 'w, 'keys) bench_ops \<Rightarrow> u32 \<Rightarrow>
     (bench_error, ('ev, 'acc, 'w) collator_state, unit) call" where
  "register_candidates T B count =
     (let accounts = map (account_of B ''candidate'') (word_range 0 count) in
      seq (assert_that (\<lambda>s. 0 < candidacy_bond s)) (\<lambda>_.
      for_each accounts (add_candidate T B)))"

section \<open>The benchmarks\<close>

definition bench_set_invulnerables ::
    "('ev, 'acc, 'vid, 'w, 'x) collator_config_scheme \<Rightarrow> ('acc, 'w, 'keys) bench_ops \<Rightarrow> u32 \<Rightarrow>
     (bench_error, ('ev, 'acc, 'w) collator_state, unit) call" where
  "bench_set_invulnerables T B b =
     seq (register_validators T B b) (\<lambda>new_invulnerables.
     seq (ok_or (try_successful_origin B) Weightless) (\<lambda>origin.
     seq (assert_ok (set_invulnerables T origin new_invulnerables)) (\<lambda>_.
     assert_last_event (collator_event T (NewInvulnerables new_invulnerables)))))"

definition bench_set_desired_candidates ::
    "('ev, 'acc, 'vid, 'w, 'x) collator_config_scheme \<Rightarrow> ('acc, 'w, 'keys) bench_ops \<Rightarrow>
     (bench_error, ('ev, 'acc, 'w) collator_state, unit) call" where
  "bench_set_desired_candidates T B =
     (let max = 999 in
      seq (ok_or (try_successful_origin B) Weightless) (\<lambda>origin.
      seq (assert_ok (set_desired_candidates T origin max)) (\<lambda>_.
      assert_last_event (collator_event T (NewDesiredCandidates max)))))"

definition bench_set_candidacy_bond ::
    "('ev, 'acc, 'vid, 'w, 'x) collator_config_scheme \<Rightarrow> ('acc, 'w, 'keys) bench_ops \<Rightarrow>
     (bench_error, ('ev, 'acc, 'w) collator_state, unit) call" where
  "bench_set_candidacy_bond T B =
     (let bond_amount = minimum_balance T * 10 in
      seq (ok_or (try_successful_origin B) Weightless) (\<lambda>origin.
      seq (assert_ok (set_candidacy_bond T origin bond_amount)) (\<lambda>_.
      assert_last_event (collator_event T (NewCandidacyBond bond_amount)))))"

definition bench_register_as_candidate ::
    "('ev, 'acc, 'vid, 'w, 'x) collator_config_scheme \<Rightarrow> ('acc, 'w, 'keys) bench_ops \<Rightarrow> u32 \<Rightarrow>
     (bench_error, ('ev, 'acc, 'w) collator_state, unit) call" where
  "bench_register_as_candidate T B c =
     seq (modify (\<lambda>s. s\<lparr>candidacy_bond := minimum_balance T\<rparr>)) (\<lambda>_.
     seq (modify (\<lambda>s. s\<lparr>desired_candidates := c + 1\<rparr>)) (\<lambda>_.
     seq (register_validators T B c) (\<lambda>_.
     seq (register_candidates T B c) (\<lambda>_.
     let caller = whitelisted_caller B; bond = minimum_balance T * 2 in
     seq (set_free B caller bond) (\<lambda>_.
     seq (unwrap (on_world (session_set_keys B caller (bench_keys B (c + 1))))) (\<lambda>_.
     seq (map_err DispatchFailed (collator_dispatch T (Signed caller) RegisterAsCandidate)) (\<lambda>_.
     assert_last_event (collator_event T (CandidateAdded caller (bond div 2))))))))))"

definition bench_leave_intent ::
    "('ev, 'acc, 'vid, 'w, 'x) collator_config_scheme \<Rightarrow> ('acc, 'w, 'keys) bench_ops \<Rightarrow> u32 \<Rightarrow>
     (bench_error, ('ev, 'acc, 'w) collator_state, unit) call" where
  "bench_leave_intent T B c =
     seq (modify (\<lambda>s. s\<lparr>candidacy_bond := minimum_balance T\<rparr>)) (\<lambda>_.
     seq (modify (\<lambda>s. s\<lparr>desired_candidates := c\<rparr>)) (\<lambda>_.
     seq (register_validators T B c) (\<lambda>_.
     seq (register_candidates T B c) (\<lambda>_.
     seq (gets (\<lambda>s. if candidates s = [] then None else Some (last (candidates s)))) (\<lambda>o_last.
     seq (expect o_last) (\<lambda>last_candidate.
     let leaving = cand_who last_candidate in
     seq (map_err DispatchFailed (collator_dispatch T (Signed leaving) LeaveIntent)) (\<lambda>_.
     assert_last_event (collator_event T (CandidateRemoved leaving)))))))))"

definition bench_note_author ::
    "('ev, 'acc, 'vid, 'w, 'x) collator_config_scheme \<Rightarrow> ('acc, 'w, 'keys) bench_ops \<Rightarrow>
     (bench_error, ('ev, 'acc, 'w) collator_state, unit) call" where
  "bench_note_author T B =
     seq (modify (\<lambda>s. s\<lparr>candidacy_bond := minimum_balance T\<rparr>)) (\<lambda>_.
     seq (set_free B (pot_account T) (minimum_balance T * 4)) (\<lambda>_.
     let author = account_of B ''author'' 0; new_block = 10 in
     seq (modify (\<lambda>s. s\<lparr>block_number := new_block\<rparr>)) (\<lambda>_.
     seq (assert_that (\<lambda>s. free_balance T author (world s) = 0)) (\<lambda>_.
     seq (map_err DispatchFailed (note_author T author)) (\<lambda>_.
     seq (assert_that (\<lambda>s. 0 < free_balance T author (world s))) (\<lambda>_.
     assert_that (\<lambda>s. block_number s = new_block)))))))"

text \<open>The indexing of the candidates panics out of bounds.\<close>

definition set_last_authored ::
    "'acc candidate_info list \<Rightarrow> u32 \<Rightarrow> u32 \<Rightarrow> (bench_error, ('ev, 'acc, 'w) collator_state, unit) call" where
  "set_last_authored cs n i =
     seq (expect (if unat i < length cs then Some (cs ! unat i) else None)) (\<lambda>c.
     modify (\<lambda>s. s\<lparr>last_authored_block := (last_authored_block s)(cand_who c \<mapsto> n)\<rparr>))"

definition bench_new_session ::
    "('ev, 'acc, 'vid, 'w, 'x) collator_config_scheme \<Rightarrow> ('acc, 'w, 'keys) bench_ops \<Rightarrow> u32 \<Rightarrow> u32 \<Rightarrow>
     (bench_error, ('ev, 'acc, 'w) collator_state, unit) call" where
  "bench_new_session T B r c =
     seq (modify (\<lambda>s. s\<lparr>candidacy_bond := minimum_balance T\<rparr>)) (\<lambda>_.
     seq (modify (\<lambda>s. s\<lparr>desired_candidates := c\<rparr>)) (\<lambda>_.
     seq (modify (\<lambda>s. s\<lparr>block_number := 0\<rparr>)) (\<lambda>_.
     seq (register_validators T B c) (\<lambda>_.
     seq (register_candidates T B c) (\<lambda>_.
     let new_block = 1800; zero_block = 0 in
     seq (gets candidates) (\<lambda>cs.
     let non_removals = saturating_sub c r in
     seq (for_each (word_range 0 c) (set_last_authored cs zero_block)) (\<lambda>_.
     seq (if 0 < non_removals then for_each (word_range 0 non_removals) (set_last_authored cs new_block)
          else for_each (word_range 0 c) (set_last_authored cs new_block)) (\<lambda>_.
     seq (gets (\<lambda>s. length (candidates s))) (\<lambda>pre_length.
     seq (modify (\<lambda>s. s\<lparr>block_number := new_block\<rparr>)) (\<lambda>_.
     seq (assert_that (\<lambda>s. length (candidates s) = unat c)) (\<lambda>_.
     seq (map_err DispatchFailed (new_session T 0)) (\<lambda>_.
     assert_that (\<lambda>s.
       if r < c \<and> min_candidates T \<le> non_removals then length (candidates s) < pre_length
       else if r < c \<and> non_removals < min_candidates T then length (candidates s) = unat (min_candidates T)
       else length (candidates s) = pre_length)))))))))))))"

section \<open>What the environment documents\<close>

text \<open>
  \<open>used w\<close> is the set of session keys in use, \<open>reserved a w\<close> the reserved balance of an
  account. Setting a balance replaces the free part; a reservation succeeds if the
  account keeps the minimum balance; a session key that is not in use can be set by an
  account that exists, and registers it.
\<close>

definition bench_laws ::
    "('ev, 'acc, 'vid, 'w, 'x) collator_config_scheme \<Rightarrow> ('acc, 'w, 'keys) bench_ops \<Rightarrow>
     ('w \<Rightarrow> 'keys set) \<Rightarrow> ('acc \<Rightarrow> 'w \<Rightarrow> u128) \<Rightarrow> bool" where
  "bench_laws T B used reserved \<longleftrightarrow>
     (\<forall>a n w. minimum_balance T \<le> n \<longrightarrow>
        free_balance T a (make_free_balance_be B a n w) = n)
     \<and> (\<forall>a n w x. x \<noteq> a \<longrightarrow>
        free_balance T x (make_free_balance_be B a n w) = free_balance T x w)
     \<and> (\<forall>a n w x. reserved x (make_free_balance_be B a n w) = reserved x w
        \<and> registered T (make_free_balance_be B a n w) x = registered T w x
        \<and> used (make_free_balance_be B a n w) = used w)
     \<and> (\<forall>a n w. unat n + unat (minimum_balance T) \<le> unat (free_balance T a w) \<and> reserved a w = 0 \<longrightarrow>
        (\<exists>w'. reserve T a n w = (Inr (), w')
          \<and> (\<forall>x. x \<noteq> a \<longrightarrow> reserved x w' = reserved x w)
          \<and> (\<forall>x. registered T w' x = registered T w x) \<and> used w' = used w))
     \<and> (\<forall>a k w. k \<notin> used w \<and> minimum_balance T \<le> free_balance T a w \<longrightarrow>
        (\<exists>w'. session_set_keys B a k w = (Inr (), w')
          \<and> used w' = insert k (used w)
          \<and> (\<forall>x. registered T w' x \<longleftrightarrow> x = a \<or> registered T w x)
          \<and> (\<forall>x. reserved x w' = reserved x w \<and> free_balance T x w' = free_balance T x w)))"

text \<open>The storage and the environment a benchmark starts in.\<close>

definition bench_start ::
    "('ev, 'acc, 'vid, 'w, 'x) collator_config_scheme \<Rightarrow> ('acc, 'w, 'keys) bench_ops \<Rightarrow>
     ('w \<Rightarrow> 'keys set) \<Rightarrow> ('acc \<Rightarrow> 'w \<Rightarrow> u128) \<Rightarrow> ('ev, 'acc, 'w) collator_state \<Rightarrow> bool" where
  "bench_start T B used reserved s \<longleftrightarrow>
     bench_laws T B used reserved
     \<and> inj (account_of B ''candidate'') \<and> inj (bench_keys B)
     \<and> whitelisted_caller B \<notin> range (account_of B ''candidate'')
     \<and> 0 < minimum_balance T \<and> unat (minimum_balance T) * 1000 < 2 ^ 128
     \<and> candidates s = [] \<and> used (world s) = {} \<and> (\<forall>a. reserved a (world s) = 0)
     \<and> set (invulnerables s) \<inter> insert (whitelisted_caller B) (range (account_of B ''candidate'')) = {}
     \<and> length (invulnerables s) \<le> unat (max_invulnerables T)
     \<and> try_successful_origin B \<noteq> None \<and> update_origin T (the (try_successful_origin B))"

lemma bench_laws_balance:
  assumes "bench_laws T B used reserved"
  shows "minimum_balance T \<le> n \<Longrightarrow> free_balance T a (make_free_balance_be B a n w) = n"
    and "x \<noteq> a \<Longrightarrow> free_balance T x (make_free_balance_be B a n w) = free_balance T x w"
    and "reserved x (make_free_balance_be B a n w) = reserved x w"
    and "registered T (make_free_balance_be B a n w) x = registered T w x"
    and "used (make_free_balance_be B a n w) = used w"
  using assms unfolding bench_laws_def by simp_all

lemma bench_laws_reserve:
  assumes "bench_laws T B used reserved"
    and "unat n + unat (minimum_balance T) \<le> unat (free_balance T a w)" and "reserved a w = 0"
  shows "\<exists>w'. reserve T a n w = (Inr (), w')
    \<and> (\<forall>x. x \<noteq> a \<longrightarrow> reserved x w' = reserved x w)
    \<and> (\<forall>x. registered T w' x = registered T w x) \<and> used w' = used w"
  using assms(1) [unfolded bench_laws_def, THEN conjunct2, THEN conjunct2, THEN conjunct2, THEN conjunct1]
    assms(2,3) by blast

lemma bench_laws_keys:
  assumes "bench_laws T B used reserved"
    and "k \<notin> used w" and "minimum_balance T \<le> free_balance T a w"
  shows "\<exists>w'. session_set_keys B a k w = (Inr (), w') \<and> used w' = insert k (used w)
    \<and> (\<forall>x. registered T w' x \<longleftrightarrow> x = a \<or> registered T w x)
    \<and> (\<forall>x. reserved x w' = reserved x w \<and> free_balance T x w' = free_balance T x w)"
  using assms(1) [unfolded bench_laws_def, THEN conjunct2, THEN conjunct2, THEN conjunct2, THEN conjunct2]
    assms(2,3) by blast

section \<open>Setting up\<close>

lemma distinct_word_range: "distinct (word_range a (b :: 'a::len word))"
proof -
  have "inj_on (of_nat :: nat \<Rightarrow> 'a word) {unat a..<unat b}"
  proof (rule inj_onI)
    fix m n
    assume m: "m \<in> {unat a..<unat b}" and n: "n \<in> {unat a..<unat b}" and eq: "(of_nat m :: 'a word) = of_nat n"
    have "unat (of_nat k :: 'a word) = k" if "k < unat b" for k
    proof -
      have "k < 2 ^ LENGTH('a)" using that unsigned_less [of b, where 'a = nat] by (rule order.strict_trans)
      then show ?thesis by (simp add: unsigned_of_nat take_bit_nat_eq_self)
    qed
    with m n eq show "m = n" by (metis atLeastLessThan_iff)
  qed
  then show ?thesis by (simp add: word_range_def distinct_map)
qed

lemma set_free_run [call_simps]:
  "set_free B a n s = (Inr (), s\<lparr>world := make_free_balance_be B a n (world s)\<rparr>)"
  "seq (set_free B a n) f s = f () (s\<lparr>world := make_free_balance_be B a n (world s)\<rparr>)"
  by (simp_all add: set_free_def call_simps)

lemma unwrap_run: "m s = (Inr a, t) \<Longrightarrow> unwrap m s = (Inr a, t)"
  by (simp add: unwrap_def attempt_def seq_def ret_def)

lemma on_world_run: "m (world s) = (r, w) \<Longrightarrow> on_world m s = (r, s\<lparr>world := w\<rparr>)"
  by (simp add: on_world_def)

lemma validators_funded:
  assumes "bench_laws T B used reserved" and "unat (minimum_balance T) * 1000 < 2 ^ 128"
  shows "\<exists>w. map_calls (bench_validator T B) is s =
      (Inr (map (\<lambda>i. (account_of B ''candidate'' i, bench_keys B i)) is), s\<lparr>world := w\<rparr>)
    \<and> (\<forall>i \<in> set is. minimum_balance T \<le> free_balance T (account_of B ''candidate'' i) w)
    \<and> (\<forall>x. minimum_balance T \<le> free_balance T x (world s) \<longrightarrow> minimum_balance T \<le> free_balance T x w)
    \<and> (\<forall>x. reserved x w = reserved x (world s)) \<and> (\<forall>x. registered T w x = registered T (world s) x)
    \<and> used w = used (world s)"
proof (induction "is" arbitrary: s)
  case Nil
  show ?case by (rule exI [of _ "world s"]) (simp add: ret_def)
next
  case (Cons i "is")
  let ?n = "minimum_balance T * 1000"
  let ?w = "make_free_balance_be B (account_of B ''candidate'' i) ?n (world s)"
  have "unat ?n = unat (minimum_balance T) * 1000"
    using assms(2) by (simp add: unat_word_ariths)
  then have n: "minimum_balance T \<le> ?n" by (simp add: word_le_nat_alt)
  obtain w where w: "map_calls (bench_validator T B) is (s\<lparr>world := ?w\<rparr>) =
      (Inr (map (\<lambda>i. (account_of B ''candidate'' i, bench_keys B i)) is), s\<lparr>world := w\<rparr>)"
    and w': "\<forall>i \<in> set is. minimum_balance T \<le> free_balance T (account_of B ''candidate'' i) w"
      "\<forall>x. minimum_balance T \<le> free_balance T x ?w \<longrightarrow> minimum_balance T \<le> free_balance T x w"
      "\<forall>x. reserved x w = reserved x ?w" "\<forall>x. registered T w x = registered T ?w x" "used w = used ?w"
    using Cons.IH [of "s\<lparr>world := ?w\<rparr>"] by auto
  have more: "minimum_balance T \<le> free_balance T x ?w" if "minimum_balance T \<le> free_balance T x (world s)" for x
    using that n bench_laws_balance(1,2) [OF assms(1)] by (cases "x = account_of B ''candidate'' i") simp_all
  have "map_calls (bench_validator T B) (i # is) s =
      (Inr (map (\<lambda>i. (account_of B ''candidate'' i, bench_keys B i)) (i # is)), s\<lparr>world := w\<rparr>)"
    by (simp add: bench_validator_def create_funded_user_def Let_def call_simps)
      (simp add: seq_def w ret_def)
  moreover have "minimum_balance T \<le> free_balance T (account_of B ''candidate'' i) ?w"
    using n by (simp add: bench_laws_balance(1) [OF assms(1)])
  ultimately show ?case
    using w' more by (intro exI [of _ w]) (simp add: bench_laws_balance(3-5) [OF assms(1)])
qed

lemma keys_set:
  assumes "bench_laws T B used reserved"
    and "distinct (map snd vs)" and "snd ` set vs \<inter> used (world s) = {}"
    and "\<forall>v \<in> set vs. minimum_balance T \<le> free_balance T (fst v) (world s)"
  shows "\<exists>w. for_each vs (set_key B) s = (Inr (), s\<lparr>world := w\<rparr>)
    \<and> (\<forall>x. registered T w x \<longleftrightarrow> x \<in> fst ` set vs \<or> registered T (world s) x)
    \<and> (\<forall>x. reserved x w = reserved x (world s)) \<and> used w = snd ` set vs \<union> used (world s)"
  using assms(2-4)
proof (induction vs arbitrary: s)
  case Nil
  show ?case by (rule exI [of _ "world s"]) (simp add: ret_def)
next
  case (Cons v vs)
  obtain a k where v: "v = (a, k)" by fastforce
  have "k \<notin> used (world s)" "minimum_balance T \<le> free_balance T a (world s)"
    using Cons.prems by (auto simp: v)
  then obtain w where w: "session_set_keys B a k (world s) = (Inr (), w)" "used w = insert k (used (world s))"
      "\<forall>x. registered T w x \<longleftrightarrow> x = a \<or> registered T (world s) x"
      "\<forall>x. reserved x w = reserved x (world s) \<and> free_balance T x w = free_balance T x (world s)"
    using bench_laws_keys [OF assms(1)] by blast
  have "distinct (map snd vs)" "snd ` set vs \<inter> used (world (s\<lparr>world := w\<rparr>)) = {}"
      "\<forall>v \<in> set vs. minimum_balance T \<le> free_balance T (fst v) (world (s\<lparr>world := w\<rparr>))"
    using Cons.prems w by (auto simp: v)
  from Cons.IH [OF this] obtain w' where
      w': "for_each vs (set_key B) (s\<lparr>world := w\<rparr>) = (Inr (), s\<lparr>world := w'\<rparr>)"
      "\<forall>x. registered T w' x \<longleftrightarrow> x \<in> fst ` set vs \<or> registered T w x"
      "\<forall>x. reserved x w' = reserved x w" "used w' = snd ` set vs \<union> used w"
    by auto
  have "set_key B (a, k) s = (Inr (), s\<lparr>world := w\<rparr>)"
    unfolding prod.case by (intro unwrap_run on_world_run w(1))
  then have "for_each (v # vs) (set_key B) s = (Inr (), s\<lparr>world := w'\<rparr>)"
    by (simp add: v seq_def w'(1))
  with w w' show ?case by (intro exI [of _ w']) (auto simp: v)
qed

lemma register_validators_run:
  assumes "bench_start T B used reserved s0" and "used (world s) = {}" and "\<forall>a. reserved a (world s) = 0"
  shows "\<exists>w. register_validators T B c s = (Inr (map (account_of B ''candidate'') (word_range 0 c)), s\<lparr>world := w\<rparr>)
    \<and> (\<forall>a \<in> set (map (account_of B ''candidate'') (word_range 0 c)). registered T w a)
    \<and> (\<forall>a. reserved a w = 0) \<and> used w = bench_keys B ` set (word_range 0 c)"
proof -
  have laws: "bench_laws T B used reserved" and small: "unat (minimum_balance T) * 1000 < 2 ^ 128"
      and inj: "inj (bench_keys B)"
    using assms(1) by (simp_all add: bench_start_def)
  let ?vs = "map (\<lambda>i. (account_of B ''candidate'' i, bench_keys B i)) (word_range 0 c)"
  obtain w where w: "map_calls (bench_validator T B) (word_range 0 c) s = (Inr ?vs, s\<lparr>world := w\<rparr>)"
      "\<forall>i \<in> set (word_range 0 c). minimum_balance T \<le> free_balance T (account_of B ''candidate'' i) w"
      "\<forall>x. reserved x w = reserved x (world s)" "used w = used (world s)"
    using validators_funded [OF laws small, of "word_range 0 c" s] by blast
  have "distinct (map snd ?vs)"
    using distinct_word_range [of 0 c] inj by (simp add: distinct_map comp_def inj_on_def inj_def)
  moreover have "snd ` set ?vs \<inter> used (world (s\<lparr>world := w\<rparr>)) = {}"
    using w(4) assms(2) by simp
  moreover have "\<forall>v \<in> set ?vs. minimum_balance T \<le> free_balance T (fst v) (world (s\<lparr>world := w\<rparr>))"
    using w(2) by auto
  ultimately obtain w' where
      w': "for_each ?vs (set_key B) (s\<lparr>world := w\<rparr>)
        = (Inr (), s\<lparr>world := w'\<rparr>)"
      "\<forall>x. registered T w' x \<longleftrightarrow> x \<in> fst ` set ?vs \<or> registered T w x"
      "\<forall>x. reserved x w' = reserved x w" "used w' = snd ` set ?vs \<union> used w"
    using keys_set [OF laws, of ?vs "s\<lparr>world := w\<rparr>"] by auto
  have sets: "map fst ?vs = map (account_of B ''candidate'') (word_range 0 c)"
      "fst ` set ?vs = set (map (account_of B ''candidate'') (word_range 0 c))"
      "snd ` set ?vs = bench_keys B ` set (word_range 0 c)"
    by (simp_all add: comp_def image_image)
  have "register_validators T B c s = (Inr (map fst ?vs), s\<lparr>world := w'\<rparr>)"
    by (simp add: register_validators_def seq_def w(1) w'(1) ret_def)
  then show ?thesis
    unfolding sets(1) using w'(2) [unfolded sets(2)] w'(3,4) [unfolded sets(3)] w(3,4) assms(2,3) by auto
qed

lemma twice_minimum:
  assumes "unat (n :: u128) * 1000 < 2 ^ 128"
  shows "unat (n * 2) = unat n + unat n"
  using assms by (simp add: unat_word_ariths)

lemma register_accepted:
  assumes "registered T (world s) who" and "who \<notin> set (invulnerables s)" and "who \<notin> cand_who ` set (candidates s)"
    and "length (candidates s) < unat (desired_candidates s)" and "length (candidates s) < unat (max_candidates T)"
    and "reserve T who (candidacy_bond s) (world s) = (Inr (), w)"
  shows "\<exists>r. register_as_candidate T (Signed who) s = (Inr r, after_register T who w s)"
  using assms unat_length_less [OF assms(4)]
  by (auto simp: register_run registered_def split: option.splits)

lemma add_candidate_run:
  assumes "bench_laws T B used reserved" and "unat (minimum_balance T) * 1000 < 2 ^ 128"
    and "candidacy_bond s = minimum_balance T"
    and "registered T (world s) who" and "reserved who (world s) = 0"
    and "who \<notin> set (invulnerables s)" and "who \<notin> cand_who ` set (candidates s)"
    and "length (candidates s) < unat (desired_candidates s)" and "length (candidates s) < unat (max_candidates T)"
  shows "\<exists>w. add_candidate T B who s = (Inr (), after_register T who w s)
    \<and> (\<forall>x. x \<noteq> who \<longrightarrow> reserved x w = reserved x (world s))
    \<and> (\<forall>x. registered T w x = registered T (world s) x) \<and> used w = used (world s)"
proof -
  let ?w = "make_free_balance_be B who (minimum_balance T * 2) (world s)"
  let ?s = "s\<lparr>world := ?w\<rparr>"
  have two: "unat (minimum_balance T * 2) = unat (minimum_balance T) + unat (minimum_balance T)"
    by (rule twice_minimum [OF assms(2)])
  then have "minimum_balance T \<le> minimum_balance T * 2" by (simp add: word_le_nat_alt)
  then have "unat (minimum_balance T) + unat (minimum_balance T) \<le> unat (free_balance T who ?w)"
    using two by (simp add: bench_laws_balance(1) [OF assms(1)])
  moreover have "reserved who ?w = 0"
    using assms(5) by (simp add: bench_laws_balance(3) [OF assms(1)])
  ultimately obtain w where w: "reserve T who (minimum_balance T) ?w = (Inr (), w)"
      "\<forall>x. x \<noteq> who \<longrightarrow> reserved x w = reserved x ?w"
      "\<forall>x. registered T w x = registered T ?w x" "used w = used ?w"
    using bench_laws_reserve [OF assms(1)] by blast
  have "\<exists>r. register_as_candidate T (Signed who) ?s = (Inr r, after_register T who w ?s)"
    by (rule register_accepted) (use assms w(1) in \<open>simp_all add: bench_laws_balance(4) [OF assms(1)]\<close>)
  then have "add_candidate T B who s = (Inr (), after_register T who w ?s)"
    by (auto simp: add_candidate_def call_simps assms(3)) (auto simp: seq_def unwrap_run ret_def)
  moreover have "after_register T who w ?s = after_register T who w s"
    by (simp add: after_register_def)
  ultimately show ?thesis
    using w by (intro exI [of _ w]) (simp add: bench_laws_balance(3-5) [OF assms(1)])
qed

lemma add_candidates_run:
  assumes "bench_laws T B used reserved" and "unat (minimum_balance T) * 1000 < 2 ^ 128"
    and "candidacy_bond s = minimum_balance T" and "distinct as"
    and "\<forall>a \<in> set as. registered T (world s) a \<and> reserved a (world s) = 0
      \<and> a \<notin> set (invulnerables s) \<and> a \<notin> cand_who ` set (candidates s)"
    and "length (candidates s) + length as \<le> unat (desired_candidates s)"
    and "length (candidates s) + length as \<le> unat (max_candidates T)"
  shows "\<exists>t. for_each as (add_candidate T B) s = (Inr (), t)
    \<and> candidates t = candidates s @ map (\<lambda>a. \<lparr>cand_who = a, cand_deposit = minimum_balance T\<rparr>) as
    \<and> invulnerables t = invulnerables s \<and> desired_candidates t = desired_candidates s
    \<and> candidacy_bond t = candidacy_bond s \<and> block_number t = block_number s
    \<and> (\<forall>x. x \<notin> set as \<longrightarrow> reserved x (world t) = reserved x (world s))
    \<and> (\<forall>x. registered T (world t) x = registered T (world s) x) \<and> used (world t) = used (world s)
    \<and> (\<forall>a. a \<in> set as \<or> last_authored_block s a \<noteq> None \<longrightarrow> last_authored_block t a \<noteq> None)"
  using assms(3-7)
proof (induction as arbitrary: s)
  case Nil
  show ?case by (rule exI [of _ s]) (simp add: ret_def)
next
  case (Cons a as)
  obtain w where w: "add_candidate T B a s = (Inr (), after_register T a w s)"
      "\<forall>x. x \<noteq> a \<longrightarrow> reserved x w = reserved x (world s)"
      "\<forall>x. registered T w x = registered T (world s) x" "used w = used (world s)"
    using add_candidate_run [OF assms(1,2) Cons.prems(1), of a] Cons.prems(2-5) by auto
  let ?s = "after_register T a w s"
  have "\<exists>t. for_each as (add_candidate T B) ?s = (Inr (), t)
    \<and> candidates t = candidates ?s @ map (\<lambda>a. \<lparr>cand_who = a, cand_deposit = minimum_balance T\<rparr>) as
    \<and> invulnerables t = invulnerables ?s \<and> desired_candidates t = desired_candidates ?s
    \<and> candidacy_bond t = candidacy_bond ?s \<and> block_number t = block_number ?s
    \<and> (\<forall>x. x \<notin> set as \<longrightarrow> reserved x (world t) = reserved x (world ?s))
    \<and> (\<forall>x. registered T (world t) x = registered T (world ?s) x) \<and> used (world t) = used (world ?s)
    \<and> (\<forall>a. a \<in> set as \<or> last_authored_block ?s a \<noteq> None \<longrightarrow> last_authored_block t a \<noteq> None)"
    by (rule Cons.IH) (use Cons.prems w in \<open>auto simp: after_register_def\<close>)
  then obtain t where "for_each as (add_candidate T B) ?s = (Inr (), t)"
    and t: "candidates t = candidates ?s @ map (\<lambda>a. \<lparr>cand_who = a, cand_deposit = minimum_balance T\<rparr>) as"
      "invulnerables t = invulnerables ?s" "desired_candidates t = desired_candidates ?s"
      "candidacy_bond t = candidacy_bond ?s" "block_number t = block_number ?s"
      "\<forall>x. x \<notin> set as \<longrightarrow> reserved x (world t) = reserved x (world ?s)"
      "\<forall>x. registered T (world t) x = registered T (world ?s) x" "used (world t) = used (world ?s)"
      "\<forall>a. a \<in> set as \<or> last_authored_block ?s a \<noteq> None \<longrightarrow> last_authored_block t a \<noteq> None"
    by blast
  then have "for_each (a # as) (add_candidate T B) s = (Inr (), t)"
    by (simp add: seq_def w(1))
  with t w Cons.prems(1) show ?case
    by (intro exI [of _ t]) (auto simp: after_register_def)
qed

end
