(* ===== verification/Collator_Bench_Properties.thy ===== *)
theory Collator_Bench_Properties
  imports Collator_Bench
begin

text \<open>
  The benchmarks of the collator-selection pallet pass: on any environment that keeps
  \<open>bench_laws\<close>, no assertion or \<open>unwrap\<close> of a benchmark panics and its verify block holds.
  For \<open>new_session\<close> this is so exactly outside one case of its parameters.
\<close>

section \<open>Candidates set up by a benchmark\<close>

definition ready_candidates ::
    "('ev, 'acc, 'vid, 'w, 'x) collator_config_scheme \<Rightarrow> ('acc, 'w, 'keys) bench_ops \<Rightarrow> u32 \<Rightarrow> 'acc candidate_info list" where
  "ready_candidates T B c =
     map (\<lambda>i. \<lparr>cand_who = account_of B ''candidate'' i, cand_deposit = minimum_balance T\<rparr>) (word_range 0 c)"

lemma length_ready [simp]: "length (ready_candidates T B c) = unat c"
  by (simp add: ready_candidates_def word_range_def)

lemma ready_who: "map cand_who (ready_candidates T B c) = map (account_of B ''candidate'') (word_range 0 c)"
  by (simp add: ready_candidates_def comp_def)

lemma distinct_ready:
  "inj (account_of B ''candidate'') \<Longrightarrow> distinct (map cand_who (ready_candidates T B c))"
  by (simp add: ready_who distinct_map distinct_word_range inj_on_def inj_def)

lemma candidates_ready:
  assumes "bench_start T B used reserved s0" and "world s = world s0" and "invulnerables s = invulnerables s0"
    and "candidates s = []" and "candidacy_bond s = minimum_balance T"
    and "unat c \<le> unat (desired_candidates s)" and "unat c \<le> unat (max_candidates T)"
  shows "\<exists>w as t. register_validators T B c s = (Inr as, s\<lparr>world := w\<rparr>)
    \<and> register_candidates T B c (s\<lparr>world := w\<rparr>) = (Inr (), t)
    \<and> candidates t = ready_candidates T B c
    \<and> invulnerables t = invulnerables s \<and> desired_candidates t = desired_candidates s
    \<and> candidacy_bond t = candidacy_bond s \<and> block_number t = block_number s
    \<and> (\<forall>x. x \<notin> range (account_of B ''candidate'') \<longrightarrow> reserved x (world t) = 0)
    \<and> used (world t) = bench_keys B ` set (word_range 0 c)
    \<and> (\<forall>a \<in> cand_who ` set (ready_candidates T B c). last_authored_block t a \<noteq> None)"
proof -
  have start: "bench_laws T B used reserved" "unat (minimum_balance T) * 1000 < 2 ^ 128"
      "inj (account_of B ''candidate'')" "0 < minimum_balance T"
      "used (world s) = {}" "\<forall>a. reserved a (world s) = 0"
      "set (invulnerables s) \<inter> insert (whitelisted_caller B) (range (account_of B ''candidate'')) = {}"
    using assms(1-3) by (simp_all add: bench_start_def)
  let ?as = "map (account_of B ''candidate'') (word_range 0 c)"
  obtain w where w: "register_validators T B c s = (Inr ?as, s\<lparr>world := w\<rparr>)"
      "\<forall>a \<in> set ?as. registered T w a" "\<forall>a. reserved a w = 0" "used w = bench_keys B ` set (word_range 0 c)"
    using register_validators_run [OF assms(1) start(5,6), of c] by blast
  let ?s = "s\<lparr>world := w\<rparr>"
  have bond: "candidacy_bond ?s = minimum_balance T" using assms(5) by simp
  have dist: "distinct ?as" using distinct_ready [OF start(3), of T c] by (simp add: ready_who)
  have ok: "\<forall>a \<in> set ?as. registered T (world ?s) a \<and> reserved a (world ?s) = 0
      \<and> a \<notin> set (invulnerables ?s) \<and> a \<notin> cand_who ` set (candidates ?s)"
    using w(2,3) start(7) assms(4) by auto
  have len: "length (candidates ?s) + length ?as \<le> unat (desired_candidates ?s)"
      "length (candidates ?s) + length ?as \<le> unat (max_candidates T)"
    using assms(4,6,7) by (simp_all add: word_range_def)
  obtain t where t: "for_each ?as (add_candidate T B) ?s = (Inr (), t)"
      "candidates t = candidates ?s @ map (\<lambda>a. \<lparr>cand_who = a, cand_deposit = minimum_balance T\<rparr>) ?as"
      "invulnerables t = invulnerables ?s" "desired_candidates t = desired_candidates ?s"
      "candidacy_bond t = candidacy_bond ?s" "block_number t = block_number ?s"
      "\<forall>x. x \<notin> set ?as \<longrightarrow> reserved x (world t) = reserved x (world ?s)"
      "used (world t) = used (world ?s)"
      "\<forall>a. a \<in> set ?as \<or> last_authored_block ?s a \<noteq> None \<longrightarrow> last_authored_block t a \<noteq> None"
    using add_candidates_run [OF start(1,2) bond dist ok len] by blast
  have "register_candidates T B c ?s = (Inr (), t)"
    using start(4) assms(5) by (simp add: register_candidates_def assert_that_step t(1))
  moreover have "candidates t = ready_candidates T B c"
    using assms(4) by (simp add: t(2) ready_candidates_def comp_def)
  moreover have "\<forall>x. x \<notin> range (account_of B ''candidate'') \<longrightarrow> reserved x (world t) = 0"
    using t(7) w(3) by auto
  moreover have "\<forall>a \<in> cand_who ` set (ready_candidates T B c). last_authored_block t a \<noteq> None"
    using t(9) ready_who [of T B c] by (metis list.set_map)
  ultimately show ?thesis
    using w t by (intro exI [of _ w] exI [of _ ?as] exI [of _ t]) simp
qed

section \<open>Which candidates a session keeps\<close>

lemma kick_ref_prefix:
  "(\<And>c. c \<in> set pre \<Longrightarrow> \<not> stale (cand_who c)) \<Longrightarrow>
   kick_ref stale least n (pre @ cs) = pre @ kick_ref stale least n cs"
  by (induction pre) auto

lemma kick_ref_all_stale:
  "(\<And>c. c \<in> set cs \<Longrightarrow> stale (cand_who c)) \<Longrightarrow>
   m + length (kick_ref stale least (m + length cs) cs) = max m (min least (m + length cs))"
proof (induction cs arbitrary: m)
  case (Cons c cs)
  have "m + length (c # cs) - 1 = m + length cs" by simp
  with Cons.IH [of m] Cons.IH [of "Suc m"] Cons.prems show ?case by auto
qed simp

lemma set_authored_run:
  "(\<And>i. i \<in> set is \<Longrightarrow> unat i < length cs) \<Longrightarrow>
   for_each is (set_last_authored cs n) s = (Inr (), s\<lparr>last_authored_block :=
     \<lambda>a. if \<exists>i \<in> set is. a = cand_who (cs ! unat i) then Some n else last_authored_block s a\<rparr>)"
proof (induction "is" arbitrary: s)
  case Nil
  show ?case by (simp add: ret_def)
next
  case (Cons i "is")
  have "set_last_authored cs n i s =
      (Inr (), s\<lparr>last_authored_block := (last_authored_block s)(cand_who (cs ! unat i) \<mapsto> n)\<rparr>)"
    using Cons.prems by (simp add: set_last_authored_def call_simps)
  then show ?case
    using Cons by (auto simp: seq_def fun_upd_def intro!: arg_cong [where f = "\<lambda>l. s\<lparr>last_authored_block := l\<rparr>"])
qed

lemma word_range_split: "k \<le> c \<Longrightarrow> word_range 0 c = word_range 0 k @ word_range k (c :: 'a::len word)"
  using upt_add_eq_append [of 0 "unat k" "unat c - unat k"]
  by (simp add: word_range_def word_le_nat_alt flip: map_append)

text \<open>The storage the last step of the benchmark starts in.\<close>

definition authored ::
    "('ev, 'acc, 'vid, 'w, 'x) collator_config_scheme \<Rightarrow> ('acc, 'w, 'keys) bench_ops \<Rightarrow> u32 \<Rightarrow> u32 \<Rightarrow>
     ('ev, 'acc, 'w) collator_state \<Rightarrow> ('ev, 'acc, 'w) collator_state" where
  "authored T B r c t =
     (let cs = ready_candidates T B c; fresh = (if r < c then saturating_sub c r else c) in
      t\<lparr>block_number := 1800,
        last_authored_block := (\<lambda>a. if a \<in> cand_who ` set (take (unat fresh) cs) then Some 1800
          else if a \<in> cand_who ` set cs then Some 0 else last_authored_block t a)\<rparr>)"

lemma unat_of_nth: "i \<in> set (word_range 0 (c :: u32)) \<longleftrightarrow> (\<exists>n < unat c. i = of_nat n \<and> unat i = n)"
proof -
  have "i \<in> set (word_range 0 c) \<longleftrightarrow> unat i < unat c"
    by (simp add: set_word_range word_less_nat_alt)
  moreover have "of_nat (unat i) = i" by simp
  ultimately show ?thesis by (metis unat_length_less(2))
qed

lemma authored_who:
  assumes "k \<le> length cs" and "k = unat (j :: u32)"
  shows "(\<exists>i \<in> set (word_range 0 j). a = cand_who (cs ! unat i)) \<longleftrightarrow> a \<in> cand_who ` set (take k cs)"
proof -
  have "cand_who ` set (take k cs) = (\<lambda>n. cand_who (cs ! n)) ` {0..<k}"
    unfolding nth_image [OF assms(1), symmetric] image_image ..
  then have "a \<in> cand_who ` set (take k cs) \<longleftrightarrow> (\<exists>n < k. a = cand_who (cs ! n))"
    by (simp add: image_iff Bex_def)
  also have "\<dots> \<longleftrightarrow> (\<exists>i \<in> set (word_range 0 j). a = cand_who (cs ! unat i))"
    (is "?l \<longleftrightarrow> ?r")
  proof
    assume ?l
    then obtain n where "n < unat j" "a = cand_who (cs ! n)" unfolding assms(2) by blast
    then show ?r using unat_of_nth [of "of_nat n" j] unat_length_less(2) [of n j] by (intro bexI [of _ "of_nat n"]) auto
  qed (use assms(2) in \<open>auto simp: set_word_range word_less_nat_alt\<close>)
  finally show ?thesis by simp
qed

lemma authored_run:
  assumes "candidates t = ready_candidates T B c" and "fresh = (if 0 < saturating_sub c r then saturating_sub c r else c)"
  shows "for_each (word_range 0 c) (set_last_authored (candidates t) 0) t = (Inr (), t0) \<Longrightarrow>
    for_each (word_range 0 fresh) (set_last_authored (candidates t) 1800) t0 = (Inr (), t1) \<Longrightarrow>
    t1\<lparr>block_number := 1800\<rparr> = authored T B r c t"
proof -
  have le: "unat fresh \<le> unat c" by (simp add: assms(2))
  have r: "0 < saturating_sub c r \<longleftrightarrow> r < c" by (simp add: word_less_nat_alt)
  have bound: "unat i < length (candidates t)" if "i \<in> set (word_range 0 fresh) \<union> set (word_range 0 c)" for i
    using that le by (auto simp: assms(1) set_word_range word_less_nat_alt)
  note run = set_authored_run [of _ "candidates t"]
  assume "for_each (word_range 0 c) (set_last_authored (candidates t) 0) t = (Inr (), t0)"
  then have t0: "t0 = t\<lparr>last_authored_block := \<lambda>a. if a \<in> cand_who ` set (take (unat c) (candidates t))
      then Some 0 else last_authored_block t a\<rparr>"
    using run [of "word_range 0 c" 0 t] bound by (simp add: authored_who [of "unat c"] assms(1))
  assume "for_each (word_range 0 fresh) (set_last_authored (candidates t) 1800) t0 = (Inr (), t1)"
  then have "t1 = t0\<lparr>last_authored_block := \<lambda>a. if a \<in> cand_who ` set (take (unat fresh) (candidates t))
      then Some 1800 else last_authored_block t0 a\<rparr>"
    using run [of "word_range 0 fresh" 1800 t0] bound le by (simp add: authored_who [of "unat fresh"] assms(1))
  then show ?thesis
    using assms(2) by (simp add: authored_def Let_def t0 r assms(1) cong: if_cong)
qed

section \<open>The benchmark of a new session\<close>

lemma authored_inv:
  assumes "candidates t = ready_candidates T B c" and "inj (account_of B ''candidate'')"
    and "unat c \<le> unat (max_candidates T)" and "length (invulnerables t) \<le> unat (max_invulnerables T)"
  shows "collator_inv T (authored T B r c t)"
  using assms distinct_ready [OF assms(2), of T c] by (simp add: collator_inv_def authored_def Let_def)

lemma authored_kept:
  assumes "candidates t = ready_candidates T B c" and "inj (account_of B ''candidate'')"
    and "0 < kick_threshold T" and "kick_threshold T \<le> 1800"
  shows "length (kept_candidates T (authored T B r c t)) =
    (if r < c then max (unat c - unat r) (min (unat (min_candidates T)) (unat c)) else unat c)"
proof -
  let ?cs = "ready_candidates T B c" and ?s = "authored T B r c t" and ?least = "unat (min_candidates T)"
  let ?k = "if r < c then unat c - unat r else unat c"
  let ?pre = "take ?k ?cs" and ?suf = "drop ?k ?cs"
  have k: "?k = unat (if r < c then saturating_sub c r else c)" by simp
  have last: "last_authored_block ?s a = (if a \<in> cand_who ` set ?pre then Some 1800
      else if a \<in> cand_who ` set ?cs then Some 0 else last_authored_block t a)" for a
    unfolding k by (simp add: authored_def Let_def)
  have now: "block_number ?s = 1800" by (simp add: authored_def Let_def)
  have apart: "cand_who ` set ?pre \<inter> cand_who ` set ?suf = {}"
    using set_take_disj_set_drop_if_distinct [OF distinct_ready [OF assms(2), of T c] order_refl, of ?k]
    unfolding take_map drop_map set_map .
  have fresh: "\<not> stale_in T ?s (cand_who d)" if "d \<in> set ?pre" for d
    using that assms(3) by (simp add: stale_in_def last_block_of_def last now saturating_sub_def)
  have stale: "stale_in T ?s (cand_who d)" if "d \<in> set ?suf" for d
  proof -
    have "cand_who d \<notin> cand_who ` set ?pre" "cand_who d \<in> cand_who ` set ?cs"
      using that apart by (meson disjoint_iff imageI, meson imageI in_set_dropD)
    then show ?thesis
      using assms(4) by (simp add: stale_in_def last_block_of_def last now saturating_sub_def)
  qed
  have "kept_candidates T ?s = kick_ref (stale_in T ?s) ?least (unat c) (?pre @ ?suf)"
    by (simp add: kept_candidates_def authored_def Let_def assms(1))
  also have "\<dots> = ?pre @ kick_ref (stale_in T ?s) ?least (unat c) ?suf"
    by (rule kick_ref_prefix, rule fresh)
  finally have "length (kept_candidates T ?s) = ?k + length (kick_ref (stale_in T ?s) ?least (?k + length ?suf) ?suf)"
    by simp
  also have "\<dots> = max ?k (min ?least (?k + length ?suf))"
    by (rule kick_ref_all_stale, rule stale)
  finally show ?thesis by (auto split: if_splits)
qed

lemma bench_new_session_run:
  fixes s :: "('ev, 'acc, 'w) collator_state" and T :: "('ev, 'acc, 'vid, 'w, 'x) collator_config_scheme"
  assumes "bench_start T B used reserved s" and "unat c \<le> unat (max_candidates T)"
    and "0 < kick_threshold T" and "kick_threshold T \<le> 1800"
  shows "\<exists>u. bench_new_session T B r c s = assert_that (\<lambda>s.
        if r < c \<and> min_candidates T \<le> saturating_sub c r then length (candidates s) < unat c
        else if r < c \<and> saturating_sub c r < min_candidates T then length (candidates s) = unat (min_candidates T)
        else length (candidates s) = unat c) u
    \<and> length (candidates u) = (if r < c then max (unat c - unat r) (min (unat (min_candidates T)) (unat c)) else unat c)"
proof -
  have start: "inj (account_of B ''candidate'')" "candidates s = []"
      "length (invulnerables s) \<le> unat (max_invulnerables T)"
    using assms(1) by (simp_all add: bench_start_def)
  let ?s = "s\<lparr>candidacy_bond := minimum_balance T, desired_candidates := c, block_number := 0\<rparr>"
  have ready: "world ?s = world s" "invulnerables ?s = invulnerables s" "candidates ?s = []"
      "candidacy_bond ?s = minimum_balance T" "unat c \<le> unat (desired_candidates ?s)"
    by (simp_all add: start(2))
  obtain w as t where reg: "register_validators T B c ?s = (Inr as, ?s\<lparr>world := w\<rparr>)"
      "register_candidates T B c (?s\<lparr>world := w\<rparr>) = (Inr (), t)"
    and t: "candidates t = ready_candidates T B c" "invulnerables t = invulnerables ?s"
    using candidates_ready [OF assms(1) ready assms(2)] by blast
  let ?fresh = "if 0 < saturating_sub c r then saturating_sub c r else c"
  have bound: "unat i < length (candidates t)" if "i \<in> set (word_range 0 ?fresh) \<union> set (word_range 0 c)" for i
    using that by (auto simp: t(1) set_word_range word_less_nat_alt split: if_splits)
  obtain t0 where t0: "for_each (word_range 0 c) (set_last_authored (candidates t) 0) t = (Inr (), t0)"
    using set_authored_run [of "word_range 0 c" "candidates t"] bound by blast
  obtain t1 where t1: "for_each (word_range 0 ?fresh) (set_last_authored (candidates t) 1800) t0 = (Inr (), t1)"
    using set_authored_run [of "word_range 0 ?fresh" "candidates t"] bound by blast
  let ?t = "authored T B r c t"
  have same: "t1\<lparr>block_number := 1800\<rparr> = ?t" by (rule authored_run [OF t(1) refl t0 t1])
  have cands: "candidates ?t = ready_candidates T B c" by (simp add: authored_def Let_def t(1))
  then have pre: "candidates t1 = ready_candidates T B c" unfolding same [symmetric] by simp
  have inv: "collator_inv T ?t"
    by (rule authored_inv) (simp_all add: t start assms(2))
  obtain u where u: "new_session T 0 ?t =
      (Inr (Some (invulnerables ?t @ map cand_who (kept_candidates T ?t))), u)"
      "candidates u = kept_candidates T ?t"
    using new_session_run [OF inv] by blast
  have loop: "(if 0 < saturating_sub c r then for_each (word_range 0 (saturating_sub c r)) f else for_each (word_range 0 c) f)
      = for_each (word_range 0 ?fresh) f" for f :: "u32 \<Rightarrow> (bench_error, ('ev, 'acc, 'w) collator_state, unit) call"
    by simp
  have "bench_new_session T B r c s = assert_that (\<lambda>s.
        if r < c \<and> min_candidates T \<le> saturating_sub c r then length (candidates s) < unat c
        else if r < c \<and> saturating_sub c r < min_candidates T then length (candidates s) = unat (min_candidates T)
        else length (candidates s) = unat c) u"
    unfolding bench_new_session_def Let_def loop
    by (simp add: seq_def modify_def gets_def reg t0 t1 same pre assert_that_def map_err_def u(1) cands)
  moreover have "length (candidates u) =
      (if r < c then max (unat c - unat r) (min (unat (min_candidates T)) (unat c)) else unat c)"
    unfolding u(2) by (rule authored_kept [OF t(1) start(1) assms(3,4)])
  ultimately show ?thesis by blast
qed

subsection \<open>A concrete environment\<close>

text \<open>
  Accounts are the seeds they are derived from; the other pallets' storage is the free and
  the reserved balances, the session keys in use and the accounts that registered one.
\<close>

record bench_world =
  bw_free :: "string \<times> u32 \<Rightarrow> u128"
  bw_reserved :: "string \<times> u32 \<Rightarrow> u128"
  bw_keys :: "u32 set"
  bw_registered :: "(string \<times> u32) set"

definition demo_bench_ops :: "(string \<times> u32, bench_world, u32) bench_ops" where
  "demo_bench_ops =
     \<lparr>account_of = Pair, whitelisted_caller = (''whitelisted_caller'', 0),
      make_free_balance_be = (\<lambda>a n w. w\<lparr>bw_free := (bw_free w)(a := n)\<rparr>),
      bench_keys = (\<lambda>c. c),
      session_set_keys = (\<lambda>a k w. if k \<in> bw_keys w then (Inl (Err (Foreign 1)), w)
        else (Inr (), w\<lparr>bw_keys := insert k (bw_keys w), bw_registered := insert a (bw_registered w)\<rparr>)),
      try_successful_origin = Some Root\<rparr>"

definition demo_bench_config :: "((string \<times> u32) collator_event, string \<times> u32, string \<times> u32, bench_world) collator_config" where
  "demo_bench_config =
     \<lparr>collator_event = (\<lambda>e. e), update_origin = (\<lambda>o'. o' = Root), pot_account = (''pot'', 0),
      max_candidates = 20, min_candidates = 5, max_invulnerables = 20, kick_threshold = 1800,
      validator_id_of = identity_collator, is_registered = (\<lambda>a w. a \<in> bw_registered w),
      reserve = (\<lambda>a n w. if n \<le> bw_free w a \<and> unat (bw_reserved w a) + unat n < 2 ^ 128
        then (Inr (), w\<lparr>bw_free := (bw_free w)(a := bw_free w a - n),
                       bw_reserved := (bw_reserved w)(a := bw_reserved w a + n)\<rparr>)
        else (Inl (Err (Foreign 2)), w)),
      unreserve = (\<lambda>a n w. let m = min n (bw_reserved w a) in
        (n - m, w\<lparr>bw_free := (bw_free w)(a := bw_free w a + m),
                  bw_reserved := (bw_reserved w)(a := bw_reserved w a - m)\<rparr>)),
      transfer_keep_alive = (\<lambda>a b n w. if n \<le> bw_free w a \<and> 1 \<le> bw_free w a - n
        then (Inr (), if a = b then w
          else w\<lparr>bw_free := (bw_free w)(a := bw_free w a - n, b := bw_free w b + n)\<rparr>)
        else (Inl (Err (Foreign 2)), w)),
      free_balance = (\<lambda>a w. bw_free w a), minimum_balance = 1,
      weight_info = unit_collator_weight (rocks_db_weight 1000)\<rparr>"

definition demo_bench_start :: "((string \<times> u32) collator_event, string \<times> u32, bench_world) collator_state" where
  "demo_bench_start = \<lparr>block_number = 0, events = [], invulnerables = [(''pot'', 0)], candidates = [],
     last_authored_block = Map.empty, desired_candidates = 0, candidacy_bond = 0, extra_weights = [],
     world = \<lparr>bw_free = (\<lambda>_. 0), bw_reserved = (\<lambda>_. 0), bw_keys = {}, bw_registered = {}\<rparr>\<rparr>"

lemma demo_bench_laws: "bench_laws demo_bench_config demo_bench_ops bw_keys (\<lambda>a w. bw_reserved w a)"
  unfolding bench_laws_def
proof (intro conjI allI impI, goal_cases)
  case (6 a n w)
  then have "n \<le> bw_free w a" by (simp add: word_le_nat_alt demo_bench_config_def)
  with 6 unsigned_less [of n, where 'a = nat] show ?case
    by (simp add: demo_bench_config_def registered_def identity_collator_def)
qed (auto simp: demo_bench_config_def demo_bench_ops_def registered_def identity_collator_def)

lemma demo_bench_ready:
  "bench_start demo_bench_config demo_bench_ops bw_keys (\<lambda>a w. bw_reserved w a) demo_bench_start"
  unfolding bench_start_def
  by (auto simp: demo_bench_laws) (auto simp: demo_bench_config_def demo_bench_ops_def demo_bench_start_def inj_def)

text \<open>
  The benchmark of \<open>new_session\<close>: with \<open>c\<close> candidates, of which \<open>r\<close> are made stale, and
  a kick threshold of at most the 1800 blocks the benchmark waits, its verify block holds
  exactly if the run is not one with \<open>r < c < MinCandidates\<close>. There the pallet kicks nobody,
  since it never falls below \<open>MinCandidates\<close>, while the benchmark expects
  \<open>MinCandidates\<close> candidates to be left, which is more than there ever were.
\<close>

theorem bench_new_session_passes:
  assumes "bench_start T B used reserved s" and "c \<le> max_candidates T" and "0 < r"
    and "0 < kick_threshold T" and "kick_threshold T \<le> 1800"
  shows "passes (bench_new_session T B r c) s \<longleftrightarrow> \<not> (r < c \<and> c < min_candidates T)"
proof -
  obtain u where run: "bench_new_session T B r c s = assert_that (\<lambda>s.
        if r < c \<and> min_candidates T \<le> saturating_sub c r then length (candidates s) < unat c
        else if r < c \<and> saturating_sub c r < min_candidates T then length (candidates s) = unat (min_candidates T)
        else length (candidates s) = unat c) u"
    and kept: "length (candidates u) =
        (if r < c then max (unat c - unat r) (min (unat (min_candidates T)) (unat c)) else unat c)"
    using bench_new_session_run [OF assms(1) _ assms(4,5), of c r] assms(2)
    by (auto simp: word_le_nat_alt)
  have "0 < unat r" using assms(3) by (simp add: word_less_nat_alt)
  then show ?thesis
    by (auto simp: passes_def run assert_that_def kept word_le_nat_alt word_less_nat_alt)
qed

theorem bench_new_session_passes_witness:
  "passes (bench_new_session demo_bench_config demo_bench_ops 2 8) demo_bench_start
    \<and> \<not> passes (bench_new_session demo_bench_config demo_bench_ops 1 3) demo_bench_start"
  using bench_new_session_passes [OF demo_bench_ready, of 8 2] bench_new_session_passes [OF demo_bench_ready, of 3 1]
  by (simp add: demo_bench_config_def)

section \<open>The benchmarks of the dispatchables\<close>

lemma assert_last_event_passes: "events s = evs @ [ev] \<Longrightarrow> passes (assert_last_event ev) s"
  by (simp add: assert_last_event_def passes_def assert_that_def)

lemma origin_step:
  assumes "bench_start T B used reserved s0"
    and "\<And>origin. update_origin T origin \<Longrightarrow> passes (f origin) s"
  shows "passes (seq (ok_or (try_successful_origin B) Weightless) f) s"
  using assms(1) assms(2) [of "the (try_successful_origin B)"]
  by (auto simp: bench_start_def passes_def call_simps)

lemma bench_set_invulnerables_passes:
  fixes s :: "('ev, 'acc, 'w) collator_state"
  assumes "bench_start T B used reserved s" and "unat b \<le> unat (max_invulnerables T)"
  shows "passes (bench_set_invulnerables T B b) s"
proof -
  let ?new = "map (account_of B ''candidate'') (word_range 0 b)"
  have none: "used (world s) = {}" "\<forall>a. reserved a (world s) = 0"
    using assms(1) by (simp_all add: bench_start_def)
  obtain w where w: "register_validators T B b s = (Inr ?new, s\<lparr>world := w\<rparr>)"
      "\<forall>a \<in> set ?new. registered T w a"
    using register_validators_run [OF assms(1) none, of b] by blast
  let ?s = "s\<lparr>world := w\<rparr>"
  let ?ev = "collator_event T (NewInvulnerables ?new)"
  show ?thesis
    unfolding bench_set_invulnerables_def
  proof (rule passes_then, rule w(1), rule origin_step, rule assms(1), rule passes_ok)
    fix origin assume o: "update_origin T origin"
    have "length ?new \<le> unat (max_invulnerables T)" using assms(2) by simp
    then show "set_invulnerables T origin ?new ?s =
        (Inr None, ?s\<lparr>invulnerables := ?new, events := events ?s @ [?ev]\<rparr>)"
      using set_invulnerables_run [of T origin ?new ?s] o w(2) by (auto simp: list_all_iff)
    show "passes (assert_last_event ?ev) (?s\<lparr>invulnerables := ?new, events := events ?s @ [?ev]\<rparr>)"
      by (rule assert_last_event_passes) simp
  qed
qed

lemma bench_set_desired_candidates_passes:
  fixes s :: "('ev, 'acc, 'w) collator_state"
  assumes "bench_start T B used reserved s"
  shows "passes (bench_set_desired_candidates T B) s"
  unfolding bench_set_desired_candidates_def Let_def
proof (rule origin_step, rule assms, rule passes_ok)
  fix origin assume "update_origin T origin"
  then show "set_desired_candidates T origin 999 s = (Inr None, s\<lparr>desired_candidates := 999,
      events := events s @ [collator_event T (NewDesiredCandidates 999)]\<rparr>)"
    by (simp add: set_desired_candidates_def call_simps)
qed (rule assert_last_event_passes, simp)

lemma bench_set_candidacy_bond_passes:
  fixes s :: "('ev, 'acc, 'w) collator_state"
  assumes "bench_start T B used reserved s"
  shows "passes (bench_set_candidacy_bond T B) s"
  unfolding bench_set_candidacy_bond_def Let_def
proof (rule origin_step, rule assms, rule passes_ok)
  fix origin assume "update_origin T origin"
  then show "set_candidacy_bond T origin (minimum_balance T * 10) s = (Inr None, s\<lparr>
      candidacy_bond := minimum_balance T * 10,
      events := events s @ [collator_event T (NewCandidacyBond (minimum_balance T * 10))]\<rparr>)"
    by (simp add: set_candidacy_bond_def call_simps)
qed (rule assert_last_event_passes, simp)

lemma map_err_run: "m s = (Inr a, t) \<Longrightarrow> map_err g m s = (Inr a, t)"
  by (simp add: map_err_def)

text \<open>A caller with twice the bond and a fresh session key.\<close>

lemma caller_ready:
  assumes "bench_start T B used reserved s0" and "k \<notin> used (world s)" and "reserved a (world s) = 0"
  shows "\<exists>w. on_world (session_set_keys B a k) (s\<lparr>world := make_free_balance_be B a (minimum_balance T * 2) (world s)\<rparr>)
      = (Inr (), s\<lparr>world := w\<rparr>)
    \<and> registered T w a \<and> (\<exists>w'. reserve T a (minimum_balance T) w = (Inr (), w'))"
proof -
  have laws: "bench_laws T B used reserved" and small: "unat (minimum_balance T) * 1000 < 2 ^ 128"
    using assms(1) by (simp_all add: bench_start_def)
  let ?w = "make_free_balance_be B a (minimum_balance T * 2) (world s)"
  have two: "unat (minimum_balance T * 2) = unat (minimum_balance T) + unat (minimum_balance T)"
    by (rule twice_minimum [OF small])
  then have le: "minimum_balance T \<le> minimum_balance T * 2" by (simp add: word_le_nat_alt)
  then have free: "free_balance T a ?w = minimum_balance T * 2" by (rule bench_laws_balance(1) [OF laws])
  have "k \<notin> used ?w" "minimum_balance T \<le> free_balance T a ?w"
    using assms(2) le by (simp_all add: free bench_laws_balance(5) [OF laws])
  from bench_laws_keys [OF laws this] obtain w where
      w: "session_set_keys B a k ?w = (Inr (), w)" "registered T w a" "reserved a w = reserved a ?w"
        "free_balance T a w = free_balance T a ?w"
    by blast
  have "unat (minimum_balance T) + unat (minimum_balance T) \<le> unat (free_balance T a w)" "reserved a w = 0"
    using assms(3) by (simp_all add: w(3,4) free two bench_laws_balance(3) [OF laws])
  from bench_laws_reserve [OF laws this] w show ?thesis
    by (intro exI [of _ w]) (auto simp: on_world_run)
qed

lemma bench_register_as_candidate_passes:
  fixes s :: "('ev, 'acc, 'w) collator_state" and T :: "('ev, 'acc, 'vid, 'w, 'x) collator_config_scheme"
  assumes "bench_start T B used reserved s" and "unat c < unat (max_candidates T)"
  shows "passes (bench_register_as_candidate T B c) s"
proof -
  let ?caller = "whitelisted_caller B" and ?min = "minimum_balance T"
  have start: "inj (bench_keys B)" "?caller \<notin> range (account_of B ''candidate'')"
      "candidates s = []" "?caller \<notin> set (invulnerables s)" "unat ?min * 1000 < 2 ^ 128"
    using assms(1) by (simp_all add: bench_start_def)
  have "unat c < 2 ^ LENGTH(32) - 1" using assms(2) unsigned_less [of "max_candidates T", where 'a = nat] by simp
  then have suc: "unat (c + 1) = Suc (unat c)" by (simp add: unat_word_ariths)
  let ?s = "s\<lparr>candidacy_bond := ?min, desired_candidates := c + 1\<rparr>"
  have ready: "world ?s = world s" "invulnerables ?s = invulnerables s" "candidates ?s = []"
      "candidacy_bond ?s = ?min" "unat c \<le> unat (desired_candidates ?s)" "unat c \<le> unat (max_candidates T)"
    using assms(2) by (simp_all add: start(3) suc)
  obtain w as t where reg: "register_validators T B c ?s = (Inr as, ?s\<lparr>world := w\<rparr>)"
      "register_candidates T B c (?s\<lparr>world := w\<rparr>) = (Inr (), t)"
    and t: "candidates t = ready_candidates T B c" "invulnerables t = invulnerables ?s"
      "desired_candidates t = desired_candidates ?s" "candidacy_bond t = candidacy_bond ?s"
      "\<forall>x. x \<notin> range (account_of B ''candidate'') \<longrightarrow> reserved x (world t) = 0"
      "used (world t) = bench_keys B ` set (word_range 0 c)"
    using candidates_ready [OF assms(1) ready] by blast
  have "bench_keys B (c + 1) \<notin> used (world t)"
    using suc by (simp add: t(6) inj_image_mem_iff [OF start(1)] set_word_range word_less_nat_alt)
  moreover have "reserved ?caller (world t) = 0" using t(5) start(2) by blast
  ultimately obtain w1 w2 where w1: "on_world (session_set_keys B ?caller (bench_keys B (c + 1)))
        (t\<lparr>world := make_free_balance_be B ?caller (?min * 2) (world t)\<rparr>) = (Inr (), t\<lparr>world := w1\<rparr>)"
      "registered T w1 ?caller" "reserve T ?caller ?min w1 = (Inr (), w2)"
    using caller_ready [OF assms(1), of _ t] by blast
  let ?t = "t\<lparr>world := w1\<rparr>"
  have key: "unwrap (on_world (session_set_keys B ?caller (bench_keys B (c + 1))))
      (t\<lparr>world := make_free_balance_be B ?caller (?min * 2) (world t)\<rparr>) = (Inr () :: bench_error fault + unit, ?t)"
    by (rule unwrap_run, rule w1(1))
  have who: "cand_who ` set (candidates ?t) \<subseteq> range (account_of B ''candidate'')"
    by (auto simp: t(1) ready_candidates_def)
  have "\<exists>r. register_as_candidate T (Signed ?caller) ?t = (Inr r, after_register T ?caller w2 ?t)"
  proof (rule register_accepted)
    show "?caller \<notin> cand_who ` set (candidates ?t)" using who start(2) by blast
  qed (use w1 start(4) assms(2) in \<open>simp_all add: t(1-4) suc\<close>)
  then obtain r where call: "map_err DispatchFailed (collator_dispatch T (Signed ?caller) RegisterAsCandidate) ?t
      = (Inr r, after_register T ?caller w2 ?t)"
    by (auto simp: collator_dispatch_def run_transactional_Ok map_err_run)
  have "unat (?min * 2 div 2) = unat ?min"
    using twice_minimum [OF start(5)] by (simp add: unat_div)
  then have half: "?min * 2 div 2 = ?min" by (simp only: word_unat_eq_iff)
  have "passes (assert_last_event (collator_event T (CandidateAdded ?caller ?min))) (after_register T ?caller w2 ?t)"
    by (rule assert_last_event_passes) (simp add: after_register_def t(4))
  then show ?thesis
    by (simp add: bench_register_as_candidate_def Let_def half passes_def modify_def seq_def reg call
        set_free_run key)
qed

lemma bench_leave_intent_passes:
  fixes s :: "('ev, 'acc, 'w) collator_state" and T :: "('ev, 'acc, 'vid, 'w, 'x) collator_config_scheme"
  assumes "bench_start T B used reserved s" and "min_candidates T < c" and "unat c \<le> unat (max_candidates T)"
  shows "passes (bench_leave_intent T B c) s"
proof -
  have start: "inj (account_of B ''candidate'')" "candidates s = []"
    using assms(1) by (simp_all add: bench_start_def)
  let ?s = "s\<lparr>candidacy_bond := minimum_balance T, desired_candidates := c\<rparr>"
  have ready: "world ?s = world s" "invulnerables ?s = invulnerables s" "candidates ?s = []"
      "candidacy_bond ?s = minimum_balance T" "unat c \<le> unat (desired_candidates ?s)"
    by (simp_all add: start(2))
  obtain w as t where reg: "register_validators T B c ?s = (Inr as, ?s\<lparr>world := w\<rparr>)"
      "register_candidates T B c (?s\<lparr>world := w\<rparr>) = (Inr (), t)"
    and t: "candidates t = ready_candidates T B c"
    using candidates_ready [OF assms(1) ready assms(3)] by blast
  have "0 < unat c" using assms(2) by (simp add: word_less_nat_alt)
  then have some: "candidates t \<noteq> []" using t length_ready [of T B c] by fastforce
  let ?c = "last (candidates t)"
  have split: "candidates t = butlast (candidates t) @ ?c # []" using some by simp
  have dist: "distinct (map cand_who (candidates t))" unfolding t by (rule distinct_ready [OF start(1)])
  have "leave_intent T (Signed (cand_who ?c)) t = (Inr (Some (w_leave_intent (weight_info T)
      (of_nat (length (butlast (candidates t) @ []))))), after_removal T ?c (butlast (candidates t) @ []) t)"
    unfolding leave_run try_remove_run [OF split dist] using assms(2) by (simp add: t)
  then have call: "map_err DispatchFailed (collator_dispatch T (Signed (cand_who ?c)) LeaveIntent) t =
      (Inr (Some (w_leave_intent (weight_info T) (of_nat (length (butlast (candidates t) @ []))))),
       after_removal T ?c (butlast (candidates t) @ []) t)"
    by (simp add: collator_dispatch_def run_transactional_Ok map_err_run)
  have "passes (assert_last_event (collator_event T (CandidateRemoved (cand_who ?c))))
      (after_removal T ?c (butlast (candidates t) @ []) t)"
    by (rule assert_last_event_passes) (simp add: after_removal_def)
  then show ?thesis
    using some by (simp add: bench_leave_intent_def Let_def passes_def modify_def gets_def seq_def reg call
        expect_def ret_def)
qed

text \<open>What the benchmark of \<open>note_author\<close> relies on: a transfer that leaves the payer
  the minimum balance, and pays no less than it, succeeds.\<close>

definition bench_pays :: "('ev, 'acc, 'vid, 'w, 'x) collator_config_scheme \<Rightarrow> bool" where
  "bench_pays T \<longleftrightarrow> (\<forall>a b n w. a \<noteq> b \<and> minimum_balance T \<le> n
     \<and> unat n + unat (minimum_balance T) \<le> unat (free_balance T a w) \<and> free_balance T b w = 0 \<longrightarrow>
     (\<exists>w'. transfer_keep_alive T a b n w = (Inr (), w') \<and> free_balance T b w' = n))"

lemma bench_note_author_passes:
  fixes s :: "('ev, 'acc, 'w) collator_state" and T :: "('ev, 'acc, 'vid, 'w, 'x) collator_config_scheme"
  assumes "bench_start T B used reserved s" and "bench_pays T"
    and "account_of B ''author'' 0 \<noteq> pot_account T" and "free_balance T (account_of B ''author'' 0) (world s) = 0"
  shows "passes (bench_note_author T B) s"
proof -
  let ?min = "minimum_balance T" and ?pot = "pot_account T" and ?author = "account_of B ''author'' 0"
  have laws: "bench_laws T B used reserved" and small: "unat ?min * 1000 < 2 ^ 128" and pos: "0 < unat ?min"
    using assms(1) by (simp_all add: bench_start_def word_less_nat_alt)
  let ?w = "make_free_balance_be B ?pot (?min * 4) (world s)"
  have four: "unat (?min * 4) = unat ?min * 4" using small by (simp add: unat_word_ariths)
  then have "?min \<le> ?min * 4" by (simp add: word_le_nat_alt)
  then have pot: "free_balance T ?pot ?w = ?min * 4" by (rule bench_laws_balance(1) [OF laws])
  have author: "free_balance T ?author ?w = 0"
    using assms(3,4) by (simp add: bench_laws_balance(2) [OF laws])
  let ?pay = "(case checked_sub (?min * 4) ?min of None \<Rightarrow> 0 | Some r \<Rightarrow> r) div 2"
  have "unat (3 * ?min) = unat ?min * 3" using small by (simp add: unat_word_ariths)
  then have "unat ?pay = (unat ?min * 3) div 2"
    using \<open>?min \<le> ?min * 4\<close> by (simp add: checked_sub_def unat_div)
  then have pay: "?min \<le> ?pay" "unat ?pay + unat ?min \<le> unat (free_balance T ?pot ?w)"
    using pos four by (simp_all add: word_le_nat_alt pot)
  obtain w where w: "transfer_keep_alive T ?pot ?author ?pay ?w = (Inr (), w)" "free_balance T ?author w = ?pay"
    using assms(2,3) pay author unfolding bench_pays_def by metis
  have "0 < ?pay" using pay(1) pos by (simp add: word_less_nat_alt word_le_nat_alt)
  let ?s = "s\<lparr>candidacy_bond := ?min, world := ?w, block_number := 10\<rparr>"
  let ?t = "?s\<lparr>world := w, last_authored_block := (last_authored_block ?s)(?author \<mapsto> 10),
      extra_weights := extra_weights ?s @ [w_note_author (weight_info T)]\<rparr>"
  have call: "map_err DispatchFailed (note_author T ?author) ?s = (Inr (), ?t)"
    by (simp add: map_err_run note_author_run pot w(1))
  have "passes (seq (assert_that (\<lambda>s. 0 < free_balance T ?author (world s))) (\<lambda>_.
      assert_that (\<lambda>s. block_number s = 10))) ?t"
    using \<open>0 < ?pay\<close> by (intro passes_that passes_last(1)) (simp_all add: w(2))
  then show ?thesis
    by (simp add: bench_note_author_def Let_def passes_def modify_def seq_def set_free_run assert_that_def author call)
qed

text \<open>
  The other six benchmarks pass over the whole range of their parameter: no assertion,
  \<open>unwrap\<close> or index of theirs panics, the measured call succeeds and the verify block holds.
\<close>

theorem benchmarks_pass:
  fixes s :: "('ev, 'acc, 'w) collator_state"
  assumes "bench_start T B used reserved s"
  shows "(\<forall>b. b \<le> max_invulnerables T \<longrightarrow> passes (bench_set_invulnerables T B b) s)
    \<and> passes (bench_set_desired_candidates T B) s
    \<and> passes (bench_set_candidacy_bond T B) s
    \<and> (\<forall>c. c < max_candidates T \<longrightarrow> passes (bench_register_as_candidate T B c) s)
    \<and> (\<forall>c. min_candidates T < c \<and> c \<le> max_candidates T \<longrightarrow> passes (bench_leave_intent T B c) s)
    \<and> (bench_pays T \<and> account_of B ''author'' 0 \<noteq> pot_account T
         \<and> free_balance T (account_of B ''author'' 0) (world s) = 0 \<longrightarrow> passes (bench_note_author T B) s)"
  using bench_set_invulnerables_passes [OF assms] bench_set_desired_candidates_passes [OF assms]
    bench_set_candidacy_bond_passes [OF assms] bench_register_as_candidate_passes [OF assms]
    bench_leave_intent_passes [OF assms] bench_note_author_passes [OF assms]
  by (simp add: word_le_nat_alt word_less_nat_alt)

lemma demo_bench_pays: "bench_pays demo_bench_config"
  unfolding bench_pays_def
proof (intro allI impI)
  fix a b n w
  assume "a \<noteq> b \<and> minimum_balance demo_bench_config \<le> n
    \<and> unat n + unat (minimum_balance demo_bench_config) \<le> unat (free_balance demo_bench_config a w)
    \<and> free_balance demo_bench_config b w = 0"
  moreover then have "n \<le> bw_free w a" by (simp add: word_le_nat_alt demo_bench_config_def)
  ultimately show "\<exists>w'. transfer_keep_alive demo_bench_config a b n w = (Inr (), w') \<and> free_balance demo_bench_config b w' = n"
    by (auto simp: demo_bench_config_def word_le_nat_alt unat_sub)
qed

theorem benchmarks_pass_witness:
  "passes (bench_set_invulnerables demo_bench_config demo_bench_ops 20) demo_bench_start
    \<and> passes (bench_leave_intent demo_bench_config demo_bench_ops 6) demo_bench_start
    \<and> passes (bench_note_author demo_bench_config demo_bench_ops) demo_bench_start"
  using benchmarks_pass [OF demo_bench_ready] demo_bench_pays
  by (simp add: demo_bench_config_def demo_bench_ops_def demo_bench_start_def)

end
