(* ===== verification/Collator_Mock.thy ===== *)
theory Collator_Mock
  imports Collator_Session Test_Harness
begin

text \<open>
  The mock runtime of the collator-selection pallet
  (\<open>src/pallets/collator-selection/src/mock.rs\<close>) and the pallet's unit tests
  (\<open>tests.rs\<close>), as calls. The mock puts the pallet next to Substrate's balances, session
  and authorship pallets; their operations are the fields of \<open>mock_ops\<close>, and
  \<open>mock_laws\<close> in \<open>Collator_Mock_Laws\<close> states what they document. Two static variables of
  the mock record what the session pallet tells its handler.

  A rotation of the session is given the pallet's \<open>new_session\<close> and the handler's
  \<open>on_new_session\<close>. The mock's block numbers and balances are 64 bits wide; the tests
  stay far below the widths of the model.
\<close>

section \<open>The mock runtime\<close>

record 'w mock_state = "(u64 collator_event, u64, 'w) collator_state" +
  session_handler_collators :: "u64 list"
  session_change_block :: u32

type_synonym ('w, 'a) mock_call = "(dispatch_error, 'w mock_state, 'a) call"

record 'w mock_ops =
  mock_reserve :: "u64 \<Rightarrow> u128 \<Rightarrow> (dispatch_error, 'w, unit) call"
  mock_unreserve :: "u64 \<Rightarrow> u128 \<Rightarrow> 'w \<Rightarrow> u128 \<times> 'w"
  mock_transfer :: "u64 \<Rightarrow> u64 \<Rightarrow> u128 \<Rightarrow> (dispatch_error, 'w, unit) call"
  mock_free :: "u64 \<Rightarrow> 'w \<Rightarrow> u128"
  mock_make_free :: "u64 \<Rightarrow> u128 \<Rightarrow> 'w \<Rightarrow> 'w"
  insufficient_balance :: dispatch_error
  pot_id_account :: u64
  mock_db_weight :: db_weight
  balances_genesis :: "(u64 \<times> u128) list \<Rightarrow> 'w"
  session_genesis :: "(u32 \<Rightarrow> ('w, u64 list option) mock_call) \<Rightarrow> (u64 list \<Rightarrow> ('w, unit) mock_call) \<Rightarrow>
    u64 list \<Rightarrow> ('w, unit) mock_call"
  periodic_sessions :: "u32 \<Rightarrow> u32 \<Rightarrow> u32 \<Rightarrow> bool"
  rotate_session :: "(u32 \<Rightarrow> ('w, u64 list option) mock_call) \<Rightarrow> (u64 list \<Rightarrow> ('w, unit) mock_call) \<Rightarrow>
    ('w, unit) mock_call"
  session_validators :: "'w \<Rightarrow> u64 list"
  queued_keys :: "'w \<Rightarrow> u64 list"

definition find_author4 :: "u64 option" where
  "find_author4 = Some 4"

definition mock_is_registered :: "u64 \<Rightarrow> bool" where
  "mock_is_registered who = (if who = 7 then False else True)"

definition root_account :: u64 where
  "root_account = 777"

definition mock_period :: u32 where
  "mock_period = 10"

definition mock_offset :: u32 where
  "mock_offset = 0"

definition test_collators :: "'w mock_ops \<Rightarrow> (u64 collator_event, u64, u64, 'w) collator_config" where
  "test_collators B =
     \<lparr>collator_event = (\<lambda>e. e), update_origin = (\<lambda>o'. o' = Signed root_account),
      pot_account = pot_id_account B, max_candidates = 20, min_candidates = 1, max_invulnerables = 20,
      kick_threshold = mock_period, validator_id_of = identity_collator,
      is_registered = (\<lambda>who _. mock_is_registered who),
      reserve = mock_reserve B, unreserve = mock_unreserve B, transfer_keep_alive = mock_transfer B,
      free_balance = mock_free B, minimum_balance = 5,
      weight_info = unit_collator_weight (mock_db_weight B)\<rparr>"

definition on_genesis_session :: "u64 list \<Rightarrow> ('w, unit) mock_call" where
  "on_genesis_session keys = modify (\<lambda>s. s\<lparr>session_handler_collators := keys\<rparr>)"

definition on_new_session :: "u64 list \<Rightarrow> ('w, unit) mock_call" where
  "on_new_session keys =
     seq (modify (\<lambda>s. s\<lparr>session_change_block := block_number s\<rparr>)) (\<lambda>_.
     modify (\<lambda>s. s\<lparr>session_handler_collators := keys\<rparr>))"

text \<open>The storage before genesis: every value at its default, the mock's statics too.\<close>

definition collator_test_storage :: "'w mock_ops \<Rightarrow> 'w mock_state" where
  "collator_test_storage B = \<lparr>block_number = 0, events = [], invulnerables = [], candidates = [],
     last_authored_block = Map.empty, desired_candidates = 0, candidacy_bond = 0, extra_weights = [],
     world = balances_genesis B [(1, 100), (2, 100), (3, 100), (4, 100), (5, 100)],
     session_handler_collators = [], session_change_block = 0\<rparr>"

definition collator_test_ext :: "'w mock_ops \<Rightarrow> ('w, unit) mock_call" where
  "collator_test_ext B =
     (let balances = [(1, 100), (2, 100), (3, 100), (4, 100), (5, 100)] :: (u64 \<times> u128) list;
          keys = map fst balances in
      seq (genesis_build (test_collators B)
        \<lparr>g_invulnerables = [1, 2], g_candidacy_bond = 10, g_desired_candidates = 2\<rparr>) (\<lambda>_.
      session_genesis B (new_session (test_collators B)) on_genesis_session keys))"

text \<open>
  The hooks at the start of a block, in the order of \<open>construct_runtime!\<close>: the session
  pallet rotates when its period ends, the authorship pallet notes the author. Those of
  the system, timestamp, aura and balances pallets do not touch this storage.
\<close>

definition session_on_initialize :: "'w mock_ops \<Rightarrow> u32 \<Rightarrow> ('w, unit) mock_call" where
  "session_on_initialize B n =
     (if periodic_sessions B mock_period mock_offset n
      then rotate_session B (new_session (test_collators B)) on_new_session else ret ())"

definition authorship_on_initialize :: "'w mock_ops \<Rightarrow> ('w, unit) mock_call" where
  "authorship_on_initialize B =
     (case find_author4 of None \<Rightarrow> ret () | Some author \<Rightarrow> note_author (test_collators B) author)"

definition initialize_block :: "'w mock_ops \<Rightarrow> u32 \<Rightarrow> ('w, unit) mock_call" where
  "initialize_block B i =
     seq (modify (\<lambda>s. s\<lparr>block_number := i\<rparr>)) (\<lambda>_.
     seq (session_on_initialize B i) (\<lambda>_.
     authorship_on_initialize B))"

definition initialize_to_block :: "'w mock_ops \<Rightarrow> u32 \<Rightarrow> ('w, unit) mock_call" where
  "initialize_to_block B n =
     seq (gets block_number) (\<lambda>now. for_each (word_range (now + 1) (n + 1)) (initialize_block B))"

section \<open>The tests\<close>

text \<open>\<open>new_test_ext().execute_with(..)\<close>\<close>

definition execute_with :: "'w mock_ops \<Rightarrow> ('w, unit) mock_call \<Rightarrow> bool" where
  "execute_with B test = passes (seq (collator_test_ext B) (\<lambda>_. test)) (collator_test_storage B)"

abbreviation registers :: "'w mock_ops \<Rightarrow> u64 \<Rightarrow> ('w, unit) mock_call" where
  "registers B who \<equiv> assert_ok (register_as_candidate (test_collators B) (Signed who))"

abbreviation registers_not :: "'w mock_ops \<Rightarrow> u64 \<Rightarrow> dispatch_error \<Rightarrow> ('w, unit) mock_call" where
  "registers_not B who e \<equiv> assert_noop (register_as_candidate (test_collators B) (Signed who)) e"

abbreviation balance_is :: "'w mock_ops \<Rightarrow> u64 \<Rightarrow> u128 \<Rightarrow> ('w, unit) mock_call" where
  "balance_is B who n \<equiv> assert_that (\<lambda>s. mock_free B who (world s) = n)"

abbreviation test_collator :: "u64 \<Rightarrow> u64 candidate_info" where
  "test_collator who \<equiv> \<lparr>cand_who = who, cand_deposit = 10\<rparr>"

definition basic_setup_works :: "('w, unit) mock_call" where
  "basic_setup_works =
     seq (assert_that (\<lambda>s. desired_candidates s = 2)) (\<lambda>_.
     seq (assert_that (\<lambda>s. candidacy_bond s = 10)) (\<lambda>_.
     seq (assert_that (\<lambda>s. candidates s = [])) (\<lambda>_.
     assert_that (\<lambda>s. invulnerables s = [1, 2]))))"

definition it_should_set_invulnerables :: "'w mock_ops \<Rightarrow> ('w, unit) mock_call" where
  "it_should_set_invulnerables B =
     (let T = test_collators B; new_set = [1, 2, 3, 4] in
      seq (assert_ok (set_invulnerables T (Signed root_account) new_set)) (\<lambda>_.
      seq (assert_that (\<lambda>s. invulnerables s = new_set)) (\<lambda>_.
      seq (assert_noop (set_invulnerables T (Signed 1) new_set) BadOrigin) (\<lambda>_.
      assert_noop (set_invulnerables T (Signed root_account) [7]) (Collator ValidatorNotRegistered)))))"

definition set_desired_candidates_works :: "'w mock_ops \<Rightarrow> ('w, unit) mock_call" where
  "set_desired_candidates_works B =
     (let T = test_collators B in
      seq (assert_that (\<lambda>s. desired_candidates s = 2)) (\<lambda>_.
      seq (assert_ok (set_desired_candidates T (Signed root_account) 7)) (\<lambda>_.
      seq (assert_that (\<lambda>s. desired_candidates s = 7)) (\<lambda>_.
      assert_noop (set_desired_candidates T (Signed 1) 8) BadOrigin))))"

definition set_candidacy_bond_works :: "'w mock_ops \<Rightarrow> ('w, unit) mock_call" where
  "set_candidacy_bond_works B =
     (let T = test_collators B in
      seq (assert_that (\<lambda>s. candidacy_bond s = 10)) (\<lambda>_.
      seq (assert_ok (set_candidacy_bond T (Signed root_account) 7)) (\<lambda>_.
      seq (assert_that (\<lambda>s. candidacy_bond s = 7)) (\<lambda>_.
      assert_noop (set_candidacy_bond T (Signed 1) 8) BadOrigin))))"

definition cannot_register_candidate_if_too_many :: "'w mock_ops \<Rightarrow> ('w, unit) mock_call" where
  "cannot_register_candidate_if_too_many B =
     seq (modify (\<lambda>s. s\<lparr>desired_candidates := 0\<rparr>)) (\<lambda>_.
     seq (registers_not B 3 (Collator TooManyCandidates)) (\<lambda>_.
     seq (modify (\<lambda>s. s\<lparr>desired_candidates := 1\<rparr>)) (\<lambda>_.
     seq (registers B 4) (\<lambda>_.
     registers_not B 5 (Collator TooManyCandidates)))))"

definition cannot_unregister_candidate_if_too_few :: "'w mock_ops \<Rightarrow> ('w, unit) mock_call" where
  "cannot_unregister_candidate_if_too_few B =
     seq (modify (\<lambda>s. s\<lparr>desired_candidates := 1\<rparr>)) (\<lambda>_.
     seq (registers B 4) (\<lambda>_.
     assert_noop (leave_intent (test_collators B) (Signed 4)) (Collator TooFewCandidates)))"

definition cannot_register_as_candidate_if_invulnerable :: "'w mock_ops \<Rightarrow> ('w, unit) mock_call" where
  "cannot_register_as_candidate_if_invulnerable B =
     seq (assert_that (\<lambda>s. invulnerables s = [1, 2])) (\<lambda>_.
     registers_not B 1 (Collator AlreadyInvulnerable))"

definition cannot_register_as_candidate_if_keys_not_registered :: "'w mock_ops \<Rightarrow> ('w, unit) mock_call" where
  "cannot_register_as_candidate_if_keys_not_registered B = registers_not B 7 (Collator ValidatorNotRegistered)"

definition cannot_register_dupe_candidate :: "'w mock_ops \<Rightarrow> ('w, unit) mock_call" where
  "cannot_register_dupe_candidate B =
     seq (registers B 3) (\<lambda>_.
     seq (assert_that (\<lambda>s. candidates s = [test_collator 3])) (\<lambda>_.
     seq (assert_that (\<lambda>s. last_block_of s 3 = 10)) (\<lambda>_.
     seq (balance_is B 3 90) (\<lambda>_.
     registers_not B 3 (Collator AlreadyCandidate)))))"

definition cannot_register_as_candidate_if_poor :: "'w mock_ops \<Rightarrow> ('w, unit) mock_call" where
  "cannot_register_as_candidate_if_poor B =
     seq (balance_is B 3 100) (\<lambda>_.
     seq (balance_is B 33 0) (\<lambda>_.
     seq (registers B 3) (\<lambda>_.
     registers_not B 33 (insufficient_balance B))))"

definition register_as_candidate_works :: "'w mock_ops \<Rightarrow> ('w, unit) mock_call" where
  "register_as_candidate_works B =
     seq (assert_that (\<lambda>s. desired_candidates s = 2)) (\<lambda>_.
     seq (assert_that (\<lambda>s. candidacy_bond s = 10)) (\<lambda>_.
     seq (assert_that (\<lambda>s. candidates s = [])) (\<lambda>_.
     seq (assert_that (\<lambda>s. invulnerables s = [1, 2])) (\<lambda>_.
     seq (balance_is B 3 100) (\<lambda>_.
     seq (balance_is B 4 100) (\<lambda>_.
     seq (registers B 3) (\<lambda>_.
     seq (registers B 4) (\<lambda>_.
     seq (balance_is B 3 90) (\<lambda>_.
     seq (balance_is B 4 90) (\<lambda>_.
     assert_that (\<lambda>s. length (candidates s) = 2)))))))))))"

definition leave_intent_works :: "'w mock_ops \<Rightarrow> ('w, unit) mock_call" where
  "leave_intent_works B =
     seq (registers B 3) (\<lambda>_.
     seq (balance_is B 3 90) (\<lambda>_.
     seq (registers B 5) (\<lambda>_.
     seq (balance_is B 5 90) (\<lambda>_.
     seq (assert_noop (leave_intent (test_collators B) (Signed 4)) (Collator NotCandidate)) (\<lambda>_.
     seq (assert_ok (leave_intent (test_collators B) (Signed 3))) (\<lambda>_.
     seq (balance_is B 3 100) (\<lambda>_.
     assert_that (\<lambda>s. last_block_of s 3 = 0))))))))"

abbreviation put_in_pot :: "'w mock_ops \<Rightarrow> u128 \<Rightarrow> ('w, unit) mock_call" where
  "put_in_pot B n \<equiv> modify (\<lambda>s. s\<lparr>world := mock_make_free B (pot_id_account B) n (world s)\<rparr>)"

definition authorship_event_handler :: "'w mock_ops \<Rightarrow> ('w, unit) mock_call" where
  "authorship_event_handler B =
     seq (put_in_pot B 105) (\<lambda>_.
     seq (balance_is B 4 100) (\<lambda>_.
     seq (registers B 4) (\<lambda>_.
     seq (authorship_on_initialize B) (\<lambda>_.
     seq (assert_that (\<lambda>s. candidates s = [test_collator 4])) (\<lambda>_.
     seq (assert_that (\<lambda>s. last_block_of s 4 = 0)) (\<lambda>_.
     seq (balance_is B 4 140) (\<lambda>_.
     balance_is B (pot_id_account B) 55)))))))"

definition fees_edgecases :: "'w mock_ops \<Rightarrow> ('w, unit) mock_call" where
  "fees_edgecases B =
     seq (authorship_on_initialize B) (\<lambda>_.
     seq (put_in_pot B 5) (\<lambda>_.
     seq (balance_is B 4 100) (\<lambda>_.
     seq (registers B 4) (\<lambda>_.
     seq (authorship_on_initialize B) (\<lambda>_.
     seq (assert_that (\<lambda>s. candidates s = [test_collator 4])) (\<lambda>_.
     seq (assert_that (\<lambda>s. last_block_of s 4 = 0)) (\<lambda>_.
     seq (balance_is B 4 90) (\<lambda>_.
     balance_is B (pot_id_account B) 5))))))))"

definition session_management_works :: "'w mock_ops \<Rightarrow> ('w, unit) mock_call" where
  "session_management_works B =
     seq (initialize_to_block B 1) (\<lambda>_.
     seq (assert_that (\<lambda>s. session_change_block s = 0)) (\<lambda>_.
     seq (assert_that (\<lambda>s. session_handler_collators s = [1, 2])) (\<lambda>_.
     seq (initialize_to_block B 4) (\<lambda>_.
     seq (assert_that (\<lambda>s. session_change_block s = 0)) (\<lambda>_.
     seq (assert_that (\<lambda>s. session_handler_collators s = [1, 2])) (\<lambda>_.
     seq (registers B 3) (\<lambda>_.
     seq (assert_that (\<lambda>s. session_handler_collators s = [1, 2])) (\<lambda>_.
     seq (assert_that (\<lambda>s. length (candidates s) = 1)) (\<lambda>_.
     seq (initialize_to_block B 10) (\<lambda>_.
     seq (assert_that (\<lambda>s. session_change_block s = 10)) (\<lambda>_.
     seq (assert_that (\<lambda>s. session_validators B (world s) = [1, 2])) (\<lambda>_.
     seq (assert_that (\<lambda>s. length (queued_keys B (world s)) = 3)) (\<lambda>_.
     seq (assert_that (\<lambda>s. session_handler_collators s = [1, 2])) (\<lambda>_.
     seq (initialize_to_block B 20) (\<lambda>_.
     seq (assert_that (\<lambda>s. session_change_block s = 20)) (\<lambda>_.
     assert_that (\<lambda>s. session_handler_collators s = [1, 2, 3])))))))))))))))))"

definition kick_mechanism :: "'w mock_ops \<Rightarrow> ('w, unit) mock_call" where
  "kick_mechanism B =
     seq (registers B 3) (\<lambda>_.
     seq (registers B 4) (\<lambda>_.
     seq (initialize_to_block B 10) (\<lambda>_.
     seq (assert_that (\<lambda>s. length (candidates s) = 2)) (\<lambda>_.
     seq (initialize_to_block B 20) (\<lambda>_.
     seq (assert_that (\<lambda>s. session_change_block s = 20)) (\<lambda>_.
     seq (assert_that (\<lambda>s. length (candidates s) = 1)) (\<lambda>_.
     seq (assert_that (\<lambda>s. session_handler_collators s = [1, 2, 3, 4])) (\<lambda>_.
     seq (assert_that (\<lambda>s. candidates s = [test_collator 4])) (\<lambda>_.
     seq (assert_that (\<lambda>s. last_block_of s 4 = 20)) (\<lambda>_.
     seq (initialize_to_block B 30) (\<lambda>_.
     seq (assert_that (\<lambda>s. session_handler_collators s = [1, 2, 4])) (\<lambda>_.
     balance_is B 3 100))))))))))))"

definition should_not_kick_mechanism_too_few :: "'w mock_ops \<Rightarrow> ('w, unit) mock_call" where
  "should_not_kick_mechanism_too_few B =
     seq (registers B 3) (\<lambda>_.
     seq (registers B 5) (\<lambda>_.
     seq (initialize_to_block B 10) (\<lambda>_.
     seq (assert_that (\<lambda>s. length (candidates s) = 2)) (\<lambda>_.
     seq (initialize_to_block B 20) (\<lambda>_.
     seq (assert_that (\<lambda>s. session_change_block s = 20)) (\<lambda>_.
     seq (assert_that (\<lambda>s. length (candidates s) = 1)) (\<lambda>_.
     seq (assert_that (\<lambda>s. session_handler_collators s = [1, 2, 3, 5])) (\<lambda>_.
     seq (assert_that (\<lambda>s. candidates s = [test_collator 5])) (\<lambda>_.
     seq (assert_that (\<lambda>s. last_block_of s 4 = 20)) (\<lambda>_.
     seq (initialize_to_block B 30) (\<lambda>_.
     seq (assert_that (\<lambda>s. session_handler_collators s = [1, 2, 5])) (\<lambda>_.
     balance_is B 3 100))))))))))))"

text \<open>This test runs on the default storage and should panic.\<close>

definition cannot_set_genesis_value_twice :: "'w mock_ops \<Rightarrow> ('w, unit) mock_call" where
  "cannot_set_genesis_value_twice B = genesis_build (test_collators B)
     \<lparr>g_invulnerables = [1, 1], g_candidacy_bond = 10, g_desired_candidates = 2\<rparr>"

end
