(* ===== verification/Collator_Mock_Laws.thy ===== *)
theory Collator_Mock_Laws
  imports Collator_Mock Collator_Deposits
begin

text \<open>
  What the mock's neighbours document (\<open>mock_laws\<close>), what the tests see of the storage
  (\<open>mock_view\<close>), and a rule per operation that runs a test forward: from the view before
  to the view after. A rotation of the session puts the queued validators in charge and
  queues what \<open>new_session\<close> returns, so a change is one session late.
\<close>

section \<open>What the neighbours document\<close>

definition same_session :: "'w mock_ops \<Rightarrow> 'w \<Rightarrow> 'w \<Rightarrow> bool" where
  "same_session B w w' \<longleftrightarrow>
     session_validators B w' = session_validators B w \<and> queued_keys B w' = queued_keys B w"

definition same_balances :: "'w mock_ops \<Rightarrow> (u64 \<Rightarrow> 'w \<Rightarrow> u128) \<Rightarrow> 'w \<Rightarrow> 'w \<Rightarrow> bool" where
  "same_balances B res w w' \<longleftrightarrow> (\<forall>a. mock_free B a w' = mock_free B a w \<and> res a w' = res a w)"

text \<open>A transfer that leaves the payer the minimum balance, to an account that exists.\<close>

definition transfer_law :: "'w mock_ops \<Rightarrow> (u64 \<Rightarrow> 'w \<Rightarrow> u128) \<Rightarrow> bool" where
  "transfer_law B res \<longleftrightarrow> (\<forall>a b n w. a \<noteq> b \<and> unat n + 5 \<le> unat (mock_free B a w) \<and> 5 \<le> mock_free B b w
     \<and> unat (mock_free B b w) + unat n < 2 ^ 128 \<longrightarrow>
     (\<exists>w'. mock_transfer B a b n w = (Inr (), w') \<and> same_session B w w'
       \<and> (\<lambda>x. mock_free B x w') = (\<lambda>x. mock_free B x w)(a := mock_free B a w - n, b := mock_free B b w + n)
       \<and> (\<lambda>x. res x w') = (\<lambda>x. res x w)))"

definition balance_laws :: "'w mock_ops \<Rightarrow> (u64 \<Rightarrow> 'w \<Rightarrow> u128) \<Rightarrow> bool" where
  "balance_laws B res \<longleftrightarrow>
     currency_laws (test_collators B) res
     \<and> (\<forall>a n w. unat n + 5 \<le> unat (mock_free B a w) \<and> unat (res a w) + unat n < 2 ^ 128 \<longrightarrow>
          (\<exists>w'. mock_reserve B a n w = (Inr (), w')))
     \<and> (\<forall>a n w. mock_free B a w < n \<longrightarrow> mock_reserve B a n w = (Inl (Err (insufficient_balance B)), w))
     \<and> (\<forall>a n w r w'. mock_reserve B a n w = (r, w') \<longrightarrow> same_session B w w')
     \<and> (\<forall>a n w. same_session B w (snd (mock_unreserve B a n w)))
     \<and> (\<forall>a b w. mock_transfer B a b 0 w = (Inr (), w))
     \<and> transfer_law B res
     \<and> (\<forall>a n w. 5 \<le> n \<longrightarrow> same_session B w (mock_make_free B a n w)
          \<and> (\<forall>x. mock_free B x (mock_make_free B a n w) = ((\<lambda>x. mock_free B x w)(a := n)) x
                \<and> res x (mock_make_free B a n w) = res x w))
     \<and> (\<forall>a bs. mock_free B a (balances_genesis B bs) = (case map_of bs a of None \<Rightarrow> 0 | Some n \<Rightarrow> n)
          \<and> res a (balances_genesis B bs) = 0)
     \<and> pot_id_account B \<notin> {1, 2, 3, 4, 5}"

text \<open>
  At genesis \<open>new_session\<close> is asked for the first two sessions; the handler gets the second
  one's validators. A rotation asks it for the session after the next.
\<close>

definition genesis_law :: "'w mock_ops \<Rightarrow> (u64 \<Rightarrow> 'w \<Rightarrow> u128) \<Rightarrow> bool" where
  "genesis_law B res \<longleftrightarrow> (\<forall>ns h keys s. \<exists>w. same_balances B res (world s) w
     \<and> (\<forall>v s0 v' s1. ns 0 (s\<lparr>world := w\<rparr>) = (Inr (Some v), s0) \<longrightarrow> ns 1 s0 = (Inr (Some v'), s1) \<longrightarrow>
         (\<exists>w1. session_genesis B ns h keys s = h v' (s1\<lparr>world := w1\<rparr>) \<and> same_balances B res (world s1) w1
           \<and> session_validators B w1 = v \<and> queued_keys B w1 = v')))"

definition rotation_law :: "'w mock_ops \<Rightarrow> (u64 \<Rightarrow> 'w \<Rightarrow> u128) \<Rightarrow> bool" where
  "rotation_law B res \<longleftrightarrow> (\<forall>ns h s. \<exists>i w. same_balances B res (world s) w
     \<and> (\<forall>r t. ns i (s\<lparr>world := w\<rparr>) = (Inr r, t) \<longrightarrow>
         (\<exists>w1 evs. rotate_session B ns h s = h (queued_keys B (world s)) (t\<lparr>world := w1, events := events t @ evs\<rparr>)
           \<and> same_balances B res (world t) w1 \<and> session_validators B w1 = queued_keys B (world s)
           \<and> queued_keys B w1 = (case r of None \<Rightarrow> queued_keys B (world s) | Some v \<Rightarrow> v))))"

definition session_laws :: "'w mock_ops \<Rightarrow> (u64 \<Rightarrow> 'w \<Rightarrow> u128) \<Rightarrow> bool" where
  "session_laws B res \<longleftrightarrow>
     (\<forall>period offset n. periodic_sessions B period offset n \<longleftrightarrow>
        offset \<le> n \<and> (unat n - unat offset) mod unat period = 0)
     \<and> genesis_law B res \<and> rotation_law B res"

definition mock_laws :: "'w mock_ops \<Rightarrow> (u64 \<Rightarrow> 'w \<Rightarrow> u128) \<Rightarrow> bool" where
  "mock_laws B res \<longleftrightarrow> balance_laws B res \<and> session_laws B res"

lemma mock_lawsD:
  assumes "mock_laws B res"
  shows mock_currency: "currency_laws (test_collators B) res"
    and mock_reserve_ok: "unat n + 5 \<le> unat (mock_free B a w) \<Longrightarrow> unat (res a w) + unat n < 2 ^ 128 \<Longrightarrow>
      \<exists>w'. mock_reserve B a n w = (Inr (), w')"
    and mock_reserve_poor: "mock_free B a w < n \<Longrightarrow> mock_reserve B a n w = (Inl (Err (insufficient_balance B)), w)"
    and mock_reserve_session: "mock_reserve B a n w = (r, w') \<Longrightarrow> same_session B w w'"
    and mock_unreserve_session: "same_session B w (snd (mock_unreserve B a n w))"
    and mock_transfer_nothing: "mock_transfer B a b 0 w = (Inr (), w)"
    and mock_pot: "pot_id_account B \<notin> {1, 2, 3, 4, 5}"
    and mock_genesis_free: "mock_free B a (balances_genesis B bs) = (case map_of bs a of None \<Rightarrow> 0 | Some n \<Rightarrow> n)"
    and mock_genesis_res: "res a (balances_genesis B bs) = 0"
    and mock_periodic: "periodic_sessions B period offset m \<longleftrightarrow>
        offset \<le> m \<and> (unat m - unat offset) mod unat period = 0"
  using assms unfolding mock_laws_def balance_laws_def session_laws_def by (blast | simp)+

lemma mock_transfer_ok:
  assumes "mock_laws B res" and "a \<noteq> b" and "unat n + 5 \<le> unat (mock_free B a w)" and "5 \<le> mock_free B b w"
    and "unat (mock_free B b w) + unat n < 2 ^ 128"
  shows "\<exists>w'. mock_transfer B a b n w = (Inr (), w') \<and> same_session B w w'
    \<and> (\<lambda>x. mock_free B x w') = (\<lambda>x. mock_free B x w)(a := mock_free B a w - n, b := mock_free B b w + n)
    \<and> (\<lambda>x. res x w') = (\<lambda>x. res x w)"
proof -
  have "transfer_law B res" using assms(1) by (simp add: mock_laws_def balance_laws_def)
  from this [unfolded transfer_law_def, rule_format, OF conjI [OF assms(2) conjI [OF assms(3) conjI [OF assms(4,5)]]]]
  show ?thesis .
qed

lemma mock_make_free_ok:
  assumes "mock_laws B res" and "5 \<le> n"
  shows "same_session B w (mock_make_free B a n w)"
    and "(\<lambda>x. mock_free B x (mock_make_free B a n w)) = (\<lambda>x. mock_free B x w)(a := n)"
    and "(\<lambda>x. res x (mock_make_free B a n w)) = (\<lambda>x. res x w)"
  using assms unfolding mock_laws_def balance_laws_def by (simp_all add: fun_eq_iff)

lemma mock_genesis:
  assumes "mock_laws B res"
  shows "\<exists>w. same_balances B res (world s) w
     \<and> (\<forall>v s0 v' s1. ns 0 (s\<lparr>world := w\<rparr>) = (Inr (Some v), s0) \<longrightarrow> ns 1 s0 = (Inr (Some v'), s1) \<longrightarrow>
         (\<exists>w1. session_genesis B ns h keys s = h v' (s1\<lparr>world := w1\<rparr>) \<and> same_balances B res (world s1) w1
           \<and> session_validators B w1 = v \<and> queued_keys B w1 = v'))"
proof -
  have "genesis_law B res" using assms by (simp add: mock_laws_def session_laws_def)
  then show ?thesis unfolding genesis_law_def by (elim allE)
qed

lemma mock_rotation:
  assumes "mock_laws B res"
  shows "\<exists>i w. same_balances B res (world s) w
     \<and> (\<forall>r t. ns i (s\<lparr>world := w\<rparr>) = (Inr r, t) \<longrightarrow>
         (\<exists>w1 evs. rotate_session B ns h s = h (queued_keys B (world s)) (t\<lparr>world := w1, events := events t @ evs\<rparr>)
           \<and> same_balances B res (world t) w1 \<and> session_validators B w1 = queued_keys B (world s)
           \<and> queued_keys B w1 = (case r of None \<Rightarrow> queued_keys B (world s) | Some v \<Rightarrow> v)))"
proof -
  have "rotation_law B res" using assms by (simp add: mock_laws_def session_laws_def)
  then show ?thesis unfolding rotation_law_def by (elim allE)
qed

section \<open>What a test sees\<close>

record mock_view =
  v_block :: u32
  v_candidates :: "u64 candidate_info list"
  v_invulnerables :: "u64 list"
  v_last :: "u64 \<rightharpoonup> u32"
  v_desired :: u32
  v_bond :: u128
  v_free :: "u64 \<Rightarrow> u128"
  v_reserved :: "u64 \<Rightarrow> u128"
  v_validators :: "u64 list"
  v_queued :: "u64 list"
  v_handler :: "u64 list"
  v_change :: u32

definition view_of :: "'w mock_ops \<Rightarrow> (u64 \<Rightarrow> 'w \<Rightarrow> u128) \<Rightarrow> 'w mock_state \<Rightarrow> mock_view" where
  "view_of B res s = \<lparr>v_block = block_number s, v_candidates = candidates s, v_invulnerables = invulnerables s,
     v_last = last_authored_block s, v_desired = desired_candidates s, v_bond = candidacy_bond s,
     v_free = (\<lambda>a. mock_free B a (world s)), v_reserved = (\<lambda>a. res a (world s)),
     v_validators = session_validators B (world s), v_queued = queued_keys B (world s),
     v_handler = session_handler_collators s, v_change = session_change_block s\<rparr>"

lemma viewD:
  assumes "view_of B res s = V"
  shows "block_number s = v_block V" "candidates s = v_candidates V" "invulnerables s = v_invulnerables V"
    "last_authored_block s = v_last V" "desired_candidates s = v_desired V" "candidacy_bond s = v_bond V"
    "mock_free B a (world s) = v_free V a" "res a (world s) = v_reserved V a"
    "session_validators B (world s) = v_validators V" "queued_keys B (world s) = v_queued V"
    "session_handler_collators s = v_handler V" "session_change_block s = v_change V"
  using assms [symmetric] by (simp_all add: view_of_def)

lemma test_collators_sel [simp]:
  "update_origin (test_collators B) o' \<longleftrightarrow> o' = Signed root_account"
  "pot_account (test_collators B) = pot_id_account B"
  "max_candidates (test_collators B) = 20" "min_candidates (test_collators B) = 1"
  "max_invulnerables (test_collators B) = 20" "kick_threshold (test_collators B) = 10"
  "validator_id_of (test_collators B) = identity_collator"
  "is_registered (test_collators B) a w = mock_is_registered a"
  "reserve (test_collators B) = mock_reserve B" "unreserve (test_collators B) = mock_unreserve B"
  "transfer_keep_alive (test_collators B) = mock_transfer B"
  "free_balance (test_collators B) = mock_free B" "minimum_balance (test_collators B) = 5"
  by (simp_all add: test_collators_def mock_period_def)

lemma registered_mock [simp]: "registered (test_collators B) w a \<longleftrightarrow> a \<noteq> 7"
  by (simp add: registered_def identity_collator_def mock_is_registered_def)

definition start_view :: mock_view where
  "start_view = \<lparr>v_block = 0, v_candidates = [], v_invulnerables = [1, 2], v_last = Map.empty, v_desired = 2,
     v_bond = 10, v_free = (\<lambda>_. 0)(1 := 100, 2 := 100, 3 := 100, 4 := 100, 5 := 100), v_reserved = (\<lambda>_. 0),
     v_validators = [1, 2], v_queued = [1, 2], v_handler = [1, 2], v_change = 0\<rparr>"

section \<open>Registering\<close>

lemma register_view:
  assumes "mock_laws B res" and "view_of B res s = V"
    and "a \<notin> set (v_invulnerables V)" and "a \<noteq> 7" and "a \<notin> cand_who ` set (v_candidates V)"
    and "length (v_candidates V) < unat (v_desired V)" and "length (v_candidates V) < 20"
    and "unat (v_bond V) + 5 \<le> unat (v_free V a)" and "unat (v_reserved V a) + unat (v_bond V) < 2 ^ 128"
  shows "\<exists>r t. register_as_candidate (test_collators B) (Signed a) s = (Inr r, t)
    \<and> view_of B res t = V\<lparr>v_candidates := v_candidates V @ [\<lparr>cand_who = a, cand_deposit = v_bond V\<rparr>],
        v_last := (v_last V)(a \<mapsto> v_block V + 10),
        v_free := (v_free V)(a := v_free V a - v_bond V),
        v_reserved := (v_reserved V)(a := v_reserved V a + v_bond V)\<rparr>"
proof -
  note view = viewD [OF assms(2)]
  obtain w where w: "mock_reserve B a (v_bond V) (world s) = (Inr (), w)"
    using mock_reserve_ok [OF assms(1), of "v_bond V" a "world s"] assms(8,9) by (auto simp: view)
  have "mock_free B a w = v_free V a - v_bond V \<and> res a w = v_reserved V a + v_bond V
      \<and> (\<forall>x. x \<noteq> a \<longrightarrow> mock_free B x w = v_free V x \<and> res x w = v_reserved V x)"
    using mock_currency [OF assms(1)] w unfolding currency_laws_def test_collators_sel view [symmetric] by blast
  then have "(\<lambda>x. mock_free B x w) = (v_free V)(a := v_free V a - v_bond V)"
      "(\<lambda>x. res x w) = (v_reserved V)(a := v_reserved V a + v_bond V)" by (auto simp: fun_eq_iff)
  moreover have "same_session B (world s) w" by (rule mock_reserve_session [OF assms(1) w])
  moreover have "(of_nat (length (v_candidates V)) :: u32) < v_desired V"
    by (rule unat_length_less(1) [OF assms(6)])
  ultimately show ?thesis
    using assms(2-7) w by (auto simp: register_run view identity_collator_def mock_is_registered_def
        after_register_def view_of_def same_session_def)
qed

section \<open>Genesis\<close>

lemma quiet_session:
  assumes "candidates s = []"
  shows "\<exists>ws. new_session (test_collators B) i s = (Inr (Some (invulnerables s)), s\<lparr>extra_weights := ws\<rparr>)"
  using assms by (auto simp: new_session_def kick_stale_candidates_def assemble_collators_def
      register_extra_weight_def call_simps Let_def try_bounded_def)

lemma genesis_view:
  assumes "mock_laws B res"
  shows "\<exists>s. collator_test_ext B (collator_test_storage B) = (Inr (), s) \<and> view_of B res s = start_view"
proof -
  let ?s = "(collator_test_storage B)\<lparr>desired_candidates := 2, candidacy_bond := 10, invulnerables := [1, 2]\<rparr>"
  have build: "genesis_build (test_collators B)
      \<lparr>g_invulnerables = [1, 2], g_candidacy_bond = 10, g_desired_candidates = 2\<rparr> (collator_test_storage B)
      = (Inr () :: dispatch_error fault + unit, ?s)"
    by (simp add: genesis_build_def call_simps try_bounded_def)
  obtain w where w: "same_balances B res (world ?s) w"
    and law: "\<And>v s0 v' s1. new_session (test_collators B) 0 (?s\<lparr>world := w\<rparr>) = (Inr (Some v), s0) \<Longrightarrow>
        new_session (test_collators B) 1 s0 = (Inr (Some v'), s1) \<Longrightarrow>
        \<exists>w1. session_genesis B (new_session (test_collators B)) on_genesis_session [1, 2, 3, 4, 5] ?s
            = on_genesis_session v' (s1\<lparr>world := w1\<rparr>)
          \<and> same_balances B res (world s1) w1 \<and> session_validators B w1 = v \<and> queued_keys B w1 = v'"
    using mock_genesis [OF assms, of ?s "new_session (test_collators B)" on_genesis_session "[1, 2, 3, 4, 5]"] by blast
  have none: "candidates (?s\<lparr>world := w\<rparr>) = []" by (simp add: collator_test_storage_def)
  obtain ws where first: "new_session (test_collators B) 0 (?s\<lparr>world := w\<rparr>)
      = (Inr (Some [1, 2]), ?s\<lparr>world := w, extra_weights := ws\<rparr>)"
    using quiet_session [OF none, of B 0] by auto
  have none': "candidates (?s\<lparr>world := w, extra_weights := ws\<rparr>) = []" by (simp add: collator_test_storage_def)
  obtain ws' where second: "new_session (test_collators B) 1 (?s\<lparr>world := w, extra_weights := ws\<rparr>)
      = (Inr (Some [1, 2]), ?s\<lparr>world := w, extra_weights := ws'\<rparr>)"
    using quiet_session [OF none', of B 1] by auto
  from law [OF first second] obtain w1 where
    w1: "session_genesis B (new_session (test_collators B)) on_genesis_session [1, 2, 3, 4, 5] ?s
        = on_genesis_session [1, 2] (?s\<lparr>extra_weights := ws', world := w1\<rparr>)"
      "same_balances B res w w1" "session_validators B w1 = [1, 2]" "queued_keys B w1 = [1, 2]"
    by auto
  let ?bs = "[(1, 100), (2, 100), (3, 100), (4, 100), (5, 100)] :: (u64 \<times> u128) list"
  have "mock_free B a w1 = mock_free B a (balances_genesis B ?bs) \<and> res a w1 = res a (balances_genesis B ?bs)" for a
    using w w1(2) by (simp add: same_balances_def collator_test_storage_def)
  then have bal: "(\<lambda>a. mock_free B a w1) = (\<lambda>_. 0)(1 := 100, 2 := 100, 3 := 100, 4 := 100, 5 := 100)"
      "(\<lambda>a. res a w1) = (\<lambda>_. 0)"
    by (auto simp: fun_eq_iff mock_genesis_free [OF assms] mock_genesis_res [OF assms])
  have "collator_test_ext B (collator_test_storage B)
      = on_genesis_session [1, 2] (?s\<lparr>extra_weights := ws', world := w1\<rparr>)"
    by (simp add: collator_test_ext_def Let_def seq_def build w1(1))
  then show ?thesis
    by (simp add: on_genesis_session_def modify_def view_of_def start_view_def bal w1(3,4))
      (simp add: collator_test_storage_def)
qed

lemma execute_withI:
  assumes "mock_laws B res" and "\<And>s. view_of B res s = start_view \<Longrightarrow> passes test s"
  shows "execute_with B test"
proof -
  obtain s where "collator_test_ext B (collator_test_storage B) = (Inr (), s)" "view_of B res s = start_view"
    using genesis_view [OF assms(1)] by blast
  with assms(2) show ?thesis unfolding execute_with_def by (intro passes_then)
qed

section \<open>Blocks\<close>

definition author_view :: "mock_view \<Rightarrow> mock_view" where
  "author_view V = V\<lparr>v_last := (v_last V)(4 \<mapsto> v_block V)\<rparr>"

text \<open>A pot at or below the minimum balance has nothing to give.\<close>

lemma author_view_run:
  assumes "mock_laws B res" and "view_of B res s = V" and "v_free V (pot_id_account B) \<le> 5"
  shows "\<exists>t. authorship_on_initialize B s = (Inr (), t) \<and> view_of B res t = author_view V"
proof -
  have "(case checked_sub (v_free V (pot_id_account B)) 5 of None \<Rightarrow> 0 | Some r \<Rightarrow> r) div 2 = 0"
    using assms(3) by (auto simp: checked_sub_def)
  then show ?thesis
    using assms(2) by (simp add: authorship_on_initialize_def find_author4_def note_author_run
        viewD [OF assms(2)] mock_transfer_nothing [OF assms(1)] author_view_def)
      (simp add: view_of_def viewD [OF assms(2)])
qed

definition session_end :: "u32 \<Rightarrow> bool" where
  "session_end n \<longleftrightarrow> unat n mod 10 = 0"

lemma session_end_law: "mock_laws B res \<Longrightarrow> periodic_sessions B mock_period mock_offset n \<longleftrightarrow> session_end n"
  by (simp add: mock_periodic mock_period_def mock_offset_def session_end_def)

lemma quiet_block:
  assumes "mock_laws B res" and "view_of B res s = V" and "v_free V (pot_id_account B) \<le> 5" and "\<not> session_end n"
  shows "\<exists>t. initialize_block B n s = (Inr (), t) \<and> view_of B res t = author_view (V\<lparr>v_block := n\<rparr>)"
proof -
  have "view_of B res (s\<lparr>block_number := n\<rparr>) = V\<lparr>v_block := n\<rparr>" using assms(2) by (auto simp: view_of_def)
  from author_view_run [OF assms(1) this] assms(3) show ?thesis
    by (simp add: initialize_block_def session_on_initialize_def session_end_law [OF assms(1)] assms(4) call_simps)
qed

fun credited :: "'acc candidate_info list \<Rightarrow> ('acc \<Rightarrow> u128) \<Rightarrow> 'acc \<Rightarrow> u128" where
  "credited [] F = F"
| "credited (c # cs) F = credited cs (F(cand_who c := F (cand_who c) + cand_deposit c))"

fun debited :: "'acc candidate_info list \<Rightarrow> ('acc \<Rightarrow> u128) \<Rightarrow> 'acc \<Rightarrow> u128" where
  "debited [] R = R"
| "debited (c # cs) R = debited cs (R(cand_who c := R (cand_who c) - cand_deposit c))"

lemma return_deposits_view:
  assumes "currency_laws T res"
  shows "distinct (map cand_who cs) \<Longrightarrow> \<forall>c \<in> set cs. cand_deposit c \<le> res (cand_who c) w \<Longrightarrow>
    (\<lambda>a. free_balance T a (return_deposits T cs w))
      = credited cs (\<lambda>a. free_balance T a w)
    \<and> (\<lambda>a. res a (return_deposits T cs w))
      = debited cs (\<lambda>a. res a w)"
proof (induction cs arbitrary: w)
  case (Cons c cs)
  let ?w = "snd (unreserve T (cand_who c) (cand_deposit c) w)"
  have own: "free_balance T (cand_who c) ?w = free_balance T (cand_who c) w + cand_deposit c"
      "res (cand_who c) ?w = res (cand_who c) w - cand_deposit c"
    using unreserve_law(1) [OF assms refl, of "cand_deposit c" "cand_who c" w] Cons.prems(2) by simp_all
  note other = unreserve_law(2) [OF assms refl, of _ "cand_who c" "cand_deposit c" w]
  have fns: "(\<lambda>a. free_balance T a ?w) = (\<lambda>a. free_balance T a w)(cand_who c := free_balance T (cand_who c) w + cand_deposit c)"
      "(\<lambda>a. res a ?w) = (\<lambda>a. res a w)(cand_who c := res (cand_who c) w - cand_deposit c)"
    using own other by (auto simp: fun_eq_iff)
  have "cand_deposit d \<le> res (cand_who d) ?w" if "d \<in> set cs" for d
  proof -
    have "cand_who d \<noteq> cand_who c" using that Cons.prems(1) by (metis distinct.simps(2) image_eqI list.simps(9) set_map)
    with that Cons.prems(2) other show ?thesis by simp
  qed
  with Cons.IH [of ?w] Cons.prems(1) show ?case
    by (simp add: fns) (simp add: return_deposits_def)
qed (simp add: return_deposits_def)

definition session_view :: "u32 \<Rightarrow> mock_view \<Rightarrow> mock_view" where
  "session_view n V =
     (let stale = (\<lambda>a. 10 \<le> saturating_sub n (case v_last V a of None \<Rightarrow> 0 | Some b \<Rightarrow> b));
          cs = v_candidates V; kept = kick_ref stale 1 (length cs) cs; out = kick_out stale 1 (length cs) cs in
      V\<lparr>v_block := n, v_candidates := kept,
        v_last := (\<lambda>a. if a \<in> cand_who ` set out then None else v_last V a),
        v_free := credited out (v_free V),
        v_reserved := debited out (v_reserved V),
        v_validators := v_queued V, v_queued := v_invulnerables V @ map cand_who kept,
        v_handler := v_queued V, v_change := n\<rparr>)"

definition view_ok :: "mock_view \<Rightarrow> bool" where
  "view_ok V \<longleftrightarrow> distinct (map cand_who (v_candidates V)) \<and> length (v_candidates V) \<le> 20
     \<and> length (v_invulnerables V) \<le> 20
     \<and> list_all (\<lambda>c. v_last V (cand_who c) \<noteq> None \<and> cand_deposit c \<le> v_reserved V (cand_who c)
         \<and> cand_who c \<in> {1, 2, 3, 4, 5}) (v_candidates V)"

lemma credited_other: "a \<notin> cand_who ` set cs \<Longrightarrow> credited cs F a = F a"
  by (induction cs arbitrary: F) auto

lemma session_rotates:
  assumes "mock_laws B res" and "view_of B res s = V" and "view_ok V"
  shows "\<exists>t. rotate_session B (new_session (test_collators B)) on_new_session s = (Inr (), t)
    \<and> view_of B res t = session_view (v_block V) V"
proof -
  let ?T = "test_collators B"
  note view = viewD [OF assms(2)]
  obtain i w where w: "same_balances B res (world s) w"
    and law: "\<And>r t. new_session ?T i (s\<lparr>world := w\<rparr>) = (Inr r, t) \<Longrightarrow>
        \<exists>w1 evs. rotate_session B (new_session ?T) on_new_session s
            = on_new_session (queued_keys B (world s)) (t\<lparr>world := w1, events := events t @ evs\<rparr>)
          \<and> same_balances B res (world t) w1 \<and> session_validators B w1 = queued_keys B (world s)
          \<and> queued_keys B w1 = (case r of None \<Rightarrow> queued_keys B (world s) | Some v \<Rightarrow> v)"
    using mock_rotation [OF assms(1), of s "new_session ?T" on_new_session] by blast
  let ?s = "s\<lparr>world := w\<rparr>"
  let ?stale = "\<lambda>a. 10 \<le> saturating_sub (v_block V) (case v_last V a of None \<Rightarrow> 0 | Some b \<Rightarrow> b)"
  let ?cs = "v_candidates V"
  let ?kept = "kick_ref ?stale 1 (length ?cs) ?cs" and ?out = "kick_out ?stale 1 (length ?cs) ?cs"
  have inv: "collator_inv ?T ?s"
    using assms(3) by (simp add: collator_inv_def view view_ok_def list_all_iff)
  have "stale_in ?T ?s = ?stale" by (simp add: fun_eq_iff stale_in_def last_block_of_def view)
  then have kept: "kept_candidates ?T ?s = ?kept" "kicked_candidates ?T ?s = ?out"
    by (simp_all add: kept_candidates_def kicked_candidates_def view)
  obtain t where t: "new_session ?T i ?s = (Inr (Some (v_invulnerables V @ map cand_who ?kept)), t)"
      "candidates t = ?kept" "invulnerables t = v_invulnerables V" "block_number t = v_block V"
      "desired_candidates t = v_desired V" "candidacy_bond t = v_bond V"
      "world t = return_deposits ?T ?out w"
      "\<forall>a. last_authored_block t a = (if a \<in> cand_who ` set ?out then None else v_last V a)"
    using new_session_run [OF inv, of i] unfolding kept by (auto simp: view)
  from law [OF t(1)] obtain w1 evs where
    w1: "rotate_session B (new_session ?T) on_new_session s
        = on_new_session (v_queued V) (t\<lparr>world := w1, events := events t @ evs\<rparr>)"
      "same_balances B res (return_deposits ?T ?out w) w1" "session_validators B w1 = v_queued V"
      "queued_keys B w1 = v_invulnerables V @ map cand_who ?kept"
    by (auto simp: view t(7))
  have bal: "(\<lambda>a. mock_free B a w) = v_free V" "(\<lambda>a. res a w) = v_reserved V"
    using w by (simp_all add: same_balances_def view)
  have dist: "distinct (map cand_who ?out)" and held: "\<forall>c \<in> set ?out. cand_deposit c \<le> res (cand_who c) w"
    using assms(3) distinct_kick_out kick_out_subset [of ?stale 1 "length ?cs" ?cs] fun_cong [OF bal(2)]
    by (auto simp: view_ok_def list_all_iff)
  have "(\<lambda>a. mock_free B a w1) = credited ?out (v_free V)"
      "(\<lambda>a. res a w1) = debited ?out (v_reserved V)"
    using w1(2) return_deposits_view [OF mock_currency [OF assms(1)] dist held]
    by (simp_all add: same_balances_def bal)
  moreover have "last_authored_block t = (\<lambda>a. if a \<in> cand_who ` set ?out then None else v_last V a)"
    using t(8) by (simp add: fun_eq_iff)
  ultimately show ?thesis
    unfolding w1(1) by (simp add: on_new_session_def call_simps session_view_def Let_def view_of_def t w1(3,4))
qed

lemma session_block:
  assumes "mock_laws B res" and "view_of B res s = V" and "v_free V (pot_id_account B) \<le> 5"
    and "view_ok V" and "session_end n"
  shows "\<exists>t. initialize_block B n s = (Inr (), t)
    \<and> view_of B res t = author_view (session_view n (V\<lparr>v_block := n\<rparr>))"
proof -
  let ?V = "V\<lparr>v_block := n\<rparr>"
  have v: "view_of B res (s\<lparr>block_number := n\<rparr>) = ?V" using assms(2) by (auto simp: view_of_def)
  have ok: "view_ok ?V" using assms(4) by (simp add: view_ok_def)
  obtain t where t: "rotate_session B (new_session (test_collators B)) on_new_session (s\<lparr>block_number := n\<rparr>) = (Inr (), t)"
      "view_of B res t = session_view n ?V"
    using session_rotates [OF assms(1) v ok] by auto
  have "pot_id_account B \<notin> cand_who ` set (kick_out stale 1 m (v_candidates V))" for stale m
    using mock_pot [OF assms(1)] assms(4) kick_out_subset [of stale 1 m "v_candidates V"]
    by (auto simp: view_ok_def list_all_iff)
  then have "v_free (session_view n ?V) (pot_id_account B) \<le> 5"
    using assms(3) by (simp add: session_view_def Let_def credited_other)
  from author_view_run [OF assms(1) t(2) this] obtain u where
    "authorship_on_initialize B t = (Inr (), u)" "view_of B res u = author_view (session_view n ?V)" by blast
  with t(1) show ?thesis
    by (intro exI [of _ u]) (simp add: initialize_block_def session_on_initialize_def session_end_law [OF assms(1)]
        assms(5) seq_def modify_def)
qed

lemma quiet_blocks:
  assumes "mock_laws B res"
  shows "view_of B res s = V \<Longrightarrow> v_free V (pot_id_account B) \<le> 5 \<Longrightarrow> list_all (\<lambda>n. \<not> session_end n) ns \<Longrightarrow>
    \<exists>t. for_each ns (initialize_block B) s = (Inr (), t)
      \<and> view_of B res t = (if ns = [] then V else author_view (V\<lparr>v_block := last ns\<rparr>))"
proof (induction ns arbitrary: s V)
  case Nil
  then show ?case by (simp add: ret_def)
next
  case (Cons n ns)
  let ?V = "author_view (V\<lparr>v_block := n\<rparr>)"
  obtain t where t: "initialize_block B n s = (Inr (), t)" "view_of B res t = ?V"
    using quiet_block [OF assms Cons.prems(1,2)] Cons.prems(3) by auto
  have "v_free ?V (pot_id_account B) \<le> 5" using Cons.prems(2) by (simp add: author_view_def)
  from Cons.IH [OF t(2) this] Cons.prems(3) obtain u where
    u: "for_each ns (initialize_block B) t = (Inr (), u)"
      "view_of B res u = (if ns = [] then ?V else author_view (?V\<lparr>v_block := last ns\<rparr>))" by auto
  have "author_view (?V\<lparr>v_block := m\<rparr>) = author_view (V\<lparr>v_block := m\<rparr>)" for m
    by (simp add: author_view_def)
  with u show ?case by (intro exI [of _ u]) (simp add: seq_def t(1))
qed

section \<open>Rules to run the tests\<close>

text \<open>Each rule asks for the view after it in normal form, so that views do not grow.\<close>

lemma passes_registers:
  assumes "view_of B res s = V" and "mock_laws B res"
    and "a \<notin> set (v_invulnerables V)" and "a \<noteq> 7" and "a \<notin> cand_who ` set (v_candidates V)"
    and "length (v_candidates V) < unat (v_desired V)" and "length (v_candidates V) < 20"
    and "unat (v_bond V) + 5 \<le> unat (v_free V a)" and "unat (v_reserved V a) + unat (v_bond V) < 2 ^ 128"
    and "V\<lparr>v_candidates := v_candidates V @ [\<lparr>cand_who = a, cand_deposit = v_bond V\<rparr>],
        v_last := (v_last V)(a \<mapsto> v_block V + 10),
        v_free := (v_free V)(a := v_free V a - v_bond V),
        v_reserved := (v_reserved V)(a := v_reserved V a + v_bond V)\<rparr> = W"
    and "\<And>t. view_of B res t = W \<Longrightarrow> passes (f ()) t"
  shows "passes (seq (registers B a) f) s"
proof -
  from register_view [OF assms(2,1,3-9)] obtain r t where
    "register_as_candidate (test_collators B) (Signed a) s = (Inr r, t)" "view_of B res t = W"
    unfolding assms(10) by blast
  with assms(11) show ?thesis by (intro passes_ok)
qed

lemma passes_check:
  assumes "view_of B res s = V"
    and "\<And>t. \<lbrakk>candidates t = v_candidates V; invulnerables t = v_invulnerables V; last_authored_block t = v_last V;
        desired_candidates t = v_desired V; candidacy_bond t = v_bond V; \<And>a. mock_free B a (world t) = v_free V a;
        session_validators B (world t) = v_validators V; queued_keys B (world t) = v_queued V;
        session_handler_collators t = v_handler V; session_change_block t = v_change V\<rbrakk> \<Longrightarrow> P t"
    and "\<And>t. view_of B res t = V \<Longrightarrow> passes (f ()) t"
  shows "passes (seq (assert_that P) f) s"
  using assms by (intro passes_that) (blast intro: viewD)+

lemma passes_last_check:
  assumes "view_of B res s = V"
    and "\<And>t. \<lbrakk>candidates t = v_candidates V; invulnerables t = v_invulnerables V; last_authored_block t = v_last V;
        desired_candidates t = v_desired V; candidacy_bond t = v_bond V; \<And>a. mock_free B a (world t) = v_free V a;
        session_validators B (world t) = v_validators V; queued_keys B (world t) = v_queued V;
        session_handler_collators t = v_handler V; session_change_block t = v_change V\<rbrakk> \<Longrightarrow> P t"
  shows "passes (assert_that P) s"
  using assms by (intro passes_last(1)) (blast intro: viewD)

lemma passes_author:
  assumes "view_of B res s = V" and "mock_laws B res" and "v_free V (pot_id_account B) \<le> 5"
    and "author_view V = W" and "\<And>t. view_of B res t = W \<Longrightarrow> passes (f ()) t"
  shows "passes (seq (authorship_on_initialize B) f) s"
  using author_view_run [OF assms(2,1,3)] assms(4,5) by (blast intro: passes_then)

lemma passes_to_block:
  assumes "view_of B res s = V" and "mock_laws B res" and "word_range (v_block V + 1) (n + 1) = ns @ [n]"
    and "list_all (\<lambda>n. \<not> session_end n) (ns @ [n])" and "v_free V (pot_id_account B) \<le> 5"
    and "author_view (V\<lparr>v_block := n\<rparr>) = W" and "\<And>t. view_of B res t = W \<Longrightarrow> passes (f ()) t"
  shows "passes (seq (initialize_to_block B n) f) s"
proof -
  obtain t where t: "for_each (ns @ [n]) (initialize_block B) s = (Inr (), t)"
      "view_of B res t = author_view (V\<lparr>v_block := n\<rparr>)"
    using quiet_blocks [OF assms(2,1,5,4)] by auto
  have "initialize_to_block B n s = (Inr (), t)"
    using assms(3) by (simp add: initialize_to_block_def call_simps viewD [OF assms(1)] t(1))
  then show ?thesis by (rule passes_then) (rule assms(7) [OF t(2) [unfolded assms(6)]])
qed

lemma passes_to_session:
  assumes "view_of B res s = V" and "mock_laws B res" and "word_range (v_block V + 1) (n + 1) = ns @ [n]"
    and "list_all (\<lambda>n. \<not> session_end n) ns" and "session_end n" and "ns \<noteq> []"
    and "v_free V (pot_id_account B) \<le> 5"
    and "author_view (session_view n (V'\<lparr>v_block := n\<rparr>)) = W"
    and "view_ok V'" and "author_view (V\<lparr>v_block := last ns\<rparr>) = V'"
    and "\<And>t. view_of B res t = W \<Longrightarrow> passes (f ()) t"
  shows "passes (seq (initialize_to_block B n) f) s"
proof -
  obtain t where t: "for_each ns (initialize_block B) s = (Inr (), t)" "view_of B res t = V'"
    using quiet_blocks [OF assms(2,1,7,4)] assms(6,10) by auto
  have "v_free V' (pot_id_account B) \<le> 5" using assms(7) unfolding assms(10) [symmetric] by (simp add: author_view_def)
  from session_block [OF assms(2) t(2) this assms(9,5)] obtain u where
    u: "initialize_block B n t = (Inr (), u)" "view_of B res u = W" unfolding assms(8) by blast
  have "initialize_to_block B n s = (Inr (), u)"
    using assms(3)
    by (simp add: initialize_to_block_def call_simps viewD [OF assms(1)] for_each_Ok_append seq_def t(1) u(1) ret_def)
  then show ?thesis by (rule passes_then) (rule assms(11) [OF u(2)])
qed

lemma passes_pays_author:
  assumes "view_of B res s = V" and "mock_laws B res"
    and "(case checked_sub (v_free V (pot_id_account B)) 5 of None \<Rightarrow> 0 | Some r \<Rightarrow> r) div 2 = n"
    and "unat n + 5 \<le> unat (v_free V (pot_id_account B))" and "5 \<le> v_free V 4"
    and "unat (v_free V 4) + unat n < 2 ^ 128"
    and "author_view (V\<lparr>v_free := (v_free V)(pot_id_account B := v_free V (pot_id_account B) - n,
        4 := v_free V 4 + n)\<rparr>) = W"
    and "\<And>t. view_of B res t = W \<Longrightarrow> passes (f ()) t"
  shows "passes (seq (authorship_on_initialize B) f) s"
proof -
  note view = viewD [OF assms(1)]
  have "pot_id_account B \<noteq> 4" using mock_pot [OF assms(2)] by simp
  from mock_transfer_ok [OF assms(2) this, of n "world s"] assms(4-6) obtain w where
    w: "mock_transfer B (pot_id_account B) 4 n (world s) = (Inr (), w)" "same_session B (world s) w"
      "(\<lambda>x. mock_free B x w) = (v_free V)(pot_id_account B := v_free V (pot_id_account B) - n, 4 := v_free V 4 + n)"
      "(\<lambda>x. res x w) = v_reserved V"
    by (auto simp: view)
  let ?t = "s\<lparr>world := w, last_authored_block := (last_authored_block s)(4 \<mapsto> v_block V),
      extra_weights := extra_weights s @ [w_note_author (weight_info (test_collators B))]\<rparr>"
  have t: "authorship_on_initialize B s = (Inr (), ?t)"
    by (simp add: authorship_on_initialize_def find_author4_def note_author_run view assms(3) w(1))
  have "view_of B res ?t = W"
    unfolding assms(7) [symmetric] using w(2)
    by (simp add: view_of_def author_view_def w(3,4) same_session_def view)
  with t assms(8) show ?thesis by (blast intro: passes_then)
qed

lemma passes_leaves:
  assumes "view_of B res s = V" and "mock_laws B res"
    and "v_candidates V = pre @ c # rest" and "cand_who c = a" and "distinct (map cand_who (v_candidates V))"
    and "1 < (of_nat (length (v_candidates V)) :: u32)" and "cand_deposit c \<le> v_reserved V a"
    and "V\<lparr>v_candidates := pre @ rest, v_last := (v_last V)(a := None),
        v_free := (v_free V)(a := v_free V a + cand_deposit c),
        v_reserved := (v_reserved V)(a := v_reserved V a - cand_deposit c)\<rparr> = W"
    and "\<And>t. view_of B res t = W \<Longrightarrow> passes (f ()) t"
  shows "passes (seq (assert_ok (leave_intent (test_collators B) (Signed a))) f) s"
proof -
  let ?T = "test_collators B"
  note view = viewD [OF assms(1)]
  have cs: "candidates s = pre @ c # rest" and dist: "distinct (map cand_who (candidates s))"
    using assms(3,5) by (simp_all add: view)
  let ?t = "after_removal ?T c (pre @ rest) s"
  have "leave_intent ?T (Signed a) s = (Inr (Some (w_leave_intent (weight_info ?T) (of_nat (length (pre @ rest))))), ?t)"
    using assms(6) try_remove_run [OF cs dist, of ?T] by (simp add: leave_run view assms(4))
  moreover have "view_of B res ?t = W"
  proof -
    let ?w = "snd (mock_unreserve B a (cand_deposit c) (world s))"
    note own = unreserve_law [OF mock_currency [OF assms(2)] refl, where who = a and n = "cand_deposit c" and w = "world s"]
    have "(\<lambda>x. mock_free B x ?w) = (v_free V)(a := v_free V a + cand_deposit c)"
        "(\<lambda>x. res x ?w) = (v_reserved V)(a := v_reserved V a - cand_deposit c)"
      using own assms(7) by (auto simp: fun_eq_iff view)
    then show ?thesis
      unfolding assms(8) [symmetric] using mock_unreserve_session [OF assms(2), where w = "world s" and a = a and n = "cand_deposit c"]
      by (simp add: view_of_def after_removal_def assms(4) same_session_def view)
  qed
  ultimately show ?thesis using assms(9) by (blast intro: passes_ok)
qed

lemma passes_put_in_pot:
  assumes "view_of B res s = V" and "mock_laws B res" and "5 \<le> n"
    and "V\<lparr>v_free := (v_free V)(pot_id_account B := n)\<rparr> = W"
    and "\<And>t. view_of B res t = W \<Longrightarrow> passes (f ()) t"
  shows "passes (seq (put_in_pot B n) f) s"
proof -
  have "view_of B res (s\<lparr>world := mock_make_free B (pot_id_account B) n (world s)\<rparr>) = W"
    unfolding assms(4) [symmetric] using mock_make_free_ok [OF assms(2,3), where w = "world s" and a = "pot_id_account B"] assms(1)
    by (auto simp: view_of_def same_session_def)
  from assms(5) [OF this] show ?thesis by (simp add: passes_def call_simps)
qed

end
