(* ===== verification/Collator_Mock_Properties.thy ===== *)
theory Collator_Mock_Properties
  imports Collator_Mock_Laws
begin

text \<open>
  The unit tests of the collator-selection pallet pass, next to any balances and session
  pallets that keep \<open>mock_laws\<close>.
\<close>

section \<open>Tests of the calls\<close>

lemma stale_nat: "10 \<le> saturating_sub n (b :: u32) \<longleftrightarrow> 10 \<le> unat n - unat b"
  by (simp add: word_le_nat_alt)

lemmas view_eqs = start_view_def author_view_def session_view_def view_ok_def stale_nat Let_def

lemma basic_setup_passes:
  assumes "mock_laws B res"
  shows "execute_with B basic_setup_works"
proof (rule execute_withI [OF assms])
  fix s assume v: "view_of B res s = start_view"
  show "passes basic_setup_works s"
    by (simp add: basic_setup_works_def passes_that passes_last viewD [OF v] start_view_def)
qed

lemma set_invulnerables_passes:
  assumes "mock_laws B res"
  shows "execute_with B (it_should_set_invulnerables B)"
proof (rule execute_withI [OF assms])
  fix s assume v: "view_of B res s = start_view"
  let ?T = "test_collators B"
  let ?ev = "collator_event ?T (NewInvulnerables [1, 2, 3, 4])"
  have 1: "set_invulnerables ?T (Signed root_account) [1, 2, 3, 4] s
      = (Inr None, s\<lparr>invulnerables := [1, 2, 3, 4], events := events s @ [?ev]\<rparr>)"
    using set_invulnerables_run [of ?T "Signed root_account" "[1, 2, 3, 4]" s] by auto
  have 2: "set_invulnerables ?T (Signed 1) new t = (Inl (Err BadOrigin), t)" for new t
    by (simp add: set_invulnerables_def call_simps root_account_def)
  have 3: "set_invulnerables ?T (Signed root_account) [7] t = (Inl (Err (Collator ValidatorNotRegistered)), t)" for t
    by (simp add: set_invulnerables_def call_simps try_bounded_def run_ensure_registered
        identity_collator_def mock_is_registered_def)
  show "passes (it_should_set_invulnerables B) s"
    unfolding it_should_set_invulnerables_def Let_def
    by (rule passes_ok, rule 1, rule passes_that, simp, rule passes_noop, rule 2, rule passes_last(4), rule 3)
qed

lemma set_desired_passes:
  assumes "mock_laws B res"
  shows "execute_with B (set_desired_candidates_works B)"
proof (rule execute_withI [OF assms])
  fix s assume v: "view_of B res s = start_view"
  have 1: "set_desired_candidates (test_collators B) (Signed root_account) 7 s = (Inr None, s\<lparr>desired_candidates := 7,
      events := events s @ [collator_event (test_collators B) (NewDesiredCandidates 7)]\<rparr>)"
    by (simp add: set_desired_candidates_def call_simps)
  have 2: "set_desired_candidates (test_collators B) (Signed 1) 8 t = (Inl (Err BadOrigin), t)" for t
    by (simp add: set_desired_candidates_def call_simps root_account_def)
  show "passes (set_desired_candidates_works B) s"
    unfolding set_desired_candidates_works_def Let_def
    by (rule passes_that, simp add: viewD [OF v] start_view_def, rule passes_ok, rule 1, rule passes_that, simp,
        rule passes_last(4), rule 2)
qed

lemma set_bond_passes:
  assumes "mock_laws B res"
  shows "execute_with B (set_candidacy_bond_works B)"
proof (rule execute_withI [OF assms])
  fix s assume v: "view_of B res s = start_view"
  have 1: "set_candidacy_bond (test_collators B) (Signed root_account) 7 s = (Inr None, s\<lparr>candidacy_bond := 7,
      events := events s @ [collator_event (test_collators B) (NewCandidacyBond 7)]\<rparr>)"
    by (simp add: set_candidacy_bond_def call_simps)
  have 2: "set_candidacy_bond (test_collators B) (Signed 1) 8 t = (Inl (Err BadOrigin), t)" for t
    by (simp add: set_candidacy_bond_def call_simps root_account_def)
  show "passes (set_candidacy_bond_works B) s"
    unfolding set_candidacy_bond_works_def Let_def
    by (rule passes_that, simp add: viewD [OF v] start_view_def, rule passes_ok, rule 1, rule passes_that, simp,
        rule passes_last(4), rule 2)
qed

text \<open>The refusals of \<open>register_as_candidate\<close> and \<open>leave_intent\<close>, from the view.\<close>

lemma register_refused:
  assumes "view_of B res s = V"
  shows "\<not> of_nat (length (v_candidates V)) < v_desired V \<Longrightarrow>
      register_as_candidate (test_collators B) (Signed a) s = (Inl (Err (Collator TooManyCandidates)), s)"
    and "of_nat (length (v_candidates V)) < v_desired V \<Longrightarrow> a \<in> set (v_invulnerables V) \<Longrightarrow>
      register_as_candidate (test_collators B) (Signed a) s = (Inl (Err (Collator AlreadyInvulnerable)), s)"
    and "of_nat (length (v_candidates V)) < v_desired V \<Longrightarrow> 7 \<notin> set (v_invulnerables V) \<Longrightarrow>
      register_as_candidate (test_collators B) (Signed 7) s = (Inl (Err (Collator ValidatorNotRegistered)), s)"
    and "of_nat (length (v_candidates V)) < v_desired V \<Longrightarrow> a \<notin> set (v_invulnerables V) \<Longrightarrow> a \<noteq> 7 \<Longrightarrow>
      a \<in> cand_who ` set (v_candidates V) \<Longrightarrow>
      register_as_candidate (test_collators B) (Signed a) s = (Inl (Err (Collator AlreadyCandidate)), s)"
    and "mock_laws B res \<Longrightarrow> of_nat (length (v_candidates V)) < v_desired V \<Longrightarrow> a \<notin> set (v_invulnerables V) \<Longrightarrow>
      a \<noteq> 7 \<Longrightarrow> a \<notin> cand_who ` set (v_candidates V) \<Longrightarrow> v_free V a < v_bond V \<Longrightarrow>
      register_as_candidate (test_collators B) (Signed a) s = (Inl (Err (insufficient_balance B)), s)"
  using mock_reserve_poor [of B res a "world s" "v_bond V"]
  by (simp_all add: register_run viewD [OF assms] identity_collator_def mock_is_registered_def)

lemma leave_refused:
  assumes "view_of B res s = V"
  shows "\<not> 1 < (of_nat (length (v_candidates V)) :: u32) \<Longrightarrow>
      leave_intent (test_collators B) (Signed a) s = (Inl (Err (Collator TooFewCandidates)), s)"
    and "1 < (of_nat (length (v_candidates V)) :: u32) \<Longrightarrow> a \<notin> cand_who ` set (v_candidates V) \<Longrightarrow>
      leave_intent (test_collators B) (Signed a) s = (Inl (Err (Collator NotCandidate)), s)"
  using try_remove_absent [of a s "test_collators B"]
  by (simp_all add: leave_run viewD [OF assms])

lemma view_desired: "view_of B res s = V \<Longrightarrow> view_of B res (s\<lparr>desired_candidates := n\<rparr>) = V\<lparr>v_desired := n\<rparr>"
  by (auto simp: view_of_def)

lemma passes_modify: "passes (f ()) (h s) \<Longrightarrow> passes (seq (modify h) f) s"
  by (simp add: passes_def call_simps)

lemma too_many_passes:
  assumes "mock_laws B res"
  shows "execute_with B (cannot_register_candidate_if_too_many B)"
proof (rule execute_withI [OF assms])
  fix s assume v: "view_of B res s = start_view"
  note v0 = view_desired [OF v, of 0]
  note v1 = view_desired [OF v0, of 1]
  show "passes (cannot_register_candidate_if_too_many B) s"
    unfolding cannot_register_candidate_if_too_many_def
    apply (rule passes_modify, rule passes_noop, rule register_refused(1) [OF v0], simp add: view_eqs)
    apply (rule passes_modify, rule passes_registers [OF v1 assms]; (simp add: view_eqs; fail)?)
    apply (rule passes_last(4), erule register_refused(1), simp add: view_eqs)
    done
qed

lemma too_few_passes:
  assumes "mock_laws B res"
  shows "execute_with B (cannot_unregister_candidate_if_too_few B)"
proof (rule execute_withI [OF assms])
  fix s assume v: "view_of B res s = start_view"
  show "passes (cannot_unregister_candidate_if_too_few B) s"
    unfolding cannot_unregister_candidate_if_too_few_def
    apply (rule passes_modify, rule passes_registers [OF view_desired [OF v] assms]; (simp add: view_eqs; fail)?)
    apply (rule passes_last(4), erule leave_refused(1), simp add: view_eqs)
    done
qed

lemma invulnerable_passes:
  assumes "mock_laws B res"
  shows "execute_with B (cannot_register_as_candidate_if_invulnerable B)"
proof (rule execute_withI [OF assms])
  fix s assume v: "view_of B res s = start_view"
  show "passes (cannot_register_as_candidate_if_invulnerable B) s"
    unfolding cannot_register_as_candidate_if_invulnerable_def
    apply (rule passes_check [OF v], simp add: view_eqs)
    apply (rule passes_last(4), erule register_refused(2); simp add: view_eqs)
    done
qed

lemma no_keys_passes:
  assumes "mock_laws B res"
  shows "execute_with B (cannot_register_as_candidate_if_keys_not_registered B)"
proof (rule execute_withI [OF assms])
  fix s assume v: "view_of B res s = start_view"
  show "passes (cannot_register_as_candidate_if_keys_not_registered B) s"
    unfolding cannot_register_as_candidate_if_keys_not_registered_def
    by (rule passes_last(4), rule register_refused(3) [OF v]; simp add: view_eqs)
qed

lemma dupe_passes:
  assumes "mock_laws B res"
  shows "execute_with B (cannot_register_dupe_candidate B)"
proof (rule execute_withI [OF assms])
  fix s assume v: "view_of B res s = start_view"
  show "passes (cannot_register_dupe_candidate B) s"
    unfolding cannot_register_dupe_candidate_def
    apply (rule passes_registers [OF v assms]; (simp add: view_eqs; fail)?)
    apply (erule passes_check, simp add: view_eqs last_block_of_def)+
    apply (rule passes_last(4), erule register_refused(4); simp add: view_eqs)
    done
qed

lemma poor_passes:
  assumes "mock_laws B res"
  shows "execute_with B (cannot_register_as_candidate_if_poor B)"
proof (rule execute_withI [OF assms])
  fix s assume v: "view_of B res s = start_view"
  show "passes (cannot_register_as_candidate_if_poor B) s"
    unfolding cannot_register_as_candidate_if_poor_def
    apply (rule passes_check [OF v], simp add: view_eqs)
    apply (erule passes_check, simp add: view_eqs last_block_of_def)+
    apply (erule passes_registers [OF _ assms]; (simp add: view_eqs; fail)?)
    apply (rule passes_last(4), erule register_refused(5) [OF _ assms]; simp add: view_eqs)
    done
qed

lemma register_passes:
  assumes "mock_laws B res"
  shows "execute_with B (register_as_candidate_works B)"
proof (rule execute_withI [OF assms])
  fix s assume v: "view_of B res s = start_view"
  show "passes (register_as_candidate_works B) s"
    unfolding register_as_candidate_works_def
    apply (rule passes_check [OF v], simp add: view_eqs)
    apply (erule passes_check, simp add: view_eqs last_block_of_def)+
    apply (erule passes_registers [OF _ assms]; (simp add: view_eqs; fail)?)
    apply (erule passes_registers [OF _ assms]; (simp add: view_eqs; fail)?)
    apply (erule passes_check, simp add: view_eqs last_block_of_def)+
    apply (erule passes_last_check, simp add: view_eqs last_block_of_def)
    done
qed

lemma leave_passes:
  assumes "mock_laws B res"
  shows "execute_with B (leave_intent_works B)"
proof (rule execute_withI [OF assms])
  fix s assume v: "view_of B res s = start_view"
  show "passes (leave_intent_works B) s"
    unfolding leave_intent_works_def
    apply (rule passes_registers [OF v assms]; (simp add: view_eqs; fail)?)
    apply (erule passes_check, simp add: view_eqs last_block_of_def)+
    apply (erule passes_registers [OF _ assms]; (simp add: view_eqs; fail)?)
    apply (erule passes_check, simp add: view_eqs last_block_of_def)+
    apply (rule passes_noop, erule leave_refused(2); (simp add: view_eqs; fail)?)
    apply (erule passes_leaves [OF _ assms, where pre = "[]" and c = "test_collator 3" and rest = "[test_collator 5]"]; (simp add: view_eqs; fail)?)
    apply (erule passes_check, simp add: view_eqs last_block_of_def)+
    apply (erule passes_last_check, simp add: view_eqs last_block_of_def)
    done
qed

lemma authorship_passes:
  assumes "mock_laws B res"
  shows "execute_with B (authorship_event_handler B)"
proof (rule execute_withI [OF assms])
  fix s assume v: "view_of B res s = start_view"
  note pot = mock_pot [OF assms, simplified]
  show "passes (authorship_event_handler B) s"
    unfolding authorship_event_handler_def
    apply (rule passes_put_in_pot [OF v assms]; (simp add: view_eqs; fail)?)
    apply (erule passes_check, simp add: view_eqs pot last_block_of_def)
    apply (erule passes_registers [OF _ assms]; (simp add: view_eqs pot; fail)?)
    apply (erule passes_pays_author [OF _ assms, where n = 50]; (simp add: view_eqs pot checked_sub_def; fail)?)
    apply (erule passes_check, simp add: view_eqs pot last_block_of_def)+
    apply (erule passes_last_check, simp add: view_eqs pot last_block_of_def)
    done
qed

lemma fees_passes:
  assumes "mock_laws B res"
  shows "execute_with B (fees_edgecases B)"
proof (rule execute_withI [OF assms])
  fix s assume v: "view_of B res s = start_view"
  note pot = mock_pot [OF assms, simplified]
  show "passes (fees_edgecases B) s"
    unfolding fees_edgecases_def
    apply (rule passes_author [OF v assms]; (simp add: view_eqs pot; fail)?)
    apply (erule passes_put_in_pot [OF _ assms]; (simp add: view_eqs; fail)?)
    apply (erule passes_check, simp add: view_eqs pot last_block_of_def)
    apply (erule passes_registers [OF _ assms]; (simp add: view_eqs pot; fail)?)
    apply (erule passes_author [OF _ assms]; (simp add: view_eqs pot; fail)?)
    apply (erule passes_check, simp add: view_eqs pot last_block_of_def)+
    apply (erule passes_last_check, simp add: view_eqs pot last_block_of_def)
    done
qed

lemma session_passes:
  assumes "mock_laws B res"
  shows "execute_with B (session_management_works B)"
proof (rule execute_withI [OF assms])
  fix s assume v: "view_of B res s = start_view"
  note pot = mock_pot [OF assms, simplified]
  have ranges: "word_range 1 2 = [] @ [1 :: u32]" "word_range 2 5 = [2, 3] @ [4 :: u32]"
      "word_range 5 11 = [5, 6, 7, 8, 9] @ [10 :: u32]"
      "word_range 11 21 = [11, 12, 13, 14, 15, 16, 17, 18, 19] @ [20 :: u32]"
    by code_simp+
  show "passes (session_management_works B) s"
    unfolding session_management_works_def
    apply (rule passes_to_block [OF v assms, where ns = "[]"]; (simp add: view_eqs ranges session_end_def pot; fail)?)
    apply (erule passes_check, simp add: view_eqs last_block_of_def)+
    apply (erule passes_to_block [OF _ assms, where ns = "[2, 3]"]; (simp add: view_eqs ranges session_end_def pot; fail)?)
    apply (erule passes_check, simp add: view_eqs last_block_of_def)+
    apply (erule passes_registers [OF _ assms]; (simp add: view_eqs; fail)?)
    apply (erule passes_check, simp add: view_eqs last_block_of_def)+
    apply (erule passes_to_session [OF _ assms, where ns = "[5, 6, 7, 8, 9]"]; (simp add: view_eqs ranges session_end_def pot; fail)?)
    apply (erule passes_check, simp add: view_eqs last_block_of_def)+
    apply (erule passes_to_session [OF _ assms, where ns = "[11, 12, 13, 14, 15, 16, 17, 18, 19]"]; (simp add: view_eqs ranges session_end_def pot; fail)?)
    apply (erule passes_check, simp add: view_eqs last_block_of_def)+
    apply (erule passes_last_check, simp add: view_eqs last_block_of_def)
    done
qed

lemma kick_mechanism_passes:
  assumes "mock_laws B res"
  shows "execute_with B (kick_mechanism B)"
proof (rule execute_withI [OF assms])
  fix s assume v: "view_of B res s = start_view"
  note pot = mock_pot [OF assms, simplified]
  have ranges: "word_range 1 11 = [1, 2, 3, 4, 5, 6, 7, 8, 9] @ [10 :: u32]"
      "word_range 11 21 = [11, 12, 13, 14, 15, 16, 17, 18, 19] @ [20 :: u32]"
      "word_range 21 31 = [21, 22, 23, 24, 25, 26, 27, 28, 29] @ [30 :: u32]"
    by code_simp+
  show "passes (kick_mechanism B) s"
    unfolding kick_mechanism_def
    apply (rule passes_registers [OF v assms]; (simp add: view_eqs; fail)?)
    apply (erule passes_registers [OF _ assms]; (simp add: view_eqs; fail)?)
    apply (erule passes_to_session [OF _ assms, where ns = "[1, 2, 3, 4, 5, 6, 7, 8, 9]"];
        (simp add: view_eqs ranges session_end_def pot; fail)?)
    apply (erule passes_check, simp)
    apply (erule passes_to_session [OF _ assms, where ns = "[11, 12, 13, 14, 15, 16, 17, 18, 19]"];
        (simp add: view_eqs ranges session_end_def pot; fail)?)
    apply (erule passes_check, simp add: last_block_of_def)+
    apply (erule passes_to_session [OF _ assms, where ns = "[21, 22, 23, 24, 25, 26, 27, 28, 29]"];
        (simp add: view_eqs ranges session_end_def pot; fail)?)
    apply (erule passes_check, simp)
    apply (erule passes_last_check, simp)
    done
qed

lemma too_few_kick_passes:
  assumes "mock_laws B res"
  shows "execute_with B (should_not_kick_mechanism_too_few B)"
proof (rule execute_withI [OF assms])
  fix s assume v: "view_of B res s = start_view"
  note pot = mock_pot [OF assms, simplified]
  have ranges: "word_range 1 11 = [1, 2, 3, 4, 5, 6, 7, 8, 9] @ [10 :: u32]"
      "word_range 11 21 = [11, 12, 13, 14, 15, 16, 17, 18, 19] @ [20 :: u32]"
      "word_range 21 31 = [21, 22, 23, 24, 25, 26, 27, 28, 29] @ [30 :: u32]"
    by code_simp+
  show "passes (should_not_kick_mechanism_too_few B) s"
    unfolding should_not_kick_mechanism_too_few_def
    apply (rule passes_registers [OF v assms]; (simp add: view_eqs; fail)?)
    apply (erule passes_registers [OF _ assms]; (simp add: view_eqs; fail)?)
    apply (erule passes_to_session [OF _ assms, where ns = "[1, 2, 3, 4, 5, 6, 7, 8, 9]"];
        (simp add: view_eqs ranges session_end_def pot; fail)?)
    apply (erule passes_check, simp)
    apply (erule passes_to_session [OF _ assms, where ns = "[11, 12, 13, 14, 15, 16, 17, 18, 19]"];
        (simp add: view_eqs ranges session_end_def pot; fail)?)
    apply (erule passes_check, simp add: last_block_of_def)+
    apply (erule passes_to_session [OF _ assms, where ns = "[21, 22, 23, 24, 25, 26, 27, 28, 29]"];
        (simp add: view_eqs ranges session_end_def pot; fail)?)
    apply (erule passes_check, simp)
    apply (erule passes_last_check, simp)
    done
qed

lemma genesis_twice_panics: "fst (cannot_set_genesis_value_twice B s) = Inl Panic"
  by (simp add: cannot_set_genesis_value_twice_def genesis_build_def seq_def panic_def)

section \<open>A concrete neighbourhood\<close>

text \<open>Free and reserved balances, and the two generations of validators.\<close>

record demo_world =
  dw_free :: "u64 \<Rightarrow> u128"
  dw_reserved :: "u64 \<Rightarrow> u128"
  dw_validators :: "u64 list"
  dw_queued :: "u64 list"

definition demo_mock :: "demo_world mock_ops" where
  "demo_mock =
     \<lparr>mock_reserve = (\<lambda>a n w. if n \<le> dw_free w a \<and> unat (dw_reserved w a) + unat n < 2 ^ 128
        then (Inr (), w\<lparr>dw_free := (dw_free w)(a := dw_free w a - n),
                       dw_reserved := (dw_reserved w)(a := dw_reserved w a + n)\<rparr>)
        else (Inl (Err (Foreign 2)), w)),
      mock_unreserve = (\<lambda>a n w. let m = min n (dw_reserved w a) in
        (n - m, w\<lparr>dw_free := (dw_free w)(a := dw_free w a + m),
                  dw_reserved := (dw_reserved w)(a := dw_reserved w a - m)\<rparr>)),
      mock_transfer = (\<lambda>a b n w. if n = 0 \<or> a = b then (Inr (), w)
        else if n \<le> dw_free w a \<and> 5 \<le> dw_free w a - n
        then (Inr (), w\<lparr>dw_free := (dw_free w)(a := dw_free w a - n, b := dw_free w b + n)\<rparr>)
        else (Inl (Err (Foreign 3)), w)),
      mock_free = (\<lambda>a w. dw_free w a),
      mock_make_free = (\<lambda>a n w. w\<lparr>dw_free := (dw_free w)(a := n)\<rparr>),
      insufficient_balance = Foreign 2, pot_id_account = 1000, mock_db_weight = rocks_db_weight 1000,
      balances_genesis = (\<lambda>bs. \<lparr>dw_free = (\<lambda>a. case map_of bs a of None \<Rightarrow> 0 | Some n \<Rightarrow> n),
        dw_reserved = (\<lambda>_. 0), dw_validators = [], dw_queued = []\<rparr>),
      session_genesis = (\<lambda>ns h keys s. case ns 0 s of
          (Inr (Some v), s0) \<Rightarrow> (case ns 1 s0 of
              (Inr (Some v'), s1) \<Rightarrow> h v' (s1\<lparr>world := (world s1)\<lparr>dw_validators := v, dw_queued := v'\<rparr>\<rparr>)
            | (_, s1) \<Rightarrow> (Inl Panic, s1))
        | (_, s0) \<Rightarrow> (Inl Panic, s0)),
      periodic_sessions = (\<lambda>period offset n. offset \<le> n \<and> (unat n - unat offset) mod unat period = 0),
      rotate_session = (\<lambda>ns h s. case ns 2 s of
          (Inr r, t) \<Rightarrow> h (dw_queued (world s)) (t\<lparr>world := (world t)\<lparr>dw_validators := dw_queued (world s),
            dw_queued := (case r of None \<Rightarrow> dw_queued (world s) | Some v \<Rightarrow> v)\<rparr>\<rparr>)
        | (Inl e, t) \<Rightarrow> (Inl e, t)),
      session_validators = dw_validators, queued_keys = dw_queued\<rparr>"

lemma demo_mock_sel [simp]:
  "mock_free demo_mock = (\<lambda>a w. dw_free w a)" "pot_id_account demo_mock = 1000"
  "session_validators demo_mock = dw_validators" "queued_keys demo_mock = dw_queued"
  "mock_make_free demo_mock a n w = w\<lparr>dw_free := (dw_free w)(a := n)\<rparr>"
  "insufficient_balance demo_mock = Foreign 2"
  "periodic_sessions demo_mock p o' m \<longleftrightarrow> o' \<le> m \<and> (unat m - unat o') mod unat p = 0"
  by (simp_all add: demo_mock_def)

lemma demo_mock_reserve: "mock_reserve demo_mock a n w =
    (if n \<le> dw_free w a \<and> unat (dw_reserved w a) + unat n < 2 ^ 128
     then (Inr (), w\<lparr>dw_free := (dw_free w)(a := dw_free w a - n),
                    dw_reserved := (dw_reserved w)(a := dw_reserved w a + n)\<rparr>)
     else (Inl (Err (Foreign 2)), w))"
  by (simp add: demo_mock_def)

lemma demo_mock_unreserve: "snd (mock_unreserve demo_mock a n w) =
    w\<lparr>dw_free := (dw_free w)(a := dw_free w a + min n (dw_reserved w a)),
      dw_reserved := (dw_reserved w)(a := dw_reserved w a - min n (dw_reserved w a))\<rparr>"
  by (simp add: demo_mock_def Let_def)

lemma demo_mock_transfer: "mock_transfer demo_mock a b n w =
    (if n = 0 \<or> a = b then (Inr (), w)
     else if n \<le> dw_free w a \<and> 5 \<le> dw_free w a - n
     then (Inr (), w\<lparr>dw_free := (dw_free w)(a := dw_free w a - n, b := dw_free w b + n)\<rparr>)
     else (Inl (Err (Foreign 3)), w))"
  by (simp add: demo_mock_def)

lemma demo_mock_currency: "currency_laws (test_collators demo_mock) (\<lambda>a w. dw_reserved w a)"
  unfolding currency_laws_def
  by (auto simp: demo_mock_reserve demo_mock_unreserve Let_def split: if_splits)

lemma demo_mock_transfer_law: "transfer_law demo_mock (\<lambda>a w. dw_reserved w a)"
  unfolding transfer_law_def
proof (intro allI impI, elim conjE)
  fix a b :: u64 and n :: u128 and w
  assume ab: "a \<noteq> b" and n: "unat n + 5 \<le> unat (mock_free demo_mock a w)"
  then have "n \<le> dw_free w a \<and> 5 \<le> dw_free w a - n"
    by (auto simp: word_le_nat_alt unat_sub)
  with ab show "\<exists>w'. mock_transfer demo_mock a b n w = (Inr (), w') \<and> same_session demo_mock w w'
    \<and> (\<lambda>x. mock_free demo_mock x w') = (\<lambda>x. mock_free demo_mock x w)
        (a := mock_free demo_mock a w - n, b := mock_free demo_mock b w + n)
    \<and> (\<lambda>x. dw_reserved w' x) = (\<lambda>x. dw_reserved w x)"
    by (cases "n = 0") (auto simp: demo_mock_transfer same_session_def fun_eq_iff)
qed

lemma demo_balance_laws: "balance_laws demo_mock (\<lambda>a w. dw_reserved w a)"
  unfolding balance_laws_def
proof (intro conjI, goal_cases)
  case 2
  have "n \<le> dw_free w a" if "unat n + 5 \<le> unat (dw_free w a)" for n a w
    using that by (simp add: word_le_nat_alt)
  then show ?case by (auto simp: demo_mock_reserve)
next
  case 3
  then show ?case by (auto simp: demo_mock_reserve)
next
  case 4
  then show ?case by (auto simp: demo_mock_reserve same_session_def split: if_splits)
next
  case 8
  then show ?case by (auto simp: same_session_def)
next
  case 9
  then show ?case by (simp add: demo_mock_def)
qed (simp_all add: demo_mock_currency demo_mock_unreserve demo_mock_transfer demo_mock_transfer_law same_session_def)

lemma demo_genesis_law: "genesis_law demo_mock (\<lambda>a w. dw_reserved w a)"
  unfolding genesis_law_def
proof (intro allI)
  fix ns h keys and s :: "demo_world mock_state"
  show "\<exists>w. same_balances demo_mock (\<lambda>a w. dw_reserved w a) (world s) w
     \<and> (\<forall>v s0 v' s1. ns 0 (s\<lparr>world := w\<rparr>) = (Inr (Some v), s0) \<longrightarrow> ns 1 s0 = (Inr (Some v'), s1) \<longrightarrow>
         (\<exists>w1. session_genesis demo_mock ns h keys s = h v' (s1\<lparr>world := w1\<rparr>)
           \<and> same_balances demo_mock (\<lambda>a w. dw_reserved w a) (world s1) w1
           \<and> session_validators demo_mock w1 = v \<and> queued_keys demo_mock w1 = v'))"
    by (rule exI [of _ "world s"]) (auto simp: same_balances_def demo_mock_def)
qed

lemma demo_rotation_law: "rotation_law demo_mock (\<lambda>a w. dw_reserved w a)"
  unfolding rotation_law_def
proof (intro allI)
  fix ns h and s :: "demo_world mock_state"
  show "\<exists>i w. same_balances demo_mock (\<lambda>a w. dw_reserved w a) (world s) w
     \<and> (\<forall>r t. ns i (s\<lparr>world := w\<rparr>) = (Inr r, t) \<longrightarrow>
         (\<exists>w1 evs. rotate_session demo_mock ns h s
             = h (queued_keys demo_mock (world s)) (t\<lparr>world := w1, events := events t @ evs\<rparr>)
           \<and> same_balances demo_mock (\<lambda>a w. dw_reserved w a) (world t) w1
           \<and> session_validators demo_mock w1 = queued_keys demo_mock (world s)
           \<and> queued_keys demo_mock w1 = (case r of None \<Rightarrow> queued_keys demo_mock (world s) | Some v \<Rightarrow> v)))"
  proof (rule exI [of _ 2], rule exI [of _ "world s"], intro conjI allI impI)
    fix r t assume ns: "ns 2 (s\<lparr>world := world s\<rparr>) = (Inr r, t)"
    show "\<exists>w1 evs. rotate_session demo_mock ns h s
             = h (queued_keys demo_mock (world s)) (t\<lparr>world := w1, events := events t @ evs\<rparr>)
           \<and> same_balances demo_mock (\<lambda>a w. dw_reserved w a) (world t) w1
           \<and> session_validators demo_mock w1 = queued_keys demo_mock (world s)
           \<and> queued_keys demo_mock w1 = (case r of None \<Rightarrow> queued_keys demo_mock (world s) | Some v \<Rightarrow> v)"
      using ns by (intro exI [of _ "(world t)\<lparr>dw_validators := dw_queued (world s),
          dw_queued := (case r of None \<Rightarrow> dw_queued (world s) | Some v \<Rightarrow> v)\<rparr>"] exI [of _ "[]"])
        (simp add: same_balances_def, simp add: demo_mock_def split: option.split)
  qed (simp add: same_balances_def)
qed

lemma demo_mock_laws: "mock_laws demo_mock (\<lambda>a w. dw_reserved w a)"
  by (simp add: mock_laws_def session_laws_def demo_balance_laws demo_genesis_law demo_rotation_law)

section \<open>Properties\<close>

text \<open>
  The pallet's tests of its calls and of the payment to authors pass on the mock
  runtime, next to any balances pallet that keeps its contract: what each test expects
  of the storage, of the balances and of the errors is what the code does. The test that
  should panic does.
\<close>

theorem collator_call_tests_pass:
  assumes "mock_laws B res"
  shows "execute_with B basic_setup_works \<and> execute_with B (it_should_set_invulnerables B)
    \<and> execute_with B (set_desired_candidates_works B) \<and> execute_with B (set_candidacy_bond_works B)
    \<and> execute_with B (cannot_register_candidate_if_too_many B)
    \<and> execute_with B (cannot_unregister_candidate_if_too_few B)
    \<and> execute_with B (cannot_register_as_candidate_if_invulnerable B)
    \<and> execute_with B (cannot_register_as_candidate_if_keys_not_registered B)
    \<and> execute_with B (cannot_register_dupe_candidate B) \<and> execute_with B (cannot_register_as_candidate_if_poor B)
    \<and> execute_with B (register_as_candidate_works B) \<and> execute_with B (leave_intent_works B)
    \<and> execute_with B (authorship_event_handler B) \<and> execute_with B (fees_edgecases B)
    \<and> fst (cannot_set_genesis_value_twice B s) = Inl Panic"
  using assms by (simp add: basic_setup_passes set_invulnerables_passes set_desired_passes set_bond_passes
      too_many_passes too_few_passes invulnerable_passes no_keys_passes dupe_passes poor_passes register_passes
      leave_passes authorship_passes fees_passes genesis_twice_panics)

theorem collator_call_tests_pass_witness:
  "execute_with demo_mock (authorship_event_handler demo_mock) \<and> execute_with demo_mock (leave_intent_works demo_mock)"
  using collator_call_tests_pass [OF demo_mock_laws] by simp

text \<open>
  The tests of the sessions pass, over thirty blocks of the pallet together with the
  session and the authorship pallets: a new candidate is a collator one session after the
  one that saw it; of the candidates that were idle for a period, those above the minimum
  are removed at its end, still serve the session already queued, are gone after it, and
  have their bond back.
\<close>

theorem collator_session_tests_pass:
  assumes "mock_laws B res"
  shows "execute_with B (session_management_works B) \<and> execute_with B (kick_mechanism B)
    \<and> execute_with B (should_not_kick_mechanism_too_few B)"
  using assms by (simp add: session_passes kick_mechanism_passes too_few_kick_passes)

theorem collator_session_tests_pass_witness: "execute_with demo_mock (kick_mechanism demo_mock)"
  using collator_session_tests_pass [OF demo_mock_laws] by simp

end
