(* ===== verification/Para_Oracle.thy ===== *)
theory Para_Oracle
  imports Weights Scale
begin

text \<open>
  The para-oracle pallet (\<open>src/pallets/para-oracle/src/lib.rs\<close> and
  \<open>default_combine_data.rs\<close>): feeders, signed accounts or sibling parachains, submit raw
  values, a combined value per key is kept, and an offchain worker fetches the values of
  the registered API feeds. The pallet is not part of the runtime's construction.

  Outside the repository, and in the configuration: the bounded ordered set of the ORML
  library, the storage's iteration order, the XCM router, the signer, the HTTP client and the
  JSON parser with its floating-point numbers. \<open>select_nth_unstable_by\<close> of the standard
  library leaves the choice among equal elements open, so it is a parameter that is given the
  code's comparator, with the law \<open>select_ok\<close>. The clock is the timestamp pallet's storage, a component of the state; sent
  XCM messages are logged in the state. An \<open>i64\<close> is a 64-bit word read by \<open>sint\<close>.
\<close>

section \<open>Data and storage\<close>

type_synonym OracleKey = bytes

datatype 'acc creator_id = CreatorAccount 'acc | CreatorPara u32

text \<open>The derived \<open>Ord\<close>: variants in the order of their declaration.\<close>

instantiation creator_id :: (linorder) linorder
begin

fun less_eq_creator_id :: "'a creator_id \<Rightarrow> 'a creator_id \<Rightarrow> bool" where
  "less_eq_creator_id (CreatorAccount a) (CreatorAccount b) = (a \<le> b)"
| "less_eq_creator_id (CreatorAccount a) (CreatorPara p) = True"
| "less_eq_creator_id (CreatorPara p) (CreatorAccount a) = False"
| "less_eq_creator_id (CreatorPara p) (CreatorPara q) = (p \<le> q)"

definition less_creator_id :: "'a creator_id \<Rightarrow> 'a creator_id \<Rightarrow> bool" where
  "less_creator_id x y \<longleftrightarrow> x \<le> y \<and> \<not> y \<le> x"

instance
proof
  fix x y z :: "'a creator_id"
  show "x < y \<longleftrightarrow> x \<le> y \<and> \<not> y \<le> x" by (simp add: less_creator_id_def)
  show "x \<le> x" by (cases x) simp_all
  show "x \<le> y \<Longrightarrow> y \<le> z \<Longrightarrow> x \<le> z" by (cases x; cases y; cases z) auto
  show "x \<le> y \<Longrightarrow> y \<le> x \<Longrightarrow> x = y" by (cases x; cases y) auto
  show "x \<le> y \<or> y \<le> x" by (cases x; cases y) auto
qed

end

record po_feed =
  requested_block_number :: u32
  feed_url :: "bytes option"
  feed_vpath :: "bytes option"

datatype transaction_type = SignedTx | UnsignedForAny | UnsignedForAll | RawTx | NoTx

record timestamped_value =
  tv_value :: i64
  tv_timestamp :: u128

datatype 'acc para_oracle_event =
    FeedDataSent u32
  | FeedDataError nat u32
  | NewFeedData "'acc creator_id" "(OracleKey \<times> i64) list"
  | NewParaEvt u32
  | NewParaEvt1 'acc
  | NewApiFeed "'acc creator_id" OracleKey po_feed
  | ApiFeedRemoved "'acc creator_id" OracleKey po_feed

datatype pays = PaysYes | PaysNo

text \<open>An XCM with one \<open>Transact\<close> to a sibling parachain.\<close>

record transact_message =
  dest_para :: u32
  require_weight_at_most :: u64
  encoded_call :: bytes

text \<open>\<open>core::cmp::Ordering\<close>.\<close>

datatype ordering = Less | Equal | Greater

record ('ev, 'acc, 'json, 'f) para_oracle_config =
  para_oracle_event :: "'acc para_oracle_event \<Rightarrow> 'ev"
  unsigned_priority :: u64
  po_weight_info :: para_oracle_weight_info
  set_insert :: "'acc creator_id \<Rightarrow> 'acc creator_id list \<Rightarrow> bool \<times> 'acc creator_id list"
  iter_raw :: "('acc creator_id \<times> OracleKey \<rightharpoonup> timestamped_value) \<Rightarrow>
     (('acc creator_id \<times> OracleKey) \<times> timestamped_value) list"
  iter_feeds :: "('acc creator_id \<times> OracleKey \<rightharpoonup> po_feed) \<Rightarrow>
     (('acc creator_id \<times> OracleKey) \<times> po_feed) list"
  iter_values :: "(OracleKey \<rightharpoonup> timestamped_value) \<Rightarrow> (OracleKey \<times> timestamped_value) list"
  send_xcm :: "transact_message \<Rightarrow> bool"
  select_nth :: "nat \<Rightarrow> (timestamped_value \<Rightarrow> timestamped_value \<Rightarrow> ordering) \<Rightarrow>
     timestamped_value list \<Rightarrow> timestamped_value"
  minimum_count :: u32
  expires_in :: u128
  str_limit :: u32
  can_sign :: bool
  valid_utf8 :: "bytes \<Rightarrow> bool"
  http_get :: "bytes \<Rightarrow> (u16 \<times> bytes) option"
  json_parse :: "bytes \<Rightarrow> 'json option"
  json_pointer :: "'json \<Rightarrow> bytes \<Rightarrow> 'json option"
  json_f64 :: "'json \<Rightarrow> 'f option"
  micros_as_i64 :: "'f \<Rightarrow> i64"

record ('ev, 'acc) para_oracle_state = "'ev system_state" +
  next_unsigned_at :: u32
  po_api_feeds :: "'acc creator_id \<times> OracleKey \<rightharpoonup> po_feed"
  raw_values :: "'acc creator_id \<times> OracleKey \<rightharpoonup> timestamped_value"
  po_values :: "OracleKey \<rightharpoonup> timestamped_value"
  has_dispatched :: "'acc creator_id list"
  unix_now :: u128
  xcm_sent :: "transact_message list"

section \<open>Combining\<close>

text \<open>\<open>Ord::cmp\<close> of a signed integer.\<close>

definition cmp_i64 :: "i64 \<Rightarrow> i64 \<Rightarrow> ordering" where
  "cmp_i64 x y = (if sint x < sint y then Less else if sint x = sint y then Equal else Greater)"

definition combine_data ::
    "('ev, 'acc, 'json, 'f, 'x) para_oracle_config_scheme \<Rightarrow> u128 \<Rightarrow> timestamped_value list \<Rightarrow>
     timestamped_value option \<Rightarrow> timestamped_value option" where
  "combine_data T now vals prev_value =
     (let valid = filter (\<lambda>x. now < tv_timestamp x + expires_in T) vals;
          count = (of_nat (length valid) :: u32)
      in if count < minimum_count T \<or> count = 0 then prev_value
         else Some (select_nth T (unat (count div 2)) (\<lambda>a b. cmp_i64 (tv_value a) (tv_value b)) valid))"

definition read_raw_values ::
    "('ev, 'acc, 'json, 'f, 'x) para_oracle_config_scheme \<Rightarrow> OracleKey \<Rightarrow>
     ('ev, 'acc, 'm) para_oracle_state_scheme \<Rightarrow> timestamped_value list" where
  "read_raw_values T key s =
     List.map_filter (\<lambda>((_, k), val). if key = k then Some val else None) (iter_raw T (raw_values s))"

text \<open>\<open>Pallet::get\<close>.\<close>

definition get_value :: "OracleKey \<Rightarrow> ('ev, 'acc, 'm) para_oracle_state_scheme \<Rightarrow> timestamped_value option" where
  "get_value key s = po_values s key"

definition get_all_values ::
    "('ev, 'acc, 'json, 'f, 'x) para_oracle_config_scheme \<Rightarrow> ('ev, 'acc, 'm) para_oracle_state_scheme \<Rightarrow>
     (OracleKey \<times> timestamped_value option) list" where
  "get_all_values T s = map (\<lambda>(k, v). (k, Some v)) (iter_values T (po_values s))"

definition combined ::
    "('ev, 'acc, 'json, 'f, 'x) para_oracle_config_scheme \<Rightarrow> OracleKey \<Rightarrow>
     ('ev, 'acc, 'm) para_oracle_state_scheme \<Rightarrow> timestamped_value option" where
  "combined T key s = combine_data T (unix_now s) (read_raw_values T key s) (po_values s key)"

section \<open>Dispatchables\<close>

text \<open>The body of the loop of the two feeding calls.\<close>

definition feed_one ::
    "('ev, 'acc, 'json, 'f, 'x) para_oracle_config_scheme \<Rightarrow> 'acc creator_id \<Rightarrow> u128 \<Rightarrow> OracleKey \<times> i64 \<Rightarrow>
     (dispatch_error, ('ev, 'acc, 'm) para_oracle_state_scheme, unit) call" where
  "feed_one T cid now kv =
     (case kv of (key, value) \<Rightarrow>
        seq (modify (\<lambda>s. s\<lparr>raw_values := (raw_values s)((cid, key) \<mapsto>
               \<lparr>tv_value = value, tv_timestamp = now\<rparr>)\<rparr>)) (\<lambda>_.
        seq (gets (combined T key)) (\<lambda>o_combined.
        case o_combined of
          Some c \<Rightarrow> modify (\<lambda>s. s\<lparr>po_values := (po_values s)(key \<mapsto> c)\<rparr>)
        | None \<Rightarrow> ret ())))"

definition try_dispatch ::
    "('ev, 'acc, 'json, 'f, 'x) para_oracle_config_scheme \<Rightarrow> 'acc creator_id \<Rightarrow>
     (dispatch_error, ('ev, 'acc, 'm) para_oracle_state_scheme, unit) call" where
  "try_dispatch T cid =
     seq (gets (\<lambda>s. set_insert T cid (has_dispatched s))) (\<lambda>(inserted, set').
     seq (modify (\<lambda>s. s\<lparr>has_dispatched := set'\<rparr>)) (\<lambda>_.
     ensure inserted (ParaOracle AlreadyFeeded)))"

definition feed_values ::
    "('ev, 'acc, 'json, 'f, 'x) para_oracle_config_scheme \<Rightarrow> 'acc creator_id \<Rightarrow> (OracleKey \<times> i64) list \<Rightarrow>
     (dispatch_error, ('ev, 'acc, 'm) para_oracle_state_scheme, pays) call" where
  "feed_values T cid vals =
     seq (try_dispatch T cid) (\<lambda>_.
     seq (gets unix_now) (\<lambda>now.
     seq (for_each vals (feed_one T cid now)) (\<lambda>_.
     seq (deposit_event (para_oracle_event T (NewFeedData cid vals))) (\<lambda>_.
     ret PaysNo))))"

definition po_feed_data ::
    "('ev, 'acc, 'json, 'f, 'x) para_oracle_config_scheme \<Rightarrow> 'acc origin \<Rightarrow> (OracleKey \<times> i64) list \<Rightarrow>
     (dispatch_error, ('ev, 'acc, 'm) para_oracle_state_scheme, pays) call" where
  "po_feed_data T origin vals =
     seq (ensure_signed origin) (\<lambda>feeder. feed_values T (CreatorAccount feeder) vals)"

definition xcm_feed_data ::
    "('ev, 'acc, 'json, 'f, 'x) para_oracle_config_scheme \<Rightarrow> 'acc origin \<Rightarrow> (OracleKey \<times> i64) list \<Rightarrow>
     (dispatch_error, ('ev, 'acc, 'm) para_oracle_state_scheme, pays) call" where
  "xcm_feed_data T origin vals =
     seq (ensure_sibling_para origin) (\<lambda>para_id. feed_values T (CreatorPara para_id) vals)"

text \<open>
  The call a reply carries: the derived encoding of the two mock enums, whose variants
  have the indices 168 and 7.
\<close>

definition enc_feed_back :: "bytes \<Rightarrow> i64 \<Rightarrow> bytes" where
  "enc_feed_back key value = 168 # 7 # enc_vec key @ le_bytes 8 (unat value)"

definition send_qret_to_parachain ::
    "('ev, 'acc, 'json, 'f, 'x) para_oracle_config_scheme \<Rightarrow> u32 \<Rightarrow> bytes \<Rightarrow> i64 \<Rightarrow>
     (dispatch_error, ('ev, 'acc, 'm) para_oracle_state_scheme, unit) call" where
  "send_qret_to_parachain T para_id key value =
     (let msg = \<lparr>dest_para = para_id, require_weight_at_most = 1000000000,
                 encoded_call = enc_feed_back key value\<rparr> in
      seq (ensure (send_xcm T msg) (ParaOracle XcmSendError)) (\<lambda>_.
      modify (\<lambda>s. s\<lparr>xcm_sent := xcm_sent s @ [msg]\<rparr>)))"

definition xcm_query_data ::
    "('ev, 'acc, 'json, 'f, 'x) para_oracle_config_scheme \<Rightarrow> 'acc origin \<Rightarrow> OracleKey \<Rightarrow>
     (dispatch_error, ('ev, 'acc, 'm) para_oracle_state_scheme, unit) call" where
  "xcm_query_data T origin key =
     seq (ensure_sibling_para origin) (\<lambda>para_id.
     seq (gets (get_value key)) (\<lambda>o_val.
     case o_val of
       Some val \<Rightarrow> send_qret_to_parachain T para_id key (tv_value val)
     | None \<Rightarrow> throw CannotLookup))"

definition do_submit_api ::
    "('ev, 'acc, 'json, 'f, 'x) para_oracle_config_scheme \<Rightarrow> 'acc creator_id \<Rightarrow> OracleKey \<Rightarrow> bytes \<Rightarrow> bytes \<Rightarrow>
     (dispatch_error, ('ev, 'acc, 'm) para_oracle_state_scheme, unit) call" where
  "do_submit_api T cid key url_arg vpath_arg =
     seq (gets block_number) (\<lambda>now.
     let feed = \<lparr>requested_block_number = now, feed_url = Some url_arg, feed_vpath = Some vpath_arg\<rparr> in
     seq (modify (\<lambda>s. s\<lparr>po_api_feeds := (po_api_feeds s)((cid, key) \<mapsto> feed)\<rparr>)) (\<lambda>_.
     deposit_event (para_oracle_event T (NewApiFeed cid key feed))))"

definition do_remove_api ::
    "('ev, 'acc, 'json, 'f, 'x) para_oracle_config_scheme \<Rightarrow> 'acc creator_id \<Rightarrow> OracleKey \<Rightarrow>
     (dispatch_error, ('ev, 'acc, 'm) para_oracle_state_scheme, unit) call" where
  "do_remove_api T cid key =
     seq (gets (\<lambda>s. po_api_feeds s (cid, key) \<noteq> None)) (\<lambda>feed_exists.
     if feed_exists then
       seq (gets (\<lambda>s. po_api_feeds s (cid, key))) (\<lambda>o_feed.
       seq (expect o_feed) (\<lambda>feed.
       seq (modify (\<lambda>s. s\<lparr>po_api_feeds := (po_api_feeds s)((cid, key) := None)\<rparr>)) (\<lambda>_.
       deposit_event (para_oracle_event T (ApiFeedRemoved cid key feed)))))
     else throw CannotLookup)"

definition submit_api ::
    "('ev, 'acc, 'json, 'f, 'x) para_oracle_config_scheme \<Rightarrow> 'acc origin \<Rightarrow> OracleKey \<Rightarrow> bytes \<Rightarrow> bytes \<Rightarrow>
     (dispatch_error, ('ev, 'acc, 'm) para_oracle_state_scheme, unit) call" where
  "submit_api T origin key url_arg vpath_arg =
     seq (ensure_signed origin) (\<lambda>submitter. do_submit_api T (CreatorAccount submitter) key url_arg vpath_arg)"

definition remove_api ::
    "('ev, 'acc, 'json, 'f, 'x) para_oracle_config_scheme \<Rightarrow> 'acc origin \<Rightarrow> OracleKey \<Rightarrow>
     (dispatch_error, ('ev, 'acc, 'm) para_oracle_state_scheme, unit) call" where
  "remove_api T origin key =
     seq (ensure_signed origin) (\<lambda>submitter. do_remove_api T (CreatorAccount submitter) key)"

definition xcm_submit_api ::
    "('ev, 'acc, 'json, 'f, 'x) para_oracle_config_scheme \<Rightarrow> 'acc origin \<Rightarrow> OracleKey \<Rightarrow> bytes \<Rightarrow> bytes \<Rightarrow>
     (dispatch_error, ('ev, 'acc, 'm) para_oracle_state_scheme, unit) call" where
  "xcm_submit_api T origin key url_arg vpath_arg =
     seq (ensure_sibling_para origin) (\<lambda>para_id. do_submit_api T (CreatorPara para_id) key url_arg vpath_arg)"

definition xcm_remove_api ::
    "('ev, 'acc, 'json, 'f, 'x) para_oracle_config_scheme \<Rightarrow> 'acc origin \<Rightarrow> OracleKey \<Rightarrow>
     (dispatch_error, ('ev, 'acc, 'm) para_oracle_state_scheme, unit) call" where
  "xcm_remove_api T origin key =
     seq (ensure_sibling_para origin) (\<lambda>para_id. do_remove_api T (CreatorPara para_id) key)"

section \<open>Hooks and validation\<close>

definition po_on_initialize :: "('ev, 'acc, 'json, 'f, 'x) para_oracle_config_scheme \<Rightarrow> u32 \<Rightarrow> weight" where
  "po_on_initialize T n = w_on_finalize (po_weight_info T)"

definition po_on_finalize :: "u32 \<Rightarrow> (dispatch_error, ('ev, 'acc, 'm) para_oracle_state_scheme, unit) call" where
  "po_on_finalize n = modify (\<lambda>s. s\<lparr>has_dispatched := []\<rparr>)"

datatype invalid_transaction = InvalidCall | InvalidStale | InvalidFuture

record valid_transaction =
  tag_prefix :: string
  tx_priority :: u64
  tx_longevity :: u64
  tx_propagate :: bool

definition validate_unsigned :: "'call \<Rightarrow> invalid_transaction + valid_transaction" where
  "validate_unsigned c = Inl InvalidCall"

definition validate_transaction ::
    "('ev, 'acc, 'json, 'f, 'x) para_oracle_config_scheme \<Rightarrow> u32 \<Rightarrow>
     ('ev, 'acc, 'm) para_oracle_state_scheme \<Rightarrow> invalid_transaction + valid_transaction" where
  "validate_transaction T n s =
     (if n < next_unsigned_at s then Inl InvalidStale
      else if block_number s < n then Inl InvalidFuture
      else Inr \<lparr>tag_prefix = ''ParaOracleOCW'', tx_priority = unsigned_priority T,
                tx_longevity = 5, tx_propagate = True\<rparr>)"

section \<open>The offchain worker\<close>

text \<open>
  The persistent value of the worker: what the read gives (an error, nothing, or a block
  number) and whether another worker wrote it in between. The result is the choice and
  the value stored afterwards.
\<close>

datatype retrieval = RetrievalError | NothingStored | Stored u32

definition choose_transaction_type :: "u32 \<Rightarrow> retrieval \<Rightarrow> bool \<Rightarrow> transaction_type \<times> retrieval" where
  "choose_transaction_type n last_send interrupted =
     (let refused = (case last_send of Stored b \<Rightarrow> n < b | _ \<Rightarrow> False) in
      if refused then (NoTx, last_send)
      else if interrupted then (NoTx, last_send)
      else (if n mod 3 = 0 then SignedTx
            else if n mod 3 = 1 then UnsignedForAny
            else if n mod 3 = 2 then UnsignedForAll
            else RawTx, Stored n))"

datatype worker_error =
    NoLocalAccounts | FetchFailed | NotWellFormed | BadPathUtf8 | PathError | ValueTypeError | WorkerPanic

definition fetch_http_get_result ::
    "('ev, 'acc, 'json, 'f, 'x) para_oracle_config_scheme \<Rightarrow> bytes \<Rightarrow> worker_error + bytes" where
  "fetch_http_get_result T url_arg =
     (if \<not> valid_utf8 T url_arg then Inl WorkerPanic
      else (case http_get T url_arg of
              None \<Rightarrow> Inl FetchFailed
            | Some (code, body) \<Rightarrow>
                (if code \<noteq> 200 then Inl FetchFailed
                 else if \<not> valid_utf8 T body then Inl FetchFailed
                 else Inr body)))"

definition fetch_one ::
    "('ev, 'acc, 'json, 'f, 'x) para_oracle_config_scheme \<Rightarrow> bytes \<Rightarrow> bytes \<Rightarrow> worker_error + i64" where
  "fetch_one T url_arg vpath_arg =
     (case fetch_http_get_result T url_arg of
        Inl e \<Rightarrow> Inl e
      | Inr response \<Rightarrow>
          (case json_parse T response of
             None \<Rightarrow> Inl NotWellFormed
           | Some json \<Rightarrow>
               (if \<not> valid_utf8 T vpath_arg then Inl BadPathUtf8
                else (case json_pointer T json vpath_arg of
                        None \<Rightarrow> Inl PathError
                      | Some j \<Rightarrow>
                          (case json_f64 T j of
                             None \<Rightarrow> Inl ValueTypeError
                           | Some f \<Rightarrow> Inr (micros_as_i64 T f))))))"

fun fetch_all ::
    "('ev, 'acc, 'json, 'f, 'x) para_oracle_config_scheme \<Rightarrow> (('acc creator_id \<times> OracleKey) \<times> po_feed) list \<Rightarrow>
     worker_error + (OracleKey \<times> i64) list" where
  "fetch_all T [] = Inr []"
| "fetch_all T (((creator, key), val) # feeds) =
     (case (feed_url val, feed_vpath val) of
        (Some u, Some p) \<Rightarrow>
          (case fetch_one T u p of
             Inl e \<Rightarrow> Inl e
           | Inr ival \<Rightarrow> (case fetch_all T feeds of Inl e \<Rightarrow> Inl e | Inr vals \<Rightarrow> Inr ((key, ival) # vals)))
      | _ \<Rightarrow> fetch_all T feeds)"

text \<open>The values the worker submits in a signed \<open>feed_data\<close>, if it submits any.\<close>

definition fetch_api_and_feed_data ::
    "('ev, 'acc, 'json, 'f, 'x) para_oracle_config_scheme \<Rightarrow> u32 \<Rightarrow> ('ev, 'acc, 'm) para_oracle_state_scheme \<Rightarrow>
     worker_error + (OracleKey \<times> i64) list option" where
  "fetch_api_and_feed_data T n s =
     (if \<not> can_sign T then Inl NoLocalAccounts
      else (case fetch_all T (iter_feeds T (po_api_feeds s)) of
              Inl e \<Rightarrow> Inl e
            | Inr vals \<Rightarrow> Inr (if 0 < length vals then Some vals else None)))"

text \<open>The hook logs an error and submits nothing.\<close>

definition offchain_worker ::
    "('ev, 'acc, 'json, 'f, 'x) para_oracle_config_scheme \<Rightarrow> u32 \<Rightarrow> ('ev, 'acc, 'm) para_oracle_state_scheme \<Rightarrow>
     (OracleKey \<times> i64) list option" where
  "offchain_worker T n s =
     (case fetch_api_and_feed_data T n s of Inl e \<Rightarrow> None | Inr submitted \<Rightarrow> submitted)"

end
