(* ===== verification/Para_Oracle_Properties.thy ===== *)
theory Para_Oracle_Properties
  imports Para_Oracle "HOL-Library.Multiset"
begin

text \<open>
  The properties of the para-oracle pallet. \<open>select_ok\<close> is the documented behaviour of
  \<open>select_nth_unstable_by\<close>, \<open>ordered_set_ok\<close> that of the ORML ordered set,
  \<open>iteration_ok\<close> that a storage iteration lists every entry once. \<open>po_dispatch\<close> runs
  a call in its storage layer. The concrete pallet \<open>demo_oracle\<close> has a sorted set of at
  most three creators, the median by sorting, and storage orders over the entries of a
  few accounts.
\<close>

section \<open>Laws of the code outside\<close>

text \<open>
  With a comparator that orders by a key, the selected element is one of the list whose key
  is at the given place among the sorted keys.
\<close>

definition orders_by :: "(timestamped_value \<Rightarrow> timestamped_value \<Rightarrow> ordering) \<Rightarrow> (timestamped_value \<Rightarrow> int) \<Rightarrow> bool" where
  "orders_by cmp f \<longleftrightarrow> (\<forall>a b. cmp a b = (if f a < f b then Less else if f a = f b then Equal else Greater))"

definition select_ok ::
    "(nat \<Rightarrow> (timestamped_value \<Rightarrow> timestamped_value \<Rightarrow> ordering) \<Rightarrow> timestamped_value list \<Rightarrow> timestamped_value) \<Rightarrow> bool" where
  "select_ok sel \<longleftrightarrow> (\<forall>cmp f n xs. orders_by cmp f \<and> n < length xs \<longrightarrow>
     sel n cmp xs \<in> set xs \<and> f (sel n cmp xs) = sort (map f xs) ! n)"

abbreviation by_value :: "timestamped_value \<Rightarrow> timestamped_value \<Rightarrow> ordering" where
  "by_value a b \<equiv> cmp_i64 (tv_value a) (tv_value b)"

lemma by_value_orders: "orders_by by_value (\<lambda>x. sint (tv_value x))"
  by (simp add: orders_by_def cmp_i64_def)

definition ordered_set_ok :: "('c \<Rightarrow> 'c list \<Rightarrow> bool \<times> 'c list) \<Rightarrow> bool" where
  "ordered_set_ok ins \<longleftrightarrow> (\<forall>c S.
     (fst (ins c S) \<longrightarrow> c \<notin> set S \<and> set (snd (ins c S)) = insert c (set S))
     \<and> (\<not> fst (ins c S) \<longrightarrow> snd (ins c S) = S))"

definition iteration_ok :: "(('k \<rightharpoonup> 'v) \<Rightarrow> ('k \<times> 'v) list) \<Rightarrow> ('k \<rightharpoonup> 'v) \<Rightarrow> bool" where
  "iteration_ok it m \<longleftrightarrow> distinct (map fst (it m)) \<and> map_of (it m) = m"

section \<open>Order statistics\<close>

lemma sorted_nth_ge:
  fixes ys :: "'b::linorder list"
  assumes "sorted ys" and "length (filter (\<lambda>y. y < lo) ys) \<le> n" and "n < length ys"
  shows "lo \<le> ys ! n"
proof (rule ccontr)
  assume "\<not> lo \<le> ys ! n"
  then have "\<forall>i \<in> {..n}. ys ! i < lo"
    using assms(1,3) by (auto simp: not_le intro: le_less_trans sorted_nth_mono)
  then have "{..n} \<subseteq> {i. i < length ys \<and> ys ! i < lo}"
    using assms(3) by auto
  then have "card {..n} \<le> card {i. i < length ys \<and> ys ! i < lo}"
    by (intro card_mono) simp_all
  with assms(2) show False by (simp add: length_filter_conv_card)
qed

lemma sorted_nth_le:
  fixes ys :: "'b::linorder list"
  assumes "sorted ys" and "n + length (filter (\<lambda>y. hi < y) ys) < length ys"
  shows "ys ! n \<le> hi"
proof (rule ccontr)
  assume "\<not> ys ! n \<le> hi"
  have "n < length ys" using assms(2) by simp
  then have "\<forall>i \<in> {n..<length ys}. hi < ys ! i"
    using \<open>\<not> ys ! n \<le> hi\<close> assms(1) by (auto simp: not_le) (meson less_le_trans sorted_nth_mono)
  then have "{n..<length ys} \<subseteq> {i. i < length ys \<and> hi < ys ! i}" by auto
  then have "card {n..<length ys} \<le> card {i. i < length ys \<and> hi < ys ! i}"
    by (intro card_mono) simp_all
  with assms(2) show False by (simp add: length_filter_conv_card)
qed

lemma length_filter_sort: "length (filter P (sort xs)) = length (filter P xs)"
  by (metis mset_filter mset_sort size_mset)

lemma median_in_range:
  fixes xs :: "'b::linorder list"
  assumes "length xs < 2 * length (filter (\<lambda>x. lo \<le> x \<and> x \<le> hi) xs)"
  shows "lo \<le> sort xs ! (length xs div 2) \<and> sort xs ! (length xs div 2) \<le> hi"
proof -
  let ?in = "length (filter (\<lambda>x. lo \<le> x \<and> x \<le> hi) xs)"
  let ?below = "length (filter (\<lambda>x. x < lo) xs)" and ?above = "length (filter (\<lambda>x. hi < x) xs)"
  have "?in + ?below \<le> length xs" and "?in + ?above \<le> length xs"
    by (induction xs) auto
  with assms have "?below \<le> length xs div 2" "length xs div 2 < length xs"
      "length xs div 2 + ?above < length xs"
    by linarith+
  then show ?thesis
    by (intro conjI sorted_nth_ge sorted_nth_le) (simp_all add: length_filter_sort)
qed

section \<open>Combining\<close>

definition valid_values ::
    "('ev, 'acc, 'json, 'f, 'x) para_oracle_config_scheme \<Rightarrow> u128 \<Rightarrow> timestamped_value list \<Rightarrow> timestamped_value list" where
  "valid_values T now vals = filter (\<lambda>x. now < tv_timestamp x + expires_in T) vals"

lemma unat_length_u32: "length xs < 2 ^ 32 \<Longrightarrow> unat (of_nat (length xs) :: u32) = length xs"
proof -
  assume "length xs < 2 ^ 32"
  then have "length xs < 2 ^ LENGTH(32)" by simp
  then show ?thesis by (simp only: unsigned_of_nat of_nat_id take_bit_nat_eq_self)
qed

lemma combine_data_run:
  assumes "length vals < 2 ^ 32"
  shows "combine_data T now vals prev =
    (if length (valid_values T now vals) < unat (minimum_count T) \<or> valid_values T now vals = [] then prev
     else Some (select_nth T (length (valid_values T now vals) div 2) by_value (valid_values T now vals)))"
proof -
  have "length (valid_values T now vals) < 2 ^ 32"
    using length_filter_le assms unfolding valid_values_def by (rule le_less_trans)
  then have len: "unat (of_nat (length (valid_values T now vals)) :: u32) = length (valid_values T now vals)"
    by (rule unat_length_u32)
  then have zero: "(of_nat (length (valid_values T now vals)) :: u32) = 0 \<longleftrightarrow> valid_values T now vals = []"
    by (metis length_0_conv unat_0 unat_eq_0)
  show ?thesis
    unfolding combine_data_def Let_def valid_values_def [symmetric]
    by (simp add: zero word_less_nat_alt len unat_div)
qed

text \<open>
  C13. The combined value resists a minority: if more than half of the values that have
  not expired lie between two bounds, and there are as many as the minimum count, the
  result is one of the valid values and lies between the bounds too, whatever the other
  feeders submitted.
\<close>

theorem median_resists_minority:
  assumes "select_ok (select_nth T)" and "length vals < 2 ^ 32"
    and "unat (minimum_count T) \<le> length (valid_values T now vals)"
    and "length (valid_values T now vals)
           < 2 * length (filter (\<lambda>x. lo \<le> sint (tv_value x) \<and> sint (tv_value x) \<le> hi) (valid_values T now vals))"
  shows "\<exists>v \<in> set (valid_values T now vals).
    combine_data T now vals prev = Some v \<and> lo \<le> sint (tv_value v) \<and> sint (tv_value v) \<le> hi"
proof -
  let ?xs = "valid_values T now vals"
  let ?v = "select_nth T (length ?xs div 2) by_value ?xs"
  have "?xs \<noteq> []" using assms(4) by auto
  then have "length ?xs div 2 < length ?xs" by simp
  then have v: "?v \<in> set ?xs" "sint (tv_value ?v) = sort (map (\<lambda>x. sint (tv_value x)) ?xs) ! (length ?xs div 2)"
    using assms(1) by_value_orders unfolding select_ok_def by blast+
  have "length (map (\<lambda>x. sint (tv_value x)) ?xs)
      < 2 * length (filter (\<lambda>y. lo \<le> y \<and> y \<le> hi) (map (\<lambda>x. sint (tv_value x)) ?xs))"
    using assms(4) by (simp add: filter_map comp_def)
  from median_in_range [OF this] have "lo \<le> sint (tv_value ?v) \<and> sint (tv_value ?v) \<le> hi"
    using v(2) by simp
  moreover have "combine_data T now vals prev = Some ?v"
    using \<open>?xs \<noteq> []\<close> assms(3) by (simp add: combine_data_run [OF assms(2)])
  ultimately show ?thesis using v(1) by blast
qed

section \<open>A concrete pallet\<close>

definition demo_insert :: "nat creator_id \<Rightarrow> nat creator_id list \<Rightarrow> bool \<times> nat creator_id list" where
  "demo_insert c S = (if c \<in> set S \<or> 3 \<le> length S then (False, S) else (True, insort c S))"

definition demo_iter :: "(nat creator_id \<times> OracleKey \<rightharpoonup> 'v) \<Rightarrow> ((nat creator_id \<times> OracleKey) \<times> 'v) list" where
  "demo_iter m = List.map_filter (\<lambda>k. map_option (Pair k) (m k))
     [(CreatorAccount 1, [7]), (CreatorAccount 2, [7]), (CreatorAccount 3, [7])]"

fun insert_by :: "('a \<Rightarrow> 'a \<Rightarrow> ordering) \<Rightarrow> 'a \<Rightarrow> 'a list \<Rightarrow> 'a list" where
  "insert_by cmp x [] = [x]"
| "insert_by cmp x (y # ys) = (if cmp x y = Greater then y # insert_by cmp x ys else x # y # ys)"

definition demo_select :: "nat \<Rightarrow> ('a \<Rightarrow> 'a \<Rightarrow> ordering) \<Rightarrow> 'a list \<Rightarrow> 'a" where
  "demo_select n cmp xs = foldr (insert_by cmp) xs [] ! n"

definition demo_oracle :: "(nat para_oracle_event, nat, unit, int) para_oracle_config" where
  "demo_oracle =
     \<lparr>para_oracle_event = (\<lambda>e. e), unsigned_priority = 1,
      po_weight_info = unit_para_oracle_weight (rocks_db_weight 1000),
      set_insert = demo_insert, iter_raw = demo_iter, iter_feeds = demo_iter,
      iter_values = (\<lambda>m. case m [7] of None \<Rightarrow> [] | Some v \<Rightarrow> [([7], v)]),
      send_xcm = (\<lambda>_. True), select_nth = demo_select, minimum_count = 1, expires_in = 100,
      str_limit = 64, can_sign = True, valid_utf8 = list_all (\<lambda>b. b < 128),
      http_get = (\<lambda>u. if u = [1] then Some (200, [2]) else None),
      json_parse = (\<lambda>_. Some ()), json_pointer = (\<lambda>j _. Some j), json_f64 = (\<lambda>_. Some 5),
      micros_as_i64 = of_int\<rparr>"

definition demo_po_state :: "(nat para_oracle_event, nat) para_oracle_state" where
  "demo_po_state = \<lparr>block_number = 4, events = [], next_unsigned_at = 0, po_api_feeds = Map.empty,
     raw_values = Map.empty, po_values = Map.empty, has_dispatched = [], unix_now = 1000, xcm_sent = []\<rparr>"

lemma insert_by_key: "orders_by cmp f \<Longrightarrow> insert_by cmp x ys = insort_key f x ys"
  by (induction ys) (auto simp: orders_by_def)

lemma demo_select_ok: "select_ok demo_select"
  unfolding select_ok_def
proof (intro allI impI, elim conjE)
  fix cmp and f :: "timestamped_value \<Rightarrow> int" and n and xs :: "timestamped_value list"
  assume cmp: "orders_by cmp f" and n: "n < length xs"
  have "insert_by cmp = insort_key f" using insert_by_key [OF cmp] by (intro ext)
  then have run: "demo_select n cmp xs = sort_key f xs ! n"
    by (simp add: demo_select_def sort_key_def)
  have "map f (sort_key f xs) = sort (map f xs)"
    by (rule properties_for_sort [symmetric]) simp_all
  from this [symmetric] n have "f (sort_key f xs ! n) = sort (map f xs) ! n" by simp
  moreover have "sort_key f xs ! n \<in> set xs"
    using n by (metis length_sort nth_mem set_sort)
  ultimately show "demo_select n cmp xs \<in> set xs \<and> f (demo_select n cmp xs) = sort (map f xs) ! n"
    unfolding run by simp
qed

lemma demo_insert_ok: "ordered_set_ok demo_insert"
  by (auto simp: ordered_set_ok_def demo_insert_def set_insort_key)

theorem median_resists_minority_witness:
  "\<exists>v. combine_data demo_oracle 50
     [\<lparr>tv_value = 10, tv_timestamp = 1\<rparr>, \<lparr>tv_value = 9999, tv_timestamp = 2\<rparr>, \<lparr>tv_value = 12, tv_timestamp = 3\<rparr>] None = Some v
     \<and> 10 \<le> sint (tv_value v) \<and> sint (tv_value v) \<le> 12"
proof -
  let ?vals = "[\<lparr>tv_value = 10, tv_timestamp = 1\<rparr>, \<lparr>tv_value = 9999, tv_timestamp = 2\<rparr>, \<lparr>tv_value = 12, tv_timestamp = 3\<rparr>]"
  have valid: "valid_values demo_oracle 50 ?vals = ?vals"
    by (simp add: valid_values_def demo_oracle_def)
  have "select_ok (select_nth demo_oracle)" by (simp add: demo_oracle_def demo_select_ok)
  moreover have "unat (minimum_count demo_oracle) \<le> length (valid_values demo_oracle 50 ?vals)"
    unfolding valid by (simp add: demo_oracle_def)
  moreover have "length (valid_values demo_oracle 50 ?vals)
      < 2 * length (filter (\<lambda>x. 10 \<le> sint (tv_value x) \<and> sint (tv_value x) \<le> 12) (valid_values demo_oracle 50 ?vals))"
    unfolding valid by simp
  ultimately show ?thesis
    using median_resists_minority [of demo_oracle ?vals 50 10 12 None] by auto
qed

section \<open>The calls of the pallet\<close>

datatype po_call =
    FeedDataCall "(OracleKey \<times> i64) list"
  | XcmFeedDataCall "(OracleKey \<times> i64) list"
  | XcmQueryDataCall OracleKey
  | SubmitApiCall OracleKey bytes bytes
  | RemoveApiCall OracleKey
  | XcmSubmitApiCall OracleKey bytes bytes
  | XcmRemoveApiCall OracleKey

definition po_dispatch ::
    "('ev, 'acc, 'json, 'f, 'x) para_oracle_config_scheme \<Rightarrow> 'acc origin \<Rightarrow> po_call \<Rightarrow>
     (dispatch_error, ('ev, 'acc, 'm) para_oracle_state_scheme, pays) call" where
  "po_dispatch T origin c = transactional
     (case c of
        FeedDataCall vals \<Rightarrow> po_feed_data T origin vals
      | XcmFeedDataCall vals \<Rightarrow> xcm_feed_data T origin vals
      | XcmQueryDataCall key \<Rightarrow> seq (xcm_query_data T origin key) (\<lambda>_. ret PaysYes)
      | SubmitApiCall key u p \<Rightarrow> seq (submit_api T origin key u p) (\<lambda>_. ret PaysYes)
      | RemoveApiCall key \<Rightarrow> seq (remove_api T origin key) (\<lambda>_. ret PaysYes)
      | XcmSubmitApiCall key u p \<Rightarrow> seq (xcm_submit_api T origin key u p) (\<lambda>_. ret PaysYes)
      | XcmRemoveApiCall key \<Rightarrow> seq (xcm_remove_api T origin key) (\<lambda>_. ret PaysYes))"

text \<open>The calls of one block, in order.\<close>

definition po_run ::
    "('ev, 'acc, 'json, 'f, 'x) para_oracle_config_scheme \<Rightarrow> ('acc origin \<times> po_call) list \<Rightarrow>
     ('ev, 'acc, 'm) para_oracle_state_scheme \<Rightarrow> ('ev, 'acc, 'm) para_oracle_state_scheme" where
  "po_run T calls s = fold (\<lambda>(origin, c) s. snd (po_dispatch T origin c s)) calls s"

section \<open>Feeding as a function\<close>

definition feed_step ::
    "('ev, 'acc, 'json, 'f, 'x) para_oracle_config_scheme \<Rightarrow> 'acc creator_id \<Rightarrow> u128 \<Rightarrow> OracleKey \<times> i64 \<Rightarrow>
     ('ev, 'acc, 'm) para_oracle_state_scheme \<Rightarrow> ('ev, 'acc, 'm) para_oracle_state_scheme" where
  "feed_step T cid now kv s =
     (let s' = s\<lparr>raw_values := (raw_values s)((cid, fst kv) \<mapsto> \<lparr>tv_value = snd kv, tv_timestamp = now\<rparr>)\<rparr>
      in case combined T (fst kv) s' of
           None \<Rightarrow> s'
         | Some c \<Rightarrow> s'\<lparr>po_values := (po_values s')(fst kv \<mapsto> c)\<rparr>)"

lemma feed_one_run: "feed_one T cid now kv = modify (feed_step T cid now kv)"
  by (rule ext) (simp add: feed_one_def call_simps feed_step_def Let_def split: prod.split option.split)

lemma feed_one_eq: "feed_one T cid now = (\<lambda>kv. modify (feed_step T cid now kv))"
  by (rule ext) (rule feed_one_run)

lemma feed_step_sel [simp]:
  "has_dispatched (feed_step T cid now kv s) = has_dispatched s"
  "events (feed_step T cid now kv s) = events s"
  "unix_now (feed_step T cid now kv s) = unix_now s"
  "po_api_feeds (feed_step T cid now kv s) = po_api_feeds s"
  "raw_values (feed_step T cid now kv s) =
     (raw_values s)((cid, fst kv) \<mapsto> \<lparr>tv_value = snd kv, tv_timestamp = now\<rparr>)"
  by (simp_all add: feed_step_def Let_def split: option.split)

lemma feed_steps_sel [simp]:
  "has_dispatched (fold (feed_step T cid now) vals s) = has_dispatched s"
  "po_api_feeds (fold (feed_step T cid now) vals s) = po_api_feeds s"
  by (induction vals arbitrary: s) simp_all

lemma feed_steps_raw:
  "raw_values (fold (feed_step T cid now) vals s) (c, k) =
     (if c = cid then (case map_of (rev vals) k of
          None \<Rightarrow> raw_values s (c, k) | Some v \<Rightarrow> Some \<lparr>tv_value = v, tv_timestamp = now\<rparr>)
      else raw_values s (c, k))"
proof (induction vals arbitrary: s)
  case (Cons kv vals)
  then show ?case by (cases kv) (auto simp: map_add_def split: option.split)
qed simp

lemma feed_values_run:
  "feed_values T cid vals s =
     (let (inserted, set') = set_insert T cid (has_dispatched s);
          t = fold (feed_step T cid (unix_now s)) vals (s\<lparr>has_dispatched := set'\<rparr>)
      in if inserted then (Inr PaysNo, t\<lparr>events := events t @ [para_oracle_event T (NewFeedData cid vals)]\<rparr>)
         else (Inl (Err (ParaOracle AlreadyFeeded)), s\<lparr>has_dispatched := set'\<rparr>))"
  by (simp add: feed_values_def try_dispatch_def call_simps feed_one_eq Let_def split: prod.split)

section \<open>Creators that have fed\<close>

definition dispatched_grows ::
    "('ev, 'acc, 'm) para_oracle_state_scheme \<Rightarrow> ('ev, 'acc, 'm) para_oracle_state_scheme \<Rightarrow> bool" where
  "dispatched_grows s t \<longleftrightarrow> set (has_dispatched s) \<subseteq> set (has_dispatched t)"

interpretation grows: call_frame dispatched_grows
  by unfold_locales (auto simp: dispatched_grows_def)

lemma grows_modify: "(\<And>s. has_dispatched (f s) = has_dispatched s) \<Longrightarrow> within dispatched_grows (modify f)"
  by (rule grows.within_modify) (simp add: dispatched_grows_def)

lemma grows_deposit: "within dispatched_grows (deposit_event ev)"
  unfolding deposit_event_def by (rule grows_modify) simp

lemma set_insert_grows: "ordered_set_ok ins \<Longrightarrow> ins c S = (b, S') \<Longrightarrow> set S \<subseteq> set S'"
proof -
  assume "ordered_set_ok ins" and ins: "ins c S = (b, S')"
  then have "fst (ins c S) \<longrightarrow> set (snd (ins c S)) = insert c (set S)"
      and "\<not> fst (ins c S) \<longrightarrow> snd (ins c S) = S"
    unfolding ordered_set_ok_def by blast+
  then show ?thesis by (cases b) (auto simp: ins)
qed

lemma feed_values_grows:
  assumes "ordered_set_ok (set_insert T)"
  shows "within dispatched_grows (feed_values T cid vals)"
  unfolding within_def dispatched_grows_def
  using set_insert_grows [OF assms] by (auto simp: feed_values_run Let_def split: prod.split)

lemma api_calls_grow:
  "within dispatched_grows (do_submit_api T cid key u p)"
  "within dispatched_grows (do_remove_api T cid key)"
  "within dispatched_grows (send_qret_to_parachain T para key v)"
  unfolding do_submit_api_def do_remove_api_def send_qret_to_parachain_def Let_def
  by (auto intro!: grows.within_seq grows.within_gets grows_modify grows_deposit grows.within_throw
      grows.within_expect grows.within_ensure)

lemma po_dispatch_grows:
  assumes "ordered_set_ok (set_insert T)"
  shows "within dispatched_grows (po_dispatch T origin c)"
  unfolding po_dispatch_def po_feed_data_def xcm_feed_data_def xcm_query_data_def submit_api_def
    remove_api_def xcm_submit_api_def xcm_remove_api_def
  by (auto intro!: grows.within_transactional grows.within_seq grows.within_ensure_signed
      grows.within_ensure_sibling_para feed_values_grows [OF assms] api_calls_grow grows.within_ret
      grows.within_gets grows.within_throw
      split: po_call.split option.split)

lemma po_run_grows:
  assumes "ordered_set_ok (set_insert T)"
  shows "dispatched_grows s (po_run T calls s)"
proof (induction calls arbitrary: s)
  case Nil
  show ?case by (simp add: po_run_def grows.R_refl)
next
  case (Cons c calls)
  obtain origin x where c: "c = (origin, x)" by (cases c)
  have "dispatched_grows s (snd (po_dispatch T origin x s))"
    using po_dispatch_grows [OF assms] unfolding within_def by blast
  moreover have "po_run T (c # calls) s = po_run T calls (snd (po_dispatch T origin x s))"
    by (simp add: po_run_def c)
  ultimately show ?case using Cons.IH grows.R_trans by metis
qed

lemma feed_values_fed:
  assumes "ordered_set_ok (set_insert T)" and "cid \<in> set (has_dispatched s)"
  shows "feed_values T cid vals s = (Inl (Err (ParaOracle AlreadyFeeded)), s)"
proof -
  have "\<not> fst (set_insert T cid (has_dispatched s))"
    using assms by (auto simp: ordered_set_ok_def)
  moreover from this have "snd (set_insert T cid (has_dispatched s)) = has_dispatched s"
    using assms(1) by (auto simp: ordered_set_ok_def)
  ultimately show ?thesis
    by (cases "set_insert T cid (has_dispatched s)") (simp add: feed_values_run)
qed

lemma feed_values_marks:
  assumes "ordered_set_ok (set_insert T)" and "feed_values T cid vals s = (Inr p, t)"
  shows "cid \<in> set (has_dispatched t)"
proof (cases "set_insert T cid (has_dispatched s)")
  case (Pair b S)
  with assms(2) have "b" and "has_dispatched t = S"
    by (auto simp: feed_values_run Let_def split: if_splits)
  moreover have "fst (set_insert T cid (has_dispatched s)) \<longrightarrow>
      set (snd (set_insert T cid (has_dispatched s))) = insert cid (set (has_dispatched s))"
    using assms(1) unfolding ordered_set_ok_def by blast
  ultimately show ?thesis by (simp add: Pair)
qed

text \<open>
  C40. A creator feeds at most once per block: after a \<open>feed_data\<close> of an account that
  succeeded, whatever other calls follow in the block, another \<open>feed_data\<close> of the same
  account fails with \<open>AlreadyFeeded\<close> and changes nothing. \<open>on_finalize\<close> forgets who
  has fed.
\<close>

theorem one_feed_per_block:
  assumes "ordered_set_ok (set_insert T)"
    and "po_dispatch T (Signed who) (FeedDataCall vals) s = (Inr p, t)"
  shows "po_dispatch T (Signed who) (FeedDataCall vals') (po_run T calls t)
      = (Inl (Err (ParaOracle AlreadyFeeded)), po_run T calls t)
    \<and> has_dispatched (snd (po_on_finalize n (po_run T calls t))) = []"
proof -
  have "feed_values T (CreatorAccount who) vals s = (Inr p, t)"
    using assms(2) by (simp add: po_dispatch_def po_feed_data_def call_ok call_simps)
  from feed_values_marks [OF assms(1) this] po_run_grows [OF assms(1), of t calls]
  have "CreatorAccount who \<in> set (has_dispatched (po_run T calls t))"
    by (auto simp: dispatched_grows_def)
  from feed_values_fed [OF assms(1) this, of vals'] show ?thesis
    by (simp add: po_dispatch_def transactional_def po_feed_data_def call_simps po_on_finalize_def)
qed

theorem one_feed_per_block_witness:
  "\<exists>p t. po_dispatch demo_oracle (Signed 1) (FeedDataCall [([7], 5)]) demo_po_state = (Inr p, t)
    \<and> fst (po_dispatch demo_oracle (Signed 1) (FeedDataCall []) (po_run demo_oracle [(Signed 2, FeedDataCall [])] t))
       = Inl (Err (ParaOracle AlreadyFeeded))"
proof -
  have set_ok: "ordered_set_ok (set_insert demo_oracle)" by (simp add: demo_oracle_def demo_insert_ok)
  have "set_insert demo_oracle (CreatorAccount 1) (has_dispatched demo_po_state) = (True, [CreatorAccount 1])"
    by (simp add: demo_oracle_def demo_po_state_def demo_insert_def)
  then obtain p t where t: "po_dispatch demo_oracle (Signed 1) (FeedDataCall [([7], 5)]) demo_po_state = (Inr p, t)"
    by (simp add: po_dispatch_def transactional_def po_feed_data_def call_simps feed_values_run Let_def)
  from one_feed_per_block [OF set_ok t, of "[]" "[(Signed 2, FeedDataCall [])]"] t
  show ?thesis by (metis fst_conv)
qed

text \<open>
  Anybody may feed: the check of the feeder's membership is not in the code, so a
  signed account that the set of this block's feeders accepts succeeds with any values
  and pays no fee. Its raw values are what it last said of each key, stamped with the
  block's time; the raw values of everybody else are untouched.
\<close>

theorem anybody_feeds:
  assumes "fst (set_insert T (CreatorAccount who) (has_dispatched s))"
  shows "\<exists>t. po_dispatch T (Signed who) (FeedDataCall vals) s = (Inr PaysNo, t)
    \<and> (\<forall>k. raw_values t (CreatorAccount who, k) =
          (case map_of (rev vals) k of
             None \<Rightarrow> raw_values s (CreatorAccount who, k)
           | Some v \<Rightarrow> Some \<lparr>tv_value = v, tv_timestamp = unix_now s\<rparr>))
    \<and> (\<forall>c k. c \<noteq> CreatorAccount who \<longrightarrow> raw_values t (c, k) = raw_values s (c, k))"
  using assms
  by (auto simp: po_dispatch_def transactional_def po_feed_data_def call_simps feed_values_run Let_def
      feed_steps_raw split: prod.splits option.split)

theorem anybody_feeds_witness:
  "\<exists>t. po_dispatch demo_oracle (Signed 77) (FeedDataCall [([7], 1), ([7], 2)]) demo_po_state = (Inr PaysNo, t)
    \<and> raw_values t (CreatorAccount 77, [7]) = Some \<lparr>tv_value = 2, tv_timestamp = 1000\<rparr>"
proof -
  have "fst (set_insert demo_oracle (CreatorAccount 77) (has_dispatched demo_po_state))"
    by (simp add: demo_oracle_def demo_po_state_def demo_insert_def)
  from anybody_feeds [OF this, of "[([7], 1), ([7], 2)]"] show ?thesis
    by (auto simp: demo_po_state_def)
qed

section \<open>The offchain worker\<close>

lemma fetch_all_error:
  assumes "((creator, key), feed) \<in> set feeds" and "feed_url feed = Some u" and "feed_vpath feed = Some p"
    and "fetch_one T u p = Inl e"
  shows "\<exists>e. fetch_all T feeds = Inl e"
  using assms(1)
proof (induction feeds)
  case (Cons x feeds)
  obtain c k v where x: "x = ((c, k), v)" by (metis surj_pair)
  show ?case
  proof (cases "x = ((creator, key), feed)")
    case True
    with assms(2-4) show ?thesis by (simp add: x)
  next
    case False
    with Cons show ?thesis by (auto simp: x split: option.split sum.split)
  qed
qed simp

text \<open>
  One bad feed stops the oracle: any signed account can submit a feed, and if its
  value cannot be fetched and read (no answer, a wrong path, a value that is no number)
  then, while the entry is there, the offchain worker submits nothing at all, not even
  the values of the feeds it did read.
\<close>

theorem bad_feed_stops_worker:
  assumes "fetch_one T u p = Inl e"
    and "iteration_ok (iter_feeds T) (po_api_feeds (snd (po_dispatch T (Signed who) (SubmitApiCall key u p) s)))"
  shows "offchain_worker T n (snd (po_dispatch T (Signed who) (SubmitApiCall key u p) s)) = None"
proof -
  let ?t = "snd (po_dispatch T (Signed who) (SubmitApiCall key u p) s)"
  let ?feed = "\<lparr>requested_block_number = block_number s, feed_url = Some u, feed_vpath = Some p\<rparr>"
  have "po_api_feeds ?t (CreatorAccount who, key) = Some ?feed"
    by (simp add: po_dispatch_def transactional_def submit_api_def do_submit_api_def call_simps Let_def)
  then have "map_of (iter_feeds T (po_api_feeds ?t)) (CreatorAccount who, key) = Some ?feed"
    using assms(2) by (simp add: iteration_ok_def)
  then have "((CreatorAccount who, key), ?feed) \<in> set (iter_feeds T (po_api_feeds ?t))"
    by (rule map_of_SomeD)
  from fetch_all_error [OF this _ _ assms(1)]
  obtain e' where "fetch_all T (iter_feeds T (po_api_feeds ?t)) = Inl e'" by auto
  then show ?thesis by (simp add: offchain_worker_def fetch_api_and_feed_data_def)
qed

theorem bad_feed_stops_worker_witness:
  "offchain_worker demo_oracle 5 (snd (po_dispatch demo_oracle (Signed 2) (SubmitApiCall [7] [9] [0]) demo_po_state)) = None"
proof -
  have "fetch_one demo_oracle [9] [0] = Inl FetchFailed"
    by (simp add: fetch_one_def fetch_http_get_result_def demo_oracle_def)
  moreover have "po_api_feeds (snd (po_dispatch demo_oracle (Signed 2) (SubmitApiCall [7] [9] [0]) demo_po_state))
      = [(CreatorAccount 2, [7]) \<mapsto> \<lparr>requested_block_number = 4, feed_url = Some [9], feed_vpath = Some [0]\<rparr>]"
    by (simp add: po_dispatch_def transactional_def submit_api_def do_submit_api_def call_simps Let_def
        demo_po_state_def)
  then have "iteration_ok (iter_feeds demo_oracle)
      (po_api_feeds (snd (po_dispatch demo_oracle (Signed 2) (SubmitApiCall [7] [9] [0]) demo_po_state)))"
    by (auto simp: iteration_ok_def demo_oracle_def demo_iter_def List.map_filter_def fun_eq_iff)
  ultimately show ?thesis by (rule bad_feed_stops_worker)
qed

section \<open>Queries of sibling parachains\<close>

text \<open>
  A query of a sibling parachain is answered to that parachain with the value that
  is stored: the message goes to the caller's own identifier, its call starts with the
  two variant indices, and the key and the value decode from the rest. Without a stored
  value the query ends in \<open>CannotLookup\<close>; an error leaves no message behind.
\<close>

theorem query_answered:
  assumes "length key < 4294967296" and "\<And>msg. send_xcm T msg"
  shows "case po_values s key of
      None \<Rightarrow> po_dispatch T (SiblingPara para) (XcmQueryDataCall key) s = (Inl (Err CannotLookup), s)
    | Some v \<Rightarrow> \<exists>msg body r. po_dispatch T (SiblingPara para) (XcmQueryDataCall key) s
          = (Inr PaysYes, s\<lparr>xcm_sent := xcm_sent s @ [msg]\<rparr>)
        \<and> dest_para msg = para \<and> encoded_call msg = [168, 7] @ body
        \<and> dec (vec_scale (length key)) body = Some (key, r)
        \<and> dec u64_scale r = Some (tv_value v, [])"
proof (cases "po_values s key")
  case None
  then show ?thesis
    by (simp add: po_dispatch_def transactional_def xcm_query_data_def call_simps get_value_def)
next
  case (Some v)
  let ?r = "le_bytes 8 (unat (tv_value v))"
  have "dec (vec_scale (length key)) (enc_vec key @ ?r) = Some (key, ?r)"
    using vec_codec.dec_enc [of key "length key" ?r] assms(1) by (simp add: vec_scale_def)
  moreover have "dec u64_scale ?r = Some (tv_value v, [])"
    using u64_codec.dec_enc_Nil [of "tv_value v"] by (simp add: u64_scale_def word_codec_def)
  moreover let ?msg = "\<lparr>dest_para = para, require_weight_at_most = 1000000000,
      encoded_call = enc_feed_back key (tv_value v)\<rparr>"
  have "po_dispatch T (SiblingPara para) (XcmQueryDataCall key) s
      = (Inr PaysYes, s\<lparr>xcm_sent := xcm_sent s @ [?msg]\<rparr>)"
    using assms(2) Some
    by (simp add: po_dispatch_def transactional_def xcm_query_data_def call_simps get_value_def
        send_qret_to_parachain_def Let_def)
  moreover have "encoded_call ?msg = [168, 7] @ (enc_vec key @ ?r)"
    by (simp add: enc_feed_back_def)
  ultimately show ?thesis unfolding Some option.case
    by (intro exI [of _ ?msg] exI [of _ "enc_vec key @ ?r"] exI [of _ ?r]) simp
qed

theorem query_answered_witness:
  "\<exists>msg. po_dispatch demo_oracle (SiblingPara 2000) (XcmQueryDataCall [7])
       (demo_po_state\<lparr>po_values := [[7] \<mapsto> \<lparr>tv_value = 3, tv_timestamp = 1\<rparr>]\<rparr>)
     = (Inr PaysYes, demo_po_state\<lparr>po_values := [[7] \<mapsto> \<lparr>tv_value = 3, tv_timestamp = 1\<rparr>], xcm_sent := [msg]\<rparr>)
    \<and> dest_para msg = 2000"
proof -
  have "length ([7] :: bytes) < 4294967296" and "\<And>msg. send_xcm demo_oracle msg"
    by (simp_all add: demo_oracle_def)
  from query_answered [OF this, where para = 2000 and s = "demo_po_state\<lparr>po_values := [[7] \<mapsto> \<lparr>tv_value = 3, tv_timestamp = 1\<rparr>]\<rparr>"]
  show ?thesis by (auto simp: demo_po_state_def)
qed

section \<open>The worker's grace period\<close>

text \<open>The worker at every block of a list, the value of one run read by the next.\<close>

fun worker_runs :: "u32 list \<Rightarrow> retrieval \<Rightarrow> transaction_type list" where
  "worker_runs [] last_send = []"
| "worker_runs (n # ns) last_send =
     (case choose_transaction_type n last_send False of (tx, last_send') \<Rightarrow> tx # worker_runs ns last_send')"

lemma word_mod_3: "(n :: u32) mod 3 \<noteq> 0 \<Longrightarrow> n mod 3 \<noteq> 1 \<Longrightarrow> n mod 3 = 2"
proof -
  assume "n mod 3 \<noteq> 0" and "n mod 3 \<noteq> 1"
  moreover have "unat n mod 3 = 0 \<or> unat n mod 3 = 1 \<or> unat n mod 3 = 2" by arith
  ultimately show "n mod 3 = 2" by (auto simp: word_unat_eq_iff unat_mod)
qed

text \<open>
  The grace period the comments speak of never comes: the number that is stored is the
  block's own, and a worker is refused only at a block before it, so one that runs at
  every block, undisturbed, sends a transaction each time. None of them is a raw one.
\<close>

lemma worker_never_pauses:
  assumes "sorted ns" and "\<And>b. last_send = Stored b \<Longrightarrow> ns \<noteq> [] \<Longrightarrow> b \<le> hd ns"
  shows "set (worker_runs ns last_send) \<subseteq> {SignedTx, UnsignedForAny, UnsignedForAll}"
  using assms
proof (induction ns arbitrary: last_send)
  case (Cons n ns)
  have "\<not> (case last_send of Stored b \<Rightarrow> n < b | _ \<Rightarrow> False)"
    using Cons.prems(2) by (auto split: retrieval.split)
  then have run: "choose_transaction_type n last_send False =
      (if n mod 3 = 0 then SignedTx else if n mod 3 = 1 then UnsignedForAny else UnsignedForAll, Stored n)"
    using word_mod_3 [of n] by (auto simp: choose_transaction_type_def Let_def)
  have "set (worker_runs ns (Stored n)) \<subseteq> {SignedTx, UnsignedForAny, UnsignedForAll}"
    using Cons.prems(1) by (intro Cons.IH) (cases ns, auto)
  then show ?case by (simp add: run)
qed simp

end
