(* ===== verification/Phat.thy ===== *)
theory Phat
  imports Chain
begin

text \<open>
  The two Phat contracts that serve the oracle from off the chain: the feed contract
  (\<open>src/phat/contracts/phat_oracle_feed/lib.rs\<close>), which takes requests off the queue and
  answers them by rollups, and the factory (\<open>src/phat/contracts/phat_oracle/lib.rs\<close>), which
  deploys feed contracts. A message of a contract is a call over the contract's storage
  (a \<open>&mut self\<close> message) or over what lies outside (a \<open>&self\<close> message that acts on the
  target chain). The rollup client, the key service and the instantiation of contracts
  belong to other crates and are the fields of \<open>phat_env\<close>. A \<open>String\<close> is its bytes.
\<close>

section \<open>The feed contract\<close>

datatype feed_error =
    FeedBadOrigin
  | FeedNotConfigured
  | FeedInvalidKeyLength
  | FailedToCreateClient
  | FailedToCommitTx
  | FailedToFetchPrice
  | FailedToGetNameOwner
  | FailedToClaimName
  | FailedToGetStorage
  | FailedToCreateTransaction
  | FailedToSendTransaction
  | FailedToGetBlockHash
  | FailedToDecode
  | RollupAlreadyInitialized
  | RollupConfiguredByAnotherAccount

record feed_config =
  fc_rpc :: bytes
  fc_pallet_id :: u8
  fc_submit_key :: bytes

record feed_contract =
  fc_owner :: AccountId
  fc_config :: "feed_config option"

record request_record =
  rr_request_id :: H256
  rr_url :: bytes
  rr_path :: bytes

text \<open>The contract's own \<open>ResponseRecord\<close>, encoded field by field.\<close>

record contract_response =
  cr_owner :: AccountId
  cr_contract_id :: AccountId
  cr_request_id :: H256
  cr_data :: bytes
  cr_timestamp_ms :: u64

definition enc_contract_response :: "contract_response \<Rightarrow> bytes" where
  "enc_contract_response r =
     enc h256_scale (cr_owner r) @ enc h256_scale (cr_contract_id r)
       @ enc h256_scale (cr_request_id r) @ enc_vec (cr_data r)
       @ enc u64_scale (cr_timestamp_ms r)"

text \<open>
  The environment of a call: who calls, the contract's own account, the time; and the
  rollup client's functions. \<open>client_pop\<close> is \<open>session().queue.pop()\<close>, \<open>client_reply\<close>
  attaches \<open>Action::Reply\<close>.
\<close>

record ('w, 'client, 'tx, 'err) phat_env =
  env_caller :: AccountId
  env_account :: AccountId
  env_timestamp :: u64
  get_name_owner :: "bytes \<Rightarrow> AccountId \<Rightarrow> 'w \<Rightarrow> 'err + AccountId option"
  get_public_key :: "bytes \<Rightarrow> bytes"
  chain_claim_name :: "bytes \<Rightarrow> u8 \<Rightarrow> AccountId \<Rightarrow> bytes \<Rightarrow> 'w \<Rightarrow> ('err + bytes) \<times> 'w"
  client_new :: "bytes \<Rightarrow> u8 \<Rightarrow> AccountId \<Rightarrow> bytes \<Rightarrow> 'w \<Rightarrow> 'err + 'client"
  client_pop :: "'client \<Rightarrow> 'err + bytes option"
  client_reply :: "bytes \<Rightarrow> 'client \<Rightarrow> 'client"
  client_commit :: "'client \<Rightarrow> 'err + 'tx option"
  tx_submit :: "'tx \<Rightarrow> bytes \<Rightarrow> 'w \<Rightarrow> ('err + bytes) \<times> 'w"

definition new_feed_contract :: "AccountId \<Rightarrow> feed_contract" where
  "new_feed_contract caller' = \<lparr>fc_owner = caller', fc_config = None\<rparr>"

definition feed_ensure_owner ::
    "('w, 'client, 'tx, 'err, 'x) phat_env_scheme \<Rightarrow> (feed_error, feed_contract, unit) call" where
  "feed_ensure_owner E =
     seq (gets fc_owner) (\<lambda>own. ensure (env_caller E = own) FeedBadOrigin)"

definition feed_ensure_configured :: "feed_contract \<Rightarrow> (feed_error, 'w, feed_config) call" where
  "feed_ensure_configured self = ok_or (fc_config self) FeedNotConfigured"

definition feed_configure ::
    "('w, 'client, 'tx, 'err, 'x) phat_env_scheme \<Rightarrow> bytes \<Rightarrow> u8 \<Rightarrow> bytes \<Rightarrow>
     (feed_error, feed_contract, unit) call" where
  "feed_configure E rpc pallet_id submit_key =
     seq (feed_ensure_owner E) (\<lambda>_.
     seq (ok_or (if length submit_key = 32 then Some submit_key else None) FeedInvalidKeyLength) (\<lambda>key.
     modify (\<lambda>c. c\<lparr>fc_config := Some \<lparr>fc_rpc = rpc, fc_pallet_id = pallet_id, fc_submit_key = key\<rparr>\<rparr>)))"

definition transfer_ownership ::
    "('w, 'client, 'tx, 'err, 'x) phat_env_scheme \<Rightarrow> AccountId \<Rightarrow> (feed_error, feed_contract, unit) call" where
  "transfer_ownership E new_owner =
     seq (feed_ensure_owner E) (\<lambda>_. modify (\<lambda>c. c\<lparr>fc_owner := new_owner\<rparr>))"

text \<open>\<open>.or(Err(e))\<close>: any error of the other crate becomes \<open>e\<close>.\<close>

definition or_err :: "'err + 'a \<Rightarrow> 'e \<Rightarrow> ('e, 's, 'a) call" where
  "or_err r e = (case r of Inl _ \<Rightarrow> throw e | Inr a \<Rightarrow> ret a)"

definition acting :: "('w \<Rightarrow> ('err + 'a) \<times> 'w) \<Rightarrow> 'e \<Rightarrow> ('e, 'w, 'a) call" where
  "acting f e = (\<lambda>w. case f w of (Inl _, w') \<Rightarrow> (Inl (Err e), w') | (Inr a, w') \<Rightarrow> (Inr a, w'))"

definition maybe_init_rollup ::
    "('w, 'client, 'tx, 'err, 'x) phat_env_scheme \<Rightarrow> feed_contract \<Rightarrow> (feed_error, 'w, bytes option) call" where
  "maybe_init_rollup E self =
     seq (feed_ensure_configured self) (\<lambda>config.
     seq (gets (get_name_owner E (fc_rpc config) (env_account E))) (\<lambda>looked_up.
     seq (or_err looked_up FailedToGetNameOwner) (\<lambda>actual_owner.
     case actual_owner of
       Some own \<Rightarrow>
         (if enc h256_scale own = get_public_key E (fc_submit_key config) then ret None
          else throw RollupConfiguredByAnotherAccount)
     | None \<Rightarrow>
         seq (acting (chain_claim_name E (fc_rpc config) (fc_pallet_id config) (env_account E)
                (fc_submit_key config)) FailedToClaimName) (\<lambda>tx_id.
         ret (Some tx_id)))))"

definition client_prefix :: bytes where
  "client_prefix = [113, 47]"

text \<open>\<open>Req\<close>: three byte vectors, in the order URL, path, request identifier.\<close>

definition byte_vec :: "bytes codec" where
  "byte_vec = vec_scale 4294967295"

definition decode_request :: "bytes \<Rightarrow> (bytes \<times> bytes \<times> bytes) option" where
  "decode_request raw = map_option fst (dec (pair_codec byte_vec (pair_codec byte_vec byte_vec)) raw)"

text \<open>
  The client is made and takes the next message off its queue. The message is decoded and
  written to the debug log; the rest is still to do.
\<close>

definition pop_request ::
    "('w, 'client, 'tx, 'err, 'x) phat_env_scheme \<Rightarrow> feed_contract \<Rightarrow> (feed_error, 'w, bytes option) call" where
  "pop_request E self =
     seq (feed_ensure_configured self) (\<lambda>config.
     seq (gets (client_new E (fc_rpc config) (fc_pallet_id config) (env_account E) client_prefix)) (\<lambda>made.
     seq (or_err made FailedToCreateClient) (\<lambda>client.
     or_err (client_pop E client) FailedToDecode)))"

definition process_queue_request ::
    "('w, 'client, 'tx, 'err, 'x) phat_env_scheme \<Rightarrow> feed_contract \<Rightarrow> (feed_error, 'w, unit) call" where
  "process_queue_request E self =
     seq (pop_request E self) (\<lambda>next_request.
     case next_request of
       Some raw \<Rightarrow> seq (ok_or (decode_request raw) FailedToDecode) (\<lambda>(url', path', rid). ret ())
     | None \<Rightarrow> ret ())"

definition feed_price :: u128 where
  "feed_price = - 1"

definition feed_response ::
    "('w, 'client, 'tx, 'err, 'x) phat_env_scheme \<Rightarrow> feed_contract \<Rightarrow> request_record \<Rightarrow> contract_response" where
  "feed_response E self req =
     \<lparr>cr_owner = fc_owner self, cr_contract_id = env_account E, cr_request_id = rr_request_id req,
      cr_data = le_bytes 16 (unat feed_price), cr_timestamp_ms = env_timestamp E\<rparr>"

definition feed_request ::
    "('w, 'client, 'tx, 'err, 'x) phat_env_scheme \<Rightarrow> feed_contract \<Rightarrow> request_record \<Rightarrow>
     (feed_error, 'w, bytes option) call" where
  "feed_request E self req =
     seq (feed_ensure_configured self) (\<lambda>config.
     seq (gets (client_new E (fc_rpc config) (fc_pallet_id config) (env_account E) client_prefix)) (\<lambda>made.
     seq (or_err made FailedToCreateClient) (\<lambda>client.
     seq (or_err (client_commit E (client_reply E (enc_contract_response (feed_response E self req)) client))
           FailedToCommitTx) (\<lambda>maybe_submittable.
     case maybe_submittable of
       Some submittable \<Rightarrow>
         seq (acting (tx_submit E submittable (fc_submit_key config)) FailedToSendTransaction) (\<lambda>tx_id.
         ret (Some tx_id))
     | None \<Rightarrow> ret None))))"

section \<open>The factory\<close>

datatype factory_error =
    FactoryBadOrigin
  | FactoryNotConfigured
  | FactoryInvalidKeyLength
  | FailedToDeployContract
  | FailedToConfigContract
  | FailedToTransferOwnership

record factory_config =
  pc_rpc :: bytes
  pc_pallet_id :: u8
  pc_submit_key :: bytes
  pc_price_feed_code :: H256

record deployment =
  d_name :: bytes
  d_owner :: AccountId
  d_contract_id :: AccountId
  d_created_at :: u64
  d_expired_at :: u64

definition deployment_scale :: "deployment codec" where
  "deployment_scale = via_codec
     (\<lambda>d. (d_name d, d_owner d, d_contract_id d, d_created_at d, d_expired_at d))
     (\<lambda>(n, a, i, c, e). \<lparr>d_name = n, d_owner = a, d_contract_id = i, d_created_at = c, d_expired_at = e\<rparr>)
     (pair_codec byte_vec (pair_codec h256_scale (pair_codec h256_scale
       (pair_codec u64_scale u64_scale))))"

text \<open>The factory's storage, and the rest of the contracts' world.\<close>

record 'w factory =
  f_owner :: AccountId
  f_config :: "factory_config option"
  deployments :: "bytes list"
  num_deployed :: u32
  f_world :: 'w

text \<open>
  The deployed contract as the factory calls it: \<open>call_config\<close> with the five arguments
  of the call in the source.
\<close>

record ('w, 'err) factory_env =
  fe_caller :: AccountId
  fe_timestamp :: u64
  instantiate :: "H256 \<Rightarrow> bytes \<Rightarrow> 'w \<Rightarrow> AccountId \<times> 'w"
  call_config :: "AccountId \<Rightarrow> bytes \<Rightarrow> u8 \<Rightarrow> bytes \<Rightarrow> bytes \<Rightarrow> bytes \<Rightarrow> 'w \<Rightarrow> ('err + unit) \<times> 'w"
  call_transfer_ownership :: "AccountId \<Rightarrow> AccountId \<Rightarrow> 'w \<Rightarrow> ('err + unit) \<times> 'w"

definition new_factory :: "AccountId \<Rightarrow> 'w \<Rightarrow> 'w factory" where
  "new_factory caller' w =
     \<lparr>f_owner = caller', f_config = None, deployments = [], num_deployed = 0, f_world = w\<rparr>"

definition on_f_world :: "('e, 'w, 'a) call \<Rightarrow> ('e, 'w factory, 'a) call" where
  "on_f_world m = (\<lambda>s. case m (f_world s) of (r, w) \<Rightarrow> (r, s\<lparr>f_world := w\<rparr>))"

definition factory_ensure_owner ::
    "('w, 'err, 'x) factory_env_scheme \<Rightarrow> (factory_error, 'w factory, unit) call" where
  "factory_ensure_owner E = seq (gets f_owner) (\<lambda>own. ensure (fe_caller E = own) FactoryBadOrigin)"

definition factory_ensure_configured :: "(factory_error, 'w factory, factory_config) call" where
  "factory_ensure_configured = seq (gets f_config) (\<lambda>c. ok_or c FactoryNotConfigured)"

definition factory_configure ::
    "('w, 'err, 'x) factory_env_scheme \<Rightarrow> bytes \<Rightarrow> u8 \<Rightarrow> bytes \<Rightarrow> H256 \<Rightarrow>
     (factory_error, 'w factory, unit) call" where
  "factory_configure E rpc pallet_id submit_key code =
     seq (factory_ensure_owner E) (\<lambda>_.
     seq (ok_or (if length submit_key = 32 then Some submit_key else None) FactoryInvalidKeyLength) (\<lambda>key.
     modify (\<lambda>s. s\<lparr>f_config := Some \<lparr>pc_rpc = rpc, pc_pallet_id = pallet_id, pc_submit_key = key,
                                      pc_price_feed_code = code\<rparr>\<rparr>)))"

definition get_config :: "(factory_error, 'w factory, u8 \<times> H256) call" where
  "get_config = seq factory_ensure_configured (\<lambda>c. ret (pc_pallet_id c, pc_price_feed_code c))"

definition deploy_price_feed ::
    "('w, 'err, 'x) factory_env_scheme \<Rightarrow> bytes \<Rightarrow> bytes \<Rightarrow> bytes \<Rightarrow>
     (factory_error, 'w factory, AccountId) call" where
  "deploy_price_feed E name token0 token1 =
     seq factory_ensure_configured (\<lambda>config.
     seq (gets num_deployed) (\<lambda>n.
     seq (on_f_world (\<lambda>w. case instantiate E (pc_price_feed_code config) (enc u32_scale n) w of
            (addr, w') \<Rightarrow> (Inr addr, w'))) (\<lambda>deployed.
     seq (on_f_world (acting (call_config E deployed (pc_rpc config) (pc_pallet_id config)
            (pc_submit_key config) token0 token1) FailedToConfigContract)) (\<lambda>_.
     seq (on_f_world (acting (call_transfer_ownership E deployed (fe_caller E))
            FailedToTransferOwnership)) (\<lambda>_.
     let created_at = fe_timestamp E; expired_at = created_at + 3600000 in
     seq (modify (\<lambda>s. s\<lparr>deployments := deployments s @
            [enc deployment_scale \<lparr>d_name = name, d_owner = fe_caller E, d_contract_id = deployed,
               d_created_at = created_at, d_expired_at = expired_at\<rparr>]\<rparr>)) (\<lambda>_.
     seq (modify (\<lambda>s. s\<lparr>num_deployed := num_deployed s + 1\<rparr>)) (\<lambda>_.
     ret deployed)))))))"

fun decode_all :: "bytes list \<Rightarrow> ('e, 's, deployment list) call" where
  "decode_all [] = ret []"
| "decode_all (d # ds) =
     seq (expect (map_option fst (dec deployment_scale d))) (\<lambda>x.
     seq (decode_all ds) (\<lambda>xs. ret (x # xs)))"

definition get_deployments :: "('e, 'w factory, deployment list) call" where
  "get_deployments = seq (gets deployments) (\<lambda>ds. decode_all ds)"

end
