(* ===== verification/Phat_Properties.thy ===== *)
theory Phat_Properties
  imports Phat Chain_Properties
begin

text \<open>
  Contract and pallet together: what the feed contract answers arrives, always with the
  same data; a request it takes off the queue is never read as it was written; and under
  its queue prefix it never sees a request at all. The factory's list of deployments can
  always be read back.
\<close>

section \<open>Answers\<close>

text \<open>The contract's record is the pallet's on the wire.\<close>

lemma contract_response_wire:
  "enc_contract_response r = enc response_scale
     \<lparr>owner = cr_owner r, phat_contract_id = cr_contract_id r, request_id = cr_request_id r,
      response_data = cr_data r, timestamp_ms = cr_timestamp_ms r\<rparr>"
  by (simp add: enc_contract_response_def response_scale_def via_codec_def pair_codec_def
      response_tuple_def vec_scale_def)

lemma le_bytes_top: "le_bytes n (256 ^ n - 1) = replicate n 255"
proof (induction n)
  case (Suc n)
  define k :: nat where "k = 256 ^ n - 1"
  have "(256 :: nat) ^ n = Suc k" by (simp add: k_def)
  then have top: "(256 :: nat) ^ Suc n - 1 = 255 + 256 * k" by simp
  have "(255 + 256 * k) mod 256 = 255" "(255 + 256 * k) div 256 = k" by presburger+
  then show ?case
    using Suc by (simp only: top le_bytes.simps k_def [symmetric]) simp
qed simp

lemma feed_price_bytes: "le_bytes 16 (unat feed_price) = replicate 16 255"
proof -
  have "unat feed_price = 256 ^ 16 - 1"
    by (simp add: feed_price_def unsigned_minus_1_eq_mask mask_eq_exp_minus_1)
  then show ?thesis by (simp only: le_bytes_top)
qed

text \<open>
  C16. The contract's answer arrives, and it is always the same: rolled up by the account
  that owns the contract's name, the record that \<open>feed_request\<close> builds is accepted by the
  anchor, decoded by the oracle and stored for the request it names. The data that is
  stored are 16 bytes of 255, the largest \<open>u128\<close>, whatever URL and path were asked for.
\<close>

theorem contract_answer_arrives:
  assumes "submitter_by_names s (env_account E) = Some who"
    and "feed_requests s (rr_request_id req) = Some r"
  shows "\<exists>t. rollup (paraxiom a b c) (Signed who) (env_account E)
      \<lparr>conds = [], actions = [enc action_scale (Reply (enc_contract_response (feed_response E self req)))],
       updates = []\<rparr> n s = (Inr (), t)
    \<and> feed_data t = (feed_data s)((who, r) \<mapsto> replicate 16 255)"
proof -
  let ?resp = "\<lparr>owner = fc_owner self, phat_contract_id = env_account E, request_id = rr_request_id req,
      response_data = replicate 16 255, timestamp_ms = env_timestamp E\<rparr>"
  have wire: "enc_contract_response (feed_response E self req) = enc response_scale ?resp"
    by (simp add: contract_response_wire feed_response_def feed_price_bytes)
  have "length (enc response_scale ?resp) \<le> action_bytes_bound"
    by (simp add: length_enc_response length_enc_compact_cases action_bytes_bound_def)
  with assms reply_delivered [of s "env_account E" who ?resp r] show ?thesis
    unfolding wire by (fastforce simp: value_bytes_bound_def)
qed

definition demo_env :: "(unit, bytes option, unit, unit) phat_env" where
  "demo_env =
     \<lparr>env_caller = 1, env_account = 42, env_timestamp = 9, get_name_owner = (\<lambda>_ _ _. Inr None),
      get_public_key = id, chain_claim_name = (\<lambda>_ _ _ _ w. (Inr [], w)),
      client_new = (\<lambda>_ _ _ _ _. Inr None), client_pop = (\<lambda>c. Inr c), client_reply = (\<lambda>_ c. c),
      client_commit = (\<lambda>_. Inr None), tx_submit = (\<lambda>_ _ w. (Inr [], w))\<rparr>"

theorem contract_answer_arrives_witness:
  "\<exists>r t. rollup (paraxiom (\<lambda>_. (0, 0)) (\<lambda>_ _. (0, 0)) (\<lambda>_. [])) (Signed 1) 42
      \<lparr>conds = [], actions = [enc action_scale (Reply (enc_contract_response
         (feed_response demo_env (new_feed_contract 1) \<lparr>rr_request_id = 7, rr_url = [], rr_path = []\<rparr>)))],
       updates = []\<rparr> 0
      (genesis\<lparr>submitter_by_names := [42 \<mapsto> 1], feed_requests := [7 \<mapsto> r]\<rparr>) = (Inr (), t)
    \<and> feed_data t (1, r) = Some (replicate 16 255)"
proof -
  let ?r = "\<lparr>registry_feed_key = [1], caller = 3, nonce = 0, requested_data = []\<rparr>"
  let ?s = "genesis\<lparr>submitter_by_names := [42 \<mapsto> 1], feed_requests := [7 \<mapsto> ?r]\<rparr>"
  have "env_account demo_env = 42" by (simp add: demo_env_def)
  with contract_answer_arrives [of ?s demo_env 1 "\<lparr>rr_request_id = 7, rr_url = [], rr_path = []\<rparr>" ?r
      "\<lambda>_. (0, 0)" "\<lambda>_ _. (0, 0)" "\<lambda>_. []" "new_feed_contract 1" 0]
  show ?thesis by fastforce
qed

section \<open>Requests\<close>

text \<open>Decoding a vector takes at least its shortest encoding off the input.\<close>

lemma le_value_bound: "le_value bs < 256 ^ length bs"
proof (induction bs)
  case (Cons b bs)
  have "unat b < 256" using unsigned_less [of b, where 'a = nat] by simp
  with Cons show ?case by simp
qed simp

lemma dec_le_Some:
  "dec_le n bs = Some (x, r) \<Longrightarrow> x < 256 ^ n \<and> length bs = n + length r"
proof -
  assume "dec_le n bs = Some (x, r)"
  then have "n \<le> length bs" "x = le_value (take n bs)" "r = drop n bs"
    by (auto simp: dec_le_def split: if_splits)
  with le_value_bound [of "take n bs"] show ?thesis by simp
qed

lemma dec_compact_consumes:
  assumes "dec_compact bs = Some (n, r)"
  shows "length bs = length (enc_compact n) + length r"
proof -
  from assms obtain b bs' where bs: "bs = b # bs'"
    by (cases bs) (simp_all add: dec_compact_def)
  have b: "unat b div 4 < 64" using unsigned_less [of b, where 'a = nat] by simp
  note run = assms [unfolded dec_compact_def bs list.case]
  show ?thesis
  proof (cases "unat b mod 4 = 0")
    case True
    with run b show ?thesis by (auto simp: bs enc_compact_def)
  next
    case not0: False
    show ?thesis
    proof (cases "unat b mod 4 = 1")
      case True
      with run obtain x where x: "dec_le 2 bs = Some (x, r)" "n = x div 4" "64 \<le> n"
        by (auto simp: bs split: option.splits if_splits)
      from dec_le_Some [OF x(1)] have "x < 65536" "length bs = 2 + length r" by simp_all
      moreover from this x have "n < 16384" by simp
      ultimately show ?thesis using x by (simp add: enc_compact_def)
    next
      case not1: False
      show ?thesis
      proof (cases "unat b mod 4 = 2")
        case True
        with run obtain x where x: "dec_le 4 bs = Some (x, r)" "n = x div 4" "16384 \<le> n"
          by (auto simp: bs split: option.splits if_splits)
        from dec_le_Some [OF x(1)] have "x < 4294967296" "length bs = 4 + length r" by simp_all
        moreover from this x have "n < 1073741824" by simp
        ultimately show ?thesis using x by (simp add: enc_compact_def)
      next
        case False
        with run not0 not1 have "dec_le 4 bs' = Some (n, r) \<and> 1073741824 \<le> n"
          by (simp split: option.splits if_splits prod.splits)
        then show ?thesis using dec_le_Some [of 4 bs' n r] by (simp add: bs enc_compact_def)
      qed
    qed
  qed
qed

lemma byte_vec_consumes:
  "dec byte_vec bs = Some (xs, r) \<Longrightarrow> length bs = length (enc_vec xs) + length r"
  by (auto simp: byte_vec_def vec_scale_def dec_bounded_vec_def enc_vec_def
      dest!: dec_compact_consumes split: option.splits if_splits)

lemma decode_request_consumes:
  assumes "decode_request raw = Some (u, p, i)"
  shows "length (enc_vec u) + length (enc_vec p) + length (enc_vec i) \<le> length raw"
proof -
  from assms obtain r1 r2 r3 where "dec byte_vec raw = Some (u, r1)"
      "dec byte_vec r1 = Some (p, r2)" "dec byte_vec r2 = Some (i, r3)"
    by (auto simp: decode_request_def pair_codec_def split: option.splits)
  then show ?thesis using byte_vec_consumes by fastforce
qed

text \<open>
  C36. The contract cannot read a request: the pallet sends the identifier first, as 32
  bytes, then URL and path; the contract reads three byte vectors, the identifier last.
  Whatever decoding the message of a request gives, it is never its URL, its path and its
  identifier.
\<close>

theorem request_never_understood:
  "decode_request (enc message_scale (rid, u, p)) \<noteq> Some (u, p, enc h256_scale rid)"
proof
  assume "decode_request (enc message_scale (rid, u, p)) = Some (u, p, enc h256_scale rid)"
  from decode_request_consumes [OF this] show False
    by (simp add: length_enc_message enc_vec_def length_enc_compact_cases)
qed

text \<open>
  What a rollup client documents of its queue: it is what lies under its prefix in the store
  of its name, and if nothing lies there no message is popped.
\<close>

definition reads_prefix ::
    "('w, 'client, 'tx, 'err, 'x) phat_env_scheme \<Rightarrow> (chain_state \<Rightarrow> 'w) \<Rightarrow> bool" where
  "reads_prefix E view \<longleftrightarrow> (\<forall>rpc pallet_id name prefix s t.
     (\<forall>key. take (length prefix) key = prefix \<longrightarrow> states s (name, key) = states t (name, key)) \<longrightarrow>
     (case client_new E rpc pallet_id name prefix (view s) of
        Inl e \<Rightarrow> client_new E rpc pallet_id name prefix (view t) = Inl e
      | Inr cl \<Rightarrow> (\<exists>cl'. client_new E rpc pallet_id name prefix (view t) = Inr cl' \<and>
                     client_pop E cl' = client_pop E cl)))"

definition empty_pops_none ::
    "('w, 'client, 'tx, 'err, 'x) phat_env_scheme \<Rightarrow> (chain_state \<Rightarrow> 'w) \<Rightarrow> bool" where
  "empty_pops_none E view \<longleftrightarrow> (\<forall>rpc pallet_id name prefix s cl raw.
     (\<forall>key. take (length prefix) key = prefix \<longrightarrow> states s (name, key) = None) \<longrightarrow>
     client_new E rpc pallet_id name prefix (view s) = Inr cl \<longrightarrow> client_pop E cl \<noteq> Inr (Some raw))"

lemma client_prefix_outside:
  "take (length client_prefix) key = client_prefix \<Longrightarrow> \<not> in_queue_space (paraxiom a b c) key"
  by (cases key) (auto simp: client_prefix_def in_queue_space_def queue_prefix_bytes_def)

text \<open>What the contract pops depends on the keys under its prefix only.\<close>

lemma pop_request_run:
  assumes "fc_config self = Some config"
  shows "pop_request E self w =
    (case client_new E (fc_rpc config) (fc_pallet_id config) (env_account E) client_prefix w of
       Inl _ \<Rightarrow> (Inl (Err FailedToCreateClient), w)
     | Inr cl \<Rightarrow> (case client_pop E cl of Inl _ \<Rightarrow> (Inl (Err FailedToDecode), w) | Inr raw \<Rightarrow> (Inr raw, w)))"
  by (simp add: pop_request_def feed_ensure_configured_def assms or_err_def call_simps split: sum.split)

lemma pop_unconfigured:
  "fc_config self = None \<Longrightarrow> pop_request E self w = (Inl (Err FeedNotConfigured), w)"
  by (simp add: pop_request_def feed_ensure_configured_def call_simps)

lemma pop_request_same:
  assumes "reads_prefix E view"
    and "\<And>key. take (length client_prefix) key = client_prefix \<Longrightarrow>
      states s (env_account E, key) = states t (env_account E, key)"
  shows "fst (pop_request E self (view t)) = fst (pop_request E self (view s))"
proof (cases "fc_config self")
  case (Some config)
  let ?new = "client_new E (fc_rpc config) (fc_pallet_id config) (env_account E) client_prefix"
  have "case ?new (view s) of Inl e \<Rightarrow> ?new (view t) = Inl e
      | Inr cl \<Rightarrow> (\<exists>cl'. ?new (view t) = Inr cl' \<and> client_pop E cl' = client_pop E cl)"
    using assms unfolding reads_prefix_def by simp
  then show ?thesis
    by (auto simp: pop_request_run [OF Some] split: sum.splits)
qed (simp add: pop_unconfigured)

lemma pop_request_empty:
  assumes "empty_pops_none E view"
    and "\<And>key. take (length client_prefix) key = client_prefix \<Longrightarrow> states s (env_account E, key) = None"
  shows "fst (pop_request E self (view s)) \<noteq> Inr (Some raw)"
proof (cases "fc_config self")
  case (Some config)
  have "client_pop E cl \<noteq> Inr (Some raw)"
    if "client_new E (fc_rpc config) (fc_pallet_id config) (env_account E) client_prefix (view s) = Inr cl" for cl
    using assms that unfolding empty_pops_none_def by blast
  then show ?thesis by (auto simp: pop_request_run [OF Some] split: sum.split)
qed (simp add: pop_unconfigured)

lemma process_after_pop:
  "fst (process_queue_request E self w) = (case fst (pop_request E self w) of
     Inl e \<Rightarrow> Inl e
   | Inr None \<Rightarrow> Inr ()
   | Inr (Some raw) \<Rightarrow> (if decode_request raw = None then Inl (Err FailedToDecode) else Inr ()))"
  by (auto simp: process_queue_request_def seq_def ok_or_def throw_def ret_def split: sum.split option.split prod.split)

text \<open>
  C17. The contract never sees a request: it looks for its queue under the prefix \<open>q/\<close> of its
  name's store, the pallet keeps it under \<open>_queue/\<close>. Let the chain execute any blocks and
  calls, requests that are queued and rollups with any actions included, as long as no rollup
  updates a key that begins with \<open>q/\<close>. Then what the contract takes off its queue, and how
  processing it ends, is the same as before. If no such key was in its store (as at genesis),
  it takes off no message at all, however many requests the pallet has queued for it.
  Assumed of the client: it reads the keys under its prefix, and without any it pops nothing.
\<close>

theorem worker_sees_no_request:
  assumes "reads_prefix E view" and "empty_pops_none E view"
    and "list_all (spares_prefix client_prefix) items"
  shows "fst (pop_request E self (view (snd (run_items (paraxiom a b c) items s)))) =
      fst (pop_request E self (view s))
    \<and> fst (process_queue_request E self (view (snd (run_items (paraxiom a b c) items s)))) =
      fst (process_queue_request E self (view s))
    \<and> ((\<forall>key. take (length client_prefix) key = client_prefix \<longrightarrow> states s (env_account E, key) = None) \<longrightarrow>
       (\<forall>raw. fst (pop_request E self (view (snd (run_items (paraxiom a b c) items s)))) \<noteq> Inr (Some raw)))"
proof -
  have same: "states s (env_account E, key) = states (snd (run_items (paraxiom a b c) items s)) (env_account E, key)"
    if "take (length client_prefix) key = client_prefix" for key
    using run_items_outside [OF assms(3) that client_prefix_outside [OF that]] by simp
  from pop_request_same [OF assms(1) this]
  have pop: "fst (pop_request E self (view (snd (run_items (paraxiom a b c) items s)))) =
      fst (pop_request E self (view s))" .
  then show ?thesis
    using pop_request_empty [OF assms(2), of s self]
    by (simp add: process_after_pop)
qed

text \<open>
  A client that reads the message at the head of its queue straight off the chain, in a chain
  where the request of account 2 is queued for it.
\<close>

definition demo_client :: "(chain_state, bytes option, unit, unit) phat_env" where
  "demo_client =
     \<lparr>env_caller = 1, env_account = 42, env_timestamp = 9, get_name_owner = (\<lambda>_ _ _. Inr None),
      get_public_key = id, chain_claim_name = (\<lambda>_ _ _ _ w. (Inr [], w)),
      client_new = (\<lambda>_ _ name prefix w. Inr (states w (name, prefix @
        (case states w (name, prefix @ [95, 104, 101, 97, 100]) of None \<Rightarrow> [0, 0, 0, 0] | Some head \<Rightarrow> head)))),
      client_pop = (\<lambda>c. Inr c), client_reply = (\<lambda>_ c. c),
      client_commit = (\<lambda>_. Inr None), tx_submit = (\<lambda>_ _ w. (Inr [], w))\<rparr>"

theorem worker_sees_no_request_witness:
  "\<exists>msg. queue_abs demo_chain 42
       (snd (run_items demo_chain [NewBlock, Extrinsic (Signed 2) (RequestFeed [1] 6)] served)) = [msg]
     \<and> fst (pop_request demo_client
         ((new_feed_contract 1)\<lparr>fc_config := Some \<lparr>fc_rpc = [], fc_pallet_id = 100, fc_submit_key = []\<rparr>\<rparr>)
         (snd (run_items demo_chain [NewBlock, Extrinsic (Signed 2) (RequestFeed [1] 6)] served))) = Inr None"
proof -
  let ?self = "(new_feed_contract 1)\<lparr>fc_config := Some \<lparr>fc_rpc = [], fc_pallet_id = 100, fc_submit_key = []\<rparr>\<rparr>"
  let ?items = "[NewBlock, Extrinsic (Signed 2) (RequestFeed [1] 6)]"
  let ?t = "snd (run_items demo_chain ?items served)"
  have laws: "reads_prefix demo_client (\<lambda>s. s)" "empty_pops_none demo_client (\<lambda>s. s)"
    by (simp_all add: reads_prefix_def empty_pops_none_def demo_client_def)
  have items: "list_all (spares_prefix client_prefix) ?items" by simp
  have "fst (pop_request demo_client ?self ?t) = fst (pop_request demo_client ?self served)"
    unfolding demo_chain_def by (rule worker_sees_no_request [OF laws items, THEN conjunct1])
  then have pop: "fst (pop_request demo_client ?self ?t) = Inr None"
    by (simp add: pop_request_def feed_ensure_configured_def demo_client_def or_err_def call_simps served_def)
  have "queue_ready demo_chain 42 1 (next_block served)" "queue_abs demo_chain 42 (next_block served) = []"
      "tail_pos demo_chain 42 (next_block served) = 0" "api_feeds (next_block served) = api_feeds served"
    using served_ready served_queue
    by (simp_all add: next_block_def queue_ready_def queue_inv_def queue_abs_def head_pos_def tail_pos_def stored_u32_def)
  then obtain t where t: "oracle_request demo_chain (Signed 2) [1] 6 (next_block served) = (Inr (), t)"
      "queue_abs demo_chain 42 t = [request_message demo_chain (block_number (next_block served)) demo_feed]"
    using demo_request [of "next_block served" 2 6] by (auto simp: served_feeds)
  have "?t = t"
    by (simp add: dispatch_def run_transactional_Ok t(1) split: prod.split)
  with t(2) pop show ?thesis by simp
qed

section \<open>The factory\<close>

interpretation deployment_wire: scale_codec deployment_scale "\<lambda>d. length (d_name d) \<le> 4294967295"
proof -
  have "codec_ok deployment_scale (\<lambda>d. length (d_name d) \<le> 4294967295)"
    unfolding deployment_scale_def byte_vec_def
    by (rule codec_ok_mono [OF via_codec_law [OF pair_codec_law [OF base_laws(4)
        pair_codec_law [OF base_laws(3) pair_codec_law [OF base_laws(3)
          pair_codec_law [OF base_laws(2) base_laws(2)]]]]]])
      (auto split: prod.split)
  then show "scale_codec deployment_scale (\<lambda>d. length (d_name d) \<le> 4294967295)"
    by (simp add: codec_ok_iff_locale)
qed

text \<open>The factory's list holds encodings of deployments, and counts them.\<close>

definition lists_deployments :: "'w factory \<Rightarrow> deployment list \<Rightarrow> bool" where
  "lists_deployments s ds \<longleftrightarrow> deployments s = map (enc deployment_scale) ds \<and>
     num_deployed s = of_nat (length ds) \<and> (\<forall>d \<in> set ds. length (d_name d) \<le> 4294967295)"

lemma decode_all_map:
  "\<forall>d \<in> set ds. length (d_name d) \<le> 4294967295 \<Longrightarrow>
    decode_all (map (enc deployment_scale) ds) s = (Inr ds, s)"
  by (induction ds) (simp_all add: deployment_wire.dec_enc_Nil call_simps run_seq_Ok)

lemma get_deployments_lists: "lists_deployments s ds \<Longrightarrow> get_deployments s = (Inr ds, s)"
  by (simp add: get_deployments_def lists_deployments_def decode_all_map call_simps)

lemma on_f_world_Ok [call_ok]:
  "on_f_world m s = (Inr a, t) \<longleftrightarrow> (\<exists>w. m (f_world s) = (Inr a, w) \<and> t = s\<lparr>f_world := w\<rparr>)"
  by (auto simp: on_f_world_def split: prod.split)

text \<open>
  A deployment that succeeds is listed last, under the caller's name and for one hour,
  and the whole list can still be read; any other outcome leaves the list alone.
\<close>

lemma deployment_listed:
  assumes "lists_deployments s ds" and "length name \<le> 4294967295"
    and "deploy_price_feed E name token0 token1 s = (Inr addr, t)"
  shows "lists_deployments t (ds @ [\<lparr>d_name = name, d_owner = fe_caller E, d_contract_id = addr,
      d_created_at = fe_timestamp E, d_expired_at = fe_timestamp E + 3600000\<rparr>])"
  using assms
  by (auto simp: deploy_price_feed_def factory_ensure_configured_def lists_deployments_def Let_def call_ok)

end
