(* ===== verification/Cumulus_Core.thy ===== *)
theory Cumulus_Core
  imports Frame
begin

text \<open>
  The primitives of \<open>src/primitives/core/src/lib.rs\<close>: the errors and the channel data of
  message passing, the block data a collator sends to the relay chain and the collation
  information in its two versions. Headers, extrinsics, proofs, messages and validation
  code are types of other crates and type variables here.
\<close>

section \<open>Sending messages\<close>

datatype message_send_error = QueueFull | NoChannel | TooBig | OtherSendError

fun message_send_error_str :: "message_send_error \<Rightarrow> string" where
  "message_send_error_str QueueFull = ''QueueFull''"
| "message_send_error_str NoChannel = ''NoChannel''"
| "message_send_error_str TooBig = ''TooBig''"
| "message_send_error_str OtherSendError = ''Other''"

record channel_info =
  max_capacity :: u32
  max_total_size :: u32
  max_message_size :: u32
  msg_count :: u32
  total_size :: u32

text \<open>The two numbers of \<open>Ready\<close>: the size a message may have now, and may ever have.\<close>

datatype channel_status = Closed | Full | Ready nat nat

datatype service_quality = Ordered | Fast

type_synonym xcm_hash = bytes

text \<open>
  \<open>UpwardMessageSender\<close>: the storage of the sender and the message give the number of
  blocks to wait and the hash of the message, or an error. The implementation for \<open>()\<close>
  has no channel; that of \<open>XcmpMessageSource\<close> has no messages.
\<close>

type_synonym 'w upward_sender = "bytes \<Rightarrow> (message_send_error, 'w, u32 \<times> xcm_hash) call"

definition unit_send_upward_message :: "'w upward_sender" where
  "unit_send_upward_message msg = throw NoChannel"

definition unit_take_outbound_messages :: "nat \<Rightarrow> (u32 \<times> bytes) list" where
  "unit_take_outbound_messages maximum_channels = []"

section \<open>Blocks and collations\<close>

record ('h, 'x, 'p) parachain_block_data =
  block_header :: 'h
  block_extrinsics :: "'x list"
  block_proof :: 'p

definition new_block_data :: "'h \<Rightarrow> 'x list \<Rightarrow> 'p \<Rightarrow> ('h, 'x, 'p) parachain_block_data" where
  "new_block_data h xs p = \<lparr>block_header = h, block_extrinsics = xs, block_proof = p\<rparr>"

definition into_block :: "('h \<Rightarrow> 'x list \<Rightarrow> 'b) \<Rightarrow> ('h, 'x, 'p) parachain_block_data \<Rightarrow> 'b" where
  "into_block block_new d = block_new (block_header d) (block_extrinsics d)"

definition deconstruct :: "('h, 'x, 'p) parachain_block_data \<Rightarrow> 'h \<times> 'x list \<times> 'p" where
  "deconstruct d = (block_header d, block_extrinsics d, block_proof d)"

record ('um, 'hm, 'vc) collation_info_v1 =
  upward_messages :: "'um list"
  horizontal_messages :: "'hm list"
  new_validation_code :: "'vc option"
  processed_downward_messages :: u32
  hrmp_watermark :: u32

record ('um, 'hm, 'vc, 'hd) collation_info = "('um, 'hm, 'vc) collation_info_v1" +
  head_data :: 'hd

definition into_latest ::
    "('um, 'hm, 'vc) collation_info_v1 \<Rightarrow> 'hd \<Rightarrow> ('um, 'hm, 'vc, 'hd) collation_info" where
  "into_latest c head =
     \<lparr>upward_messages = upward_messages c,
      horizontal_messages = horizontal_messages c,
      new_validation_code = new_validation_code c,
      processed_downward_messages = processed_downward_messages c,
      hrmp_watermark = hrmp_watermark c,
      head_data = head\<rparr>"

end
