(* ===== verification/Xcm.thy ===== *)
theory Xcm
  imports Cumulus_Core Weights
begin

text \<open>
  Cross-consensus messages: the barrier and the asset filters of
  \<open>src/common/src/xcm_config.rs\<close>, \<open>src/common/src/impls.rs\<close> and
  \<open>src/runtime/paraxiom/src/xcm_config.rs\<close>, and the router to the relay chain of
  \<open>src/primitives/utility/src/lib.rs\<close>.

  The types of the \<open>xcm\<close> crate are written as far as this code looks into them: a
  location is a number of parents and a list of junctions (\<open>Here\<close> is the empty list), an
  instruction is one of the four the filters match on or some other one. Junctions,
  abstract asset names and the fields the patterns skip are type variables.

  A filter (\<open>ShouldExecute\<close>) gets the message and the weight credit as mutable
  references, so it is a call over the pair of them that ends in \<open>Ok(())\<close> or
  \<open>Err(())\<close>. The lemmas say what the barrier refuses and that it refuses without a
  change.
\<close>

section \<open>Locations, assets, instructions\<close>

record 'j multi_location =
  parents :: u8
  interior :: "'j list"

definition relay_location :: "'j multi_location" where
  "relay_location = \<lparr>parents = 1, interior = []\<rparr>"

definition contains_parents_only :: "u8 \<Rightarrow> 'j multi_location \<Rightarrow> bool" where
  "contains_parents_only n d \<longleftrightarrow> interior d = [] \<and> parents d = n"

datatype ('j, 'n) asset_name = Concrete "'j multi_location" | Abstract 'n

datatype 'i fungibility = Fungible u128 | NonFungible 'i

record ('j, 'n, 'i) multi_asset =
  asset_id :: "('j, 'n) asset_name"
  asset_fun :: "'i fungibility"

datatype ('j, 'x) instruction =
    InitiateReserveWithdraw "'j multi_location" 'x
  | DepositReserveAsset "'j multi_location" 'x
  | TransferReserveAsset "'j multi_location" 'x
  | ReserveAssetDeposited 'x
  | OtherInstruction 'x

section \<open>The barrier\<close>

type_synonym ('j, 'x, 'w) should_execute =
  "'j multi_location \<Rightarrow> 'w \<Rightarrow> (unit, ('j, 'x) instruction list \<times> 'w, unit) call"

definition deny_then_try ::
    "('j, 'x, 'w) should_execute \<Rightarrow> ('j, 'x, 'w) should_execute \<Rightarrow> ('j, 'x, 'w) should_execute" where
  "deny_then_try deny allow origin max_weight =
     seq (deny origin max_weight) (\<lambda>_. allow origin max_weight)"

fun reserve_transfer_to_relay :: "('j, 'x) instruction \<Rightarrow> bool" where
  "reserve_transfer_to_relay (InitiateReserveWithdraw reserve _) \<longleftrightarrow>
     parents reserve = 1 \<and> interior reserve = []"
| "reserve_transfer_to_relay (DepositReserveAsset dest _) \<longleftrightarrow>
     parents dest = 1 \<and> interior dest = []"
| "reserve_transfer_to_relay (TransferReserveAsset dest _) \<longleftrightarrow>
     parents dest = 1 \<and> interior dest = []"
| "reserve_transfer_to_relay (ReserveAssetDeposited _) \<longleftrightarrow> False"
| "reserve_transfer_to_relay (OtherInstruction _) \<longleftrightarrow> False"

text \<open>The warning about a reserve deposit from the relay chain goes to the log only.\<close>

definition deny_reserve_transfer :: "('j, 'x, 'w) should_execute" where
  "deny_reserve_transfer origin max_weight =
     seq (gets fst) (\<lambda>message.
     if list_ex reserve_transfer_to_relay message then throw () else ret ())"

text \<open>
  The runtime's \<open>Barrier\<close>; \<open>allow\<close> is the tuple of the three filters of the XCM builder.
\<close>

definition runtime_barrier :: "('j, 'x, 'w) should_execute \<Rightarrow> ('j, 'x, 'w) should_execute" where
  "runtime_barrier allow = deny_then_try deny_reserve_transfer allow"

text \<open>\<open>executive\<close> tells the junction \<open>Plurality { id: BodyId::Executive, .. }\<close>.\<close>

definition parent_or_executive_plurality :: "('j \<Rightarrow> bool) \<Rightarrow> 'j multi_location \<Rightarrow> bool" where
  "parent_or_executive_plurality executive l \<longleftrightarrow> parents l = 1 \<and>
     (case interior l of [] \<Rightarrow> True | [j] \<Rightarrow> executive j | _ \<Rightarrow> False)"

definition unit_weight_cost :: u64 where
  "unit_weight_cost = 1000000000"

definition max_instructions :: u32 where
  "max_instructions = 100"

section \<open>Asset filters\<close>

text \<open>\<open>match_and_split\<close> is \<open>MultiLocation::match_and_split\<close> of the \<open>xcm\<close> crate.\<close>

definition assets_from ::
    "('j multi_location \<Rightarrow> 'j multi_location \<Rightarrow> 'j option) \<Rightarrow> 'j multi_location \<Rightarrow>
     ('j, 'n, 'i) multi_asset \<Rightarrow> 'j multi_location \<Rightarrow> bool" where
  "assets_from match_and_split loc asset origin \<longleftrightarrow> loc = origin \<and>
     (case (asset_id asset, asset_fun asset) of
        (Concrete asset_loc, Fungible _) \<Rightarrow> match_and_split asset_loc loc \<noteq> None
      | _ \<Rightarrow> False)"

definition concrete_native_asset_from ::
    "'j multi_location \<Rightarrow> ('j, 'n, 'i) multi_asset \<Rightarrow> 'j multi_location \<Rightarrow> bool" where
  "concrete_native_asset_from loc asset origin \<longleftrightarrow>
     (case asset_id asset of Concrete id' \<Rightarrow> id' = origin \<and> origin = loc | Abstract _ \<Rightarrow> False)"

definition non_zero_issuance :: "('aid \<Rightarrow> 'b::len word) \<Rightarrow> 'aid \<Rightarrow> bool" where
  "non_zero_issuance total_issuance asset \<longleftrightarrow> total_issuance asset \<noteq> 0"

section \<open>The router to the relay chain\<close>

datatype send_error =
    NotApplicable
  | TransportError string
  | DestinationUnsupported
  | ExceedsMaxMessageSize
  | MissingArgument

text \<open>
  \<open>PriceForParentDelivery\<close> for \<open>()\<close> and for a constant, over the type of asset lists.
\<close>

definition price_nothing :: "'assets \<Rightarrow> 'm \<Rightarrow> 'assets" where
  "price_nothing no_assets message = no_assets"

definition price_constant :: "'assets \<Rightarrow> 'm \<Rightarrow> 'assets" where
  "price_constant price message = price"

text \<open>
  \<open>wrap_version\<close> and the encoding of the versioned message are the \<open>xcm\<close> crate's. The
  destination and the message are the two mutable options the router may take from.
\<close>

record ('j, 'm, 'v, 'assets) ump_config =
  wrap_version :: "'j multi_location \<Rightarrow> 'm \<Rightarrow> 'v option"
  encode_versioned :: "'v \<Rightarrow> bytes"
  price_for_parent :: "'m \<Rightarrow> 'assets"

definition take_dest :: "('e, 'd option \<times> 'm, 'd option) call" where
  "take_dest = seq (gets fst) (\<lambda>d. seq (modify (\<lambda>s. (None, snd s))) (\<lambda>_. ret d))"

definition take_msg :: "('e, 'd \<times> 'm option, 'm option) call" where
  "take_msg = seq (gets snd) (\<lambda>m. seq (modify (\<lambda>s. (fst s, None))) (\<lambda>_. ret m))"

definition ump_validate ::
    "('j, 'm, 'v, 'assets, 'x) ump_config_scheme \<Rightarrow>
     (send_error, 'j multi_location option \<times> 'm option, bytes \<times> 'assets) call" where
  "ump_validate T =
     seq take_dest (\<lambda>dest.
     seq (ok_or dest MissingArgument) (\<lambda>d.
     if contains_parents_only 1 d then
       seq take_msg (\<lambda>msg.
       seq (ok_or msg MissingArgument) (\<lambda>xcm.
       seq (ok_or (wrap_version T d xcm) DestinationUnsupported) (\<lambda>versioned_xcm.
       ret (encode_versioned T versioned_xcm, price_for_parent T xcm))))
     else
       seq (modify (\<lambda>s. (Some d, snd s))) (\<lambda>_. throw NotApplicable)))"

definition send_error_of :: "message_send_error \<Rightarrow> send_error" where
  "send_error_of e = (case e of
     TooBig \<Rightarrow> ExceedsMaxMessageSize
   | e' \<Rightarrow> TransportError (message_send_error_str e'))"

definition ump_deliver :: "'w upward_sender \<Rightarrow> bytes \<Rightarrow> (send_error, 'w, xcm_hash) call" where
  "ump_deliver send_upward_message data =
     seq (map_err send_error_of (send_upward_message data)) (\<lambda>(_, hash). ret hash)"

section \<open>What the barrier refuses and the router takes\<close>

lemma run_take [call_simps]:
  "seq take_dest f s = f (fst s) (None, snd s)"
  "seq take_msg g t = g (snd t) (fst t, None)"
  by (simp_all add: take_dest_def take_msg_def call_simps)

text \<open>
  The barrier refuses every message that would move reserves to the relay chain, in
  any of its instructions and whoever sent it, before any other filter sees it: message
  and weight credit are as they were, whatever the other filters would have done. Every
  other message is left to those filters alone.
\<close>

lemma barrier_denies_first:
  "runtime_barrier allow origin max_weight (message, credit) =
     (if \<exists>i \<in> set message. reserve_transfer_to_relay i
      then (Inl (Err ()), (message, credit))
      else allow origin max_weight (message, credit))"
  by (simp add: runtime_barrier_def deny_then_try_def deny_reserve_transfer_def list_ex_iff
      call_simps Let_def)

text \<open>
  The router to the relay chain takes both or nothing: with a destination and a
  message given, it answers \<open>NotApplicable\<close> exactly if the destination is not the
  parent, and then leaves both for the next router; otherwise it has taken both, and
  accepts exactly if the message can be put into a version the relay chain knows.
\<close>

lemma ump_takes_both_or_nothing:
  assumes "ump_validate T (Some d, Some m) = (result, (dest, msg))"
  shows "(result = Inl (Err NotApplicable) \<longleftrightarrow> d \<noteq> relay_location) \<and>
    (d \<noteq> relay_location \<longrightarrow> dest = Some d \<and> msg = Some m) \<and>
    (d = relay_location \<longrightarrow> dest = None \<and> msg = None \<and>
       result = (case wrap_version T d m of
          None \<Rightarrow> Inl (Err DestinationUnsupported)
        | Some v \<Rightarrow> Inr (encode_versioned T v, price_for_parent T m)))"
proof -
  have parent: "contains_parents_only 1 d \<longleftrightarrow> d = relay_location"
    by (cases d) (auto simp: contains_parents_only_def relay_location_def)
  show ?thesis
    using assms by (cases "wrap_version T d m")
      (auto simp: ump_validate_def parent call_simps split: if_splits)
qed

end
