(* ===== verification/Fee_Trader.thy ===== *)
theory Fee_Trader
  imports Xcm
begin

text \<open>
  Fees: \<open>TakeFirstAssetTrader\<close> and the account that takes the revenue
  (\<open>src/primitives/utility/src/lib.rs\<close>), the charge in an asset
  (\<open>AssetFeeAsExistentialDepositMultiplier\<close>, \<open>src/common/src/xcm_config.rs\<close>) and what
  becomes of the transaction fees (\<open>DealWithFees\<close>, \<open>ToStakingPot\<close>,
  \<open>AssetsToBlockAuthor\<close>, \<open>src/common/src/impls.rs\<close>).

  The trader keeps an optional record of what was bought. The holding it is paid from,
  the matcher of assets, the asset pallet's minimum balance and the fee charger are
  parameters. A balance is a machine word of any width, which the trader converts to
  \<open>u128\<close> where the code does.

  The locale \<open>weight_trader\<close> is the contract the XCM executor relies on: refunds never
  change the sum of what is outstanding and what was paid back, and never take the
  outstanding amount below a floor. \<open>TakeFirstAssetTrader\<close> meets it.
\<close>

section \<open>The trader\<close>

datatype xcm_error = NotWithdrawable | AssetNotFound | Overflow | TooExpensive | OtherXcmError nat

record ('j, 'n, 'i) asset_trader_refunder =
  weight_outstanding :: weight
  outstanding_concrete_asset :: "('j, 'n, 'i) multi_asset"

type_synonym ('j, 'n, 'i) trader = "('j, 'n, 'i) asset_trader_refunder option"

record ('j, 'n, 'i, 'pay, 'aid, 'bal) trader_config =
  multiassets :: "'pay \<Rightarrow> ('j, 'n, 'i) multi_asset list"
  pay_checked_sub :: "'pay \<Rightarrow> ('j, 'n, 'i) multi_asset \<Rightarrow> 'pay option"
  matches_fungibles :: "('j, 'n, 'i) multi_asset \<Rightarrow> ('aid \<times> 'bal) option"
  asset_minimum_balance :: "'aid \<Rightarrow> 'bal"
  charge_weight :: "'aid \<Rightarrow> weight \<Rightarrow> xcm_error + 'bal"

text \<open>\<open>try_into\<close> and \<open>saturated_into\<close>, from a balance to \<open>u128\<close>.\<close>

definition try_u128 :: "'b::len word \<Rightarrow> u128 option" where
  "try_u128 b = (if unat b < 2 ^ 128 then Some (ucast b) else None)"

definition saturated_u128 :: "'b::len word \<Rightarrow> u128" where
  "saturated_u128 b = (if unat b < 2 ^ 128 then ucast b else - 1)"

definition ok_result :: "'e + 'a \<Rightarrow> ('e, 's, 'a) call" where
  "ok_result r = (case r of Inl e \<Rightarrow> throw e | Inr a \<Rightarrow> ret a)"

definition new_trader :: "('j, 'n, 'i) trader" where
  "new_trader = None"

definition buy_weight ::
    "('j, 'n, 'i, 'pay, 'aid, 'b::len word, 'x) trader_config_scheme \<Rightarrow> weight \<Rightarrow> 'pay \<Rightarrow>
     (xcm_error, ('j, 'n, 'i) trader, 'pay) call" where
  "buy_weight T weight payment =
     seq (gets (\<lambda>trader. trader)) (\<lambda>trader.
     seq (ensure (trader = None) NotWithdrawable) (\<lambda>_.
     seq (ok_or (case multiassets T payment of [] \<Rightarrow> None | a # _ \<Rightarrow> Some a) AssetNotFound) (\<lambda>first.
     seq (ok_or (matches_fungibles T first) AssetNotFound) (\<lambda>(local_asset_id, _).
     seq (ok_result (charge_weight T local_asset_id weight)) (\<lambda>amount.
     seq (ok_or (try_u128
           (if amount < asset_minimum_balance T local_asset_id
            then asset_minimum_balance T local_asset_id else amount)) Overflow) (\<lambda>asset_balance.
     let required = \<lparr>asset_id = asset_id first, asset_fun = Fungible asset_balance\<rparr> in
     seq (ok_or (pay_checked_sub T payment required) TooExpensive) (\<lambda>unused.
     seq (modify (\<lambda>_. Some \<lparr>weight_outstanding = weight,
                            outstanding_concrete_asset = required\<rparr>)) (\<lambda>_.
     ret unused))))))))"

definition refund_weight ::
    "('j, 'n, 'i, 'pay, 'aid, 'b::len word, 'x) trader_config_scheme \<Rightarrow> weight \<Rightarrow> ('j, 'n, 'i) trader \<Rightarrow>
     ('j, 'n, 'i) multi_asset option \<times> ('j, 'n, 'i) trader" where
  "refund_weight T weight trader = (case trader of
     None \<Rightarrow> (None, trader)
   | Some r \<Rightarrow> (case matches_fungibles T (outstanding_concrete_asset r) of
       None \<Rightarrow> (None, trader)
     | Some (local_asset_id, outstanding_balance) \<Rightarrow>
         (case charge_weight T local_asset_id weight of
            Inl _ \<Rightarrow> (None, trader)
          | Inr charge \<Rightarrow>
              (let minimum_balance = asset_minimum_balance T local_asset_id;
                   (asset_balance, outstanding_minus_substracted) =
                     (if minimum_balance < saturating_sub outstanding_balance charge
                      then (charge, saturating_sub outstanding_balance charge)
                      else (saturating_sub outstanding_balance minimum_balance, minimum_balance));
                   asset_name = asset_id (outstanding_concrete_asset r)
               in (if 0 < saturated_u128 asset_balance
                   then Some \<lparr>asset_id = asset_name, asset_fun = Fungible (saturated_u128 asset_balance)\<rparr>
                   else None,
                   Some \<lparr>weight_outstanding = weight_sub (weight_outstanding r) weight,
                         outstanding_concrete_asset =
                           \<lparr>asset_id = asset_name,
                            asset_fun = Fungible (saturated_u128 outstanding_minus_substracted)\<rparr>\<rparr>)))))"

text \<open>\<open>Drop\<close>: what is still outstanding is revenue.\<close>

definition drop_trader ::
    "(('j, 'n, 'i) multi_asset \<Rightarrow> 'w \<Rightarrow> 'w) \<Rightarrow> ('j, 'n, 'i) trader \<Rightarrow> 'w \<Rightarrow> 'w" where
  "drop_trader take_revenue trader world = (case trader of
     None \<Rightarrow> world
   | Some r \<Rightarrow> take_revenue (outstanding_concrete_asset r) world)"

text \<open>
  \<open>XcmFeesTo32ByteAccount\<close>: the revenue is deposited at the receiver's location, if there
  is a receiver; whether the deposit succeeds is not looked at.
\<close>

definition fees_to_account ::
    "(H256 \<Rightarrow> 'j) \<Rightarrow> H256 option \<Rightarrow>
     (('j, 'n, 'i) multi_asset \<Rightarrow> 'j multi_location \<Rightarrow> 'w \<Rightarrow> bool \<times> 'w) \<Rightarrow>
     ('j, 'n, 'i) multi_asset \<Rightarrow> 'w \<Rightarrow> 'w" where
  "fees_to_account account_junction receiver deposit_asset revenue world = (case receiver of
     None \<Rightarrow> world
   | Some acc \<Rightarrow>
       snd (deposit_asset revenue \<lparr>parents = 0, interior = [account_junction acc]\<rparr> world))"

text \<open>
  \<open>AssetFeeAsExistentialDepositMultiplier\<close>: the fee for the weight, converted to the
  asset.
\<close>

definition charge_weight_in_fungibles ::
    "(weight \<Rightarrow> 'c) \<Rightarrow> ('c \<Rightarrow> 'aid \<Rightarrow> 'b::len word option) \<Rightarrow> 'aid \<Rightarrow> weight \<Rightarrow> xcm_error + 'b word" where
  "charge_weight_in_fungibles weight_to_fee to_asset_balance asset weight =
     (case to_asset_balance (weight_to_fee weight) asset of
        None \<Rightarrow> Inl TooExpensive
      | Some asset_amount \<Rightarrow> Inr asset_amount)"

section \<open>Transaction fees\<close>

text \<open>
  An imbalance is a token with a \<open>Drop\<close>; \<open>drop_imbalance\<close> is what its drop does to the
  storage, \<open>merge\<close> is \<open>merge_into\<close> and \<open>try_drop\<close> the test of \<open>on_unbalanced\<close> whether the
  amount is zero.
\<close>

record ('imb, 'w) imbalance_config =
  merge_imbalance :: "'imb \<Rightarrow> 'imb \<Rightarrow> 'imb"
  imbalance_is_zero :: "'imb \<Rightarrow> bool"
  drop_imbalance :: "'imb \<Rightarrow> 'w \<Rightarrow> 'w"

definition staking_pot_on_nonzero :: "('imb, 'w, 'x) imbalance_config_scheme \<Rightarrow> 'imb \<Rightarrow> 'w \<Rightarrow> 'w" where
  "staking_pot_on_nonzero I amount world = drop_imbalance I amount world"

definition staking_pot_on_unbalanced :: "('imb, 'w, 'x) imbalance_config_scheme \<Rightarrow> 'imb \<Rightarrow> 'w \<Rightarrow> 'w" where
  "staking_pot_on_unbalanced I amount world =
     (if imbalance_is_zero I amount then world else staking_pot_on_nonzero I amount world)"

text \<open>The iterator is dropped at the end, with what it still holds.\<close>

definition deal_with_fees :: "('imb, 'w, 'x) imbalance_config_scheme \<Rightarrow> 'imb list \<Rightarrow> 'w \<Rightarrow> 'w" where
  "deal_with_fees I fees_then_tips world = (case fees_then_tips of
     [] \<Rightarrow> world
   | [fees] \<Rightarrow> staking_pot_on_unbalanced I fees world
   | fees # tips # rest \<Rightarrow>
       fold (drop_imbalance I) rest
         (staking_pot_on_unbalanced I (merge_imbalance I tips fees) world))"

text \<open>
  \<open>AssetsToBlockAuthor\<close>: the credit goes to the author if there is one; a credit that is
  not resolved, or has nobody to go to, is dropped.
\<close>

definition assets_to_block_author ::
    "'acc option \<Rightarrow> ('acc \<Rightarrow> 'credit \<Rightarrow> 'w \<Rightarrow> 'credit option \<times> 'w) \<Rightarrow> ('credit \<Rightarrow> 'w \<Rightarrow> 'w) \<Rightarrow>
     'credit \<Rightarrow> 'w \<Rightarrow> 'w" where
  "assets_to_block_author author resolve drop_credit credit world = (case author of
     None \<Rightarrow> drop_credit credit world
   | Some a \<Rightarrow> (case resolve a credit world of
       (None, world') \<Rightarrow> world'
     | (Some left_over, world') \<Rightarrow> drop_credit left_over world'))"

section \<open>The contract of a trader\<close>

fun run_refunds :: "('v \<Rightarrow> 't \<Rightarrow> 'o \<times> 't) \<Rightarrow> 'v list \<Rightarrow> 't \<Rightarrow> 'o list \<times> 't" where
  "run_refunds refund [] t = ([], t)"
| "run_refunds refund (w # ws) t =
     (let (out, t') = refund w t; (outs, t'') = run_refunds refund ws t' in (out # outs, t''))"

locale weight_trader =
  fixes refund :: "'v \<Rightarrow> 't \<Rightarrow> 'o \<times> 't"
    and amount_of :: "'o \<Rightarrow> nat"
    and outstanding :: "'t \<Rightarrow> nat"
    and floor :: nat
    and ready :: "'t \<Rightarrow> bool"
  assumes refund_conserves:
      "ready t \<Longrightarrow> refund w t = (out, t') \<Longrightarrow> ready t' \<and> outstanding t = amount_of out + outstanding t'"
    and ready_floor: "ready t \<Longrightarrow> floor \<le> outstanding t"
begin

lemma refunds_conserve:
  assumes "ready t" and "run_refunds refund ws t = (outs, t')"
  shows "ready t' \<and> outstanding t = sum_list (map amount_of outs) + outstanding t'"
  using assms
proof (induction ws arbitrary: t outs)
  case Nil
  then show ?case by simp
next
  case (Cons w ws)
  obtain out t1 where step: "refund w t = (out, t1)" by (cases "refund w t")
  obtain outs' t2 where rest: "run_refunds refund ws t1 = (outs', t2)"
    by (cases "run_refunds refund ws t1")
  from Cons.prems(2) step rest have outs: "outs = out # outs'" "t' = t2" by simp_all
  from refund_conserves [OF Cons.prems(1) step]
  have one: "ready t1" "outstanding t = amount_of out + outstanding t1" by simp_all
  from Cons.IH [OF one(1)] rest outs(2)
  have "ready t' \<and> outstanding t1 = sum_list (map amount_of outs') + outstanding t'" by simp
  with one(2) outs(1) show ?case by simp
qed

lemma refunds_floor:
  assumes "ready t" and "run_refunds refund ws t = (outs, t')"
  shows "floor \<le> outstanding t'"
  using refunds_conserve [OF assms] ready_floor by blast

end

end
