(* ===== verification/Fee_Trader_Properties.thy ===== *)
theory Fee_Trader_Properties
  imports Fee_Trader
begin

text \<open>
  \<open>TakeFirstAssetTrader\<close> meets the contract of a trader, and what follows for a message
  that buys its execution: nothing is created or lost between the payment, the refunds
  and the revenue, and there is one purchase at most. The last property is about the
  transaction fees.
\<close>

section \<open>TakeFirstAssetTrader\<close>

lemma unat_saturated_u128: "unat b < 2 ^ 128 \<Longrightarrow> unat (saturated_u128 b) = unat b"
  for b :: "'b::len word"
  by (simp add: saturated_u128_def unsigned_ucast_eq take_bit_nat_eq_self)

lemma try_u128_Some: "try_u128 b = Some x \<Longrightarrow> unat x = unat b"
  for b :: "'b::len word"
  by (auto simp: try_u128_def unsigned_ucast_eq take_bit_nat_eq_self split: if_splits)

definition asset_amount :: "('j, 'n, 'i) multi_asset \<Rightarrow> nat" where
  "asset_amount a = (case asset_fun a of Fungible x \<Rightarrow> unat x | NonFungible _ \<Rightarrow> 0)"

definition refunded_amount :: "('j, 'n, 'i) multi_asset option \<Rightarrow> nat" where
  "refunded_amount out = (case out of None \<Rightarrow> 0 | Some a \<Rightarrow> asset_amount a)"

definition outstanding_amount :: "('j, 'n, 'i) trader \<Rightarrow> nat" where
  "outstanding_amount t =
     (case t of None \<Rightarrow> 0 | Some r \<Rightarrow> asset_amount (outstanding_concrete_asset r))"

text \<open>
  The matcher, where it matches amounts of the asset \<open>i\<close>, gives the local asset \<open>l\<close> and
  the amount itself.
\<close>

definition matcher_ok ::
    "('j, 'n, 'i, 'pay, 'aid, 'b::len word, 'x) trader_config_scheme \<Rightarrow> ('j, 'n) asset_name \<Rightarrow>
     'aid \<Rightarrow> bool" where
  "matcher_ok T i l \<longleftrightarrow> (\<forall>x. case matches_fungibles T \<lparr>asset_id = i, asset_fun = Fungible x\<rparr> of
     None \<Rightarrow> True | Some (l', b) \<Rightarrow> l' = l \<and> unat b = unat x)"

definition trader_ready ::
    "('j, 'n, 'i, 'pay, 'aid, 'b::len word, 'x) trader_config_scheme \<Rightarrow> ('j, 'n) asset_name \<Rightarrow>
     'aid \<Rightarrow> ('j, 'n, 'i) trader \<Rightarrow> bool" where
  "trader_ready T i l t \<longleftrightarrow> matcher_ok T i l \<and>
     (\<exists>w x. t = Some \<lparr>weight_outstanding = w,
                      outstanding_concrete_asset = \<lparr>asset_id = i, asset_fun = Fungible x\<rparr>\<rparr> \<and>
            unat (asset_minimum_balance T l) \<le> unat x)"

lemma matcher_okD:
  "matcher_ok T i l \<Longrightarrow> matches_fungibles T \<lparr>asset_id = i, asset_fun = Fungible x\<rparr> = Some (l', b) \<Longrightarrow>
    l' = l \<and> unat b = unat x"
  unfolding matcher_ok_def by (drule spec [of _ x]) simp

text \<open>The two branches of a refund, as numbers.\<close>

lemma refund_split:
  fixes balance charge floor :: "'b::len word"
  assumes "unat floor \<le> unat balance" and "unat balance < 2 ^ 128"
    and "(repaid, left) = (if floor < saturating_sub balance charge
           then (charge, saturating_sub balance charge)
           else (saturating_sub balance floor, floor))"
  shows "unat (saturated_u128 repaid) + unat (saturated_u128 left) = unat balance \<and>
    unat floor \<le> unat (saturated_u128 left)"
proof (cases "floor < saturating_sub balance charge")
  case True
  then have "unat floor < unat balance - unat charge"
    by (simp add: word_less_nat_alt)
  with True assms show ?thesis
    by (simp add: unat_saturated_u128)
next
  case False
  with assms show ?thesis
    by (simp add: unat_saturated_u128)
qed

lemma refund_weight_conserves:
  assumes "trader_ready T i l t" and "refund_weight T w t = (out, t')"
  shows "trader_ready T i l t' \<and> outstanding_amount t = refunded_amount out + outstanding_amount t'"
proof -
  from assms(1) obtain v x where m: "matcher_ok T i l"
    and t: "t = Some \<lparr>weight_outstanding = v,
                      outstanding_concrete_asset = \<lparr>asset_id = i, asset_fun = Fungible x\<rparr>\<rparr>"
    and floor: "unat (asset_minimum_balance T l) \<le> unat x"
    by (auto simp: trader_ready_def)
  have same: ?thesis if "t' = t" "out = None"
    using that assms(1) by (simp add: refunded_amount_def)
  show ?thesis
  proof (cases "matches_fungibles T \<lparr>asset_id = i, asset_fun = Fungible x\<rparr>")
    case None
    with assms(2) t show ?thesis by (intro same) (simp_all add: refund_weight_def)
  next
    case (Some lb)
    then obtain b where lb: "matches_fungibles T \<lparr>asset_id = i, asset_fun = Fungible x\<rparr> = Some (l, b)"
      and b: "unat b = unat x"
      using matcher_okD [OF m] by (cases lb) blast
    show ?thesis
    proof (cases "charge_weight T l w")
      case (Inl e)
      with assms(2) t lb show ?thesis by (intro same) (simp_all add: refund_weight_def)
    next
      case (Inr charge)
      obtain repaid left where parts: "(repaid, left) =
          (if asset_minimum_balance T l < saturating_sub b charge
           then (charge, saturating_sub b charge)
           else (saturating_sub b (asset_minimum_balance T l), asset_minimum_balance T l))"
        by (metis surj_pair)
      have "unat b < 2 ^ 128" using b unsigned_less [of x, where 'a = nat] by simp
      with floor b have sums: "unat (saturated_u128 repaid) + unat (saturated_u128 left) = unat b"
          "unat (asset_minimum_balance T l) \<le> unat (saturated_u128 left)"
        using refund_split [OF _ _ parts] by simp_all
      have out: "out = (if 0 < saturated_u128 repaid
                   then Some \<lparr>asset_id = i, asset_fun = Fungible (saturated_u128 repaid)\<rparr> else None)"
        and t': "t' = Some \<lparr>weight_outstanding = weight_sub v w,
                   outstanding_concrete_asset =
                     \<lparr>asset_id = i, asset_fun = Fungible (saturated_u128 left)\<rparr>\<rparr>"
        using assms(2) t lb Inr parts [symmetric]
        by (simp_all add: refund_weight_def Let_def split: prod.splits)
      have "refunded_amount out = unat (saturated_u128 repaid)"
        by (auto simp: out refunded_amount_def asset_amount_def word_less_nat_alt)
      with m t t' b sums show ?thesis
        by (simp add: trader_ready_def outstanding_amount_def asset_amount_def)
    qed
  qed
qed

interpretation take_first: weight_trader "refund_weight T" refunded_amount outstanding_amount
    "unat (asset_minimum_balance T l)" "trader_ready T i l" for T i l
proof
  show "trader_ready T i l t \<Longrightarrow> refund_weight T w t = (out, t') \<Longrightarrow>
      trader_ready T i l t' \<and> outstanding_amount t = refunded_amount out + outstanding_amount t'"
    for w t out t' by (rule refund_weight_conserves)
  show "trader_ready T i l t \<Longrightarrow> unat (asset_minimum_balance T l) \<le> outstanding_amount t" for t
    by (auto simp: trader_ready_def outstanding_amount_def asset_amount_def)
qed

lemma ok_result_Ok [call_ok]: "ok_result r s = (Inr a, t) \<longleftrightarrow> r = Inr a \<and> t = s"
  by (cases r) (auto simp: ok_result_def call_simps)

text \<open>What a purchase that succeeds has done.\<close>

lemma buy_weight_OkE:
  assumes "buy_weight T w payment s = (Inr unused, t)"
  obtains a rest l b charge x where "s = None" and "multiassets T payment = a # rest"
    and "matches_fungibles T a = Some (l, b)" and "charge_weight T l w = Inr charge"
    and "try_u128 (if charge < asset_minimum_balance T l then asset_minimum_balance T l else charge) = Some x"
    and "pay_checked_sub T payment \<lparr>asset_id = asset_id a, asset_fun = Fungible x\<rparr> = Some unused"
    and "t = Some \<lparr>weight_outstanding = w,
           outstanding_concrete_asset = \<lparr>asset_id = asset_id a, asset_fun = Fungible x\<rparr>\<rparr>"
proof -
  from assms show ?thesis
    by (auto simp: buy_weight_def Let_def call_ok split: list.splits intro: that)
qed

section \<open>A message that buys its execution\<close>

text \<open>A holding is subtracted from as its type says: what is taken is no longer there.\<close>

definition holding_ok ::
    "('j, 'n, 'i, 'pay, 'aid, 'bal, 'x) trader_config_scheme \<Rightarrow>
     ('pay \<Rightarrow> ('j, 'n) asset_name \<Rightarrow> nat) \<Rightarrow> bool" where
  "holding_ok T holding \<longleftrightarrow> (\<forall>p i x u.
     pay_checked_sub T p \<lparr>asset_id = i, asset_fun = Fungible x\<rparr> = Some u \<longrightarrow>
     holding p i = holding u i + unat x)"

definition demo_trader :: "(nat, nat, nat, nat, nat, u128) trader_config" where
  "demo_trader =
     \<lparr>multiassets = (\<lambda>p. [\<lparr>asset_id = Abstract 0, asset_fun = Fungible (of_nat p)\<rparr>]),
      pay_checked_sub = (\<lambda>p a. if asset_id a = Abstract 0 \<and> asset_amount a \<le> p
        then Some (p - asset_amount a) else None),
      matches_fungibles = (\<lambda>a. case (asset_id a, asset_fun a) of
          (Abstract n, Fungible x) \<Rightarrow> Some (n, x) | _ \<Rightarrow> None),
      asset_minimum_balance = (\<lambda>_. 3),
      charge_weight = (\<lambda>_ w. Inr (ucast (ref_time w)))\<rparr>"

lemma demo_trader_ok:
  "holding_ok demo_trader (\<lambda>p i. if i = Abstract 0 then p else 0)"
  "matcher_ok demo_trader (Abstract n) n"
  by (auto simp: holding_ok_def matcher_ok_def demo_trader_def asset_amount_def split: if_splits)

text \<open>
  C18. Nothing is created or lost: what the payment held of the asset is what is given
  back unused at the purchase, plus every refund, plus the revenue that is taken when the
  trader is dropped, for any refunds in any order, also such as ask for more than was
  bought. The revenue is never below the asset's minimum balance.
\<close>

theorem trader_conserves:
  assumes "buy_weight T w payment new_trader = (Inr unused, bought)"
    and "matcher_ok T (asset_id (hd (multiassets T payment))) l"
    and "matches_fungibles T (hd (multiassets T payment)) = Some (l, amount)"
    and "holding_ok T holding"
    and "run_refunds (refund_weight T) ws bought = (refunds, left)"
  shows "\<exists>x. drop_trader take_revenue left world =
        take_revenue \<lparr>asset_id = asset_id (hd (multiassets T payment)), asset_fun = Fungible x\<rparr> world \<and>
      holding payment (asset_id (hd (multiassets T payment))) =
        holding unused (asset_id (hd (multiassets T payment)))
          + sum_list (map refunded_amount refunds) + unat x \<and>
      unat (asset_minimum_balance T l) \<le> unat x"
proof -
  let ?i = "asset_id (hd (multiassets T payment))"
  from assms(1) obtain charge x where charge: "charge_weight T l w = Inr charge"
    and x: "try_u128 (if charge < asset_minimum_balance T l then asset_minimum_balance T l else charge) = Some x"
    and paid: "pay_checked_sub T payment \<lparr>asset_id = ?i, asset_fun = Fungible x\<rparr> = Some unused"
    and bought: "bought = Some \<lparr>weight_outstanding = w,
           outstanding_concrete_asset = \<lparr>asset_id = ?i, asset_fun = Fungible x\<rparr>\<rparr>"
    using assms(3) by (elim buy_weight_OkE) (simp, blast)
  have "unat (asset_minimum_balance T l) \<le> unat x"
    using try_u128_Some [OF x] by (simp add: word_less_nat_alt split: if_splits)
  with assms(2) bought have ready: "trader_ready T ?i l bought"
    by (simp add: trader_ready_def)
  from take_first.refunds_conserve [OF ready assms(5)]
  have end_ready: "trader_ready T ?i l left"
    and total: "outstanding_amount bought = sum_list (map refunded_amount refunds) + outstanding_amount left"
    by simp_all
  from end_ready obtain v y where left: "left = Some \<lparr>weight_outstanding = v,
        outstanding_concrete_asset = \<lparr>asset_id = ?i, asset_fun = Fungible y\<rparr>\<rparr>"
      and y: "unat (asset_minimum_balance T l) \<le> unat y"
    by (auto simp: trader_ready_def)
  have "holding payment ?i = holding unused ?i + unat x"
    using assms(4) paid by (simp add: holding_ok_def)
  with total left bought y show ?thesis
    by (intro exI [of _ y]) (simp add: drop_trader_def outstanding_amount_def asset_amount_def)
qed

theorem trader_conserves_witness:
  "\<exists>x :: u128. (10 :: nat) = 2 + sum_list (map refunded_amount
      (fst (run_refunds (refund_weight demo_trader) [from_ref_time 4, from_ref_time 9]
        (snd (buy_weight demo_trader (from_ref_time 8) 10 new_trader))))) + unat x \<and> 3 \<le> unat x"
proof -
  let ?bought = "snd (buy_weight demo_trader (from_ref_time 8) 10 new_trader)"
  have buy: "buy_weight demo_trader (from_ref_time 8) 10 new_trader = (Inr 2, ?bought)"
    by (simp add: buy_weight_def demo_trader_def new_trader_def call_simps ok_result_def
        try_u128_def asset_amount_def from_ref_time_def Let_def)
  obtain refunds left where run: "run_refunds (refund_weight demo_trader)
      [from_ref_time 4, from_ref_time 9] ?bought = (refunds, left)"
    by (metis surj_pair)
  have first: "asset_id (hd (multiassets demo_trader 10)) = Abstract 0"
    "matches_fungibles demo_trader (hd (multiassets demo_trader 10)) = Some (0, 10)"
    "asset_minimum_balance demo_trader 0 = 3"
    by (simp_all add: demo_trader_def)
  show ?thesis
    using trader_conserves [OF buy _ first(2) demo_trader_ok(1) run,
        where take_revenue = "\<lambda>_ w. w" and world = "()"] run
    by (simp add: first demo_trader_ok)
qed

text \<open>The operations of the trader, in any order a message may ask for.\<close>

datatype 'pay trader_op = Buy weight 'pay | Refund weight

fun run_trader ::
    "('j, 'n, 'i, 'pay, 'aid, 'b::len word, 'x) trader_config_scheme \<Rightarrow> 'pay trader_op list \<Rightarrow>
     ('j, 'n, 'i) trader \<Rightarrow> 'pay list \<times> ('j, 'n, 'i) trader" where
  "run_trader T [] t = ([], t)"
| "run_trader T (Refund w # ops) t = run_trader T ops (snd (refund_weight T w t))"
| "run_trader T (Buy w p # ops) t = (case buy_weight T w p t of
     (Inl e, t') \<Rightarrow> run_trader T ops t'
   | (Inr unused, t') \<Rightarrow> (let (bought, t'') = run_trader T ops t' in (unused # bought, t'')))"

lemma refund_weight_bought: "t \<noteq> None \<Longrightarrow> snd (refund_weight T w t) \<noteq> None"
  by (auto simp: refund_weight_def Let_def split: option.split sum.split prod.split)

lemma buy_weight_bought: "t \<noteq> None \<Longrightarrow> buy_weight T w p t = (Inl (Err NotWithdrawable), t)"
  by (cases t) (simp_all add: buy_weight_def call_simps)

lemma run_trader_bought: "t \<noteq> None \<Longrightarrow> fst (run_trader T ops t) = []"
proof (induction T ops t rule: run_trader.induct)
  case (1 T t)
  show ?case by simp
next
  case (2 T w ops t)
  then show ?case by (simp add: refund_weight_bought del: not_None_eq)
next
  case (3 T w p ops t)
  from 3(1) [OF buy_weight_bought [OF 3(3), symmetric]] 3(3)
  show ?case by (simp add: buy_weight_bought del: not_None_eq)
qed

text \<open>
  One purchase at most: whatever purchases and refunds a message asks for, in any
  order, at most one purchase succeeds: no refund makes the trader forget that it was
  paid.
\<close>

lemma trader_buys_once: "length (fst (run_trader T ops new_trader)) \<le> 1"
proof -
  have "length (fst (run_trader T ops t)) \<le> 1" for t
  proof (induction T ops t rule: run_trader.induct)
    case (3 T w p ops t)
    show ?case
    proof (cases "buy_weight T w p t")
      case (Pair r t')
      show ?thesis
      proof (cases r)
        case (Inl e)
        with Pair 3 show ?thesis by simp
      next
        case (Inr unused)
        with Pair have "t' \<noteq> None" by (auto elim: buy_weight_OkE)
        with Pair Inr show ?thesis
          by (simp add: run_trader_bought split: prod.split del: not_None_eq)
            (metis fst_conv list.size(3) run_trader_bought order_refl)
      qed
    qed
  qed simp_all
  then show ?thesis .
qed

section \<open>Transaction fees\<close>

text \<open>
  What the balances pallet documents of its negative imbalances: dropping one takes its
  amount off the total issuance and touches no account; merging adds the amounts.
\<close>

definition imbalances_ok ::
    "('imb, 'w, 'x) imbalance_config_scheme \<Rightarrow> ('imb \<Rightarrow> nat) \<Rightarrow> ('w \<Rightarrow> nat) \<Rightarrow> ('w \<Rightarrow> 'acc \<Rightarrow> nat) \<Rightarrow> bool" where
  "imbalances_ok I amount issuance balance \<longleftrightarrow>
     (\<forall>x y. amount (merge_imbalance I x y) = amount x + amount y) \<and>
     (\<forall>x. imbalance_is_zero I x \<longleftrightarrow> amount x = 0) \<and>
     (\<forall>x w. issuance (drop_imbalance I x w) = issuance w - amount x \<and>
            balance (drop_imbalance I x w) = balance w)"

lemma imbalances_okD:
  assumes "imbalances_ok I amount issuance balance"
  shows "amount (merge_imbalance I x y) = amount x + amount y"
    and "imbalance_is_zero I x \<longleftrightarrow> amount x = 0"
    and "issuance (drop_imbalance I x w) = issuance w - amount x"
    and "balance (drop_imbalance I x w) = balance w"
  using assms by (simp_all add: imbalances_ok_def)

lemma pot_burns:
  assumes "imbalances_ok I amount issuance balance"
  shows "issuance (staking_pot_on_unbalanced I x w) = issuance w - amount x"
    and "balance (staking_pot_on_unbalanced I x w) = balance w"
  by (simp_all add: staking_pot_on_unbalanced_def staking_pot_on_nonzero_def imbalances_okD [OF assms])

lemma drops_burn:
  assumes "imbalances_ok I amount issuance balance"
  shows "issuance (fold (drop_imbalance I) xs w) = issuance w - sum_list (map amount xs) \<and>
    balance (fold (drop_imbalance I) xs w) = balance w"
  by (induction xs arbitrary: w) (simp_all add: imbalances_okD [OF assms])

text \<open>
  Fees are burned, not paid out: \<open>DealWithFees\<close> takes fees and tips off the total
  issuance and changes no balance, neither that of the staking pot its comment promises
  them to nor any other, because the body of \<open>ToStakingPot\<close> is commented out.
\<close>

theorem fees_burned:
  assumes "imbalances_ok I amount issuance balance"
  shows "issuance (deal_with_fees I fees_then_tips w) =
      issuance w - sum_list (map amount fees_then_tips) \<and>
    balance (deal_with_fees I fees_then_tips w) = balance w"
proof -
  note laws = imbalances_okD [OF assms] pot_burns [OF assms] drops_burn [OF assms]
  show ?thesis
  proof (cases fees_then_tips)
    case Nil
    then show ?thesis by (simp add: deal_with_fees_def)
  next
    case (Cons fees more)
    then show ?thesis by (cases more) (simp_all add: deal_with_fees_def laws)
  qed
qed

theorem fees_burned_witness:
  "fst (deal_with_fees \<lparr>merge_imbalance = (+), imbalance_is_zero = (\<lambda>x. x = 0),
        drop_imbalance = (\<lambda>x (n, b). (n - x, b))\<rparr> [10, 20] (100 :: nat, \<lambda>_ :: nat. 5 :: nat)) = 70"
proof -
  let ?I = "\<lparr>merge_imbalance = (+), imbalance_is_zero = (\<lambda>x. x = 0),
        drop_imbalance = (\<lambda>x (n, b). (n - x, b))\<rparr> :: (nat, nat \<times> (nat \<Rightarrow> nat)) imbalance_config"
  have "imbalances_ok ?I (\<lambda>x. x) fst snd"
    by (auto simp: imbalances_ok_def)
  from fees_burned [OF this, of "[10, 20]" "(100, \<lambda>_. 5)"] show ?thesis by simp
qed

end
