(* ===== verification/Support_Tests.thy ===== *)
theory Support_Tests
  imports Fee_Trader_Properties Collator Test_Harness
begin

text \<open>
  The tests of the supporting crates, with their mocks: the fees and the asset filter
  (\<open>src/common/src/impls.rs\<close>) and the router to the relay chain
  (\<open>src/primitives/utility/src/lib.rs\<close>).

  The balances of the mock runtime are a parameter with the laws of an imbalance
  (\<open>imbalances_ok\<close>) and of issuing one; \<open>match_and_split\<close> and the pair of routers behind
  \<open>send_xcm\<close> are the \<open>xcm\<close> crate's, with what it documents of them: the split of a
  location that is the prefix and one junction more is that junction, and of two routers
  the second is asked, with what the first has left, exactly if the first does not apply.
\<close>

section \<open>Fees and the asset filter\<close>

definition test_account :: bytes where
  "test_account = replicate 32 1"

definition find_one_author :: "bytes option" where
  "find_one_author = Some test_account"

definition impls_is_registered :: "bytes \<Rightarrow> bool" where
  "impls_is_registered who = True"

definition impls_collators ::
    "(bytes \<Rightarrow> bytes) \<Rightarrow> (bytes \<Rightarrow> u128 \<Rightarrow> (dispatch_error, 'w, unit) call) \<Rightarrow> (bytes \<Rightarrow> u128 \<Rightarrow> 'w \<Rightarrow> u128 \<times> 'w) \<Rightarrow>
     (bytes \<Rightarrow> bytes \<Rightarrow> u128 \<Rightarrow> (dispatch_error, 'w, unit) call) \<Rightarrow> (bytes \<Rightarrow> 'w \<Rightarrow> u128) \<Rightarrow> db_weight \<Rightarrow>
     (bytes collator_event, bytes, bytes, 'w) collator_config" where
  "impls_collators into_account reserve_op unreserve_op transfer_op free_op rocks =
     \<lparr>collator_event = (\<lambda>e. e), update_origin = (\<lambda>o'. o' = Root),
      pot_account = into_account [80, 111, 116, 83, 116, 97, 107, 101],
      max_candidates = 20, min_candidates = 1, max_invulnerables = 20,
      kick_threshold = 0, validator_id_of = identity_collator,
      is_registered = (\<lambda>who _. impls_is_registered who),
      reserve = reserve_op, unreserve = unreserve_op, transfer_keep_alive = transfer_op,
      free_balance = free_op, minimum_balance = 0,
      weight_info = unit_collator_weight rocks\<rparr>"

definition test_fees_and_tip_split ::
    "('imb, 'w, 'x) imbalance_config_scheme \<Rightarrow> (nat \<Rightarrow> 'w \<Rightarrow> 'imb \<times> 'w) \<Rightarrow> (bytes \<Rightarrow> 'w \<Rightarrow> nat) \<Rightarrow> bytes \<Rightarrow>
     ('e, 'w, unit) call" where
  "test_fees_and_tip_split I issue free pot =
     seq (\<lambda>w. case issue 10 w of (fee, w') \<Rightarrow> (Inr fee, w')) (\<lambda>fee.
     seq (\<lambda>w. case issue 20 w of (tip, w') \<Rightarrow> (Inr tip, w')) (\<lambda>tip.
     seq (assert_that (\<lambda>w. free test_account w = 0)) (\<lambda>_.
     seq (modify (deal_with_fees I [fee, tip])) (\<lambda>_.
     assert_that (\<lambda>w. free pot w = 30)))))"

datatype test_junction = Parachain u32 | GeneralIndex u128 | OtherJunction nat

text \<open>\<open>pushed_with_interior\<close> fails on a location of eight junctions.\<close>

definition pushed_with_interior :: "'j multi_location \<Rightarrow> 'j \<Rightarrow> 'j multi_location option" where
  "pushed_with_interior l j =
     (if length (interior l) < 8 then Some \<lparr>parents = parents l, interior = interior l @ [j]\<rparr> else None)"

definition some_sibling_parachain :: "test_junction multi_location" where
  "some_sibling_parachain = \<lparr>parents = 1, interior = [Parachain 1234]\<rparr>"

definition assets_from_filters_correctly ::
    "(test_junction multi_location \<Rightarrow> test_junction multi_location \<Rightarrow> test_junction option) \<Rightarrow>
     ('e, 's, unit) call" where
  "assets_from_filters_correctly match_and_split =
     seq (expect (pushed_with_interior some_sibling_parachain (GeneralIndex 42))) (\<lambda>asset_location.
     let asset = \<lparr>asset_id = Concrete asset_location, asset_fun = Fungible 1000000\<rparr>
       :: (test_junction, unit, unit) multi_asset in
     assert_that (\<lambda>_. assets_from match_and_split some_sibling_parachain asset some_sibling_parachain))"

section \<open>The router\<close>

definition fixed_xcm_hash :: bytes where
  "fixed_xcm_hash = replicate 32 9"

text \<open>The sender that asserts it still gets both; \<open>fixed_delivery_asset\<close> is the empty list.\<close>

definition asserting_validate :: "('e, 'd option \<times> 'm option, unit \<times> 'a list) call" where
  "asserting_validate =
     seq (assert_that (\<lambda>s. fst s \<noteq> None)) (\<lambda>_.
     seq (assert_that (\<lambda>s. snd s \<noteq> None)) (\<lambda>_.
     ret ((), [])))"

definition asserting_deliver :: "unit \<Rightarrow> ('e, 'w, bytes) call" where
  "asserting_deliver ticket = ret fixed_xcm_hash"

definition expected_delivery_result :: "'e + bytes \<times> 'a list" where
  "expected_delivery_result = Inr (fixed_xcm_hash, [])"

definition other_error_sender :: "'w upward_sender" where
  "other_error_sender msg = throw OtherSendError"

text \<open>\<open>ParentAsUmp\<close> with the version wrapper and the price of \<open>()\<close>.\<close>

definition unit_ump ::
    "('j multi_location \<Rightarrow> 'm \<Rightarrow> 'v option) \<Rightarrow> ('v \<Rightarrow> bytes) \<Rightarrow> ('j, 'm, 'v, 'a list) ump_config" where
  "unit_ump wrap encode = \<lparr>wrap_version = wrap, encode_versioned = encode, price_for_parent = price_nothing []\<rparr>"

text \<open>
  \<open>send_xcm\<close> over a pair of routers: \<open>send2 v1 d1 v2 d2 dest msg\<close>, each router its validation
  and its delivery. The first law is for a message the second router accepts, the second
  for one the first accepts.
\<close>

type_synonym ('j, 'm, 't, 'a) router_validate = "(send_error, 'j multi_location option \<times> 'm option, 't \<times> 'a list) call"

type_synonym ('j, 'm, 't, 'u, 'a) send_pair =
  "('j, 'm, 't, 'a) router_validate \<Rightarrow> ('t \<Rightarrow> (send_error, unit, bytes) call) \<Rightarrow>
   ('j, 'm, 'u, 'a) router_validate \<Rightarrow> ('u \<Rightarrow> (send_error, unit, bytes) call) \<Rightarrow>
   'j multi_location \<Rightarrow> 'm \<Rightarrow> (send_error, unit, bytes \<times> 'a list) call"

definition send_pair_ok :: "('j, 'm, 't, 'u, 'a) send_pair \<Rightarrow> bool" where
  "send_pair_ok send2 \<longleftrightarrow>
     (\<forall>v1 d1 v2 d2 dest msg left ticket price left' w.
        v1 (Some dest, Some msg) = (Inl (Err NotApplicable), left) \<and> v2 left = (Inr (ticket, price), left') \<longrightarrow>
        send2 v1 d1 v2 d2 dest msg w = seq (d2 ticket) (\<lambda>hash. ret (hash, price)) w) \<and>
     (\<forall>v1 d1 v2 d2 dest msg left ticket price w.
        v1 (Some dest, Some msg) = (Inr (ticket, price), left) \<longrightarrow>
        send2 v1 d1 v2 d2 dest msg w = seq (d1 ticket) (\<lambda>hash. ret (hash, price)) w)"

definition great_grandparent :: "'j multi_location" where
  "great_grandparent = \<lparr>parents = 3, interior = []\<rparr>"

definition parent_as_ump_does_not_consume ::
    "('j, 'm, bytes, unit, 'a) send_pair \<Rightarrow> ('j, 'm, 'v, 'a list) ump_config \<Rightarrow> 'm \<Rightarrow>
     ('e, 'j multi_location option \<times> 'm option, unit) call" where
  "parent_as_ump_does_not_consume send2 T message =
     seq (modify (\<lambda>_. (Some great_grandparent, Some message))) (\<lambda>_.
     seq (assert_error (ump_validate T) NotApplicable) (\<lambda>_.
     seq take_dest (\<lambda>dest.
     seq (assert_that (\<lambda>_. dest = Some great_grandparent)) (\<lambda>_.
     seq take_msg (\<lambda>msg.
     seq (assert_that (\<lambda>_. msg = Some message)) (\<lambda>_.
     assert_that (\<lambda>_. fst (send2 (ump_validate T) (ump_deliver unit_send_upward_message)
         asserting_validate asserting_deliver great_grandparent message ()) = expected_delivery_result)))))))"

definition parent_as_ump_consumes ::
    "('j, 'm, bytes, unit, 'a) send_pair \<Rightarrow> ('j, 'm, 'v, 'a list) ump_config \<Rightarrow> 'm \<Rightarrow>
     ('e, 'j multi_location option \<times> 'm option, unit) call" where
  "parent_as_ump_consumes send2 T message =
     seq (modify (\<lambda>_. (Some relay_location, Some message))) (\<lambda>_.
     seq (assert_ok (ump_validate T)) (\<lambda>_.
     seq take_dest (\<lambda>dest.
     seq (assert_that (\<lambda>_. dest = None)) (\<lambda>_.
     seq take_msg (\<lambda>msg.
     seq (assert_that (\<lambda>_. msg = None)) (\<lambda>_.
     assert_that (\<lambda>_. fst (send2 (ump_validate T) (ump_deliver other_error_sender)
         asserting_validate asserting_deliver relay_location message ()) = Inl (Err (TransportError ''Other'')))))))))"

lemma assert_that_last: "P s \<Longrightarrow> assert_that P s = (Inr (), s)"
  by (simp add: assert_that_def)

lemma send_pair_second:
  assumes "send_pair_ok send2" and "v1 (Some dest, Some msg) = (Inl (Err NotApplicable), left)"
    and "v2 left = (Inr (ticket, price), left')"
  shows "send2 v1 d1 v2 d2 dest msg w = seq (d2 ticket) (\<lambda>hash. ret (hash, price)) w"
  by (rule assms(1) [unfolded send_pair_ok_def, THEN conjunct1, rule_format],
      rule conjI, rule assms(2), rule assms(3))

lemma send_pair_first:
  assumes "send_pair_ok send2" and "v1 (Some dest, Some msg) = (Inr (ticket, price), left)"
  shows "send2 v1 d1 v2 d2 dest msg w = seq (d1 ticket) (\<lambda>hash. ret (hash, price)) w"
  by (rule assms(1) [unfolded send_pair_ok_def, THEN conjunct2, rule_format], rule assms(2))

section \<open>Which tests pass\<close>

text \<open>
  The fee test does not pass: issuing and the handler of the fees leave every balance as
  it was, so the pot has what it had, nothing at genesis, and not the 30 the test expects.
\<close>

theorem fee_test_fails:
  assumes "imbalances_ok I amount issuance balance" and "\<And>n w. balance (snd (issue n w)) = balance w"
    and "balance w = (\<lambda>_. 0)"
  shows "\<not> passes (test_fees_and_tip_split I issue (\<lambda>who w. balance w who) pot) w"
proof -
  obtain fee w1 where fee: "issue 10 w = (fee, w1)" by fastforce
  obtain tip w2 where tip: "issue 20 w1 = (tip, w2)" by fastforce
  have none: "balance w2 = (\<lambda>_. 0)"
    using assms(2) [of 10 w] assms(2) [of 20 w1] assms(3) by (simp add: fee tip)
  have "balance (deal_with_fees I [fee, tip] w2) = balance w2"
    by (simp add: deal_with_fees_def pot_burns [OF assms(1)])
  then show ?thesis
    by (simp add: passes_def test_fees_and_tip_split_def seq_def fee tip assert_that_def modify_def none)
qed

definition demo_balances :: "(nat, nat \<times> (bytes \<Rightarrow> nat)) imbalance_config" where
  "demo_balances = \<lparr>merge_imbalance = (+), imbalance_is_zero = (\<lambda>x. x = 0),
     drop_imbalance = (\<lambda>x (n, b). (n - x, b))\<rparr>"

theorem fee_test_fails_witness:
  "\<not> passes (test_fees_and_tip_split demo_balances (\<lambda>n (total, b). (n, (total + n, b)))
      (\<lambda>who w. snd w who) [1]) (0, \<lambda>_. 0)"
proof -
  have "imbalances_ok demo_balances (\<lambda>x. x) fst snd"
    by (auto simp: imbalances_ok_def demo_balances_def)
  from fee_test_fails [OF this, of "\<lambda>n (total, b). (n, (total + n, b))" "(0, \<lambda>_. 0)" "[1]"] show ?thesis
    by (simp add: split_beta)
qed

text \<open>The filter's test passes.\<close>

theorem filter_test_passes:
  assumes "\<And>l j. match_and_split \<lparr>parents = parents l, interior = interior l @ [j]\<rparr> l = Some j"
  shows "passes (assets_from_filters_correctly match_and_split) s"
  using assms [of some_sibling_parachain "GeneralIndex 42"]
  by (simp add: assets_from_filters_correctly_def pushed_with_interior_def some_sibling_parachain_def
      passes_def call_simps assets_from_def assert_that_def Let_def)

text \<open>\<open>match_and_split\<close> for the witness: the last junction, if the rest is the prefix.\<close>

definition demo_match :: "test_junction multi_location \<Rightarrow> test_junction multi_location \<Rightarrow> test_junction option" where
  "demo_match l p =
     (if parents l = parents p \<and> interior l \<noteq> [] \<and> butlast (interior l) = interior p
      then Some (last (interior l)) else None)"

theorem filter_test_passes_witness: "passes (assets_from_filters_correctly demo_match) ()"
  by (rule filter_test_passes) (simp add: demo_match_def)

text \<open>
  The router's tests pass: for a destination that is not the parent the router leaves
  both arguments to the next one, which delivers; for the parent it takes both, and the
  error of its sender is the answer, without the next router.
\<close>

theorem router_tests_pass:
  assumes "send_pair_ok send2" and "\<And>dest m. wrap dest m \<noteq> None"
  shows "passes (parent_as_ump_does_not_consume send2 (unit_ump wrap encode) message) s"
    and "passes (parent_as_ump_consumes send2 (unit_ump wrap encode) message) s"
proof -
  let ?T = "unit_ump wrap encode"
  have far: "ump_validate ?T (Some great_grandparent, m) = (Inl (Err NotApplicable), (Some great_grandparent, m))" for m
    by (simp add: ump_validate_def great_grandparent_def contains_parents_only_def call_simps)
  obtain v where v: "wrap relay_location message = Some v" using assms(2) by blast
  have near: "ump_validate ?T (Some relay_location, Some message) = (Inr (encode v, []), (None, None))"
    by (simp add: ump_validate_def relay_location_def contains_parents_only_def call_simps
        unit_ump_def v [unfolded relay_location_def] price_nothing_def)
  have asked: "asserting_validate (Some great_grandparent, Some message) = (Inr ((), []), (Some great_grandparent, Some message))"
    by (simp add: asserting_validate_def call_simps)
  have "send2 (ump_validate ?T) (ump_deliver unit_send_upward_message) asserting_validate asserting_deliver
      great_grandparent message () = seq (asserting_deliver ()) (\<lambda>hash. ret (hash, [])) ()"
    by (rule send_pair_second, rule assms(1), rule far, rule asked)
  then have sent: "fst (send2 (ump_validate ?T) (ump_deliver unit_send_upward_message) asserting_validate
      asserting_deliver great_grandparent message ()) = expected_delivery_result"
    by (simp add: asserting_deliver_def call_simps expected_delivery_result_def)
  have "send2 (ump_validate ?T) (ump_deliver other_error_sender) asserting_validate asserting_deliver
      relay_location message () = seq (ump_deliver other_error_sender (encode v)) (\<lambda>hash. ret (hash, [])) ()"
    by (rule send_pair_first, rule assms(1), rule near)
  then have failed: "fst (send2 (ump_validate ?T) (ump_deliver other_error_sender) asserting_validate
      asserting_deliver relay_location message ()) = Inl (Err (TransportError ''Other''))"
    by (simp add: ump_deliver_def other_error_sender_def map_err_def throw_def send_error_of_def seq_def)
  have steps: "seq (assert_error (ump_validate ?T) NotApplicable) f (Some great_grandparent, Some message) =
      f () (Some great_grandparent, Some message)"
    "seq (assert_ok (ump_validate ?T)) f (Some relay_location, Some message) = f () (None, None)" for f
    by (rule assert_error_step, rule far) (rule assert_ok_step, rule near)
  show "passes (parent_as_ump_does_not_consume send2 ?T message) s"
    by (simp add: parent_as_ump_does_not_consume_def passes_def call_simps steps assert_that_last sent)
  show "passes (parent_as_ump_consumes send2 ?T message) s"
    by (simp add: parent_as_ump_consumes_def passes_def call_simps steps assert_that_last failed)
qed

definition demo_send_pair :: "('j, 'm, 't, 'u, 'a) send_pair" where
  "demo_send_pair v1 d1 v2 d2 dest msg =
     (\<lambda>w. case v1 (Some dest, Some msg) of
        (Inr (ticket, price), _) \<Rightarrow> seq (d1 ticket) (\<lambda>hash. ret (hash, price)) w
      | (Inl (Err NotApplicable), left) \<Rightarrow>
          (case v2 left of
             (Inr (ticket, price), _) \<Rightarrow> seq (d2 ticket) (\<lambda>hash. ret (hash, price)) w
           | (Inl e, _) \<Rightarrow> (Inl e, w))
      | (Inl e, _) \<Rightarrow> (Inl e, w))"

theorem router_tests_pass_witness:
  "passes (parent_as_ump_does_not_consume demo_send_pair (unit_ump (\<lambda>(_ :: nat multi_location) m. Some m) (\<lambda>m. m)) [5]) (None, None)"
proof -
  have "send_pair_ok demo_send_pair" by (auto simp: send_pair_ok_def demo_send_pair_def)
  then show ?thesis by (rule router_tests_pass(1)) simp
qed

end
