(* ===== verification/Inherents.thy ===== *)
theory Inherents
  imports Scale
begin

text \<open>
  The data a collator puts into a block from outside: the timestamp provider
  (\<open>src/primitives/timestamp/src/lib.rs\<close>), the message queue chain
  (\<open>src/primitives/parachain-inherent/src/lib.rs\<close>), the collection of the relay chain's
  state (\<open>client_side.rs\<close>) and the mocked relay chain of a local node (\<open>mock.rs\<close>).

  The inherent data, the relay chain interface, its well-known storage keys, the proof
  builder and the hash function belong to other crates and are parameters. A message
  queue chain is its head. A \<open>BTreeMap\<close> is the list of its entries in the order of the
  keys.
\<close>

section \<open>The timestamp\<close>

record duration =
  secs :: u64
  nanos :: u32

text \<open>\<open>Duration::as_millis\<close> as \<open>u64\<close>: the conversion cuts the 128-bit number off.\<close>

definition millis_u64 :: "duration \<Rightarrow> u64" where
  "millis_u64 d = of_nat (unat (secs d) * 1000 + unat (nanos d) div 1000000)"

definition duration_from_secs :: "u64 \<Rightarrow> duration" where
  "duration_from_secs s = \<lparr>secs = s, nanos = 0\<rparr>"

record timestamp_provider =
  relay_chain_slot :: u64
  relay_chain_slot_duration :: duration

definition from_relay_chain_slot_and_duration :: "u64 \<Rightarrow> duration \<Rightarrow> timestamp_provider" where
  "from_relay_chain_slot_and_duration slot d =
     \<lparr>relay_chain_slot = slot, relay_chain_slot_duration = d\<rparr>"

definition provided_timestamp :: "timestamp_provider \<Rightarrow> u64" where
  "provided_timestamp p = (relay_chain_slot p + 1) * millis_u64 (relay_chain_slot_duration p)"

text \<open>\<open>put_data\<close> is \<open>InherentData::put_data\<close> of an encoded value under an identifier.\<close>

definition provide_timestamp ::
    "(bytes \<Rightarrow> bytes \<Rightarrow> 'd \<Rightarrow> ('e + unit) \<times> 'd) \<Rightarrow> bytes \<Rightarrow> timestamp_provider \<Rightarrow> 'd \<Rightarrow> ('e + unit) \<times> 'd" where
  "provide_timestamp put_data identifier p inherent_data =
     put_data identifier (enc u64_scale (provided_timestamp p)) inherent_data"

definition create_timestamp_data ::
    "(bytes \<Rightarrow> bytes \<Rightarrow> 'd \<Rightarrow> ('e + unit) \<times> 'd) \<Rightarrow> bytes \<Rightarrow> 'd \<Rightarrow> timestamp_provider \<Rightarrow> 'e + 'd" where
  "create_timestamp_data put_data identifier empty_data p =
     (case provide_timestamp put_data identifier p empty_data of
        (Inl e, _) \<Rightarrow> Inl e
      | (Inr (), d) \<Rightarrow> Inr d)"

text \<open>
  The runtime's \<open>CheckInherents\<close>; \<open>None\<close> is a panic of one of the two \<open>expect\<close>s.
\<close>

definition check_inherents ::
    "(bytes \<Rightarrow> bytes \<Rightarrow> 'd \<Rightarrow> ('e + unit) \<times> 'd) \<Rightarrow> bytes \<Rightarrow> 'd \<Rightarrow> ('proof \<Rightarrow> u64 option) \<Rightarrow>
     ('d \<Rightarrow> 'block \<Rightarrow> 'r) \<Rightarrow> 'block \<Rightarrow> 'proof \<Rightarrow> 'r option" where
  "check_inherents put_data identifier empty_data read_slot check_extrinsics block proof =
     (case read_slot proof of
        None \<Rightarrow> None
      | Some slot \<Rightarrow>
          (case create_timestamp_data put_data identifier empty_data
                  (from_relay_chain_slot_and_duration slot (duration_from_secs 6)) of
             Inl _ \<Rightarrow> None
           | Inr inherent_data \<Rightarrow> Some (check_extrinsics inherent_data block)))"

section \<open>The message queue chain\<close>

record inbound_message =
  sent_at :: u32
  msg_data :: bytes

text \<open>
  A downward and an HRMP message have the same two fields under other names; both are
  chained by their position and the hash of their bytes.
\<close>

definition chain_link :: "(bytes \<Rightarrow> H256) \<Rightarrow> H256 \<Rightarrow> inbound_message \<Rightarrow> bytes" where
  "chain_link blake prev_head m =
     enc h256_scale prev_head @ enc u32_scale (sent_at m)
       @ enc h256_scale (blake (enc_vec (msg_data m)))"

definition extend_hrmp :: "(bytes \<Rightarrow> H256) \<Rightarrow> inbound_message \<Rightarrow> H256 \<Rightarrow> H256" where
  "extend_hrmp blake horizontal_message prev_head = blake (chain_link blake prev_head horizontal_message)"

definition extend_downward :: "(bytes \<Rightarrow> H256) \<Rightarrow> inbound_message \<Rightarrow> H256 \<Rightarrow> H256" where
  "extend_downward blake downward_message prev_head = blake (chain_link blake prev_head downward_message)"

definition empty_chain :: H256 where
  "empty_chain = 0"

section \<open>Collecting the relay chain's state\<close>

record ('hash, 'proof, 'err) relay_interface =
  get_storage_by_key :: "'hash \<Rightarrow> bytes \<Rightarrow> 'err + bytes option"
  prove_read :: "'hash \<Rightarrow> bytes list \<Rightarrow> 'err + 'proof"
  retrieve_dmq_contents :: "u32 \<Rightarrow> 'hash \<Rightarrow> 'err + inbound_message list"
  retrieve_hrmp_contents :: "u32 \<Rightarrow> 'hash \<Rightarrow> 'err + (u32 \<times> inbound_message list) list"
  decode_para_ids :: "bytes \<Rightarrow> u32 list option"
  current_block_randomness :: bytes
  one_epoch_ago_randomness :: bytes
  two_epochs_ago_randomness :: bytes
  current_slot :: bytes
  active_config :: bytes
  dmq_mqc_head :: "u32 \<Rightarrow> bytes"
  relay_dispatch_queue_size :: "u32 \<Rightarrow> bytes"
  hrmp_ingress_channel_index :: "u32 \<Rightarrow> bytes"
  hrmp_egress_channel_index :: "u32 \<Rightarrow> bytes"
  upgrade_go_ahead_signal :: "u32 \<Rightarrow> bytes"
  upgrade_restriction_signal :: "u32 \<Rightarrow> bytes"
  hrmp_channels :: "u32 \<Rightarrow> u32 \<Rightarrow> bytes"

record ('hash, 'proof, 'vdata) inherent_record =
  validation_data :: 'vdata
  relay_chain_state :: 'proof
  downward_messages :: "inbound_message list"
  horizontal_messages :: "(u32 \<times> inbound_message list) list"

definition read_channel_index ::
    "('hash, 'proof, 'err, 'x) relay_interface_scheme \<Rightarrow> 'hash \<Rightarrow> bytes \<Rightarrow> u32 list option" where
  "read_channel_index R relay_parent key = (case get_storage_by_key R relay_parent key of
     Inl _ \<Rightarrow> None
   | Inr None \<Rightarrow> Some []
   | Inr (Some raw) \<Rightarrow> decode_para_ids R raw)"

definition relevant_keys ::
    "('hash, 'proof, 'err, 'x) relay_interface_scheme \<Rightarrow> u32 \<Rightarrow> u32 list \<Rightarrow> u32 list \<Rightarrow> bytes list" where
  "relevant_keys R para_id ingress_channels egress_channels =
     [current_block_randomness R, one_epoch_ago_randomness R, two_epochs_ago_randomness R,
      current_slot R, active_config R, dmq_mqc_head R para_id,
      relay_dispatch_queue_size R para_id, hrmp_ingress_channel_index R para_id,
      hrmp_egress_channel_index R para_id, upgrade_go_ahead_signal R para_id,
      upgrade_restriction_signal R para_id]
     @ map (\<lambda>sender. hrmp_channels R sender para_id) ingress_channels
     @ map (\<lambda>recipient. hrmp_channels R para_id recipient) egress_channels"

definition ok :: "'e + 'a \<Rightarrow> 'a option" where
  "ok r = (case r of Inl _ \<Rightarrow> None | Inr a \<Rightarrow> Some a)"

definition collect_relay_storage_proof ::
    "('hash, 'proof, 'err, 'x) relay_interface_scheme \<Rightarrow> u32 \<Rightarrow> 'hash \<Rightarrow> 'proof option" where
  "collect_relay_storage_proof R para_id relay_parent =
     Option.bind (read_channel_index R relay_parent (hrmp_ingress_channel_index R para_id)) (\<lambda>ingress.
     Option.bind (read_channel_index R relay_parent (hrmp_egress_channel_index R para_id)) (\<lambda>egress.
     ok (prove_read R relay_parent (relevant_keys R para_id ingress egress))))"

definition create_at ::
    "'hash \<Rightarrow> ('hash, 'proof, 'err, 'x) relay_interface_scheme \<Rightarrow> 'vdata \<Rightarrow> u32 \<Rightarrow>
     ('hash, 'proof, 'vdata) inherent_record option" where
  "create_at relay_parent R vdata para_id =
     Option.bind (collect_relay_storage_proof R para_id relay_parent) (\<lambda>relay_state.
     Option.bind (ok (retrieve_dmq_contents R para_id relay_parent)) (\<lambda>downward.
     Option.bind (ok (retrieve_hrmp_contents R para_id relay_parent)) (\<lambda>horizontal.
     Some \<lparr>validation_data = vdata, relay_chain_state = relay_state,
           downward_messages = downward, horizontal_messages = horizontal\<rparr>)))"

definition parachain_inherent_identifier :: bytes where
  "parachain_inherent_identifier = [115, 121, 115, 105, 49, 51, 51, 55]"

section \<open>The mocked relay chain\<close>

text \<open>\<open>entry(key).or_default().push(v)\<close> and \<open>get(key)\<close> of a \<open>BTreeMap\<close>.\<close>

fun btree_push :: "'k::linorder \<Rightarrow> 'v \<Rightarrow> ('k \<times> 'v list) list \<Rightarrow> ('k \<times> 'v list) list" where
  "btree_push k v [] = [(k, [v])]"
| "btree_push k v ((k', vs) # m) =
     (if k < k' then (k, [v]) # (k', vs) # m
      else if k = k' then (k', vs @ [v]) # m
      else (k', vs) # btree_push k v m)"

record mock_xcm_config =
  mock_para_id :: u32
  starting_dmq_mqc_head :: H256
  starting_hrmp_mqc_heads :: "(u32 \<times> H256) list"

record mock_provider =
  current_para_block :: u32
  relay_offset :: u32
  relay_blocks_per_para_block :: u32
  para_blocks_per_relay_epoch :: u32
  relay_randomness_config :: "u64 \<Rightarrow> H256"
  xcm_config :: mock_xcm_config
  raw_downward_messages :: "bytes list"
  raw_horizontal_messages :: "(u32 \<times> bytes) list"

text \<open>The default randomness: the big-endian bytes of the input, then 24 zero bytes.\<close>

definition default_randomness :: "u64 \<Rightarrow> H256" where
  "default_randomness input = of_nat (le_value (rev (le_bytes 8 (unat input)) @ replicate 24 0))"

text \<open>
  \<open>MockXcmConfig::new\<close>: the heads are read from the parachain system's storage; a read
  or a decoding that fails is a panic, a missing value the default.
\<close>

definition read_or_default ::
    "('hash \<Rightarrow> bytes \<Rightarrow> 'err + bytes option) \<Rightarrow> 'hash \<Rightarrow> bytes \<Rightarrow> (bytes \<Rightarrow> 'a option) \<Rightarrow> 'a \<Rightarrow> 'a option" where
  "read_or_default storage parent_block key decode fallback =
     (case storage parent_block key of
        Inl _ \<Rightarrow> None
      | Inr None \<Rightarrow> Some fallback
      | Inr (Some raw) \<Rightarrow> decode raw)"

definition last_dmq_mqc_head :: bytes where
  "last_dmq_mqc_head = [76, 97, 115, 116, 68, 109, 113, 77, 113, 99, 72, 101, 97, 100]"

definition last_hrmp_mqc_heads :: bytes where
  "last_hrmp_mqc_heads =
     [76, 97, 115, 116, 72, 114, 109, 112, 77, 113, 99, 72, 101, 97, 100, 115]"

definition default_parachain_system_name :: bytes where
  "default_parachain_system_name =
     [80, 97, 114, 97, 99, 104, 97, 105, 110, 83, 121, 115, 116, 101, 109]"

definition new_mock_xcm_config ::
    "(bytes \<Rightarrow> bytes) \<Rightarrow> (bytes \<Rightarrow> H256 option) \<Rightarrow> (bytes \<Rightarrow> (u32 \<times> H256) list option) \<Rightarrow>
     ('hash \<Rightarrow> bytes \<Rightarrow> 'err + bytes option) \<Rightarrow> 'hash \<Rightarrow> u32 \<Rightarrow> bytes \<Rightarrow> mock_xcm_config option" where
  "new_mock_xcm_config twox_128 decode_head decode_heads storage parent_block para_id system_name =
     Option.bind (read_or_default storage parent_block
         (twox_128 system_name @ twox_128 last_dmq_mqc_head) decode_head 0) (\<lambda>dmq.
     Option.bind (read_or_default storage parent_block
         (twox_128 system_name @ twox_128 last_hrmp_mqc_heads) decode_heads []) (\<lambda>hrmp.
     Some \<lparr>mock_para_id = para_id, starting_dmq_mqc_head = dmq, starting_hrmp_mqc_heads = hrmp\<rparr>))"

text \<open>What the provider sets in the proof builder of the relay chain's state.\<close>

record sproof =
  sproof_para_id :: u32
  sproof_dmq_mqc_head :: "H256 option"
  sproof_channel_heads :: "u32 \<rightharpoonup> H256"
  sproof_current_epoch :: u64
  sproof_randomness :: H256

record mock_validation_data =
  relay_parent_storage_root :: H256
  relay_parent_number :: u32

definition mock_relay_block :: "mock_provider \<Rightarrow> u32" where
  "mock_relay_block p = relay_offset p + relay_blocks_per_para_block p * current_para_block p"

definition mock_downward :: "mock_provider \<Rightarrow> inbound_message list" where
  "mock_downward p =
     map (\<lambda>m. \<lparr>sent_at = mock_relay_block p, msg_data = m\<rparr>) (raw_downward_messages p)"

definition mock_horizontal :: "mock_provider \<Rightarrow> (u32 \<times> inbound_message list) list" where
  "mock_horizontal p =
     fold (\<lambda>(para_id, m). btree_push para_id \<lparr>sent_at = mock_relay_block p, msg_data = m\<rparr>)
       (raw_horizontal_messages p) []"

definition starting_head :: "mock_provider \<Rightarrow> u32 \<Rightarrow> H256" where
  "starting_head p para_id =
     (case map_of (starting_hrmp_mqc_heads (xcm_config p)) para_id of None \<Rightarrow> 0 | Some h \<Rightarrow> h)"

definition mock_epoch :: "mock_provider \<Rightarrow> u64" where
  "mock_epoch p =
     (if para_blocks_per_relay_epoch p = 0 then ucast (current_para_block p)
      else ucast (current_para_block p div para_blocks_per_relay_epoch p))"

definition mock_sproof :: "(bytes \<Rightarrow> H256) \<Rightarrow> mock_provider \<Rightarrow> sproof" where
  "mock_sproof blake p =
     \<lparr>sproof_para_id = mock_para_id (xcm_config p),
      sproof_dmq_mqc_head =
        Some (fold (extend_downward blake) (mock_downward p) (starting_dmq_mqc_head (xcm_config p))),
      sproof_channel_heads =
        fold (\<lambda>(para_id, messages) heads.
                heads(para_id \<mapsto> fold (extend_hrmp blake) messages (starting_head p para_id)))
          (mock_horizontal p) (\<lambda>_. None),
      sproof_current_epoch = mock_epoch p,
      sproof_randomness = relay_randomness_config p (ucast (current_para_block p))\<rparr>"

text \<open>\<open>into_state_root_and_proof\<close> is the proof builder's.\<close>

definition mock_inherent ::
    "(bytes \<Rightarrow> H256) \<Rightarrow> (sproof \<Rightarrow> H256 \<times> 'proof) \<Rightarrow> mock_provider \<Rightarrow>
     (H256, 'proof, mock_validation_data) inherent_record" where
  "mock_inherent blake into_state_root_and_proof p =
     (let (root, proof) = into_state_root_and_proof (mock_sproof blake p) in
      \<lparr>validation_data = \<lparr>relay_parent_storage_root = root, relay_parent_number = mock_relay_block p\<rparr>,
       relay_chain_state = proof,
       downward_messages = mock_downward p,
       horizontal_messages = mock_horizontal p\<rparr>)"

end
