(* ===== verification/Inherents_Properties.thy ===== *)
theory Inherents_Properties
  imports Inherents
begin

text \<open>
  What the inherent data promises: a timestamp next to the relay chain's slot, a message
  queue that its head determines, a proof that covers every channel, and a mocked relay
  chain whose heads belong to the messages it delivers.
\<close>

section \<open>The timestamp\<close>

lemma within_slot:
  "a = 6000 * s + r \<Longrightarrow> r < 6000 \<Longrightarrow> a < 6000 * (s + 1) \<and> 6000 * (s + 1) - a \<le> 6000"
  for a s r :: nat
  by simp

text \<open>
  The timestamp a block is checked against is the end of the relay chain's slot: for a
  slot of six seconds, as the runtime checks it, every moment of the slot lies before it
  and by no more than the slot's length, until the milliseconds leave 64 bits. The data
  decodes to it.
\<close>

theorem timestamp_ends_slot:
  assumes "6000 * (unat slot + 1) < 2 ^ 64" and "unat now div 6000 = unat slot"
    and "p = from_relay_chain_slot_and_duration slot (duration_from_secs 6)"
  shows "unat (provided_timestamp p) = 6000 * (unat slot + 1) \<and>
    now < provided_timestamp p \<and> unat (provided_timestamp p) - unat now \<le> 6000 \<and>
    provide_timestamp (\<lambda>k v d. (Inr (), d(k \<mapsto> v))) key p d =
      (Inr () :: unit + unit, d(key \<mapsto> enc u64_scale (provided_timestamp p))) \<and>
    dec u64_scale (enc u64_scale (provided_timestamp p)) = Some (provided_timestamp p, [])"
proof -
  have millis: "millis_u64 (duration_from_secs 6) = 6000"
    by (simp add: millis_u64_def duration_from_secs_def)
  have "provided_timestamp p = of_nat (6000 * (unat slot + 1))"
    by (simp add: assms(3) provided_timestamp_def from_relay_chain_slot_and_duration_def millis)
  with assms(1) have exact: "unat (provided_timestamp p) = 6000 * (unat slot + 1)"
    by (simp only: unsigned_of_nat of_nat_id) (simp add: take_bit_nat_eq_self)
  have "unat now = 6000 * unat slot + unat now mod 6000"
    using assms(2) mult_div_mod_eq [of 6000 "unat now"] by simp
  moreover have "unat now mod 6000 < 6000" by simp
  ultimately have "unat now < 6000 * (unat slot + 1) \<and> 6000 * (unat slot + 1) - unat now \<le> 6000"
    by (rule within_slot)
  with exact show ?thesis
    by (simp add: word_less_nat_alt provide_timestamp_def u64_codec.dec_enc_Nil)
qed

theorem timestamp_ends_slot_witness:
  "provided_timestamp (from_relay_chain_slot_and_duration 7 (duration_from_secs 6)) = (48000 :: u64)"
proof -
  have "unat (provided_timestamp (from_relay_chain_slot_and_duration 7 (duration_from_secs 6))) = 48000"
    using timestamp_ends_slot [of 7 45000 "from_relay_chain_slot_and_duration 7 (duration_from_secs 6)"
        "[]" "\<lambda>_. None"] by simp
  then have "unat (provided_timestamp (from_relay_chain_slot_and_duration 7 (duration_from_secs 6))) =
      unat (48000 :: u64)" by simp
  then show ?thesis by (simp only: word_unat_eq_iff)
qed

section \<open>The message queue chain\<close>

text \<open>The strings that are hashed while a chain is extended.\<close>

fun chain_inputs :: "(bytes \<Rightarrow> H256) \<Rightarrow> H256 \<Rightarrow> inbound_message list \<Rightarrow> bytes list" where
  "chain_inputs blake h [] = []"
| "chain_inputs blake h (m # ms) =
     enc_vec (msg_data m) # chain_link blake h m # chain_inputs blake (extend_hrmp blake m h) ms"

lemma chain_inputs_append:
  "chain_inputs blake h (ms @ ms') =
     chain_inputs blake h ms @ chain_inputs blake (fold (extend_hrmp blake) ms h) ms'"
  by (induction ms arbitrary: h) simp_all

lemma extend_step:
  "fold (extend_hrmp blake) (ms @ [m]) h = blake (chain_link blake (fold (extend_hrmp blake) ms h) m)"
  by (simp add: extend_hrmp_def [of blake m])

lemma chain_link_eqD:
  assumes "chain_link blake h m = chain_link blake h' m'"
  shows "h = h' \<and> sent_at m = sent_at m' \<and>
    blake (enc_vec (msg_data m)) = blake (enc_vec (msg_data m'))"
proof -
  from assms have one: "h = h' \<and>
      enc u32_scale (sent_at m) @ enc h256_scale (blake (enc_vec (msg_data m))) =
      enc u32_scale (sent_at m') @ enc h256_scale (blake (enc_vec (msg_data m')))"
    unfolding chain_link_def by (intro h256_codec.enc_prefix_free) simp_all
  then have "sent_at m = sent_at m' \<and> enc h256_scale (blake (enc_vec (msg_data m))) =
      enc h256_scale (blake (enc_vec (msg_data m')))"
    by (intro u32_codec.enc_prefix_free) simp_all
  with one show ?thesis
    using h256_codec.enc_inj by blast
qed

lemma enc_vec_inj:
  assumes "length xs < 4294967296" and "length ys < 4294967296" and "enc_vec xs = enc_vec ys"
  shows "xs = ys"
  using vec_codec.enc_inj [of xs 4294967295 ys] assms by (simp add: vec_scale_def)

text \<open>Two chains that end in the same head end in the same message, and had the same head before.\<close>

lemma last_link_eq:
  fixes blake :: "bytes \<Rightarrow> H256" and h :: H256
  defines "hashed xs ys \<equiv> set (chain_inputs blake h xs) \<union> set (chain_inputs blake h ys)"
  assumes "fold (extend_hrmp blake) (xs @ [x]) h = fold (extend_hrmp blake) (ys @ [y]) h"
    and inj: "inj_on blake (hashed (xs @ [x]) (ys @ [y]))"
    and "length (msg_data x) < 4294967296" and "length (msg_data y) < 4294967296"
  shows "x = y \<and> fold (extend_hrmp blake) xs h = fold (extend_hrmp blake) ys h"
proof -
  let ?h = "fold (extend_hrmp blake) xs h" and ?h' = "fold (extend_hrmp blake) ys h"
  let ?hashed = "hashed (xs @ [x]) (ys @ [y])"
  have strings: "chain_link blake ?h x \<in> ?hashed" "chain_link blake ?h' y \<in> ?hashed"
    "enc_vec (msg_data x) \<in> ?hashed" "enc_vec (msg_data y) \<in> ?hashed"
    by (simp_all add: hashed_def chain_inputs_append)
  have "blake (chain_link blake ?h x) = blake (chain_link blake ?h' y)"
    using assms(2) by (simp only: extend_step)
  then have "chain_link blake ?h x = chain_link blake ?h' y"
    using inj strings(1,2) by (simp add: inj_on_eq_iff)
  from chain_link_eqD [OF this] have heads: "?h = ?h'" and at: "sent_at x = sent_at y"
    and hashes: "blake (enc_vec (msg_data x)) = blake (enc_vec (msg_data y))" by simp_all
  have "enc_vec (msg_data x) = enc_vec (msg_data y)"
    using hashes inj strings(3,4) by (simp only: inj_on_eq_iff)
  with assms(4,5) have "msg_data x = msg_data y" by (rule enc_vec_inj)
  with heads at show ?thesis by simp
qed

lemma start_not_reached:
  assumes "h = fold (extend_hrmp blake) (ys @ [y]) h"
  shows "h \<in> blake ` set (chain_inputs blake h (ys @ [y]))"
  using assms by (simp add: chain_inputs_append) (simp add: extend_hrmp_def)

text \<open>
  C19. The head of a message queue chain stands for the whole queue: two queues of
  messages with the same head are the same messages at the same positions, unless the
  hash function has a collision among the strings that were hashed, or hashes one of them
  to the head the chains started from.
\<close>

theorem chain_head_determines_queue:
  assumes "fold (extend_hrmp blake) ms h = fold (extend_hrmp blake) ms' h"
    and "inj_on blake (set (chain_inputs blake h ms) \<union> set (chain_inputs blake h ms'))"
    and "h \<notin> blake ` (set (chain_inputs blake h ms) \<union> set (chain_inputs blake h ms'))"
    and "\<forall>m \<in> set ms \<union> set ms'. length (msg_data m) < 4294967296"
  shows "ms = ms'"
  using assms
proof (induction ms arbitrary: ms' rule: rev_induct)
  case Nil
  then show ?case
    using start_not_reached [of h blake] by (cases ms' rule: rev_cases) auto
next
  case (snoc x xs)
  show ?case
  proof (cases ms' rule: rev_cases)
    case Nil
    with snoc.prems(1,3) start_not_reached [of h blake xs x] show ?thesis by auto
  next
    case (snoc ys y)
    have last: "x = y \<and> fold (extend_hrmp blake) xs h = fold (extend_hrmp blake) ys h"
      using snoc.prems by (intro last_link_eq) (simp_all add: snoc)
    have sub: "set (chain_inputs blake h xs) \<union> set (chain_inputs blake h ys)
        \<subseteq> set (chain_inputs blake h (xs @ [x])) \<union> set (chain_inputs blake h ms')"
      by (auto simp: snoc chain_inputs_append)
    have "xs = ys"
    proof (rule snoc.IH)
      show "inj_on blake (set (chain_inputs blake h xs) \<union> set (chain_inputs blake h ys))"
        using snoc.prems(2) sub by (rule inj_on_subset)
    qed (use last snoc.prems(3,4) sub snoc in \<open>auto\<close>)
    with last show ?thesis by (simp add: snoc)
  qed
qed

definition demo_message :: inbound_message where
  "demo_message = \<lparr>sent_at = 5, msg_data = [1, 2]\<rparr>"

theorem chain_head_determines_queue_witness:
  "fold (extend_hrmp (\<lambda>bs. of_nat (length bs))) [demo_message] empty_chain = 68 \<and>
   [demo_message] = [\<lparr>sent_at = 4 + 1, msg_data = [1, 1 + 1]\<rparr>]"
proof
  let ?hash = "\<lambda>bs :: bytes. of_nat (length bs) :: H256"
  have lengths: "length (chain_link ?hash 0 demo_message) = 68"
    "length (enc_vec (msg_data demo_message)) = 3"
    by (simp_all add: chain_link_def demo_message_def enc_vec_def enc_compact_def)
  then show "fold (extend_hrmp ?hash) [demo_message] empty_chain = 68"
    by (simp add: extend_hrmp_def empty_chain_def)
  have same: "\<lparr>sent_at = 4 + 1, msg_data = [1, 1 + 1]\<rparr> = demo_message"
    by (simp add: demo_message_def)
  show "[demo_message] = [\<lparr>sent_at = 4 + 1, msg_data = [1, 1 + 1]\<rparr>]"
    unfolding same using lengths
    by (intro chain_head_determines_queue [of ?hash _ 0]) (auto simp: inj_on_def demo_message_def)
qed

section \<open>Collecting the relay chain's state\<close>

text \<open>
  The inherent data is complete or missing: it is created only if both channel indices
  could be read, and then its proof was requested for the key of every channel the
  parachain receives from or sends to, the current slot and the head of the downward
  queue, and it carries the downward and horizontal messages the relay chain handed out.
  An error of any of the five requests, or an index that does not decode, gives nothing.
\<close>

theorem inherent_covers_channels:
  assumes "create_at parent R vdata para = Some inherent"
  shows "\<exists>ingress egress keys.
    read_channel_index R parent (hrmp_ingress_channel_index R para) = Some ingress \<and>
    read_channel_index R parent (hrmp_egress_channel_index R para) = Some egress \<and>
    prove_read R parent keys = Inr (relay_chain_state inherent) \<and>
    {current_slot R, dmq_mqc_head R para} \<union> (\<lambda>p. hrmp_channels R p para) ` set ingress
      \<union> hrmp_channels R para ` set egress \<subseteq> set keys \<and>
    retrieve_dmq_contents R para parent = Inr (downward_messages inherent) \<and>
    retrieve_hrmp_contents R para parent = Inr (horizontal_messages inherent) \<and>
    validation_data inherent = vdata"
proof -
  have ok: "ok r = Some a \<longleftrightarrow> r = Inr a" for r :: "'e + 'z" and a
    by (cases r) (auto simp: ok_def)
  from assms obtain ingress egress where
      index: "read_channel_index R parent (hrmp_ingress_channel_index R para) = Some ingress"
        "read_channel_index R parent (hrmp_egress_channel_index R para) = Some egress"
    and rest: "prove_read R parent (relevant_keys R para ingress egress) = Inr (relay_chain_state inherent)"
        "retrieve_dmq_contents R para parent = Inr (downward_messages inherent)"
        "retrieve_hrmp_contents R para parent = Inr (horizontal_messages inherent)"
        "validation_data inherent = vdata"
    by (auto simp: create_at_def collect_relay_storage_proof_def ok_def split: Option.bind_splits sum.splits)
  show ?thesis
  proof (intro exI conjI)
    show "{current_slot R, dmq_mqc_head R para} \<union> (\<lambda>p. hrmp_channels R p para) ` set ingress
      \<union> hrmp_channels R para ` set egress \<subseteq> set (relevant_keys R para ingress egress)"
      by (auto simp: relevant_keys_def)
  qed (fact index rest)+
qed

definition demo_relay :: "(unit, bytes list, unit) relay_interface" where
  "demo_relay =
     \<lparr>get_storage_by_key = (\<lambda>_ key. Inr (if key = [8] then Some [3, 4] else None)),
      prove_read = (\<lambda>_ keys. Inr keys),
      retrieve_dmq_contents = (\<lambda>_ _. Inr []),
      retrieve_hrmp_contents = (\<lambda>_ _. Inr []),
      decode_para_ids = (\<lambda>raw. Some (map ucast raw)),
      current_block_randomness = [1], one_epoch_ago_randomness = [2],
      two_epochs_ago_randomness = [3], current_slot = [4], active_config = [5],
      dmq_mqc_head = (\<lambda>_. [6]), relay_dispatch_queue_size = (\<lambda>_. [7]),
      hrmp_ingress_channel_index = (\<lambda>_. [8]), hrmp_egress_channel_index = (\<lambda>_. [9]),
      upgrade_go_ahead_signal = (\<lambda>_. [10]), upgrade_restriction_signal = (\<lambda>_. [11]),
      hrmp_channels = (\<lambda>s r. [12, ucast s, ucast r])\<rparr>"

theorem inherent_covers_channels_witness:
  "\<exists>inherent :: (unit, bytes list, unit) inherent_record.
     create_at () demo_relay () 5 = Some inherent \<and>
     {[12, 3, 5], [12, 4, 5]} \<subseteq> set (relay_chain_state inherent)"
proof -
  obtain inherent :: "(unit, bytes list, unit) inherent_record"
    where made: "create_at () demo_relay () 5 = Some inherent"
    by (simp add: create_at_def collect_relay_storage_proof_def read_channel_index_def
        ok_def demo_relay_def)
  have index: "read_channel_index demo_relay () (hrmp_ingress_channel_index demo_relay 5) = Some [3, 4]"
    "prove_read demo_relay () keys = Inr keys"
    "hrmp_channels demo_relay 3 5 = [12, 3, 5]" "hrmp_channels demo_relay 4 5 = [12, 4, 5]" for keys
    by (simp_all add: read_channel_index_def demo_relay_def)
  from inherent_covers_channels [OF made] made show ?thesis
    by (auto simp: index)
qed

section \<open>The mocked relay chain\<close>

lemma btree_push_keys: "set (map fst (btree_push k v m)) = insert k (set (map fst m))"
  by (induction k v m rule: btree_push.induct) auto

lemma btree_push_sorted:
  "sorted_wrt (<) (map fst m) \<Longrightarrow> sorted_wrt (<) (map fst (btree_push k v m))"
proof (induction k v m rule: btree_push.induct)
  case (2 k v k' vs m)
  have keys: "fst ` set (btree_push k v m) = insert k (fst ` set m)"
    using btree_push_keys [of k v m] by simp
  show ?case
  proof (cases "k < k'")
    case True
    with 2(2) show ?thesis by auto
  next
    case False
    then have "k = k' \<or> k' < k" by (auto simp: not_less_iff_gr_or_eq)
    with False 2 keys show ?thesis by auto
  qed
qed simp

lemma map_of_btree_push:
  assumes "sorted_wrt (<) (map fst m)"
  shows "map_of (btree_push k v m) q =
    (if q = k then Some ((case map_of m k of None \<Rightarrow> [] | Some vs \<Rightarrow> vs) @ [v]) else map_of m q)"
  using assms
proof (induction k v m rule: btree_push.induct)
  case (2 k v k' vs m)
  have "map_of m k = None" if "k < k'"
    using that 2(2) by (fastforce simp: map_of_eq_None_iff)
  with 2 show ?case by auto
qed simp

lemma btree_pushes:
  assumes "sorted_wrt (<) (map fst m)"
  shows "sorted_wrt (<) (map fst (fold (\<lambda>(k, x). btree_push k (f x)) xs m)) \<and>
    map_of (fold (\<lambda>(k, x). btree_push k (f x)) xs m) q =
      (let new = map (f \<circ> snd) (filter (\<lambda>(k, x). k = q) xs);
           old = (case map_of m q of None \<Rightarrow> [] | Some vs \<Rightarrow> vs)
       in if new = [] then map_of m q else Some (old @ new))"
  using assms
proof (induction xs arbitrary: m)
  case Nil
  then show ?case by simp
next
  case (Cons kx xs)
  obtain k x where kx: "kx = (k, x)" by (cases kx)
  from Cons.IH [OF btree_push_sorted [OF Cons.prems, of k "f x"]]
  show ?case
    by (auto simp: kx Let_def map_of_btree_push [OF Cons.prems] split: option.split)
qed

lemma fold_heads:
  fixes m :: "('k::linorder \<times> 'v) list"
  assumes "sorted_wrt (<) (map fst m)"
  shows "fold (\<lambda>(k, ms) heads. heads(k \<mapsto> g k ms)) m heads q =
    (case map_of m q of None \<Rightarrow> heads q | Some ms \<Rightarrow> Some (g q ms))"
  using assms
proof (induction m arbitrary: heads)
  case Nil
  then show ?case by simp
next
  case (Cons kv m)
  obtain k ms where kv: "kv = (k, ms)" by (cases kv)
  have above: "\<forall>k' \<in> fst ` set m. k < k'" and sorted: "sorted_wrt (<) (map fst m)"
    using Cons.prems by (simp_all add: kv)
  have "k \<notin> fst ` set m" using bspec [OF above, of k] by auto
  then have none: "map_of m k = None" by (simp add: map_of_eq_None_iff)
  have "fold (\<lambda>(k, ms) heads. heads(k \<mapsto> g k ms)) (kv # m) heads q =
      (case map_of m q of None \<Rightarrow> (heads(k \<mapsto> g k ms)) q | Some ms \<Rightarrow> Some (g q ms))"
    unfolding kv fold_simps prod.case by (rule Cons.IH [OF sorted])
  also have "\<dots> = (case map_of (kv # m) q of None \<Rightarrow> heads q | Some ms \<Rightarrow> Some (g q ms))"
    by (cases "q = k") (simp_all add: kv none split: option.split)
  finally show ?case .
qed

text \<open>
  The mocked relay chain is consistent: every injected message is delivered, each
  channel's in the order they were given, all stamped with the mocked relay block; and
  the head the proof claims for a channel, or for the downward queue, is the chain over
  exactly the messages that are delivered there, from the configured starting head. A
  channel without messages has no head.
\<close>

theorem mock_heads_match_messages:
  "map_of (horizontal_messages (mock_inherent blake build p)) q =
     (let raw = filter (\<lambda>(para_id, m). para_id = q) (raw_horizontal_messages p) in
      if raw = [] then None
      else Some (map (\<lambda>(para_id, m). \<lparr>sent_at = mock_relay_block p, msg_data = m\<rparr>) raw)) \<and>
   sproof_channel_heads (mock_sproof blake p) q =
     map_option (\<lambda>ms. fold (extend_hrmp blake) ms (starting_head p q))
       (map_of (horizontal_messages (mock_inherent blake build p)) q) \<and>
   map msg_data (downward_messages (mock_inherent blake build p)) = raw_downward_messages p \<and>
   sproof_dmq_mqc_head (mock_sproof blake p) =
     Some (fold (extend_downward blake) (downward_messages (mock_inherent blake build p))
       (starting_dmq_mqc_head (xcm_config p)))"
proof -
  let ?wrap = "\<lambda>m. \<lparr>sent_at = mock_relay_block p, msg_data = m\<rparr>"
  have horizontal: "mock_horizontal p =
      fold (\<lambda>(k, x). btree_push k (?wrap x)) (raw_horizontal_messages p) []"
    by (simp add: mock_horizontal_def)
  note pushes = btree_pushes [of "[]" ?wrap "raw_horizontal_messages p" q, folded horizontal, simplified]
  have "map_of (mock_horizontal p) q =
     (let raw = filter (\<lambda>(para_id, m). para_id = q) (raw_horizontal_messages p) in
      if raw = [] then None else Some (map (\<lambda>(para_id, m). ?wrap m) raw))"
    using pushes by (simp add: Let_def comp_def case_prod_unfold)
  moreover have "sproof_channel_heads (mock_sproof blake p) q =
     map_option (\<lambda>ms. fold (extend_hrmp blake) ms (starting_head p q)) (map_of (mock_horizontal p) q)"
    using pushes by (simp add: mock_sproof_def fold_heads split: option.split)
  ultimately show ?thesis
    by (simp add: mock_inherent_def mock_sproof_def mock_downward_def comp_def split: prod.split)
qed

end
