(* ===== verification/Runtime_Config.thy ===== *)
theory Runtime_Config
  imports Collator_Session
begin

text \<open>
  The runtime's numbers (\<open>src/runtime/paraxiom/src/lib.rs\<close>, \<open>constants.rs\<close>,
  \<open>src/common/src/lib.rs\<close>), its fee polynomial and its collator selection, and the
  chain specifications a node starts from (\<open>src/node/src/chain_spec.rs\<close>, \<open>load_spec\<close>
  of \<open>command.rs\<close>).

  \<open>Perbill\<close> and the evaluation of a fee polynomial are FRAME's: the fraction type is a
  type variable, its operations are arguments, and \<open>fee_laws\<close> states what FRAME
  documents of them. Keys and accounts derived from a seed are arguments too.
\<close>

section \<open>Time and money\<close>

definition millisecs_per_block :: u64 where
  "millisecs_per_block = 12000"

definition slot_duration :: u64 where
  "slot_duration = millisecs_per_block"

definition minutes :: u32 where
  "minutes = 60000 div ucast millisecs_per_block"

definition hours :: u32 where
  "hours = minutes * 60"

definition days :: u32 where
  "days = hours * 24"

definition unit_balance :: u128 where
  "unit_balance = 1000000000000"

definition milliunit :: u128 where
  "milliunit = 1000000000"

definition microunit :: u128 where
  "microunit = 1000000"

definition existential_deposit :: u128 where
  "existential_deposit = milliunit"

definition runtime_deposit :: "u32 \<Rightarrow> u32 \<Rightarrow> u128" where
  "runtime_deposit items byte_count =
     (ucast items * unit_balance + ucast byte_count * (5 * milliunit div 100)) div 10"

definition transaction_byte_fee :: u128 where
  "transaction_byte_fee = 10 * microunit"

definition session_period :: u32 where
  "session_period = 6 * hours"

definition max_block_time :: "u64 \<Rightarrow> u64" where
  "max_block_time ref_time_per_second = ref_time_per_second div 2"

text \<open>The periods of the democracy pallet.\<close>

definition launch_period :: u32 where
  "launch_period = 28 * days"

definition voting_period :: u32 where
  "voting_period = 28 * days"

definition fast_track_voting_period :: u32 where
  "fast_track_voting_period = 3 * days"

definition enactment_period :: u32 where
  "enactment_period = 30 * days"

definition cooloff_period :: u32 where
  "cooloff_period = 28 * days"

definition democracy_minimum_deposit :: u128 where
  "democracy_minimum_deposit = 100 * unit_balance"

section \<open>Fees\<close>

record 'p fee_coefficient =
  degree :: u8
  negative :: bool
  coeff_frac :: 'p
  coeff_integer :: u128

definition fee_polynomial :: "(u128 \<Rightarrow> u128 \<Rightarrow> 'p) \<Rightarrow> u64 \<Rightarrow> 'p fee_coefficient list" where
  "fee_polynomial perbill_from_rational per_nanos =
     (let p = milliunit div 10;
          q = 100 * ucast (ref_time (extrinsic_base_weight per_nanos))
      in [\<lparr>degree = 1, negative = False,
            coeff_frac = perbill_from_rational (p mod q) q, coeff_integer = p div q\<rparr>])"

text \<open>
  The polynomial of \<open>constants.rs\<close>, over Kusama's cent and FRAME's base weight.
\<close>

definition statemine_fee_polynomial ::
    "(u128 \<Rightarrow> u128 \<Rightarrow> 'p) \<Rightarrow> u128 \<Rightarrow> u64 \<Rightarrow> 'p fee_coefficient list" where
  "statemine_fee_polynomial perbill_from_rational cents base_ref_time =
     (let p = cents; q = 100 * ucast base_ref_time
      in [\<lparr>degree = 1, negative = False,
            coeff_frac = perbill_from_rational (p mod q) q, coeff_integer = p div q\<rparr>])"

text \<open>
  What FRAME documents: a fraction of parts per billion is exact where the billion can
  express it, multiplying by it is exact where the result is a whole number, and a
  polynomial of one linear positive term is its fraction and its integer part times the
  execution time, with saturation.
\<close>

definition fee_laws ::
    "(u128 \<Rightarrow> u128 \<Rightarrow> 'p) \<Rightarrow> ('p \<Rightarrow> u128 \<Rightarrow> u128) \<Rightarrow> ('p fee_coefficient list \<Rightarrow> weight \<Rightarrow> u128) \<Rightarrow> bool" where
  "fee_laws perbill_from_rational perbill_mul eval \<longleftrightarrow>
     (\<forall>p q w. p < q \<and> unat q dvd unat p * 10 ^ 9 \<and> unat q dvd unat p * unat w \<longrightarrow>
        unat (perbill_mul (perbill_from_rational p q) w) = unat p * unat w div unat q) \<and>
     (\<forall>c w. degree c = 1 \<and> \<not> negative c \<longrightarrow>
        unat (eval [c] w) =
          min (unat (perbill_mul (coeff_frac c) (ucast (ref_time w)))
                 + unat (coeff_integer c) * unat (ref_time w)) (2 ^ 128 - 1))"

section \<open>Collator selection in the runtime\<close>

definition pot_id :: bytes where
  "pot_id = [80, 111, 116, 83, 116, 97, 107, 101]"

text \<open>
  The pot's account and the operations of the balances and session pallets are
  arguments; only the root origin may update.
\<close>

definition paraxiom_collators ::
    "('acc collator_event \<Rightarrow> 'ev) \<Rightarrow> (bytes \<Rightarrow> 'acc) \<Rightarrow> ('acc \<Rightarrow> 'w \<Rightarrow> bool) \<Rightarrow>
     ('acc \<Rightarrow> u128 \<Rightarrow> (dispatch_error, 'w, unit) call) \<Rightarrow> ('acc \<Rightarrow> u128 \<Rightarrow> 'w \<Rightarrow> u128 \<times> 'w) \<Rightarrow>
     ('acc \<Rightarrow> 'acc \<Rightarrow> u128 \<Rightarrow> (dispatch_error, 'w, unit) call) \<Rightarrow> ('acc \<Rightarrow> 'w \<Rightarrow> u128) \<Rightarrow> db_weight \<Rightarrow>
     ('ev, 'acc, 'acc, 'w) collator_config" where
  "paraxiom_collators to_event into_account registered_key reserve_op unreserve_op transfer_op
     free_op rocks =
     \<lparr>collator_event = to_event, update_origin = (\<lambda>origin. origin = Root),
      pot_account = into_account pot_id, max_candidates = 1000, min_candidates = 5,
      max_invulnerables = 100, kick_threshold = session_period,
      validator_id_of = identity_collator, is_registered = registered_key,
      reserve = reserve_op, unreserve = unreserve_op, transfer_keep_alive = transfer_op,
      free_balance = free_op, minimum_balance = existential_deposit,
      weight_info = unit_collator_weight rocks\<rparr>"

section \<open>Chain specifications\<close>

record ('acc, 'aura, 'keys) genesis_config =
  gc_code :: bytes
  gc_balances :: "('acc \<times> u128) list"
  gc_parachain_id :: u32
  gc_collators :: "'acc collator_genesis"
  gc_session_keys :: "('acc \<times> 'acc \<times> 'keys) list"
  gc_safe_xcm_version :: "u32 option"

text \<open>A node without the runtime's code does not start: \<open>None\<close> is the panic.\<close>

definition testnet_genesis ::
    "bytes option \<Rightarrow> u32 \<Rightarrow> ('aura \<Rightarrow> 'keys) \<Rightarrow> ('acc \<times> 'aura) list \<Rightarrow> 'acc list \<Rightarrow> u32 \<Rightarrow>
     ('acc, 'aura, 'keys) genesis_config option" where
  "testnet_genesis wasm_binary xcm_version session_keys initial_collators endowed_accounts id' =
     (case wasm_binary of
        None \<Rightarrow> None
      | Some code \<Rightarrow> Some
          \<lparr>gc_code = code,
           gc_balances = map (\<lambda>k. (k, 2 ^ 60)) endowed_accounts,
           gc_parachain_id = id',
           gc_collators = \<lparr>g_invulnerables = map fst initial_collators,
                           g_candidacy_bond = existential_deposit * 16,
                           g_desired_candidates = 0\<rparr>,
           gc_session_keys = map (\<lambda>(acc, aura). (acc, acc, session_keys aura)) initial_collators,
           gc_safe_xcm_version = Some xcm_version\<rparr>)"

datatype chain_type = Development | LocalTestnet

record 'g chain_spec =
  spec_name :: string
  spec_id :: string
  spec_type :: chain_type
  spec_genesis :: 'g
  spec_protocol :: "string option"
  spec_properties :: "(string \<times> string) list option"
  spec_relay_chain :: string
  spec_para_id :: u32

definition endowed_seeds :: "string list" where
  "endowed_seeds = [''Alice'', ''Bob'', ''Charlie'', ''Dave'', ''Eve'', ''Ferdie'',
     ''Alice//stash'', ''Bob//stash'', ''Charlie//stash'', ''Dave//stash'', ''Eve//stash'',
     ''Ferdie//stash'']"

definition collator_seeds :: "string list" where
  "collator_seeds = [''Alice'', ''Bob'']"

definition initial_genesis ::
    "bytes option \<Rightarrow> u32 \<Rightarrow> ('aura \<Rightarrow> 'keys) \<Rightarrow> (string \<Rightarrow> 'acc) \<Rightarrow> (string \<Rightarrow> 'aura) \<Rightarrow>
     ('acc, 'aura, 'keys) genesis_config option" where
  "initial_genesis wasm_binary xcm_version session_keys account_of aura_of =
     testnet_genesis wasm_binary xcm_version session_keys
       (map (\<lambda>seed. (account_of seed, aura_of seed)) collator_seeds)
       (map account_of endowed_seeds) 1000"

definition development_config ::
    "bytes option \<Rightarrow> u32 \<Rightarrow> ('aura \<Rightarrow> 'keys) \<Rightarrow> (string \<Rightarrow> 'acc) \<Rightarrow> (string \<Rightarrow> 'aura) \<Rightarrow>
     ('acc, 'aura, 'keys) genesis_config option chain_spec" where
  "development_config wasm_binary xcm_version session_keys account_of aura_of =
     \<lparr>spec_name = ''Development'', spec_id = ''dev'', spec_type = Development,
      spec_genesis = initial_genesis wasm_binary xcm_version session_keys account_of aura_of,
      spec_protocol = None, spec_properties = None,
      spec_relay_chain = ''rococo-local'', spec_para_id = 1000\<rparr>"

definition local_testnet_config ::
    "bytes option \<Rightarrow> u32 \<Rightarrow> ('aura \<Rightarrow> 'keys) \<Rightarrow> (string \<Rightarrow> 'acc) \<Rightarrow> (string \<Rightarrow> 'aura) \<Rightarrow>
     ('acc, 'aura, 'keys) genesis_config option chain_spec" where
  "local_testnet_config wasm_binary xcm_version session_keys account_of aura_of =
     \<lparr>spec_name = ''Local Testnet'', spec_id = ''local_testnet'', spec_type = LocalTestnet,
      spec_genesis = initial_genesis wasm_binary xcm_version session_keys account_of aura_of,
      spec_protocol = Some ''paraxiom-local'',
      spec_properties = Some [(''tokenSymbol'', ''UNIT''), (''tokenDecimals'', ''12''),
        (''ss58Format'', ''42'')],
      spec_relay_chain = ''rococo-local'', spec_para_id = 1000\<rparr>"

text \<open>\<open>from_file\<close> reads the specification at a path.\<close>

definition load_spec :: "'spec \<Rightarrow> 'spec \<Rightarrow> (string \<Rightarrow> string + 'spec) \<Rightarrow> string \<Rightarrow> string + 'spec" where
  "load_spec development local_testnet from_file id' =
     (if id' = ''dev'' then Inr development
      else if id' = ''paraxiom-rococo'' then Inr local_testnet
      else if id' = '''' \<or> id' = ''local'' then Inr local_testnet
      else from_file id')"

section \<open>Properties\<close>

lemma time_numbers: "minutes = 5" "hours = 300" "days = 7200" "session_period = 1800"
  by (simp_all add: minutes_def hours_def days_def session_period_def millisecs_per_block_def)

lemma fee_lawsD:
  assumes "fee_laws perbill_from_rational perbill_mul eval"
  shows "p < q \<Longrightarrow> unat q dvd unat p * 10 ^ 9 \<Longrightarrow> unat q dvd unat p * unat w \<Longrightarrow>
      unat (perbill_mul (perbill_from_rational p q) w) = unat p * unat w div unat q"
    and "degree k = 1 \<Longrightarrow> \<not> negative k \<Longrightarrow>
      unat (eval [k] v) = min (unat (perbill_mul (coeff_frac k) (ucast (ref_time v)))
        + unat (coeff_integer k) * unat (ref_time v)) (2 ^ 128 - 1)"
  using assms by (simp_all add: fee_laws_def)

lemma base_weight: "extrinsic_base_weight 1000 = \<lparr>ref_time = 125000000, proof_size = 0\<rparr>"
  by (simp add: extrinsic_base_weight_def from_ref_time_def saturating_mul_def)

lemma fee_polynomial_is:
  "fee_polynomial perbill_from_rational 1000 =
     [\<lparr>degree = 1, negative = False,
       coeff_frac = perbill_from_rational 100000000 12500000000, coeff_integer = 0\<rparr>]"
proof -
  have "(1000000000 :: u128) div 10 = 100000000" "(100000000 :: u128) mod 12500000000 = 100000000"
    "(100000000 :: u128) div 12500000000 = 0"
    by code_simp+
  then show ?thesis
    by (simp add: fee_polynomial_def base_weight milliunit_def Let_def)
qed

text \<open>
  The weight fee is a hundredth of what its comment says: with FRAME's 1000 units of
  execution time per nanosecond, 125 units of execution time cost one unit of balance, so
  the base weight of an extrinsic is charged a thousandth of a \<open>MILLIUNIT\<close> and not a
  tenth.
\<close>

theorem weight_fee_hundredth:
  assumes "fee_laws perbill_from_rational perbill_mul eval" and "125 dvd unat t"
  shows "unat (eval (fee_polynomial perbill_from_rational 1000) \<lparr>ref_time = t, proof_size = pov\<rparr>) =
      unat t div 125 \<and>
    100 * eval (fee_polynomial perbill_from_rational 1000) (extrinsic_base_weight 1000) = milliunit div 10"
proof -
  have fee: "unat (eval (fee_polynomial perbill_from_rational 1000) \<lparr>ref_time = v, proof_size = m\<rparr>) =
      unat v div 125" if "125 dvd unat v" for v m
  proof -
    from that obtain k where k: "unat v = 125 * k" by (rule dvdE)
    have small: "unat v < 2 ^ 64" using unsigned_less [of v, where 'a = nat] by simp
    then have "unat v < 2 ^ 128" by simp
    then have wide: "unat (ucast v :: u128) = unat v"
      by (simp add: unsigned_ucast_eq take_bit_nat_eq_self)
    have "(unat (100000000 :: u128)) * unat (ucast v :: u128) = unat (12500000000 :: u128) * k"
      unfolding wide by (simp add: k)
    then have "unat (perbill_mul (perbill_from_rational 100000000 12500000000) (ucast v)) = k"
      by (subst fee_lawsD(1) [OF assms(1)]) simp_all
    then show ?thesis
      using small by (simp add: fee_polynomial_is fee_lawsD(2) [OF assms(1)] k)
  qed
  have "unat (eval (fee_polynomial perbill_from_rational 1000) (extrinsic_base_weight 1000)) =
      unat (1000000 :: u128)"
    unfolding base_weight by (subst fee) simp_all
  then have "eval (fee_polynomial perbill_from_rational 1000) (extrinsic_base_weight 1000) = 1000000"
    by (simp only: word_unat_eq_iff)
  moreover have "(1000000000 :: u128) div 10 = 100000000" by code_simp
  ultimately show ?thesis
    using fee [OF assms(2)] by (simp add: milliunit_def)
qed

definition demo_rational :: "u128 \<Rightarrow> u128 \<Rightarrow> nat" where
  "demo_rational p q = unat p * 10 ^ 9 div unat q"

definition demo_perbill_mul :: "nat \<Rightarrow> u128 \<Rightarrow> u128" where
  "demo_perbill_mul f w = of_nat (f * unat w div 10 ^ 9)"

definition demo_eval :: "nat fee_coefficient list \<Rightarrow> weight \<Rightarrow> u128" where
  "demo_eval ks v = (case ks of [] \<Rightarrow> 0 | k # _ \<Rightarrow>
     of_nat (min (unat (demo_perbill_mul (coeff_frac k) (ucast (ref_time v)))
       + unat (coeff_integer k) * unat (ref_time v)) (2 ^ 128 - 1)))"

lemma exact_quotient:
  fixes p q :: nat
  assumes "0 < q" and "p * b = q * m" and "p * w = q * n"
  shows "m * w = b * n"
proof -
  have "q * (m * w) = (p * b) * w" by (simp add: assms(2) mult.assoc)
  also have "\<dots> = (p * w) * b" by (simp add: ac_simps)
  also have "\<dots> = q * (b * n)" by (simp add: assms(3) ac_simps)
  finally show ?thesis using assms(1) by simp
qed

lemma demo_fee_laws: "fee_laws demo_rational demo_perbill_mul demo_eval"
  unfolding fee_laws_def
proof (intro conjI allI impI)
  fix p q w :: u128
  assume "p < q \<and> unat q dvd unat p * 10 ^ 9 \<and> unat q dvd unat p * unat w"
  then have less: "p < q" and "unat q dvd unat p * 10 ^ 9" "unat q dvd unat p * unat w" by simp_all
  then obtain m n where m: "unat p * 10 ^ 9 = unat q * m" and n: "unat p * unat w = unat q * n"
    by (auto elim!: dvdE)
  have pos: "0 < unat q" using less by (simp add: word_less_nat_alt)
  from exact_quotient [OF pos m n] have "m * unat w = 10 ^ 9 * n" .
  then have "demo_perbill_mul (demo_rational p q) w = of_nat n"
    unfolding demo_perbill_mul_def demo_rational_def m using pos by simp
  moreover have "n < 2 ^ 128"
  proof -
    have "unat q * n \<le> unat q * unat w"
      using less n [symmetric] by (simp add: word_less_nat_alt)
    with pos have "n \<le> unat w" by simp
    also have "unat w < 2 ^ 128" using unsigned_less [of w, where 'a = nat] by simp
    finally show ?thesis .
  qed
  ultimately show "unat (demo_perbill_mul (demo_rational p q) w) = unat p * unat w div unat q"
    using pos n by (simp add: unsigned_of_nat take_bit_nat_eq_self)
next
  fix k :: "nat fee_coefficient" and v :: weight
  assume "degree k = 1 \<and> \<not> negative k"
  have "unat (of_nat (min x (2 ^ 128 - 1)) :: u128) = min x (2 ^ 128 - 1)" for x
    by (simp only: unsigned_of_nat of_nat_id) (rule take_bit_nat_eq_self, simp add: min_def)
  then show "unat (demo_eval [k] v) = min (unat (demo_perbill_mul (coeff_frac k) (ucast (ref_time v)))
      + unat (coeff_integer k) * unat (ref_time v)) (2 ^ 128 - 1)"
    by (simp add: demo_eval_def)
qed

theorem weight_fee_hundredth_witness:
  "unat (demo_eval (fee_polynomial demo_rational 1000) \<lparr>ref_time = 250, proof_size = 7\<rparr>) = 2"
  using weight_fee_hundredth [OF demo_fee_laws, of 250 7] by simp

text \<open>
  The chain starts with the collators of its specification and closed to others: if
  the seeds give different accounts, the genesis of a development or local node builds
  without a panic, Alice and Bob are the first session's collators, both with session
  keys and a balance, and until the root origin raises the desired number of candidates
  from zero nobody can register.
\<close>

theorem genesis_collators_closed:
  fixes account_of :: "string \<Rightarrow> 'acc"
  assumes "inj_on account_of (set endowed_seeds)"
    and "initial_genesis (Some code) version keys account_of aura_of = Some g"
    and "candidates s = []"
    and "T = paraxiom_collators to_event into_account registered_key reserve_op unreserve_op transfer_op
      free_op rocks"
  shows "\<exists>t. genesis_build T (gc_collators g) s = (Inr () :: unit fault + unit, t) \<and>
    collator_inv T t \<and>
    assemble_collators (map cand_who (candidates t)) t =
      (Inr [account_of ''Alice'', account_of ''Bob''] :: unit fault + 'acc list, t) \<and>
    (\<forall>a \<in> set (invulnerables t). a \<in> fst ` set (gc_balances g) \<and> a \<in> fst ` set (gc_session_keys g)) \<and>
    (\<forall>who. register_as_candidate T (Signed who) t = (Inl (Err (Collator TooManyCandidates)), t))"
proof -
  have diff: "account_of ''Alice'' \<noteq> account_of ''Bob''"
    using assms(1) by (auto simp: inj_on_def endowed_seeds_def)
  from assms(2) have g: "gc_collators g = \<lparr>g_invulnerables = [account_of ''Alice'', account_of ''Bob''],
        g_candidacy_bond = existential_deposit * 16, g_desired_candidates = 0\<rparr>"
      "gc_balances g = map (\<lambda>k. (k, 2 ^ 60)) (map account_of endowed_seeds)"
      "fst ` set (gc_session_keys g) = {account_of ''Alice'', account_of ''Bob''}"
    by (auto simp: initial_genesis_def testnet_genesis_def collator_seeds_def)
  show ?thesis
    using diff assms(3)
    by (simp add: genesis_build_def g assms(4) paraxiom_collators_def call_simps try_bounded_def
        collator_inv_def assemble_collators_def register_as_candidate_def transactional_def
        endowed_seeds_def)
qed

text \<open>A runtime whose accounts are the seeds, and whose other pallets do nothing.\<close>

definition demo_runtime :: "(string collator_event, string, string, unit) collator_config" where
  "demo_runtime = paraxiom_collators id (\<lambda>_. ''pot'') (\<lambda>_ _. True) (\<lambda>_ _. ret ()) (\<lambda>_ b w. (0, w))
     (\<lambda>_ _ _. ret ()) (\<lambda>_ _. 0) (rocks_db_weight 1000)"

definition demo_blank :: "(string collator_event, string, unit) collator_state" where
  "demo_blank = \<lparr>block_number = 0, events = [], invulnerables = [], candidates = [],
     last_authored_block = (\<lambda>_. None), desired_candidates = 7, candidacy_bond = 0,
     extra_weights = [], world = ()\<rparr>"

theorem genesis_collators_closed_witness:
  "\<exists>g t. initial_genesis (Some [1]) 3 id (\<lambda>seed. seed) (\<lambda>seed. seed) = Some g \<and>
     genesis_build demo_runtime (gc_collators g) demo_blank = (Inr () :: unit fault + unit, t) \<and>
     register_as_candidate demo_runtime (Signed ''Eve'') t = (Inl (Err (Collator TooManyCandidates)), t)"
proof -
  obtain g :: "(string, string, string) genesis_config"
    where g: "initial_genesis (Some [1]) 3 id (\<lambda>seed. seed) (\<lambda>seed. seed) = Some g"
    by (simp add: initial_genesis_def testnet_genesis_def)
  have "candidates demo_blank = []" by (simp add: demo_blank_def)
  from genesis_collators_closed [OF _ g this demo_runtime_def] g show ?thesis
    by auto
qed

end
