(* ===== verification/Runtime_Blocks.thy ===== *)
theory Runtime_Blocks
  imports Collator_Properties Runtime_Config
begin

text \<open>
  A block of the runtime as the collator-selection pallet sees it
  (\<open>src/runtime/paraxiom/src/lib.rs\<close>). The hooks run in the order of
  \<open>construct_runtime!\<close>: first those of the pallets before, then \<open>Authorship\<close>, which tells
  the pallet the author of this block, then \<open>Session\<close>, which at the end of a period asks
  it for the collators of a new session and has it remove the stale ones, then calls of
  any origin (extrinsics, and what the scheduler dispatches for democracy) among changes
  of the storage of other pallets.

  The authorship pallet's \<open>FindAccountFromAuthorIndex\<close> and the session pallet's
  \<open>PeriodicSessions\<close> and rotation are the fields of \<open>block_ops\<close>; \<open>rotation_follows\<close> is
  what is relied on in a rotation.
\<close>

section \<open>The hooks in the runtime's order\<close>

record ('ev, 'acc, 'digest, 'w) block_ops =
  find_author_account :: "'digest \<Rightarrow> 'w \<Rightarrow> 'acc option"
  period_ends :: "u32 \<Rightarrow> u32 \<Rightarrow> u32 \<Rightarrow> bool"
  rotate_to :: "(u32 \<Rightarrow> (dispatch_error, ('ev, 'acc, 'w) collator_state, 'acc list option) call) \<Rightarrow>
    (dispatch_error, ('ev, 'acc, 'w) collator_state, unit) call"

datatype ('acc, 'w) block_item =
    CollatorSelectionCall "'acc origin" "'acc collator_call"
  | Elsewhere "'w \<Rightarrow> 'w"

record ('acc, 'digest, 'w) runtime_block =
  b_before :: "'w \<Rightarrow> 'w"
  b_digest :: 'digest
  b_items :: "('acc, 'w) block_item list"

definition session_offset :: u32 where
  "session_offset = 0"

definition runtime_authorship ::
    "('ev, 'acc, 'digest, 'w) block_ops \<Rightarrow> ('ev, 'acc, 'acc, 'w) collator_config \<Rightarrow> 'digest \<Rightarrow>
     (dispatch_error, ('ev, 'acc, 'w) collator_state, unit) call" where
  "runtime_authorship X T digest =
     seq (gets (\<lambda>s. find_author_account X digest (world s))) (\<lambda>found.
     case found of None \<Rightarrow> ret () | Some author \<Rightarrow> note_author T author)"

definition runtime_session ::
    "('ev, 'acc, 'digest, 'w) block_ops \<Rightarrow> ('ev, 'acc, 'acc, 'w) collator_config \<Rightarrow>
     (dispatch_error, ('ev, 'acc, 'w) collator_state, unit) call" where
  "runtime_session X T =
     seq (gets block_number) (\<lambda>now.
     if period_ends X session_period session_offset now then rotate_to X (new_session T) else ret ())"

definition collator_hooks ::
    "('ev, 'acc, 'digest, 'w) block_ops \<Rightarrow> ('ev, 'acc, 'acc, 'w) collator_config \<Rightarrow> 'digest \<Rightarrow>
     (dispatch_error, ('ev, 'acc, 'w) collator_state, unit) call" where
  "collator_hooks X T digest =
     seq (runtime_authorship X T digest) (\<lambda>_. runtime_session X T)"

text \<open>A call that returns an error leaves the block going; a panic does not.\<close>

fun run_item ::
    "('ev, 'acc, 'acc, 'w) collator_config \<Rightarrow> ('acc, 'w) block_item \<Rightarrow>
     (dispatch_error, ('ev, 'acc, 'w) collator_state, unit) call" where
  "run_item T (CollatorSelectionCall origin c) = seq (attempt (collator_dispatch T origin c)) (\<lambda>_. ret ())"
| "run_item T (Elsewhere f) = modify (\<lambda>s. s\<lparr>world := f (world s)\<rparr>)"

definition run_block ::
    "('ev, 'acc, 'digest, 'w) block_ops \<Rightarrow> ('ev, 'acc, 'acc, 'w) collator_config \<Rightarrow>
     ('acc, 'digest, 'w) runtime_block \<Rightarrow> (dispatch_error, ('ev, 'acc, 'w) collator_state, unit) call" where
  "run_block X T b =
     seq (modify (\<lambda>s. s\<lparr>block_number := block_number s + 1, events := [], extra_weights := [],
       world := b_before b (world s)\<rparr>)) (\<lambda>_.
     seq (collator_hooks X T (b_digest b)) (\<lambda>_.
     for_each (b_items b) (run_item T)))"

definition run_blocks ::
    "('ev, 'acc, 'digest, 'w) block_ops \<Rightarrow> ('ev, 'acc, 'acc, 'w) collator_config \<Rightarrow>
     ('acc, 'digest, 'w) runtime_block list \<Rightarrow> (dispatch_error, ('ev, 'acc, 'w) collator_state, unit) call" where
  "run_blocks X T bs = for_each bs (run_block X T)"

text \<open>The authors of a run of blocks.\<close>

fun block_authors ::
    "('ev, 'acc, 'digest, 'w) block_ops \<Rightarrow> ('ev, 'acc, 'acc, 'w) collator_config \<Rightarrow>
     ('acc, 'digest, 'w) runtime_block list \<Rightarrow> ('ev, 'acc, 'w) collator_state \<Rightarrow> 'acc option list" where
  "block_authors X T [] s = []"
| "block_authors X T (b # bs) s =
     find_author_account X (b_digest b) (b_before b (world s)) # block_authors X T bs (snd (run_block X T b s))"

section \<open>What the neighbours document\<close>

text \<open>
  A rotation asks the session manager once, changes the session pallet's own storage and
  deposits its events.
\<close>

definition rotation_follows ::
    "((u32 \<Rightarrow> (dispatch_error, ('ev, 'acc, 'w) collator_state, 'acc list option) call) \<Rightarrow>
      (dispatch_error, ('ev, 'acc, 'w) collator_state, unit) call) \<Rightarrow> bool" where
  "rotation_follows turn \<longleftrightarrow> (\<forall>f s. \<exists>i w. \<forall>r u. f i (s\<lparr>world := w\<rparr>) = (Inr r, u) \<longrightarrow>
     (\<exists>w' evs. turn f s = (Inr (), u\<lparr>world := w', events := evs\<rparr>)))"

definition periodic_law :: "(u32 \<Rightarrow> u32 \<Rightarrow> u32 \<Rightarrow> bool) \<Rightarrow> bool" where
  "periodic_law ends \<longleftrightarrow> (\<forall>period offset n. ends period offset n \<longleftrightarrow>
     offset \<le> n \<and> (unat n - unat offset) mod unat period = 0)"

definition currency_returns :: "('ev, 'acc, 'vid, 'w, 'x) collator_config_scheme \<Rightarrow> bool" where
  "currency_returns T \<longleftrightarrow> (\<forall>a n w. fst (reserve T a n w) \<noteq> Inl Panic)
     \<and> (\<forall>a b n w. fst (transfer_keep_alive T a b n w) \<noteq> Inl Panic)"

definition neighbours_ok ::
    "('ev, 'acc, 'digest, 'w) block_ops \<Rightarrow> ('ev, 'acc, 'acc, 'w) collator_config \<Rightarrow> bool" where
  "neighbours_ok X T \<longleftrightarrow> rotation_follows (rotate_to X) \<and> periodic_law (period_ends X) \<and> currency_returns T"

section \<open>The hooks and the calls\<close>

lemma collator_inv_world [simp]:
  "collator_inv T (s\<lparr>world := w\<rparr>) = collator_inv T s"
  "collator_inv T (s\<lparr>events := evs\<rparr>) = collator_inv T s"
  "collator_inv T (s\<lparr>block_number := n\<rparr>) = collator_inv T s"
  "collator_inv T (s\<lparr>extra_weights := ws\<rparr>) = collator_inv T s"
  by (simp_all add: collator_inv_def)

lemma session_period_unat: "unat session_period = 1800" "unat session_offset = 0"
  by (simp_all add: session_period_def hours_def minutes_def millisecs_per_block_def session_offset_def)

lemma runtime_authorship_run:
  assumes "currency_returns T" and "collator_inv T s"
  shows "\<exists>t. runtime_authorship X T d s = (Inr (), t) \<and> collator_inv T t
    \<and> block_number t = block_number s \<and> candidates t = candidates s
    \<and> last_authored_block t = (case find_author_account X d (world s) of
         None \<Rightarrow> last_authored_block s | Some a \<Rightarrow> (last_authored_block s)(a \<mapsto> block_number s))"
proof (cases "find_author_account X d (world s)")
  case None
  with assms(2) show ?thesis by (simp add: runtime_authorship_def call_simps)
next
  case (Some a)
  have "fst (transfer_keep_alive T (pot_account T) a n (world s)) \<noteq> Inl Panic" for n
    using assms(1) by (simp add: currency_returns_def)
  then have "\<exists>t. note_author T a s = (Inr (), t) \<and> block_number t = block_number s
    \<and> candidates t = candidates s \<and> last_authored_block t = (last_authored_block s)(a \<mapsto> block_number s)"
    unfolding note_author_run by (auto split: prod.split sum.split fault.split) (metis fst_conv)
  then obtain t where t: "note_author T a s = (Inr (), t)" "block_number t = block_number s"
    "candidates t = candidates s" "last_authored_block t = (last_authored_block s)(a \<mapsto> block_number s)"
    by blast
  have "collator_inv T t" by (rule collator_inv_step [OF collator_step.author [OF t(1)] assms(2)])
  with t Some show ?thesis by (simp add: runtime_authorship_def call_simps)
qed

text \<open>
  What the session pallet relies on in its \<open>SessionManager\<close>: asked for a new session it
  returns one, in any storage it may find, whatever happened elsewhere. Then a rotation
  returns, too.
\<close>

locale session_manager =
  fixes manager :: "u32 \<Rightarrow> (dispatch_error, ('ev, 'acc, 'w) collator_state, 'acc list option) call"
    and inv :: "('ev, 'acc, 'w) collator_state \<Rightarrow> bool"
  assumes manager_returns: "inv s \<Longrightarrow> \<exists>v t. manager i s = (Inr (Some v), t) \<and> inv t"
    and inv_elsewhere: "inv s \<Longrightarrow> inv (s\<lparr>world := w\<rparr>)" "inv s \<Longrightarrow> inv (s\<lparr>events := evs\<rparr>)"
begin

lemma rotation_returns:
  assumes "rotation_follows turn" and "inv s"
  obtains i w v u w' evs where "manager i (s\<lparr>world := w\<rparr>) = (Inr (Some v), u)"
    and "turn manager s = (Inr (), u\<lparr>world := w', events := evs\<rparr>)"
    and "inv (u\<lparr>world := w', events := evs\<rparr>)"
proof -
  obtain i w where follow: "\<And>r u. manager i (s\<lparr>world := w\<rparr>) = (Inr r, u) \<Longrightarrow>
      \<exists>w' evs. turn manager s = (Inr (), u\<lparr>world := w', events := evs\<rparr>)"
    using assms(1) unfolding rotation_follows_def by blast
  obtain v u where u: "manager i (s\<lparr>world := w\<rparr>) = (Inr (Some v), u)" "inv u"
    using manager_returns [OF inv_elsewhere(1) [OF assms(2)]] by blast
  obtain w' evs where "turn manager s = (Inr (), u\<lparr>world := w', events := evs\<rparr>)"
    using follow [OF u(1)] by blast
  moreover have "inv (u\<lparr>world := w', events := evs\<rparr>)"
    using inv_elsewhere(2) [OF inv_elsewhere(1) [OF u(2)], of evs w'] by simp
  ultimately show ?thesis using that u(1) by blast
qed

end

interpretation collator_manager: session_manager "new_session T" "collator_inv T" for T
proof unfold_locales
  fix s i assume inv: "collator_inv T s"
  obtain v t where "new_session T i s = (Inr (Some v), t)" using new_session_run [OF inv, of i] by blast
  with collator_inv_session [OF this inv] show "\<exists>v t. new_session T i s = (Inr (Some v), t) \<and> collator_inv T t"
    by blast
qed simp_all

lemma runtime_session_run:
  assumes "rotation_follows (rotate_to X)" and "collator_inv T s"
  shows "\<exists>t. runtime_session X T s = (Inr (), t) \<and> collator_inv T t \<and> block_number t = block_number s
    \<and> (\<forall>c \<in> set (candidates s).
        (period_ends X session_period session_offset (block_number s) \<longrightarrow> \<not> stale_in T s (cand_who c)) \<longrightarrow>
        c \<in> set (candidates t) \<and> last_authored_block t (cand_who c) = last_authored_block s (cand_who c))"
proof (cases "period_ends X session_period session_offset (block_number s)")
  case False
  with assms(2) show ?thesis by (simp add: runtime_session_def call_simps)
next
  case True
  obtain i w v u w' evs where u: "new_session T i (s\<lparr>world := w\<rparr>) = (Inr (Some v), u)"
      and turn: "rotate_to X (new_session T) s = (Inr (), u\<lparr>world := w', events := evs\<rparr>)"
      and inv: "collator_inv T (u\<lparr>world := w', events := evs\<rparr>)"
    by (rule collator_manager.rotation_returns [OF assms])
  let ?s = "s\<lparr>world := w\<rparr>"
  have "collator_inv T ?s" using assms(2) by simp
  then obtain r t where t: "new_session T i ?s = (r, t)" "candidates t = kept_candidates T ?s"
      "block_number t = block_number s"
      "\<forall>a. a \<in> cand_who ` set (candidates t) \<longrightarrow> last_authored_block t a = last_authored_block s a"
    using new_session_run [of T ?s i] by auto
  have "t = u" using t(1) u by simp
  note kept = t(2-4) [unfolded this]
  have "c \<in> set (candidates u)" if "c \<in> set (candidates s)" and "\<not> stale_in T s (cand_who c)" for c
    using that by (simp add: kept(1) kept_candidates_def kick_ref_fresh stale_in_def last_block_of_def)
  then show ?thesis using True turn inv kept(2,3) by (simp add: runtime_session_def call_simps)
qed

text \<open>A candidate stays through any call but its own \<open>leave_intent\<close>.\<close>

lemma collator_dispatch_keeps:
  assumes "collator_dispatch T origin k s = (Inr r, t)" and "collator_inv T s" and "c \<in> set (candidates s)"
    and "\<not> (origin = Signed (cand_who c) \<and> k = LeaveIntent)"
  shows "c \<in> set (candidates t) \<and> last_authored_block t (cand_who c) = last_authored_block s (cand_who c)
    \<and> block_number t = block_number s"
proof (cases k)
  case (SetInvulnerables new)
  obtain e where "set_invulnerables T origin new s =
     (if \<not> update_origin T origin then (Inl (Err BadOrigin), s)
      else if unat (max_invulnerables T) < length new then (Inl (Err (Collator TooManyInvulnerables)), s)
      else if list_all (registered T (world s)) new
      then (Inr None, s\<lparr>invulnerables := new, events := events s @ [collator_event T (NewInvulnerables new)]\<rparr>)
      else (Inl e, s))"
    using set_invulnerables_run by blast
  with assms SetInvulnerables show ?thesis by (auto simp: collator_dispatch_def call_ok split: if_splits)
next
  case RegisterAsCandidate
  with assms(1) have "register_as_candidate T origin s = (Inr r, t)" by (simp add: collator_dispatch_def call_ok)
  then show ?thesis
    using assms(3) by (elim register_OkE) (auto simp: after_register_def)
next
  case LeaveIntent
  with assms(1) have "leave_intent T origin s = (Inr r, t)" by (simp add: collator_dispatch_def call_ok)
  then show ?thesis
  proof (rule leave_OkE)
    show "distinct (map cand_who (candidates s))" using assms(2) by (simp add: collator_inv_def)
    fix who pre x rest
    assume "origin = Signed who" "candidates s = pre @ x # rest" "cand_who x = who"
      "t = after_removal T x (pre @ rest) s"
    with assms(3,4) LeaveIntent show ?thesis by auto
  qed
qed (use assms in \<open>auto simp: collator_dispatch_def set_desired_candidates_def set_candidacy_bond_def call_ok\<close>)

lemma collator_dispatch_returns:
  assumes "currency_returns T" and "collator_inv T s"
  shows "fst (collator_dispatch T origin k s) \<noteq> Inl Panic"
proof (cases k)
  case (SetInvulnerables new)
  have "for_each xs (ensure_registered T) s \<noteq> (Inl Panic, t)" for xs t
    by (induction xs) (auto simp: call_simps run_ensure_registered split: option.split)
  then show ?thesis
    by (simp add: SetInvulnerables collator_dispatch_def transactional_def set_invulnerables_def)
      (auto simp: seq_def call_simps ensure_def ok_or_def throw_def ret_def modify_def deposit_event_def
        split: prod.splits sum.splits option.splits if_splits)
next
  case RegisterAsCandidate
  have "fst (reserve T a n w) \<noteq> Inl Panic" for a n w
    using assms(1) by (simp add: currency_returns_def)
  then have "fst (register_as_candidate T origin s) \<noteq> Inl Panic"
    using register_unsigned [of origin T s]
    by (cases origin) (auto simp: register_run split: option.split prod.split sum.split, metis fst_conv)
  then show ?thesis
    by (auto simp: RegisterAsCandidate collator_dispatch_def transactional_def split: prod.split sum.split)
next
  case LeaveIntent
  have "distinct (map cand_who (candidates s))" using assms(2) by (simp add: collator_inv_def)
  then have "try_remove_candidate T who s \<noteq> (Inl Panic, t)" for who t
    by (cases rule: try_remove_cases [of s who T]) auto
  then have "fst (leave_intent T origin s) \<noteq> Inl Panic"
    using leave_unsigned [of origin T s]
    by (cases origin) (auto simp: leave_run split: prod.split sum.split)
  then show ?thesis
    by (auto simp: LeaveIntent collator_dispatch_def transactional_def split: prod.split sum.split)
qed (auto simp: collator_dispatch_def transactional_def set_desired_candidates_def set_candidacy_bond_def
    call_simps split: prod.splits sum.splits)

lemma collator_dispatch_block:
  assumes "collator_dispatch T origin k s = (r, t)" and "collator_inv T s"
  shows "block_number t = block_number s"
proof (cases r)
  case (Inl e)
  with assms(1) have "t = s" unfolding collator_dispatch_def by (metis transactional_atomic)
  then show ?thesis by simp
next
  case (Inr u)
  note ok = assms(1) [unfolded Inr]
  show ?thesis
  proof (cases k)
    case RegisterAsCandidate
    with ok have "register_as_candidate T origin s = (Inr u, t)" by (simp add: collator_dispatch_def call_ok)
    then show ?thesis by (elim register_OkE) (simp add: after_register_def)
  next
    case LeaveIntent
    with ok have "leave_intent T origin s = (Inr u, t)" by (simp add: collator_dispatch_def call_ok)
    then show ?thesis
    proof (rule leave_OkE)
      show "distinct (map cand_who (candidates s))" using assms(2) by (simp add: collator_inv_def)
    qed simp
  qed (use ok in \<open>auto simp: collator_dispatch_def set_invulnerables_def set_desired_candidates_def
      set_candidacy_bond_def call_ok dest: ensure_registered_all\<close>)
qed

lemma run_item_returns:
  assumes "currency_returns T" and "collator_inv T s"
  shows "\<exists>t. run_item T it s = (Inr (), t) \<and> collator_inv T t \<and> block_number t = block_number s"
proof (cases it)
  case (CollatorSelectionCall origin k)
  obtain r t where t: "collator_dispatch T origin k s = (r, t)" by fastforce
  have "r \<noteq> Inl Panic" using collator_dispatch_returns [OF assms, of origin k] t by auto
  then have "run_item T it s = (Inr (), t)"
    using t CollatorSelectionCall by (auto simp: seq_def attempt_def ret_def split: sum.split fault.split)
  with collator_inv_call [OF t assms(2)] collator_dispatch_block [OF t assms(2)] show ?thesis by blast
qed (use assms in \<open>simp add: modify_def\<close>)

lemma run_items_return:
  assumes "currency_returns T" and "collator_inv T s"
  shows "\<exists>t. for_each items (run_item T) s = (Inr (), t) \<and> collator_inv T t \<and> block_number t = block_number s"
  using assms(2)
proof (induction items arbitrary: s)
  case (Cons it items)
  obtain u where u: "run_item T it s = (Inr (), u)" "collator_inv T u" "block_number u = block_number s"
    using run_item_returns [OF assms(1) Cons.prems] by blast
  with Cons.IH [OF u(2)] show ?case by (auto simp: seq_def)
qed (simp add: call_simps)

text \<open>What a candidate keeps.\<close>

definition stays :: "'acc candidate_info \<Rightarrow> ('ev, 'acc, 'w, 'm) collator_state_scheme \<Rightarrow>
    ('ev, 'acc, 'w, 'm) collator_state_scheme \<Rightarrow> bool" where
  "stays c s t \<longleftrightarrow> c \<in> set (candidates t)
     \<and> last_authored_block t (cand_who c) = last_authored_block s (cand_who c)
     \<and> block_number t = block_number s"

lemma run_item_stays:
  assumes "currency_returns T" and "collator_inv T s" and "c \<in> set (candidates s)"
    and "it \<noteq> CollatorSelectionCall (Signed (cand_who c)) LeaveIntent"
  shows "\<exists>t. run_item T it s = (Inr (), t) \<and> collator_inv T t \<and> stays c s t"
proof (cases it)
  case (CollatorSelectionCall origin k)
  obtain r t where t: "collator_dispatch T origin k s = (r, t)" by fastforce
  show ?thesis
  proof (cases r)
    case (Inl e)
    then have "t = s" using t unfolding collator_dispatch_def by (metis transactional_atomic)
    moreover have "e \<noteq> Panic" using collator_dispatch_returns [OF assms(1,2), of origin k] t Inl by auto
    ultimately show ?thesis using t Inl assms(2,3) CollatorSelectionCall
      by (cases e) (simp_all add: seq_def attempt_def ret_def stays_def)
  next
    case (Inr w)
    have "collator_inv T t" by (rule collator_inv_call [OF t assms(2)])
    moreover have "stays c s t"
      using collator_dispatch_keeps [OF t [unfolded Inr] assms(2,3)] assms(4) CollatorSelectionCall
      by (auto simp: stays_def)
    ultimately show ?thesis using t Inr CollatorSelectionCall by (simp add: seq_def attempt_def ret_def)
  qed
next
  case (Elsewhere f)
  with assms(2,3) show ?thesis by (simp add: call_simps modify_def stays_def)
qed

lemma run_items_stay:
  assumes "currency_returns T" and "collator_inv T s" and "c \<in> set (candidates s)"
    and "CollatorSelectionCall (Signed (cand_who c)) LeaveIntent \<notin> set items"
  shows "\<exists>t. for_each items (run_item T) s = (Inr (), t) \<and> collator_inv T t \<and> stays c s t"
  using assms(2-4)
proof (induction items arbitrary: s)
  case Nil
  then show ?case by (simp add: call_simps stays_def)
next
  case (Cons it items)
  obtain u where u: "run_item T it s = (Inr (), u)" "collator_inv T u" "stays c s u"
    using run_item_stays [OF assms(1) Cons.prems(1,2), of it] Cons.prems(3) by auto
  moreover obtain t where "for_each items (run_item T) u = (Inr (), t)" "collator_inv T t" "stays c u t"
    using Cons.IH [OF u(2)] Cons.prems(3) u(3) by (auto simp: stays_def)
  ultimately show ?case by (auto simp: seq_def stays_def)
qed

lemma run_block_returns:
  assumes ok: "neighbours_ok X T" and "collator_inv T s"
  shows "\<exists>t. run_block X T b s = (Inr (), t) \<and> collator_inv T t \<and> block_number t = block_number s + 1"
proof -
  let ?s = "s\<lparr>block_number := block_number s + 1, events := [], extra_weights := [],
    world := b_before b (world s)\<rparr>"
  have returns: "currency_returns T" and rot: "rotation_follows (rotate_to X)"
    using ok by (simp_all add: neighbours_ok_def)
  have inv: "collator_inv T ?s" using assms(2) by simp
  obtain u where u: "runtime_authorship X T (b_digest b) ?s = (Inr (), u)" "collator_inv T u"
      "block_number u = block_number s + 1"
    using runtime_authorship_run [OF returns inv, of X "b_digest b"] by auto
  obtain v where v: "runtime_session X T u = (Inr (), v)" "collator_inv T v" "block_number v = block_number u"
    using runtime_session_run [OF rot u(2)] by blast
  have "run_block X T b s = for_each (b_items b) (run_item T) v"
    using u(1) v(1) by (simp add: run_block_def collator_hooks_def call_simps seq_def modify_def)
  with run_items_return [OF returns v(2)] u(3) v(3) show ?thesis by simp
qed

text \<open>The blocks of the runtime never fail on this pallet's account.\<close>

lemma run_blocks_return:
  assumes "neighbours_ok X T" and "collator_inv T s"
  shows "\<exists>t. run_blocks X T bs s = (Inr (), t) \<and> collator_inv T t
    \<and> block_number t = block_number s + of_nat (length bs)"
  using assms(2) unfolding run_blocks_def
proof (induction bs arbitrary: s)
  case (Cons b bs)
  obtain u where u: "run_block X T b s = (Inr (), u)" "collator_inv T u" "block_number u = block_number s + 1"
    using run_block_returns [OF assms(1) Cons.prems] by blast
  with Cons.IH [OF u(2)] show ?case by (auto simp: seq_def algebra_simps)
qed (simp add: call_simps)

section \<open>Who authors in every session is never removed\<close>

text \<open>
  \<open>diligent a n l authors\<close>: in the blocks after number \<open>n\<close>, at each end of a session \<open>a\<close>
  has authored one of the last \<open>p\<close> blocks, or none at all while the number \<open>l\<close> that is noted
  for it is recent enough.
\<close>

definition diligent :: "nat \<Rightarrow> 'acc \<Rightarrow> nat \<Rightarrow> nat \<Rightarrow> 'acc option list \<Rightarrow> bool" where
  "diligent p a n l authors \<longleftrightarrow> (\<forall>k < length authors. (n + k + 1) mod p = 0 \<longrightarrow>
     (\<exists>j \<le> k. k < j + p \<and> authors ! j = Some a)
     \<or> (\<forall>j \<le> k. authors ! j \<noteq> Some a) \<and> n + k + 1 < l + p)"

lemma diligent_now:
  assumes "diligent p a n l (x # xs)" and "(n + 1) mod p = 0" and "x \<noteq> Some a"
  shows "n + 1 < l + p"
proof -
  have "(\<exists>j \<le> 0. 0 < j + p \<and> (x # xs) ! j = Some a)
     \<or> (\<forall>j \<le> 0. (x # xs) ! j \<noteq> Some a) \<and> n + 0 + 1 < l + p"
    using assms(1,2) unfolding diligent_def by force
  with assms(3) show ?thesis by auto
qed

lemma diligent_later:
  assumes "diligent p a n l (x # xs)"
  shows "diligent p a (n + 1) (if x = Some a then n + 1 else l) xs"
  unfolding diligent_def
proof (intro allI impI)
  fix k assume k: "k < length xs" and end_: "(n + 1 + k + 1) mod p = 0"
  let ?goal = "(\<exists>j \<le> k. k < j + p \<and> xs ! j = Some a)
    \<or> (\<forall>j \<le> k. xs ! j \<noteq> Some a) \<and> n + 1 + k + 1 < (if x = Some a then n + 1 else l) + p"
  have "(\<exists>j \<le> Suc k. Suc k < j + p \<and> (x # xs) ! j = Some a)
     \<or> (\<forall>j \<le> Suc k. (x # xs) ! j \<noteq> Some a) \<and> n + Suc k + 1 < l + p"
    using assms k end_ unfolding diligent_def by (metis Suc_less_eq length_Cons add_Suc_right add_Suc Suc_eq_plus1)
  then show ?goal
  proof (elim disjE exE conjE)
    fix j assume j: "j \<le> Suc k" "Suc k < j + p" "(x # xs) ! j = Some a"
    show ?goal
    proof (cases j)
      case 0
      with j show ?goal by (cases "\<exists>i \<le> k. xs ! i = Some a") auto
    qed (use j in auto)
  next
    assume none: "\<forall>j \<le> Suc k. (x # xs) ! j \<noteq> Some a" and "n + Suc k + 1 < l + p"
    moreover have "x \<noteq> Some a" using none by (metis nth_Cons_0 zero_le)
    moreover have "\<forall>j \<le> k. xs ! j \<noteq> Some a" using none by (metis Suc_le_mono nth_Cons_Suc)
    ultimately show ?goal by simp
  qed
qed

lemma fresh_not_stale:
  assumes "unat (block_number s) < unat (last_block_of s a) + unat (kick_threshold T)"
    and "0 < unat (kick_threshold T)"
  shows "\<not> stale_in T s a"
  using assms by (auto simp: stale_in_def word_le_nat_alt unat_saturating_sub)

lemma run_block_stays:
  fixes s :: "('ev, 'acc, 'w) collator_state"
  assumes ok: "neighbours_ok X T" and "kick_threshold T = session_period" and "collator_inv T s"
    and "c \<in> set (candidates s)" and "unat (block_number s) + 1 < 2 ^ 32"
    and "CollatorSelectionCall (Signed (cand_who c)) LeaveIntent \<notin> set (b_items b)"
    and author: "author = find_author_account X (b_digest b) (b_before b (world s))"
    and now: "(unat (block_number s) + 1) mod 1800 = 0 \<Longrightarrow> author \<noteq> Some (cand_who c) \<Longrightarrow>
      unat (block_number s) + 1 < unat (last_block_of s (cand_who c)) + 1800"
  shows "\<exists>t. run_block X T b s = (Inr (), t) \<and> collator_inv T t \<and> c \<in> set (candidates t)
    \<and> unat (block_number t) = unat (block_number s) + 1
    \<and> unat (last_block_of t (cand_who c)) = (if author = Some (cand_who c) then unat (block_number s) + 1
        else unat (last_block_of s (cand_who c)))"
proof -
  let ?s = "s\<lparr>block_number := block_number s + 1, events := [], extra_weights := [],
    world := b_before b (world s)\<rparr>" and ?a = "cand_who c"
  have returns: "currency_returns T" and rot: "rotation_follows (rotate_to X)" and per: "periodic_law (period_ends X)"
    using ok by (simp_all add: neighbours_ok_def)
  have number: "unat (block_number s + 1) = unat (block_number s) + 1"
    using assms(5) by (simp add: unat_word_ariths)
  have inv: "collator_inv T ?s" using assms(3) by simp
  obtain u where u: "runtime_authorship X T (b_digest b) ?s = (Inr (), u)" "collator_inv T u"
      "block_number u = block_number s + 1" "candidates u = candidates s"
      "last_authored_block u = (case author of None \<Rightarrow> last_authored_block s
         | Some a \<Rightarrow> (last_authored_block s)(a \<mapsto> block_number s + 1))"
    using runtime_authorship_run [OF returns inv, of X "b_digest b"]
    by (auto simp: author split: option.splits)
  have last: "unat (last_block_of u ?a) = (if author = Some ?a then unat (block_number s) + 1
      else unat (last_block_of s ?a))"
    using u(5) number by (auto simp: last_block_of_def split: option.split)
  have "\<not> stale_in T u ?a" if "period_ends X session_period session_offset (block_number u)"
  proof (rule fresh_not_stale)
    from that per have "(unat (block_number s) + 1) mod 1800 = 0"
      by (simp add: periodic_law_def session_period_unat u(3) number)
    with now last show "unat (block_number u) < unat (last_block_of u ?a) + unat (kick_threshold T)"
      by (auto simp: u(3) number assms(2) session_period_unat split: if_splits)
  qed (simp add: assms(2) session_period_unat)
  with runtime_session_run [OF rot u(2)] assms(4) u(4) obtain v where
    v: "runtime_session X T u = (Inr (), v)" "collator_inv T v" "stays c u v"
    unfolding stays_def by metis
  moreover obtain t where "for_each (b_items b) (run_item T) v = (Inr (), t)" "collator_inv T t" "stays c v t"
    using run_items_stay [OF returns v(2) _ assms(6)] v(3) by (auto simp: stays_def)
  moreover have "run_block X T b s = for_each (b_items b) (run_item T) v"
    using u(1) v(1) by (simp add: run_block_def collator_hooks_def call_simps seq_def modify_def)
  ultimately show ?thesis using u(3) number last
    by (auto simp: stays_def last_block_of_def)
qed

lemma run_blocks_stay:
  fixes s :: "('ev, 'acc, 'w) collator_state"
  assumes "neighbours_ok X T" and "kick_threshold T = session_period" and "collator_inv T s"
    and "c \<in> set (candidates s)" and "unat (block_number s) + length bs < 2 ^ 32"
    and "\<forall>b \<in> set bs. CollatorSelectionCall (Signed (cand_who c)) LeaveIntent \<notin> set (b_items b)"
    and "diligent 1800 (cand_who c) (unat (block_number s)) (unat (last_block_of s (cand_who c)))
      (block_authors X T bs s)"
  shows "\<exists>t. run_blocks X T bs s = (Inr (), t) \<and> collator_inv T t \<and> c \<in> set (candidates t)
    \<and> unat (block_number t) = unat (block_number s) + length bs"
  using assms(3-)
proof (induction bs arbitrary: s)
  case Nil
  then show ?case by (simp add: run_blocks_def call_simps)
next
  case (Cons b bs)
  let ?a = "cand_who c" and ?author = "find_author_account X (b_digest b) (b_before b (world s))"
  let ?rest = "block_authors X T bs (snd (run_block X T b s))"
  have dil: "diligent 1800 ?a (unat (block_number s)) (unat (last_block_of s ?a)) (?author # ?rest)"
    using Cons.prems(5) by simp
  have "\<exists>u. run_block X T b s = (Inr (), u) \<and> collator_inv T u \<and> c \<in> set (candidates u)
    \<and> unat (block_number u) = unat (block_number s) + 1
    \<and> unat (last_block_of u ?a) = (if ?author = Some ?a then unat (block_number s) + 1
        else unat (last_block_of s ?a))"
    by (rule run_block_stays [OF assms(1,2) Cons.prems(1,2)])
      (use Cons.prems(3,4) diligent_now [OF dil] in simp_all)
  then obtain u where u: "run_block X T b s = (Inr (), u)" "collator_inv T u" "c \<in> set (candidates u)"
      "unat (block_number u) = unat (block_number s) + 1"
      "unat (last_block_of u ?a) = (if ?author = Some ?a then unat (block_number s) + 1
        else unat (last_block_of s ?a))"
    by blast
  have "\<exists>t. run_blocks X T bs u = (Inr (), t) \<and> collator_inv T t \<and> c \<in> set (candidates t)
    \<and> unat (block_number t) = unat (block_number u) + length bs"
    by (rule Cons.IH [OF u(2,3)]) (use Cons.prems(3,4) diligent_later [OF dil] u(1,4,5) in simp_all)
  then show ?case using u(1,4) by (auto simp: run_blocks_def seq_def)
qed

text \<open>
  C11. In the runtime a candidate that does its part is never removed. Take any storage in
  the pallet's invariant and any run of blocks, with calls of any origin and any changes
  by other pallets, in which the candidate does not leave by itself. If at every end of a
  session it has authored one of the last 1800 blocks, the block that ends the session
  included (or has authored none and was registered less than a session's length and the
  kick threshold ago), all the blocks run and it is a candidate, with its deposit, at the
  end of them.
\<close>

theorem diligent_collator_stays:
  fixes s :: "('ev, 'acc, 'w) collator_state"
  assumes T: "T = paraxiom_collators to_event into_account registered_key reserve_op unreserve_op transfer_op
      free_op rocks"
    and "neighbours_ok X T" and "collator_inv T s"
    and "c \<in> set (candidates s)" and "unat (block_number s) + length bs < 2 ^ 32"
    and "\<forall>b \<in> set bs. CollatorSelectionCall (Signed (cand_who c)) LeaveIntent \<notin> set (b_items b)"
    and "diligent 1800 (cand_who c) (unat (block_number s)) (unat (last_block_of s (cand_who c)))
      (block_authors X T bs s)"
  shows "\<exists>t. run_blocks X T bs s = (Inr (), t) \<and> collator_inv T t \<and> c \<in> set (candidates t)
    \<and> unat (block_number t) = unat (block_number s) + length bs"
proof (rule run_blocks_stay [OF assms(2) _ assms(3-)])
  show "kick_threshold T = session_period" by (simp add: T paraxiom_collators_def)
qed

definition demo_block_ops :: "('ev, 'acc, 'acc option, 'w) block_ops" where
  "demo_block_ops =
     \<lparr>find_author_account = (\<lambda>d _. d),
      period_ends = (\<lambda>period offset n. offset \<le> n \<and> (unat n - unat offset) mod unat period = 0),
      rotate_to = (\<lambda>f. seq (f 7) (\<lambda>_. ret ()))\<rparr>"

definition demo_block_collators ::
    "('acc::zero collator_event, 'acc, 'acc, 'acc \<Rightarrow> u128 \<times> u128) collator_config" where
  "demo_block_collators = paraxiom_collators (\<lambda>e. e) (\<lambda>_. 0) (\<lambda>_ _. True) demo_reserve demo_unreserve
     demo_transfer (\<lambda>a w. fst (w a)) (rocks_db_weight 1000)"

definition demo_block_state :: "(nat collator_event, nat, ledger) collator_state" where
  "demo_block_state = \<lparr>block_number = 1799, events = [], invulnerables = [1],
     candidates = map (\<lambda>a. \<lparr>cand_who = a, cand_deposit = 10\<rparr>) [2, 3, 4, 5, 6, 7],
     last_authored_block = (\<lambda>_. Some 0), desired_candidates = 9, candidacy_bond = 10,
     extra_weights = [], world = (\<lambda>_. (100, 10))\<rparr>"

lemma demo_neighbours:
  "neighbours_ok demo_block_ops
     (demo_block_collators :: ('acc::zero collator_event, 'acc, 'acc, 'acc \<Rightarrow> u128 \<times> u128) collator_config)"
proof -
  let ?turn = "rotate_to demo_block_ops ::
    (u32 \<Rightarrow> (dispatch_error, ('acc collator_event, 'acc, 'acc \<Rightarrow> u128 \<times> u128) collator_state, 'acc list option) call) \<Rightarrow>
    (dispatch_error, ('acc collator_event, 'acc, 'acc \<Rightarrow> u128 \<times> u128) collator_state, unit) call"
  have "rotation_follows ?turn"
    unfolding rotation_follows_def
  proof (intro allI)
    fix s :: "('acc collator_event, 'acc, 'acc \<Rightarrow> u128 \<times> u128) collator_state"
      and f :: "u32 \<Rightarrow> (dispatch_error, ('acc collator_event, 'acc, 'acc \<Rightarrow> u128 \<times> u128) collator_state, 'acc list option) call"
    show "\<exists>i w. \<forall>r u. f i (s\<lparr>world := w\<rparr>) = (Inr r, u) \<longrightarrow>
      (\<exists>w' evs. ?turn f s = (Inr (), u\<lparr>world := w', events := evs\<rparr>))"
    proof (rule exI [of _ 7], rule exI [of _ "world s"], intro allI impI)
      fix r u assume "f 7 (s\<lparr>world := world s\<rparr>) = (Inr r, u)"
      then have "?turn f s = (Inr (), u\<lparr>world := world u, events := events u\<rparr>)"
        by (simp add: demo_block_ops_def seq_def ret_def)
      then show "\<exists>w' evs. ?turn f s = (Inr (), u\<lparr>world := w', events := evs\<rparr>)"
        by blast
    qed
  qed
  moreover have "periodic_law (period_ends demo_block_ops)"
    by (simp add: periodic_law_def demo_block_ops_def)
  moreover have "currency_returns demo_block_collators"
    by (simp add: currency_returns_def demo_block_collators_def paraxiom_collators_def demo_reserve_def
        demo_transfer_def)
  ultimately show ?thesis by (simp add: neighbours_ok_def)
qed

text \<open>Candidate 3 authors the block that ends the session while candidate 2 leaves.\<close>

theorem diligent_collator_stays_witness:
  "\<exists>t. run_blocks demo_block_ops demo_block_collators
       [\<lparr>b_before = (\<lambda>w. w), b_digest = Some 3, b_items = [CollatorSelectionCall (Signed 2) LeaveIntent]\<rparr>]
       demo_block_state = (Inr (), t)
     \<and> \<lparr>cand_who = 3, cand_deposit = 10\<rparr> \<in> set (candidates t) \<and> unat (block_number t) = 1800"
proof -
  let ?bs = "[\<lparr>b_before = (\<lambda>w. w), b_digest = Some 3, b_items = [CollatorSelectionCall (Signed 2) LeaveIntent]\<rparr>]"
  let ?c = "\<lparr>cand_who = 3, cand_deposit = 10\<rparr> :: nat candidate_info"
  have inv: "collator_inv demo_block_collators demo_block_state"
    by (simp add: collator_inv_def demo_block_collators_def paraxiom_collators_def demo_block_state_def)
  have c: "?c \<in> set (candidates demo_block_state)" by (simp add: demo_block_state_def)
  have "diligent 1800 (cand_who ?c) (unat (block_number demo_block_state))
      (unat (last_block_of demo_block_state (cand_who ?c)))
      (block_authors demo_block_ops demo_block_collators ?bs demo_block_state)"
    by (simp add: diligent_def demo_block_ops_def)
  from diligent_collator_stays [OF demo_block_collators_def demo_neighbours inv c _ _ this]
  show ?thesis by (auto simp: demo_block_state_def)
qed

end
