(* ===== verification/Chain_Panics.thy ===== *)
theory Chain_Panics
  imports Chain_Properties
begin

text \<open>
  Which calls can trap the runtime. A dispatchable of Substrate must not panic: a call that
  does is in no block, and whoever builds the block has paid for it. \<open>panics_exactly\<close> lists
  the calls of the registry, the anchor and the oracle that do.
\<close>

section \<open>A queue whose positions can be read\<close>

definition queue_readable ::
    "('ev, 'acc, 's, 'x) anchor_config_scheme \<Rightarrow> H256 \<Rightarrow> ('ev, 'acc, 'm) anchor_state_scheme \<Rightarrow> bool" where
  "queue_readable T name s \<longleftrightarrow>
     stored_u32 T name head_field s \<noteq> None \<and> stored_u32 T name tail_field s \<noteq> None"

lemma head_set_readable:
  assumes "anchor_config_ok T" and "queue_readable T name s"
  shows "queue_head_set T name index s =
     (if head_pos T name s \<le> index \<and> index \<le> tail_pos T name s
      then (Inr (), after_head_set T name index s)
      else (Inl (Err (Anchor InvalidQueueHead)), s))"
  using assms(2)
  by (auto simp: queue_readable_def queue_head_set_def queue_head_run queue_tail_run assms(1) seq_def
      head_pos_def tail_pos_def call_simps queue_remove_run queue_set_u32_run for_each_modify fold_remove
      after_head_set_def)

lemma head_set_unreadable:
  assumes "anchor_config_ok T" and "\<not> queue_readable T name s"
  shows "queue_head_set T name index s = (Inl Panic, s)"
  using assms(2)
  by (auto simp: queue_readable_def queue_head_set_def queue_head_run queue_tail_run assms(1) seq_def
      split: option.split)

lemma after_head_set_readable:
  assumes "anchor_config_ok T" and "queue_readable T name s"
  shows "queue_readable T name (after_head_set T name index s)"
  using assms by (simp add: queue_readable_def after_head_set_positions)

section \<open>The actions of a rollup\<close>

text \<open>No request is ever recorded, so every \<open>Reply\<close> is answered with an error.\<close>

lemma exec_head_action:
  "dec action_scale raw = Some (SetQueueHead i, r) \<Longrightarrow>
     exec_action (paraxiom a b c) name who raw s = queue_head_set (paraxiom a b c) name i s"
  by (simp add: exec_action_def call_simps)

lemma exec_other_action:
  assumes "idle_oracle s" and "\<not> (\<exists>i r. dec action_scale raw = Some (SetQueueHead i, r))"
  shows "\<exists>e. exec_action (paraxiom a b c) name who raw s = (Inl (Err e), s)"
proof (cases "dec action_scale raw")
  case None
  then show ?thesis by (simp add: exec_action_def call_simps)
next
  case (Some d)
  with assms(2) obtain data r where "d = (Reply data, r)" by (metis action.exhaust prod.exhaust)
  with Some idle_response [OF assms(1), of "paraxiom a b c" name who data] show ?thesis
    by (auto simp: exec_action_def call_simps paraxiom_on_response)
qed

lemma readable_actions_return:
  assumes "queue_readable (paraxiom a b c) name s" and "idle_oracle s"
  shows "fst (for_each raws (exec_action (paraxiom a b c) name who) s) \<noteq> Inl Panic"
  using assms
proof (induction raws arbitrary: s)
  case (Cons raw raws)
  show ?case
  proof (cases "\<exists>i r. dec action_scale raw = Some (SetQueueHead i, r)")
    case True
    then obtain i r where "dec action_scale raw = Some (SetQueueHead i, r)" by blast
    with Cons.prems
      after_head_set_readable [OF paraxiom_config_ok Cons.prems(1), of i]
      Cons.IH [of "after_head_set (paraxiom a b c) name i s"]
    show ?thesis
      by (simp add: seq_def exec_head_action head_set_readable [OF paraxiom_config_ok Cons.prems(1)] after_head_set_def)
  next
    case False
    with exec_other_action [OF Cons.prems(2), of raw a b c name who] show ?thesis
      by (auto simp: seq_def)
  qed
qed (simp add: ret_def)

lemma actions_panic:
  assumes "idle_oracle s"
  shows "fst (for_each raws (exec_action (paraxiom a b c) name who) s) = Inl Panic \<longleftrightarrow>
    \<not> queue_readable (paraxiom a b c) name s
    \<and> (\<exists>raw rest i r. raws = raw # rest \<and> dec action_scale raw = Some (SetQueueHead i, r))"
proof (cases "queue_readable (paraxiom a b c) name s")
  case True
  with readable_actions_return [OF True assms] show ?thesis by simp
next
  case False
  show ?thesis
  proof (cases raws)
    case (Cons raw rest)
    show ?thesis
    proof (cases "\<exists>i r. dec action_scale raw = Some (SetQueueHead i, r)")
      case True
      with False Cons show ?thesis
        by (auto simp: seq_def exec_head_action head_set_unreadable [OF paraxiom_config_ok])
    next
      case none: False
      with Cons exec_other_action [OF assms none, of a b c name who] show ?thesis
        by (auto simp: seq_def)
    qed
  qed (simp add: ret_def)
qed

section \<open>The calls\<close>

lemma transactional_panic: "fst (transactional m s) = Inl Panic \<longleftrightarrow> fst (m s) = Inl Panic"
  by (auto simp: transactional_def split: prod.split sum.split)

lemma rollup_panics:
  assumes "idle_oracle s"
  shows "fst (rollup (paraxiom a b c) origin name tx n s) = Inl Panic \<longleftrightarrow>
    (\<exists>who raw rest i r. origin = Signed who \<and> submitter_by_names s name = Some who
      \<and> (\<forall>cond \<in> set (conds tx). cond_holds name s cond)
      \<and> actions tx = raw # rest \<and> dec action_scale raw = Some (SetQueueHead i, r)
      \<and> \<not> queue_readable (paraxiom a b c) name (s\<lparr>states := write_updates name (updates tx) (states s)\<rparr>))"
proof (cases origin)
  case (Signed who)
  let ?s = "s\<lparr>states := write_updates name (updates tx) (states s)\<rparr>"
  have "idle_oracle ?s" using assms by simp
  from actions_panic [OF this, of "actions tx" a b c name who] show ?thesis
    by (auto simp: Signed rollup_signed split: prod.split sum.split)
qed (simp_all add: rollup_unsigned)

lemma dispatch_panics:
  assumes "idle_oracle s"
  shows "fst (dispatch (paraxiom a b c) origin call s) = Inl Panic \<longleftrightarrow>
    (\<exists>who. origin = Signed who \<and> (call = Average
      \<or> (\<exists>name tx n raw rest i r. call = Rollup name tx n \<and> submitter_by_names s name = Some who
          \<and> (\<forall>cond \<in> set (conds tx). cond_holds name s cond)
          \<and> actions tx = raw # rest \<and> dec action_scale raw = Some (SetQueueHead i, r)
          \<and> \<not> queue_readable (paraxiom a b c) name (s\<lparr>states := write_updates name (updates tx) (states s)\<rparr>))))"
proof (cases call)
  case (RequestFeed key n)
  with idle_request [OF assms, of "paraxiom a b c" origin key n] show ?thesis
    by (auto simp: dispatch_def transactional_panic)
next
  case (Rollup name tx n)
  then show ?thesis by (auto simp: dispatch_def transactional_panic rollup_panics [OF assms])
next
  case (RegisterFeed key u p)
  then show ?thesis using registry_unsigned(1) [of origin "paraxiom a b c" key u p s]
    by (cases origin) (simp_all add: dispatch_def transactional_panic register_feed_signed)
next
  case (UnregisterFeed key)
  then show ?thesis using registry_unsigned(2) [of origin "paraxiom a b c" key s]
    by (cases origin) (simp_all add: dispatch_def transactional_panic unregister_feed_signed split: option.split)
next
  case (ClaimName name)
  then show ?thesis
    by (cases origin) (simp_all add: dispatch_def transactional_panic claim_name_signed claim_name_unsigned)
next
  case (Feeds name data n)
  then show ?thesis
    by (cases origin) (simp_all add: dispatch_def transactional_panic feeds_signed oracle_unsigned)
next
  case Average
  then show ?thesis
    by (cases origin) (simp_all add: dispatch_def transactional_panic average_signed oracle_unsigned)
qed

text \<open>
  C26. The calls that trap the runtime, exactly. In any storage the chain can reach, a call
  to the registry, the anchor or the oracle panics if and only if it is signed and it is
  either the unfinished \<open>average\<close>, by anybody, or a rollup by the owner of a name whose
  conditions hold, whose first action moves the head of the queue, and whose updates leave
  bytes at the head or the tail that do not decode. Everything else ends in \<open>Ok\<close> or in an
  error: bad origins, foreign names, requests, replies, bytes that are no action.
\<close>

theorem panics_exactly:
  assumes "reachable (paraxiom a b c) s"
  shows "fst (dispatch (paraxiom a b c) origin call s) = Inl Panic \<longleftrightarrow>
    (\<exists>who. origin = Signed who \<and> (call = Average
      \<or> (\<exists>name tx n raw rest i r. call = Rollup name tx n \<and> submitter_by_names s name = Some who
          \<and> (\<forall>cond \<in> set (conds tx). cond_holds name s cond)
          \<and> actions tx = raw # rest \<and> dec action_scale raw = Some (SetQueueHead i, r)
          \<and> \<not> queue_readable (paraxiom a b c) name (s\<lparr>states := write_updates name (updates tx) (states s)\<rparr>))))"
  by (rule dispatch_panics, rule reachable_invariant [where P = idle_oracle, OF assms idle_genesis idle_step])

text \<open>Account 1 spoils the head of its queue and moves it in one rollup; account 2 calls \<open>average\<close>.\<close>

theorem panics_exactly_witness:
  "fst (dispatch demo_chain (Signed 1) (Rollup 42 \<lparr>conds = [], actions = [enc action_scale (SetQueueHead 0)],
       updates = [(store_key demo_chain head_field, Some [7])]\<rparr> 0) claimed) = Inl Panic
   \<and> fst (dispatch demo_chain (Signed 2) Average claimed) = Inl Panic
   \<and> fst (dispatch demo_chain Root Average claimed) \<noteq> Inl Panic"
proof -
  let ?tx = "\<lparr>conds = [], actions = [enc action_scale (SetQueueHead 0)],
       updates = [(store_key demo_chain head_field, Some [7])]\<rparr>"
  note exactly = panics_exactly [OF claimed_reachable [unfolded demo_chain_def], folded demo_chain_def]
  have "dec action_scale (enc action_scale (SetQueueHead 0)) = Some (SetQueueHead 0, [])"
    using action_wire.dec_enc [of "SetQueueHead 0" "[]"] by simp
  moreover have "dec u32_scale [7] = None" by (simp add: u32_scale_def word_codec_def dec_le_def)
  then have "\<not> queue_readable demo_chain 42 (claimed\<lparr>states := write_updates 42 (updates ?tx) (states claimed)\<rparr>)"
    by (simp add: queue_readable_def stored_u32_def) (simp add: demo_chain_def)
  ultimately show ?thesis unfolding exactly by simp
qed

end
