(* ===== verification/Whole_Runtime.thy ===== *)
theory Whole_Runtime
  imports Extrinsics Runtime_Blocks Chain_Service Chain_Panics
begin

text \<open>
  The pallets of this repository in one runtime (\<open>construct_runtime!\<close> of
  \<open>src/runtime/paraxiom/src/lib.rs\<close>): registry, anchor, oracle and collator selection. A
  block carries extrinsics as bytes; the first byte of a call names the pallet. The codec
  of the calls of the collator selection joins those of \<open>Extrinsics\<close>. Other pallets
  dispatch calls, too (\<open>ForeignDispatch\<close>). Bytes that are no call of the four do nothing to
  them; what a call of another pallet does to its own storage is a \<open>ForeignChange\<close>.

  The storage of the four pallets is kept in two parts, each with its view of the system
  pallet. A block acts on both; \<open>whole_block_parts\<close> says that it acts on each part as the
  theory of that part describes, so what is proved of the parts holds of the whole.
\<close>

section \<open>The calls of the collator selection as bytes\<close>

definition enc_collator_call :: "AccountId collator_call \<Rightarrow> bytes" where
  "enc_collator_call k =
     (case k of
        SetInvulnerables new \<Rightarrow> pallet_index CollatorSelection # 0 # enc (list_codec h256_scale) new
      | SetDesiredCandidates n \<Rightarrow> pallet_index CollatorSelection # 1 # enc u32_scale n
      | SetCandidacyBond bond \<Rightarrow> pallet_index CollatorSelection # 2 # enc u128_scale bond
      | RegisterAsCandidate \<Rightarrow> [pallet_index CollatorSelection, 3]
      | LeaveIntent \<Rightarrow> [pallet_index CollatorSelection, 4])"

definition dec_collator_call :: "u8 \<Rightarrow> bytes \<Rightarrow> (AccountId collator_call \<times> bytes) option" where
  "dec_collator_call i r =
     (if i = 0 then map_option (\<lambda>(new, r'). (SetInvulnerables new, r')) (dec (list_codec h256_scale) r)
      else if i = 1 then map_option (\<lambda>(n, r'). (SetDesiredCandidates n, r')) (dec u32_scale r)
      else if i = 2 then map_option (\<lambda>(bond, r'). (SetCandidacyBond bond, r')) (dec u128_scale r)
      else if i = 3 then Some (RegisterAsCandidate, r)
      else if i = 4 then Some (LeaveIntent, r)
      else None)"

section \<open>One runtime\<close>

datatype whole_call = ChainCall call_of_chain | CollatorCall "AccountId collator_call"

definition dec_whole_call :: "chain_config \<Rightarrow> bytes \<Rightarrow> (whole_call \<times> bytes) option" where
  "dec_whole_call T bs =
     (case bs of
        p # i # r \<Rightarrow>
          (if p = pallet_index CollatorSelection
           then map_option (\<lambda>(k, r'). (CollatorCall k, r')) (dec_collator_call i r)
           else map_option (\<lambda>(c, r'). (ChainCall c, r')) (dec_call T bs))
      | _ \<Rightarrow> None)"

fun enc_whole_call :: "chain_config \<Rightarrow> whole_call \<Rightarrow> bytes" where
  "enc_whole_call T (ChainCall c) = enc_call T c"
| "enc_whole_call T (CollatorCall k) = enc_collator_call k"

record ('ev, 'w) whole_state =
  chain_part :: chain_state
  collator_part :: "('ev, AccountId, 'w) collator_state"

type_synonym ('ev, 'w, 'a) whole_op = "(dispatch_error, ('ev, 'w) whole_state, 'a) call"

definition on_chain :: "(dispatch_error, chain_state, 'a) call \<Rightarrow> ('ev, 'w, 'a) whole_op" where
  "on_chain m = (\<lambda>s. case m (chain_part s) of (r, t) \<Rightarrow> (r, s\<lparr>chain_part := t\<rparr>))"

definition on_collators ::
    "(dispatch_error, ('ev, AccountId, 'w) collator_state, 'a) call \<Rightarrow> ('ev, 'w, 'a) whole_op" where
  "on_collators m = (\<lambda>s. case m (collator_part s) of (r, t) \<Rightarrow> (r, s\<lparr>collator_part := t\<rparr>))"

datatype 'w whole_item =
    RawExtrinsic "AccountId origin" bytes
  | ForeignDispatch "AccountId origin" bytes
  | ForeignChange "'w \<Rightarrow> 'w"

record ('digest, 'w) whole_block =
  w_before :: "'w \<Rightarrow> 'w"
  w_digest :: 'digest
  w_items :: "'w whole_item list"

definition run_whole_call ::
    "chain_config \<Rightarrow> ('ev, AccountId, AccountId, 'w) collator_config \<Rightarrow> AccountId origin \<Rightarrow> whole_call \<Rightarrow>
     ('ev, 'w, unit) whole_op" where
  "run_whole_call T C origin c =
     (case c of
        ChainCall c' \<Rightarrow> seq (attempt (on_chain (dispatch T origin c'))) (\<lambda>_. ret ())
      | CollatorCall k \<Rightarrow> seq (attempt (on_collators (collator_dispatch C origin k))) (\<lambda>_. ret ()))"

text \<open>
  The call of an item and who makes it. An extrinsic is decoded to its last byte; a pallet
  that dispatches a call from bytes (a \<open>Transact\<close> of XCM, a referendum that is enacted) reads
  what it needs.
\<close>

fun item_call :: "chain_config \<Rightarrow> 'w whole_item \<Rightarrow> (AccountId origin \<times> whole_call) option" where
  "item_call T (RawExtrinsic origin bs) =
     (case dec_whole_call T bs of Some (c, []) \<Rightarrow> Some (origin, c) | _ \<Rightarrow> None)"
| "item_call T (ForeignDispatch origin bs) = map_option (\<lambda>(c, _). (origin, c)) (dec_whole_call T bs)"
| "item_call T (ForeignChange f) = None"

fun item_change :: "'w whole_item \<Rightarrow> 'w \<Rightarrow> 'w" where
  "item_change (ForeignChange f) w = f w"
| "item_change _ w = w"

definition run_whole_item ::
    "chain_config \<Rightarrow> ('ev, AccountId, AccountId, 'w) collator_config \<Rightarrow> 'w whole_item \<Rightarrow>
     ('ev, 'w, unit) whole_op" where
  "run_whole_item T C it =
     (case item_call T it of
        Some (origin, c) \<Rightarrow> run_whole_call T C origin c
      | None \<Rightarrow> on_collators (modify (\<lambda>s. s\<lparr>world := item_change it (world s)\<rparr>)))"

definition run_whole_block ::
    "chain_config \<Rightarrow> ('ev, AccountId, AccountId, 'w) collator_config \<Rightarrow> ('ev, AccountId, 'digest, 'w) block_ops \<Rightarrow>
     ('digest, 'w) whole_block \<Rightarrow> ('ev, 'w, unit) whole_op" where
  "run_whole_block T C X b =
     seq (on_chain (modify next_block)) (\<lambda>_.
     seq (on_collators (modify (\<lambda>s. s\<lparr>block_number := block_number s + 1, events := [], extra_weights := [],
       world := w_before b (world s)\<rparr>))) (\<lambda>_.
     seq (on_collators (collator_hooks X C (w_digest b))) (\<lambda>_.
     for_each (w_items b) (run_whole_item T C))))"

definition run_whole_blocks ::
    "chain_config \<Rightarrow> ('ev, AccountId, AccountId, 'w) collator_config \<Rightarrow> ('ev, AccountId, 'digest, 'w) block_ops \<Rightarrow>
     ('digest, 'w) whole_block list \<Rightarrow> ('ev, 'w, unit) whole_op" where
  "run_whole_blocks T C X bs = for_each bs (run_whole_block T C X)"

section \<open>The codec\<close>

definition whole_call_fits :: "chain_config \<Rightarrow> whole_call \<Rightarrow> bool" where
  "whole_call_fits T c =
     (case c of
        ChainCall c' \<Rightarrow> call_bounded T c' \<and> counts_fit c'
      | CollatorCall (SetInvulnerables new) \<Rightarrow> length new < 4294967296
      | _ \<Rightarrow> True)"

lemma dec_collator_enc:
  assumes "whole_call_fits T (CollatorCall k)"
  shows "dec_whole_call T (enc_collator_call k @ r) = Some (CollatorCall k, r)"
proof (cases k)
  case (SetInvulnerables new)
  have "list_all (\<lambda>_. True) new" by (simp add: list_all_iff)
  with assms SetInvulnerables have "dec (list_codec h256_scale) (enc (list_codec h256_scale) new @ r) = Some (new, r)"
    by (intro codec_okD [OF list_codec_law [OF h256_codec.law]]) (simp add: whole_call_fits_def)
  with SetInvulnerables show ?thesis
    by (simp add: dec_whole_call_def enc_collator_call_def dec_collator_call_def)
next
  case (SetCandidacyBond bond)
  then show ?thesis using codec_okD [OF u128_law, of bond r]
    by (simp add: dec_whole_call_def enc_collator_call_def dec_collator_call_def)
qed (simp_all add: dec_whole_call_def enc_collator_call_def dec_collator_call_def u32_codec.dec_enc)

lemma dec_chain_enc:
  assumes "whole_call_fits T (ChainCall c)"
  shows "dec_whole_call T (enc_call T c @ r) = Some (ChainCall c, r)"
proof -
  have "dec_call T (enc_call T c @ r) = Some (c, r)"
    using call_wire.dec_enc [of T c r] assms by (simp add: whole_call_fits_def call_scale_def)
  moreover obtain p i r' where "enc_call T c @ r = p # i # r'" and "p \<noteq> pallet_index CollatorSelection"
    by (cases c) (simp_all add: enc_call_def)
  ultimately show ?thesis by (simp add: dec_whole_call_def)
qed

definition whole_scale :: "chain_config \<Rightarrow> whole_call codec" where
  "whole_scale T = \<lparr>enc = enc_whole_call T, dec = dec_whole_call T\<rparr>"

interpretation whole_wire: scale_codec "whole_scale T" "whole_call_fits T" for T
proof unfold_locales
  fix c r assume "whole_call_fits T c"
  then show "dec (whole_scale T) (enc (whole_scale T) c @ r) = Some (c, r)"
    by (cases c) (simp_all add: whole_scale_def dec_chain_enc dec_collator_enc)
qed

section \<open>A block acts on each part as the part's theory describes\<close>

definition chain_items_of :: "chain_config \<Rightarrow> 'w whole_item \<Rightarrow> chain_item list" where
  "chain_items_of T it = (case item_call T it of Some (origin, ChainCall c) \<Rightarrow> [Extrinsic origin c] | _ \<Rightarrow> [])"

definition collator_items_of :: "chain_config \<Rightarrow> 'w whole_item \<Rightarrow> (AccountId, 'w) block_item list" where
  "collator_items_of T it =
     (case item_call T it of
        Some (origin, CollatorCall k) \<Rightarrow> [CollatorSelectionCall origin k]
      | Some (origin, ChainCall c) \<Rightarrow> []
      | None \<Rightarrow> [Elsewhere (item_change it)])"

definition chain_block_of :: "chain_config \<Rightarrow> ('digest, 'w) whole_block \<Rightarrow> chain_item list" where
  "chain_block_of T b = NewBlock # concat (map (chain_items_of T) (w_items b))"

definition collator_block_of :: "chain_config \<Rightarrow> ('digest, 'w) whole_block \<Rightarrow> (AccountId, 'digest, 'w) runtime_block" where
  "collator_block_of T b = \<lparr>b_before = w_before b, b_digest = w_digest b,
     b_items = concat (map (collator_items_of T) (w_items b))\<rparr>"

text \<open>
  A call that panics traps the runtime: an extrinsic with such a call is in no block.
  \<open>no_panic\<close> says that a run has none. The calls of the collator selection never panic.
\<close>

fun no_panic :: "chain_config \<Rightarrow> chain_item list \<Rightarrow> chain_state \<Rightarrow> bool" where
  "no_panic T [] s = True"
| "no_panic T (NewBlock # items) s = no_panic T items (next_block s)"
| "no_panic T (Extrinsic origin c # items) s =
     (fst (dispatch T origin c s) \<noteq> Inl Panic \<and> no_panic T items (snd (dispatch T origin c s)))"

lemma no_panic_append:
  "no_panic T (xs @ ys) s \<longleftrightarrow> no_panic T xs s \<and> no_panic T ys (snd (run_items T xs s))"
proof (induction xs arbitrary: s)
  case (Cons x xs)
  show ?case by (cases x) (simp_all only: append_Cons snd_run_items no_panic.simps Cons.IH conj_assoc)
qed simp

text \<open>Without the unfinished call and without actions that move the head of a queue none does.\<close>

fun cannot_panic :: "chain_item \<Rightarrow> bool" where
  "cannot_panic NewBlock = True"
| "cannot_panic (Extrinsic origin c) =
     (case c of
        Average \<Rightarrow> False
      | Rollup name tx n \<Rightarrow> list_all (\<lambda>raw. case dec action_scale raw of Some (SetQueueHead i, _) \<Rightarrow> False | _ \<Rightarrow> True) (actions tx)
      | _ \<Rightarrow> True)"

lemma cannot_panic_run:
  assumes "list_all cannot_panic items" and "list_all (item_bounded (paraxiom a b c)) items"
    and "reachable (paraxiom a b c) s"
  shows "no_panic (paraxiom a b c) items s"
  using assms
proof (induction items arbitrary: s)
  case (Cons it items)
  show ?case
  proof (cases it)
    case NewBlock
    with Cons.IH Cons.prems reachable_step [OF Cons.prems(3) step_block] show ?thesis by simp
  next
    case (Extrinsic origin call)
    have "idle_oracle s" by (rule reachable_invariant [where P = idle_oracle, OF Cons.prems(3) idle_genesis idle_step])
    with Cons.prems(1) have "fst (dispatch (paraxiom a b c) origin call s) \<noteq> Inl Panic"
      by (auto simp: Extrinsic dispatch_panics)
    moreover have "reachable (paraxiom a b c) (snd (dispatch (paraxiom a b c) origin call s))"
      using Cons.prems(2) by (intro reachable_call Cons.prems(3)) (simp add: Extrinsic)
    ultimately show ?thesis using Cons.IH Cons.prems by (simp add: Extrinsic)
  qed
qed simp

lemma attempt_on_chain:
  "fst (m (chain_part s)) \<noteq> Inl Panic \<Longrightarrow>
     seq (attempt (on_chain m)) (\<lambda>_. ret ()) s = (Inr (), s\<lparr>chain_part := snd (m (chain_part s))\<rparr>)"
  by (auto simp: seq_def attempt_def on_chain_def ret_def split: prod.splits sum.splits fault.splits)

lemma attempt_on_collators:
  "seq (attempt m) (\<lambda>_. ret ()) (collator_part s) = (Inr () :: dispatch_error fault + unit, u) \<Longrightarrow>
     seq (attempt (on_collators m)) (\<lambda>_. ret ()) s = (Inr () :: dispatch_error fault + unit, s\<lparr>collator_part := u\<rparr>)"
  by (auto simp: seq_def attempt_def on_collators_def ret_def split: prod.splits sum.splits fault.splits)

lemma whole_item_parts:
  assumes "no_panic T (chain_items_of T it) (chain_part s)"
    and "for_each (collator_items_of T it) (run_item C) (collator_part s) = (Inr (), u)"
  shows "run_whole_item T C it s =
    (Inr (), s\<lparr>chain_part := snd (run_items T (chain_items_of T it) (chain_part s)), collator_part := u\<rparr>)"
proof (cases "item_call T it")
  case None
  with assms show ?thesis
    by (auto simp: run_whole_item_def chain_items_of_def collator_items_of_def on_collators_def call_simps
        modify_def seq_def ret_def)
next
  case (Some d)
  then obtain origin c where call: "item_call T it = Some (origin, c)" by (cases d) auto
  show ?thesis
  proof (cases c)
    case (ChainCall c')
    with assms call have "fst (dispatch T origin c' (chain_part s)) \<noteq> Inl Panic" and "u = collator_part s"
      by (simp_all add: chain_items_of_def collator_items_of_def call_simps)
    with call ChainCall show ?thesis
      by (simp add: run_whole_item_def chain_items_of_def run_whole_call_def attempt_on_chain split: prod.split)
  next
    case (CollatorCall k)
    with assms(2) call have "seq (attempt (collator_dispatch C origin k)) (\<lambda>_. ret ()) (collator_part s)
        = (Inr () :: dispatch_error fault + unit, u)"
      by (auto simp: collator_items_of_def call_ok)
    from attempt_on_collators [OF this] call CollatorCall show ?thesis
      by (simp add: run_whole_item_def chain_items_of_def run_whole_call_def)
  qed
qed

lemma whole_items_parts:
  assumes "no_panic T (concat (map (chain_items_of T) items)) (chain_part s)"
    and "for_each (concat (map (collator_items_of T) items)) (run_item C) (collator_part s) = (Inr (), u)"
  shows "for_each items (run_whole_item T C) s =
    (Inr (), s\<lparr>chain_part := snd (run_items T (concat (map (chain_items_of T) items)) (chain_part s)),
       collator_part := u\<rparr>)"
  using assms
proof (induction items arbitrary: s)
  case (Cons it items)
  obtain v where v: "for_each (collator_items_of T it) (run_item C) (collator_part s) = (Inr (), v)"
      "for_each (concat (map (collator_items_of T) items)) (run_item C) v = (Inr (), u)"
    using Cons.prems(2) by (auto simp: for_each_Ok_append call_ok)
  have "run_whole_item T C it s =
      (Inr (), s\<lparr>chain_part := snd (run_items T (chain_items_of T it) (chain_part s)), collator_part := v\<rparr>)"
    using Cons.prems(1) by (intro whole_item_parts v(1)) (simp add: no_panic_append)
  with Cons.IH [of "s\<lparr>chain_part := snd (run_items T (chain_items_of T it) (chain_part s)), collator_part := v\<rparr>"]
    Cons.prems(1) v(2) show ?case
    by (simp add: run_items_append no_panic_append seq_def)
qed (simp add: call_simps)

lemma whole_block_parts:
  assumes "no_panic T (chain_block_of T b) (chain_part s)"
    and "run_block X C (collator_block_of T b) (collator_part s) = (Inr (), u)"
  shows "run_whole_block T C X b s =
    (Inr (), s\<lparr>chain_part := snd (run_items T (chain_block_of T b) (chain_part s)), collator_part := u\<rparr>)"
proof -
  let ?s = "(collator_part s)\<lparr>block_number := block_number (collator_part s) + 1, events := [],
      extra_weights := [], world := w_before b (world (collator_part s))\<rparr>"
  let ?n = "next_block (chain_part s)"
  obtain v where hooks: "collator_hooks X C (w_digest b) ?s = (Inr (), v)"
      and items: "for_each (concat (map (collator_items_of T) (w_items b))) (run_item C) v = (Inr (), u)"
    using assms(2) by (auto simp: run_block_def collator_block_of_def call_ok modify_def)
  have "for_each (w_items b) (run_whole_item T C) (s\<lparr>chain_part := ?n, collator_part := v\<rparr>) =
    (Inr (), s\<lparr>chain_part := snd (run_items T (concat (map (chain_items_of T) (w_items b))) ?n), collator_part := u\<rparr>)"
    using whole_items_parts [of T "w_items b" "s\<lparr>chain_part := ?n, collator_part := v\<rparr>" C u] items assms(1)
    by (simp add: chain_block_of_def)
  with hooks show ?thesis
    by (simp add: run_whole_block_def chain_block_of_def seq_def modify_def on_chain_def on_collators_def
        snd_run_items del: run_items.simps)
qed

lemma decoded_bounded: "dec_whole_call T bs = Some (ChainCall c, r) \<Longrightarrow> call_bounded T c"
proof -
  assume "dec_whole_call T bs = Some (ChainCall c, r)"
  then have "dec (call_scale T) bs = Some (c, r)"
    by (auto simp: dec_whole_call_def call_scale_def split: list.splits if_splits)
  then show ?thesis by (rule decodes_intoD [OF call_into])
qed

lemma chain_items_bounded: "list_all (item_bounded T) (chain_items_of T it)"
  by (cases it) (auto simp: chain_items_of_def split: option.split list.split whole_call.split dest: decoded_bounded)

lemma chain_block_bounded: "list_all (item_bounded T) (chain_block_of T b)"
  using chain_items_bounded by (fastforce simp: chain_block_of_def list_all_iff)

lemma run_items_block:
  "block_number (snd (run_items (paraxiom a b c) items s)) =
     block_number s + of_nat (length (filter (\<lambda>it. it = NewBlock) items))"
proof (induction items arbitrary: s)
  case (Cons it items)
  show ?case
  proof (cases it)
    case NewBlock
    then show ?thesis by (simp only: snd_run_items Cons.IH) (simp add: next_block_def)
  next
    case (Extrinsic origin call)
    have "block_number (snd (dispatch (paraxiom a b c) origin call s)) = block_number s"
      by (rule dispatch_block) (rule prod.collapse [symmetric])
    with Extrinsic show ?thesis by (simp only: snd_run_items Cons.IH) simp
  qed
qed simp

lemma one_new_block: "length (filter (\<lambda>it. it = NewBlock) (chain_block_of T b)) = 1"
proof -
  have "it \<noteq> NewBlock" if "it \<in> set (chain_items_of T x)" for it x
    using that by (auto simp: chain_items_of_def split: option.splits whole_call.splits)
  then have "filter (\<lambda>it. it = NewBlock) (concat (map (chain_items_of T) items)) = []" for items
    by (auto simp: filter_empty_conv)
  then show ?thesis by (simp add: chain_block_of_def)
qed

lemma whole_blocks_parts:
  assumes "no_panic T (concat (map (chain_block_of T) bs)) (chain_part s)"
    and "run_blocks X C (map (collator_block_of T) bs) (collator_part s) = (Inr (), u)"
  shows "run_whole_blocks T C X bs s =
    (Inr (), s\<lparr>chain_part := snd (run_items T (concat (map (chain_block_of T) bs)) (chain_part s)), collator_part := u\<rparr>)"
  using assms unfolding run_whole_blocks_def run_blocks_def
proof (induction bs arbitrary: s)
  case (Cons blk bs)
  obtain v where v: "run_block X C (collator_block_of T blk) (collator_part s) = (Inr (), v)"
      "for_each (map (collator_block_of T) bs) (run_block X C) v = (Inr (), u)"
    using Cons.prems(2) by (auto simp: call_ok)
  let ?t = "s\<lparr>chain_part := snd (run_items T (chain_block_of T blk) (chain_part s)), collator_part := v\<rparr>"
  have "run_whole_block T C X blk s = (Inr (), ?t)"
    using Cons.prems(1) by (intro whole_block_parts v(1)) (simp add: no_panic_append)
  with Cons.IH [of ?t] Cons.prems(1) v(2) show ?case
    by (simp add: run_items_append no_panic_append seq_def)
qed (simp add: call_simps)

lemma run_blocks_number:
  "block_number (snd (run_items (paraxiom a b c) (concat (map (chain_block_of (paraxiom a b c)) bs)) s)) =
     block_number s + of_nat (length bs)"
proof (induction bs arbitrary: s)
  case (Cons blk bs)
  then show ?case using run_items_block [of a b c "chain_block_of (paraxiom a b c) blk" s]
    by (simp add: run_items_append one_new_block algebra_simps)
qed simp

text \<open>
  C2. The pallets of this repository keep out of each other's way, and what is proved of
  each holds of the runtime. Take registry, anchor and oracle at their genesis beside a
  collator selection in its invariant, and any run of blocks, each with extrinsics of any
  origin and any bytes and any changes by other pallets, such that no call to the first
  three panics. Then all the blocks run. On registry, anchor and oracle the run is one of
  the abstract service, with the calls that the bytes decode to; on the collator selection
  it is a run of its own blocks, with its own calls, and keeps its invariant; and both
  parts agree about the number of the block.
\<close>

theorem whole_runtime:
  assumes "chain_part s = genesis" and "block_number (collator_part s) = 0" and "collator_inv C (collator_part s)"
    and "neighbours_ok X C"
    and T: "T = paraxiom seed_source random_source key_order"
    and "no_panic T (concat (map (chain_block_of T) bs)) genesis"
  shows "\<exists>t. run_whole_blocks T C X bs s = (Inr (), t)
    \<and> (\<exists>oks. service_run (concat (map (chain_block_of T) bs)) oks no_service (service_of (chain_part t)))
    \<and> run_blocks X C (map (collator_block_of T) bs) (collator_part s) = (Inr (), collator_part t)
    \<and> collator_inv C (collator_part t)
    \<and> block_number (chain_part t) = block_number (collator_part t)"
proof -
  let ?items = "concat (map (chain_block_of T) bs)"
  obtain u where u: "run_blocks X C (map (collator_block_of T) bs) (collator_part s) = (Inr (), u)"
      "collator_inv C u" "block_number u = of_nat (length bs)"
    using run_blocks_return [OF assms(4,3), of "map (collator_block_of T) bs"] assms(2) by auto
  have "list_all (item_bounded T) ?items"
    using chain_block_bounded by (fastforce simp: list_all_iff)
  then have "service_run ?items (fst (run_items T ?items genesis)) no_service (service_of (snd (run_items T ?items genesis)))"
    unfolding T service_of_genesis [symmetric] by (intro run_items_serve reachable_genesis) simp_all
  moreover have "run_whole_blocks T C X bs s =
      (Inr (), s\<lparr>chain_part := snd (run_items T ?items genesis), collator_part := u\<rparr>)"
    using whole_blocks_parts [OF _ u(1)] assms(1,6) by simp
  moreover have "block_number (snd (run_items T ?items genesis)) = of_nat (length bs)"
    using run_blocks_number [of seed_source random_source key_order bs genesis] by (simp add: T genesis_def)
  ultimately show ?thesis using u by (intro exI) auto
qed

text \<open>
  A block in which account 1 claims name 42 and account 2 applies for a candidacy while
  another extrinsic holds bytes that are no call, then an empty block.
\<close>

definition demo_whole_blocks :: "(AccountId option, AccountId \<Rightarrow> u128 \<times> u128) whole_block list" where
  "demo_whole_blocks =
     [\<lparr>w_before = (\<lambda>w. w), w_digest = Some 1, w_items = [
        RawExtrinsic (Signed 1) (enc_call demo_chain (ClaimName 42)),
        RawExtrinsic (Signed 3) [255, 0],
        RawExtrinsic (Signed 2) (enc_collator_call RegisterAsCandidate)]\<rparr>,
      \<lparr>w_before = (\<lambda>w. w), w_digest = None, w_items = []\<rparr>]"

definition demo_whole_start :: "(AccountId collator_event, AccountId \<Rightarrow> u128 \<times> u128) whole_state" where
  "demo_whole_start = \<lparr>chain_part = genesis,
     collator_part = \<lparr>block_number = 0, events = [], invulnerables = [1], candidates = [],
       last_authored_block = Map.empty, desired_candidates = 3, candidacy_bond = 10,
       extra_weights = [], world = (\<lambda>_. (100, 0))\<rparr>\<rparr>"

lemma demo_whole_items:
  "concat (map (chain_block_of demo_chain) demo_whole_blocks) =
     [NewBlock, Extrinsic (Signed 1) (ClaimName 42), NewBlock]"
  using dec_chain_enc [of demo_chain "ClaimName 42" "[]"]
    dec_collator_enc [of demo_chain RegisterAsCandidate "[]"]
  by (simp add: demo_whole_blocks_def chain_block_of_def chain_items_of_def whole_call_fits_def call_bounded_def counts_fit_def)
    (simp add: dec_whole_call_def dec_call_def)

theorem whole_runtime_witness:
  "\<exists>t. run_whole_blocks demo_chain demo_block_collators demo_block_ops demo_whole_blocks demo_whole_start = (Inr (), t)
     \<and> (\<exists>oks. service_run [NewBlock, Extrinsic (Signed 1) (ClaimName 42), NewBlock] oks no_service
          (service_of (chain_part t)))
     \<and> block_number (chain_part t) = block_number (collator_part t)"
proof -
  have inv: "collator_inv demo_block_collators (collator_part demo_whole_start)"
    by (simp add: collator_inv_def demo_whole_start_def demo_block_collators_def paraxiom_collators_def)
  have "no_panic demo_chain (concat (map (chain_block_of demo_chain) demo_whole_blocks)) genesis"
    by (simp add: demo_whole_items dispatch_def claim_name_signed transactional_def next_block_def genesis_def)
  from whole_runtime [OF _ _ inv demo_neighbours demo_chain_def this] show ?thesis
    by (auto simp: demo_whole_items demo_whole_start_def)
qed

end
