(* ===== verification/Xcm_Runtime.thy ===== *)
theory Xcm_Runtime
  imports Xcm Collator_Session Runtime_Config
begin

text \<open>
  How the runtime treats XCM (\<open>src/runtime/paraxiom/src/xcm_config.rs\<close>): which account a
  location owns, which origin a \<open>Transact\<close> is dispatched with, what passes the barrier,
  where a message is sent and who may send one.

  The building blocks are types of the \<open>xcm_builder\<close> crate; the runtime puts them together
  in tuples, which try their parts in order. The parts are the fields of \<open>xcm_parts\<close>,
  \<open>origin_laws\<close> and \<open>barrier_laws\<close> state what they document. Junctions are a type variable;
  \<open>parachain_of\<close> and \<open>account32_of\<close> read the junctions \<open>Parachain\<close> and \<open>AccountId32\<close>.
\<close>

section \<open>Origins, locations and the parts\<close>

datatype origin_kind = Native | SovereignAccount | Superuser | XcmKind

datatype ('acc, 'j) runtime_origin =
    SystemOrigin "'acc origin"
  | CumulusRelay
  | CumulusSibling u32
  | XcmOrigin "'j multi_location"

record ('acc, 'j, 'net, 'x) xcm_parts =
  any_network :: 'net
  parent_is_preset :: "'j multi_location \<Rightarrow> 'acc option"
  sibling_converts_via :: "'j multi_location \<Rightarrow> 'acc option"
  account32_aliases :: "'net \<Rightarrow> 'j multi_location \<Rightarrow> 'acc option"
  sovereign_signed_via :: "('j multi_location \<Rightarrow> 'acc option) \<Rightarrow>
    'j multi_location \<Rightarrow> origin_kind \<Rightarrow> ('acc, 'j) runtime_origin option"
  relay_chain_as_native :: "('acc, 'j) runtime_origin \<Rightarrow>
    'j multi_location \<Rightarrow> origin_kind \<Rightarrow> ('acc, 'j) runtime_origin option"
  sibling_as_native :: "'j multi_location \<Rightarrow> origin_kind \<Rightarrow> ('acc, 'j) runtime_origin option"
  signed_account32_native :: "'net \<Rightarrow> 'j multi_location \<Rightarrow> origin_kind \<Rightarrow> ('acc, 'j) runtime_origin option"
  xcm_passthrough :: "'j multi_location \<Rightarrow> origin_kind \<Rightarrow> ('acc, 'j) runtime_origin option"
  signed_to_account32 :: "'net \<Rightarrow> ('acc, 'j) runtime_origin \<Rightarrow> 'j multi_location option"
  ensure_xcm_origin :: "(('acc, 'j) runtime_origin \<Rightarrow> 'j multi_location option) \<Rightarrow>
    ('acc, 'j) runtime_origin \<Rightarrow> 'j multi_location option"
  take_weight_credit :: "('j, 'x, u64) should_execute"
  allow_top_level_paid_from :: "('j multi_location \<Rightarrow> bool) \<Rightarrow> ('j, 'x, u64) should_execute"
  allow_unpaid_from :: "('j multi_location \<Rightarrow> bool) \<Rightarrow> ('j, 'x, u64) should_execute"
  is_executive :: "'j \<Rightarrow> bool"

text \<open>A tuple of conversions gives the first result; one that fails hands the value on.\<close>

fun first_conversion :: "('a \<Rightarrow> 'b option) list \<Rightarrow> 'a \<Rightarrow> 'b option" where
  "first_conversion [] x = None"
| "first_conversion (f # fs) x = (case f x of Some y \<Rightarrow> Some y | None \<Rightarrow> first_conversion fs x)"

definition location_to_account_id :: "('acc, 'j, 'net, 'x) xcm_parts \<Rightarrow> 'j multi_location \<Rightarrow> 'acc option" where
  "location_to_account_id B = first_conversion
     [parent_is_preset B, sibling_converts_via B, account32_aliases B (any_network B)]"

definition relay_chain_origin :: "('acc, 'j) runtime_origin" where
  "relay_chain_origin = CumulusRelay"

definition transact_origin ::
    "('acc, 'j, 'net, 'x) xcm_parts \<Rightarrow> 'j multi_location \<Rightarrow> origin_kind \<Rightarrow> ('acc, 'j) runtime_origin option" where
  "transact_origin B l kind = first_conversion
     [\<lambda>(l, k). sovereign_signed_via B (location_to_account_id B) l k,
      \<lambda>(l, k). relay_chain_as_native B relay_chain_origin l k,
      \<lambda>(l, k). sibling_as_native B l k,
      \<lambda>(l, k). signed_account32_native B (any_network B) l k,
      \<lambda>(l, k). xcm_passthrough B l k] (l, kind)"

section \<open>The barrier\<close>

text \<open>A tuple of filters lets a message pass if one of them does, the changes of those before kept.\<close>

fun first_executes :: "('j, 'x, 'w) should_execute list \<Rightarrow> ('j, 'x, 'w) should_execute" where
  "first_executes [] origin max_weight = throw ()"
| "first_executes (f # fs) origin max_weight =
     seq (attempt (f origin max_weight)) (\<lambda>r.
     case r of Inr _ \<Rightarrow> ret () | Inl _ \<Rightarrow> first_executes fs origin max_weight)"

definition paraxiom_barrier :: "('acc, 'j, 'net, 'x) xcm_parts \<Rightarrow> ('j, 'x, u64) should_execute" where
  "paraxiom_barrier B = runtime_barrier (first_executes
     [take_weight_credit B, allow_top_level_paid_from B (\<lambda>_. True),
      allow_unpaid_from B (parent_or_executive_plurality (is_executive B))])"

text \<open>
  The copy of the two filters in \<open>src/common/src/xcm_config.rs\<close>, for the next version of
  XCM: the message is a slice and a weight has two dimensions.
\<close>

definition common_deny_then_try ::
    "('j, 'x, weight) should_execute \<Rightarrow> ('j, 'x, weight) should_execute \<Rightarrow> ('j, 'x, weight) should_execute" where
  "common_deny_then_try deny allow origin max_weight =
     seq (deny origin max_weight) (\<lambda>_. allow origin max_weight)"

definition common_deny_reserve_transfer :: "('j, 'x, weight) should_execute" where
  "common_deny_reserve_transfer origin max_weight =
     seq (gets (\<lambda>s. list_ex (\<lambda>inst. case inst of
         InitiateReserveWithdraw loc _ \<Rightarrow> parents loc = 1 \<and> interior loc = []
       | DepositReserveAsset dest _ \<Rightarrow> parents dest = 1 \<and> interior dest = []
       | TransferReserveAsset dest _ \<Rightarrow> parents dest = 1 \<and> interior dest = []
       | _ \<Rightarrow> False) (fst s))) (\<lambda>denied.
     if denied then throw () else ret ())"

section \<open>The XCM pallet and the router\<close>

definition is_teleporter :: "('j, 'n, 'i) multi_asset \<Rightarrow> 'j multi_location \<Rightarrow> bool" where
  "is_teleporter asset origin = False"

definition xcm_execute_filter :: "'j multi_location \<times> ('j, 'x) instruction list \<Rightarrow> bool" where
  "xcm_execute_filter m = False"

definition xcm_teleport_filter :: "'j multi_location \<times> ('j, 'n, 'i) multi_asset list \<Rightarrow> bool" where
  "xcm_teleport_filter m = True"

definition xcm_reserve_transfer_filter :: "'j multi_location \<times> ('j, 'n, 'i) multi_asset list \<Rightarrow> bool" where
  "xcm_reserve_transfer_filter m = False"

definition local_origin_to_location ::
    "('acc, 'j, 'net, 'x) xcm_parts \<Rightarrow> ('acc, 'j) runtime_origin \<Rightarrow> 'j multi_location option" where
  "local_origin_to_location B = signed_to_account32 B (any_network B)"

definition send_xcm_origin ::
    "('acc, 'j, 'net, 'x) xcm_parts \<Rightarrow> ('acc, 'j) runtime_origin \<Rightarrow> 'j multi_location option" where
  "send_xcm_origin B = ensure_xcm_origin B (local_origin_to_location B)"

text \<open>
  A router sends the message, fails, or cannot reach the destination and gives both
  back, and then the next router of the tuple is asked.
\<close>

datatype ('j, 'm, 'e) send_result = Sent | SendFailed 'e | CannotReach "'j multi_location" 'm

type_synonym ('j, 'm, 'e, 's) router = "'j multi_location \<Rightarrow> 'm \<Rightarrow> 's \<Rightarrow> ('j, 'm, 'e) send_result \<times> 's"

fun route_first :: "('j, 'm, 'e, 's) router list \<Rightarrow> ('j, 'm, 'e, 's) router" where
  "route_first [] dest msg s = (CannotReach dest msg, s)"
| "route_first (r # rs) dest msg s = (case r dest msg s of
     (CannotReach dest' msg', t) \<Rightarrow> route_first rs dest' msg' t
   | result \<Rightarrow> result)"

definition xcm_router ::
    "('j, 'm, 'e, 's) router \<Rightarrow> ('j, 'm, 'e, 's) router \<Rightarrow> ('j, 'm, 'e, 's) router" where
  "xcm_router parent_as_ump xcmp_queue = route_first [parent_as_ump, xcmp_queue]"

section \<open>What the parts document\<close>

definition single_junction :: "u8 \<Rightarrow> ('j \<Rightarrow> 'b option) \<Rightarrow> 'j multi_location \<Rightarrow> 'b option" where
  "single_junction n read l = (if parents l = n then (case interior l of [j] \<Rightarrow> read j | _ \<Rightarrow> None) else None)"

definition signed_origin :: "'acc \<Rightarrow> ('acc, 'j) runtime_origin" where
  "signed_origin a = SystemOrigin (Signed a)"

definition origin_laws ::
    "('acc, 'j, 'net, 'x) xcm_parts \<Rightarrow> ('j \<Rightarrow> u32 option) \<Rightarrow> ('net \<Rightarrow> 'j \<Rightarrow> 'acc option) \<Rightarrow> bool" where
  "origin_laws B parachain_of account32_of \<longleftrightarrow>
     (\<forall>l. parent_is_preset B l \<noteq> None \<longrightarrow> l = relay_location)
     \<and> (\<forall>l. sibling_converts_via B l \<noteq> None \<longrightarrow> single_junction 1 parachain_of l \<noteq> None)
     \<and> (\<forall>net l. account32_aliases B net l = single_junction 0 (account32_of net) l)
     \<and> (\<forall>convert l k. sovereign_signed_via B convert l k =
          (if k = SovereignAccount then map_option signed_origin (convert l) else None))
     \<and> (\<forall>o' l k. relay_chain_as_native B o' l k = (if k = Native \<and> l = relay_location then Some o' else None))
     \<and> (\<forall>l k. sibling_as_native B l k =
          (if k = Native then map_option CumulusSibling (single_junction 1 parachain_of l) else None))
     \<and> (\<forall>net l k. signed_account32_native B net l k =
          (if k = Native then map_option signed_origin (single_junction 0 (account32_of net) l) else None))
     \<and> (\<forall>l k. xcm_passthrough B l k = (if k = XcmKind then Some (XcmOrigin l) else None))"

definition barrier_laws :: "('acc, 'j, 'net, 'x) xcm_parts \<Rightarrow> bool" where
  "barrier_laws B \<longleftrightarrow>
     (\<forall>l w m credit. take_weight_credit B l w (m, credit) =
        (if w \<le> credit then (Inr (), (m, credit - w)) else (Inl (Err ()), (m, credit))))
     \<and> (\<forall>allowed l w s. fst (allow_top_level_paid_from B allowed l w s) \<noteq> Inl Panic
          \<and> (\<not> allowed l \<longrightarrow> fst (allow_top_level_paid_from B allowed l w s) = Inl (Err ())))
     \<and> (\<forall>allowed l w s. allow_unpaid_from B allowed l w s = (if allowed l then (Inr (), s) else (Inl (Err ()), s)))"

section \<open>Nothing that arrives by XCM acts as root\<close>

lemma single_junction_Some:
  "single_junction n read l = Some x \<longleftrightarrow> parents l = n \<and> (\<exists>j. interior l = [j] \<and> read j = Some x)"
  by (auto simp: single_junction_def split: list.split)

text \<open>The tuple of origin converters, kind by kind.\<close>

lemma transact_origin_run:
  assumes "origin_laws B P A"
  shows "transact_origin B l kind = (case kind of
       SovereignAccount \<Rightarrow> map_option signed_origin (location_to_account_id B l)
     | Native \<Rightarrow> (if l = relay_location then Some CumulusRelay
         else (case single_junction 1 P l of Some n \<Rightarrow> Some (CumulusSibling n)
           | None \<Rightarrow> map_option signed_origin (single_junction 0 (A (any_network B)) l)))
     | XcmKind \<Rightarrow> Some (XcmOrigin l)
     | Superuser \<Rightarrow> None)"
  using assms unfolding origin_laws_def
  by (cases kind) (auto simp: transact_origin_def relay_chain_origin_def split: option.split)

text \<open>
  Only the relay chain, a sibling and an account of this chain own an account, each the one
  its converter gives.
\<close>

definition owns_account ::
    "('acc, 'j, 'net, 'x) xcm_parts \<Rightarrow> ('j \<Rightarrow> u32 option) \<Rightarrow> ('net \<Rightarrow> 'j \<Rightarrow> 'acc option) \<Rightarrow>
     'j multi_location \<Rightarrow> 'acc \<Rightarrow> bool" where
  "owns_account B P A l a \<longleftrightarrow>
     l = relay_location \<and> parent_is_preset B l = Some a
   \<or> single_junction 1 P l \<noteq> None \<and> sibling_converts_via B l = Some a
   \<or> single_junction 0 (A (any_network B)) l = Some a"

lemma single_junction_parents: "single_junction n read l = Some x \<Longrightarrow> parents l = n"
  by (simp add: single_junction_Some)

lemma location_to_account_id_iff:
  assumes "origin_laws B P A"
  shows "location_to_account_id B l = Some a \<longleftrightarrow> owns_account B P A l a"
proof -
  have preset: "l = relay_location" if "parent_is_preset B l \<noteq> None"
    using assms that by (simp add: origin_laws_def)
  have sibling: "single_junction 1 P l \<noteq> None" if "sibling_converts_via B l \<noteq> None"
    using assms that by (simp add: origin_laws_def)
  have local: "account32_aliases B (any_network B) l = single_junction 0 (A (any_network B)) l"
    using assms by (simp add: origin_laws_def)
  have "single_junction n P relay_location = None" "single_junction n (A net) relay_location = None" for n net
    by (simp_all add: single_junction_def relay_location_def)
  moreover have "single_junction 1 P l = None" if "single_junction 0 (A (any_network B)) l = Some x" for x
    using single_junction_parents [OF that] by (simp add: single_junction_def)
  ultimately show ?thesis
    using preset sibling
    unfolding location_to_account_id_def owns_account_def first_conversion.simps local
    by (cases "parent_is_preset B l"; cases "sibling_converts_via B l";
        cases "single_junction 0 (A (any_network B)) l") auto
qed

lemma transact_system_origin:
  assumes "origin_laws B P A" and "transact_origin B l kind = Some (SystemOrigin origin)"
  shows "\<exists>a. origin = Signed a \<and> owns_account B P A l a"
  using assms(2) location_to_account_id_iff [OF assms(1), of l]
  unfolding transact_origin_run [OF assms(1)]
  by (auto simp: signed_origin_def owns_account_def split: origin_kind.splits if_splits option.splits)

lemma collator_updates_by_root_only:
  assumes "T = paraxiom_collators to_event into_account registered_key reserve_op unreserve_op transfer_op
      free_op rocks" and "k \<in> {SetInvulnerables new, SetDesiredCandidates n, SetCandidacyBond bond}"
  shows "collator_dispatch T (Signed a) k s = (Inl (Err BadOrigin), s)"
  using assms
  by (auto simp: paraxiom_collators_def collator_dispatch_def transactional_def set_invulnerables_def
      set_desired_candidates_def set_candidacy_bond_def call_simps)

text \<open>
  C31. No \<open>Transact\<close> that arrives by XCM is dispatched as root, whatever origin kind it asks
  for. If the runtime's converters give it an origin of the system at all, that is the
  signed origin of the account its location owns, as \<open>LocationToAccountId\<close> computes it: for
  the relay chain the account of the parent's converter, for a sibling chain that of the
  sibling's converter, for an account of this chain that account itself, and no other location
  gets one. The calls of the collator selection that only root may make are refused to it and
  change nothing.
\<close>

theorem transact_never_root:
  assumes "origin_laws B P A" and "transact_origin B l kind = Some (SystemOrigin origin)"
    and "T = paraxiom_collators to_event into_account registered_key reserve_op unreserve_op transfer_op
      free_op rocks"
  shows "\<exists>a. origin = Signed a \<and> location_to_account_id B l = Some a
    \<and> (l = relay_location \<and> parent_is_preset B l = Some a
       \<or> single_junction 1 P l \<noteq> None \<and> sibling_converts_via B l = Some a
       \<or> single_junction 0 (A (any_network B)) l = Some a)
    \<and> collator_dispatch T origin (SetInvulnerables new) s = (Inl (Err BadOrigin), s)
    \<and> collator_dispatch T origin (SetDesiredCandidates n) s = (Inl (Err BadOrigin), s)
    \<and> collator_dispatch T origin (SetCandidacyBond bond) s = (Inl (Err BadOrigin), s)"
proof -
  obtain a where "origin = Signed a" and owns: "owns_account B P A l a"
    using transact_system_origin [OF assms(1,2)] by blast
  with collator_updates_by_root_only [OF assms(3), of _ new n bond a s]
  show ?thesis
    unfolding location_to_account_id_iff [OF assms(1)] owns [unfolded owns_account_def]
    using owns [unfolded owns_account_def] by auto
qed

section \<open>Who passes the barrier\<close>

lemma first_executes_Cons:
  "first_executes (f # fs) l w s = (case f l w s of
     (Inr _, t) \<Rightarrow> (Inr (), t) | (Inl Panic, t) \<Rightarrow> (Inl Panic, t) | (Inl (Err _), t) \<Rightarrow> first_executes fs l w t)"
  by (simp add: seq_def attempt_def ret_def split: prod.split sum.split fault.split)

text \<open>What the two patterns of the barrier match.\<close>

lemma reserve_transfer_iff:
  "reserve_transfer_to_relay i \<longleftrightarrow> (\<exists>x. i \<in> {InitiateReserveWithdraw \<lparr>parents = 1, interior = []\<rparr> x,
     DepositReserveAsset \<lparr>parents = 1, interior = []\<rparr> x, TransferReserveAsset \<lparr>parents = 1, interior = []\<rparr> x})"
proof -
  have "parents l = 1 \<and> interior l = [] \<longleftrightarrow> l = \<lparr>parents = 1, interior = []\<rparr>" for l :: "'a multi_location"
    by (cases l) simp
  then show ?thesis by (cases i) (auto simp: relay_location_def)
qed

lemma parent_or_executive_iff:
  "parent_or_executive_plurality executive l \<longleftrightarrow>
     parents l = 1 \<and> (interior l = [] \<or> (\<exists>j. interior l = [j] \<and> executive j))"
  by (auto simp: parent_or_executive_plurality_def split: list.split)

text \<open>
  C32. The barrier lets a message pass exactly if none of its instructions is an
  \<open>InitiateReserveWithdraw\<close>, \<open>DepositReserveAsset\<close> or \<open>TransferReserveAsset\<close> to the relay chain
  and it has been given enough weight credit, or pays for its execution in the way the
  builder's filter asks, or comes from the relay chain or a plurality of it that is the
  executive, which execute for free. A message with such an instruction is refused whoever
  sends it, and neither it nor the credit is touched.
\<close>

theorem barrier_accepts:
  assumes laws: "barrier_laws B"
  shows "(fst (paraxiom_barrier B l w (m, credit)) = Inr () \<longleftrightarrow>
       (\<forall>i \<in> set m. \<forall>x. i \<notin> {InitiateReserveWithdraw \<lparr>parents = 1, interior = []\<rparr> x,
          DepositReserveAsset \<lparr>parents = 1, interior = []\<rparr> x, TransferReserveAsset \<lparr>parents = 1, interior = []\<rparr> x})
       \<and> (w \<le> credit \<or> fst (allow_top_level_paid_from B (\<lambda>_. True) l w (m, credit)) = Inr ()
          \<or> parents l = 1 \<and> (interior l = [] \<or> (\<exists>j. interior l = [j] \<and> is_executive B j))))
    \<and> ((\<exists>i \<in> set m. \<exists>x. i \<in> {InitiateReserveWithdraw \<lparr>parents = 1, interior = []\<rparr> x,
          DepositReserveAsset \<lparr>parents = 1, interior = []\<rparr> x, TransferReserveAsset \<lparr>parents = 1, interior = []\<rparr> x}) \<longrightarrow>
       paraxiom_barrier B l w (m, credit) = (Inl (Err ()), (m, credit)))"
proof -
  let ?paid = "allow_top_level_paid_from B (\<lambda>_. True) l w (m, credit)"
  note laws' = laws [unfolded barrier_laws_def]
  have paid: "fst ?paid \<noteq> Inl Panic"
    by (rule laws' [THEN conjunct2, THEN conjunct1, THEN spec, THEN spec, THEN spec, THEN spec, THEN conjunct1])
  have credit: "take_weight_credit B l w (m, credit) =
      (if w \<le> credit then (Inr (), (m, credit - w)) else (Inl (Err ()), (m, credit)))"
    by (rule laws' [THEN conjunct1, THEN spec, THEN spec, THEN spec, THEN spec])
  have unpaid: "allow_unpaid_from B allowed l w t = (if allowed l then (Inr (), t) else (Inl (Err ()), t))" for allowed t
    by (rule laws' [THEN conjunct2, THEN conjunct2, THEN spec, THEN spec, THEN spec, THEN spec])
  have "first_executes [take_weight_credit B, allow_top_level_paid_from B (\<lambda>_. True),
      allow_unpaid_from B (parent_or_executive_plurality (is_executive B))] l w (m, credit) =
    (if w \<le> credit then (Inr (), (m, credit - w))
     else (case ?paid of (Inr _, t) \<Rightarrow> (Inr (), t) | (Inl _, t) \<Rightarrow>
       if parent_or_executive_plurality (is_executive B) l then (Inr (), t) else (Inl (Err ()), t)))"
    using paid unfolding first_executes_Cons credit unpaid
    by (auto simp: call_simps split: prod.split sum.split fault.split)
  then have "paraxiom_barrier B l w (m, credit) =
    (if \<exists>i \<in> set m. reserve_transfer_to_relay i then (Inl (Err ()), (m, credit))
     else if w \<le> credit then (Inr (), (m, credit - w))
     else (case ?paid of (Inr _, t) \<Rightarrow> (Inr (), t) | (Inl _, t) \<Rightarrow>
       if parent_or_executive_plurality (is_executive B) l then (Inr (), t) else (Inl (Err ()), t)))"
    unfolding paraxiom_barrier_def barrier_denies_first by simp
  then have run: "(fst (paraxiom_barrier B l w (m, credit)) = Inr () \<longleftrightarrow>
       \<not> (\<exists>i \<in> set m. reserve_transfer_to_relay i)
       \<and> (w \<le> credit \<or> fst ?paid = Inr () \<or> parent_or_executive_plurality (is_executive B) l))
    \<and> ((\<exists>i \<in> set m. reserve_transfer_to_relay i) \<longrightarrow>
       paraxiom_barrier B l w (m, credit) = (Inl (Err ()), (m, credit)))"
    by (cases ?paid rule: prod.exhaust; cases "fst ?paid") auto
  have moves: "(\<exists>i \<in> set m. reserve_transfer_to_relay i) \<longleftrightarrow> (\<exists>i \<in> set m. \<exists>x. i \<in>
      {InitiateReserveWithdraw \<lparr>parents = 1, interior = []\<rparr> x,
       DepositReserveAsset \<lparr>parents = 1, interior = []\<rparr> x, TransferReserveAsset \<lparr>parents = 1, interior = []\<rparr> x})"
    unfolding reserve_transfer_iff ..
  show ?thesis
    using run unfolding moves parent_or_executive_iff by blast
qed

type_synonym 'acc demo_junction = "u32 + 'acc"

definition demo_parachain :: "'acc demo_junction \<Rightarrow> u32 option" where
  "demo_parachain j = (case j of Inl n \<Rightarrow> Some n | Inr _ \<Rightarrow> None)"

definition demo_account32 :: "unit \<Rightarrow> 'acc demo_junction \<Rightarrow> 'acc option" where
  "demo_account32 net j = (case j of Inl _ \<Rightarrow> None | Inr a \<Rightarrow> Some a)"

definition demo_parts :: "('acc::semiring_1, 'acc demo_junction, unit, unit) xcm_parts" where
  "demo_parts =
     \<lparr>any_network = (), parent_is_preset = (\<lambda>l. if l = relay_location then Some 1 else None),
      sibling_converts_via = (\<lambda>l. map_option (\<lambda>n. of_nat (unat n)) (single_junction 1 demo_parachain l)),
      account32_aliases = (\<lambda>net. single_junction 0 (demo_account32 net)),
      sovereign_signed_via = (\<lambda>convert l k. if k = SovereignAccount then map_option signed_origin (convert l) else None),
      relay_chain_as_native = (\<lambda>o' l k. if k = Native \<and> l = relay_location then Some o' else None),
      sibling_as_native = (\<lambda>l k. if k = Native then map_option CumulusSibling (single_junction 1 demo_parachain l) else None),
      signed_account32_native = (\<lambda>net l k. if k = Native
        then map_option signed_origin (single_junction 0 (demo_account32 net) l) else None),
      xcm_passthrough = (\<lambda>l k. if k = XcmKind then Some (XcmOrigin l) else None),
      signed_to_account32 = (\<lambda>_ o'. case o' of SystemOrigin (Signed a) \<Rightarrow> Some \<lparr>parents = 0, interior = [Inr a]\<rparr>
        | _ \<Rightarrow> None),
      ensure_xcm_origin = (\<lambda>convert o'. convert o'),
      take_weight_credit = (\<lambda>l w (m, credit). if w \<le> credit then (Inr (), (m, credit - w))
        else (Inl (Err ()), (m, credit))),
      allow_top_level_paid_from = (\<lambda>allowed l w s. if allowed l \<and> ReserveAssetDeposited () \<in> set (fst s)
        then (Inr (), s) else (Inl (Err ()), s)),
      allow_unpaid_from = (\<lambda>allowed l w s. if allowed l then (Inr (), s) else (Inl (Err ()), s)),
      is_executive = (\<lambda>j. j = Inl 9)\<rparr>"

lemma demo_parts_laws: "origin_laws demo_parts demo_parachain demo_account32" "barrier_laws demo_parts"
  by (simp_all add: origin_laws_def barrier_laws_def demo_parts_def)

definition demo_barrier :: "(nat demo_junction, unit, u64) should_execute" where
  "demo_barrier = paraxiom_barrier (demo_parts :: (nat, nat demo_junction, unit, unit) xcm_parts)"

text \<open>
  A sibling's message without pay is refused, one with pay passes, and the relay chain's
  passes for free, but not if it moves reserves to the relay chain.
\<close>

theorem barrier_accepts_witness:
  "fst (demo_barrier \<lparr>parents = 1, interior = [Inl 2000]\<rparr> 5 ([OtherInstruction ()], 0)) \<noteq> Inr ()
   \<and> fst (demo_barrier \<lparr>parents = 1, interior = [Inl 2000]\<rparr> 5 ([ReserveAssetDeposited ()], 0)) = Inr ()
   \<and> fst (demo_barrier relay_location 5 ([OtherInstruction ()], 0)) = Inr ()
   \<and> demo_barrier relay_location 5 ([TransferReserveAsset relay_location ()], 7)
       = (Inl (Err ()), ([TransferReserveAsset relay_location ()], 7))"
proof -
  have "barrier_laws (demo_parts :: (nat, nat demo_junction, unit, unit) xcm_parts)" by (rule demo_parts_laws(2))
  note accepts = barrier_accepts [OF this, folded demo_barrier_def]
  show ?thesis
  proof (intro conjI)
    show "demo_barrier relay_location 5 ([TransferReserveAsset relay_location ()], 7)
       = (Inl (Err ()), ([TransferReserveAsset relay_location ()], 7))"
      by (rule accepts [THEN conjunct2, rule_format]) (simp add: relay_location_def)
  qed (simp_all only: accepts [THEN conjunct1],
      simp_all add: demo_parts_def parent_or_executive_plurality_def relay_location_def)
qed

definition demo_xcm_collators :: "(nat collator_event, nat, nat, unit) collator_config" where
  "demo_xcm_collators = paraxiom_collators (\<lambda>e. e) (\<lambda>_. 0) (\<lambda>_ _. True) (\<lambda>_ _. ret ()) (\<lambda>_ n w. (n, w))
     (\<lambda>_ _ _. ret ()) (\<lambda>_ _. 0) (rocks_db_weight 1000)"

definition demo_xcm_state :: "(nat collator_event, nat, unit) collator_state" where
  "demo_xcm_state = \<lparr>block_number = 1, events = [], invulnerables = [3], candidates = [],
     last_authored_block = Map.empty, desired_candidates = 0, candidacy_bond = 0, extra_weights = [], world = ()\<rparr>"

text \<open>A sibling's sovereign account cannot set the invulnerable collators.\<close>

theorem transact_never_root_witness:
  "transact_origin demo_parts \<lparr>parents = 1, interior = [Inl 2000]\<rparr> SovereignAccount
     = Some (SystemOrigin (Signed (2000 :: nat)))
   \<and> collator_dispatch demo_xcm_collators (Signed 2000) (SetInvulnerables [2000]) demo_xcm_state
     = (Inl (Err BadOrigin), demo_xcm_state)"
proof -
  have origin: "transact_origin demo_parts \<lparr>parents = 1, interior = [Inl 2000]\<rparr> SovereignAccount
      = Some (SystemOrigin (Signed (2000 :: nat)))"
    unfolding transact_origin_run [OF demo_parts_laws(1)]
    by (simp add: location_to_account_id_def demo_parts_def relay_location_def single_junction_def
        demo_parachain_def signed_origin_def)
  from transact_never_root [OF demo_parts_laws(1) origin demo_xcm_collators_def, where new = "[2000]" and s = demo_xcm_state
      and n = 0 and bond = 0]
  have "collator_dispatch demo_xcm_collators (Signed 2000) (SetInvulnerables [2000]) demo_xcm_state
     = (Inl (Err BadOrigin), demo_xcm_state)"
    by blast
  with origin show ?thesis ..
qed

section \<open>Messages that leave the chain\<close>

text \<open>
  The relay chain is reached through the first router, a sibling through the second; a
  destination neither takes is given back with the message and nothing is changed.
\<close>

lemma xcm_router_run:
  assumes "\<And>d m s. d \<noteq> relay_location \<Longrightarrow> up d m s = (CannotReach d m, s)"
    and "\<And>d m s. single_junction 1 P d = None \<Longrightarrow> across d m s = (CannotReach d m, s)"
    and "\<And>m s d' m'. fst (up relay_location m s) \<noteq> CannotReach d' m'"
  shows "xcm_router up across d m s =
    (if d = relay_location then up d m s else if single_junction 1 P d \<noteq> None then
       (case across d m s of (CannotReach d' m', t) \<Rightarrow> (CannotReach d' m', t) | result \<Rightarrow> result)
     else (CannotReach d m, s))"
proof (cases "d = relay_location")
  case True
  obtain r t where r: "up relay_location m s = (r, t)" by fastforce
  with assms(3) [of m s] True show ?thesis by (cases r) (auto simp: xcm_router_def)
next
  case False
  then have "up d m s = (CannotReach d m, s)" by (rule assms(1))
  moreover obtain r t where "across d m s = (r, t)" by fastforce
  ultimately show ?thesis using False assms(2) [of d m s] by (cases r) (auto simp: xcm_router_def)
qed

text \<open>
  The comment at \<open>LocalOriginToLocation\<close> says no local origin may send; the conversion it
  names gives every signed origin the location of its account, which is what \<open>send\<close> asks for.
\<close>

lemma signed_accounts_may_send:
  assumes "\<And>convert o'. ensure_xcm_origin B convert o' = convert o'"
    and "\<And>net a. signed_to_account32 B net (SystemOrigin (Signed a)) = Some \<lparr>parents = 0, interior = [junction net a]\<rparr>"
  shows "send_xcm_origin B (SystemOrigin (Signed a)) = Some \<lparr>parents = 0, interior = [junction (any_network B) a]\<rparr>"
  by (simp add: send_xcm_origin_def local_origin_to_location_def assms)

text \<open>Both copies of the filters decide alike.\<close>

lemma common_pattern:
  "(case i of InitiateReserveWithdraw loc _ \<Rightarrow> parents loc = 1 \<and> interior loc = []
       | DepositReserveAsset dest _ \<Rightarrow> parents dest = 1 \<and> interior dest = []
       | TransferReserveAsset dest _ \<Rightarrow> parents dest = 1 \<and> interior dest = []
       | _ \<Rightarrow> False) = reserve_transfer_to_relay i"
  by (cases i) simp_all

lemma common_filters_agree:
  "common_deny_then_try common_deny_reserve_transfer allow l w s = runtime_barrier allow l w s"
  by (simp add: common_deny_then_try_def common_deny_reserve_transfer_def runtime_barrier_def
      deny_then_try_def deny_reserve_transfer_def common_pattern call_simps)

end
