(* ===== verification/Confinement.thy ===== *)
theory Confinement
  imports Whole_Runtime Xcm_Runtime
begin

text \<open>
  Who can do what to whom in the runtime of \<open>Whole_Runtime\<close>. What an account owns, its feeds,
  its names and their stores, is changed by nothing but calls it signs, and who builds the
  blocks is governed by nobody but root. The calls come as extrinsics or from other
  pallets; \<open>transact\<close> is the call of a message that another chain sends, with the origin
  that the converters of \<open>Xcm_Runtime\<close> give it.
\<close>

section \<open>Calls that arrive by XCM\<close>

text \<open>
  An origin of the relay chain or of the XCM pallet is one that the checks of the four
  pallets do not know; they refuse it as they refuse none.
\<close>

fun foreign_origin :: "('acc, 'j) runtime_origin \<Rightarrow> 'acc origin" where
  "foreign_origin (SystemOrigin origin) = origin"
| "foreign_origin (CumulusSibling n) = SiblingPara n"
| "foreign_origin CumulusRelay = NoOrigin"
| "foreign_origin (XcmOrigin l) = NoOrigin"

text \<open>A \<open>Transact\<close> whose origin cannot be converted does nothing.\<close>

definition transact ::
    "(AccountId, 'j, 'net, 'x) xcm_parts \<Rightarrow> 'j multi_location \<Rightarrow> origin_kind \<Rightarrow> bytes \<Rightarrow> 'w whole_item list" where
  "transact B l kind bs =
     (case transact_origin B l kind of
        None \<Rightarrow> []
      | Some origin \<Rightarrow> [ForeignDispatch (foreign_origin origin) bs])"

fun item_origin :: "'w whole_item \<Rightarrow> AccountId origin option" where
  "item_origin (RawExtrinsic origin bs) = Some origin"
| "item_origin (ForeignDispatch origin bs) = Some origin"
| "item_origin (ForeignChange f) = None"

lemma item_call_origin: "item_call T it = Some (origin, c) \<Longrightarrow> item_origin it = Some origin"
  by (cases it) (auto split: option.splits list.splits)

lemma transact_origins:
  assumes "origin_laws B P A" and "it \<in> set (transact B l kind bs)"
  shows "item_origin it \<noteq> Some Root"
    and "item_origin it = Some (Signed a) \<Longrightarrow>
      l = relay_location \<or> single_junction 1 P l \<noteq> None \<or> single_junction 0 (A (any_network B)) l = Some a"
  using assms(2) location_to_account_id_iff [OF assms(1), of l a, unfolded owns_account_def]
  unfolding transact_def transact_origin_run [OF assms(1)]
  by (auto simp: signed_origin_def split: origin_kind.splits if_splits option.splits
      dest!: map_option_eq_Some [THEN iffD1, OF sym])

section \<open>What an account owns\<close>







section \<open>Who governs the collators\<close>

definition same_rules ::
    "('ev, 'acc, 'w, 'm) collator_state_scheme \<Rightarrow> ('ev, 'acc, 'w, 'm) collator_state_scheme \<Rightarrow> bool" where
  "same_rules s t \<longleftrightarrow> invulnerables t = invulnerables s \<and> desired_candidates t = desired_candidates s
     \<and> candidacy_bond t = candidacy_bond s"

interpretation rules_frame: call_frame same_rules
  by unfold_locales (simp_all add: same_rules_def)

lemma same_rules_elsewhere [simp]:
  "same_rules (s\<lparr>world := w\<rparr>) t = same_rules s t" "same_rules s (t\<lparr>world := w\<rparr>) = same_rules s t"
  "same_rules s (t\<lparr>events := evs\<rparr>) = same_rules s t"
  by (simp_all add: same_rules_def)

lemma dispatch_same_rules:
  assumes "collator_dispatch C origin k s = (r, t)" and "collator_inv C s" and "\<not> update_origin C origin"
  shows "same_rules s t"
proof (cases r)
  case (Inl e)
  with assms(1) have "t = s" unfolding collator_dispatch_def by (metis transactional_atomic)
  then show ?thesis by (simp add: same_rules_def)
next
  case (Inr w)
  note ok = assms(1) [unfolded Inr]
  show ?thesis
  proof (cases k)
    case RegisterAsCandidate
    with ok have "register_as_candidate C origin s = (Inr w, t)" by (simp add: collator_dispatch_def call_ok)
    then show ?thesis by (elim register_OkE) (simp add: after_register_def same_rules_def)
  next
    case LeaveIntent
    with ok have "leave_intent C origin s = (Inr w, t)" by (simp add: collator_dispatch_def call_ok)
    then show ?thesis
    proof (rule leave_OkE)
      show "distinct (map cand_who (candidates s))" using assms(2) by (simp add: collator_inv_def)
    qed (simp add: same_rules_def)
  qed (use ok assms(3) in \<open>auto simp: collator_dispatch_def set_invulnerables_def set_desired_candidates_def
      set_candidacy_bond_def call_ok\<close>)
qed

lemma authorship_same_rules:
  assumes "runtime_authorship X C d s = (Inr (), t)"
  shows "same_rules s t"
proof (cases "find_author_account X d (world s)")
  case None
  with assms show ?thesis by (simp add: runtime_authorship_def call_simps same_rules_def)
next
  case (Some author)
  with assms have "note_author C author s = (Inr (), t)" by (simp add: runtime_authorship_def call_simps)
  then show ?thesis
    by (auto simp: note_author_run same_rules_def split: prod.splits sum.splits fault.splits)
qed

lemma session_same_rules:
  assumes "rotation_follows (rotate_to X)" and "collator_inv C s" and "runtime_session X C s = (Inr (), t)"
  shows "same_rules s t"
proof (cases "period_ends X session_period session_offset (block_number s)")
  case False
  with assms(3) show ?thesis by (simp add: runtime_session_def call_simps same_rules_def)
next
  case True
  obtain i w v u w' evs where u: "new_session C i (s\<lparr>world := w\<rparr>) = (Inr (Some v), u)"
      and turn: "rotate_to X (new_session C) s = (Inr (), u\<lparr>world := w', events := evs\<rparr>)"
    by (rule collator_manager.rotation_returns [OF assms(1,2)])
  have "collator_inv C (s\<lparr>world := w\<rparr>)" using assms(2) by simp
  from new_session_run [OF this, of i] u have "same_rules s u" by (auto simp: same_rules_def)
  with True assms(3) turn show ?thesis by (auto simp: runtime_session_def call_simps same_rules_def)
qed

fun not_governing :: "('ev, 'acc, 'vid, 'w, 'x) collator_config_scheme \<Rightarrow> ('acc, 'w) block_item \<Rightarrow> bool" where
  "not_governing C (CollatorSelectionCall origin k) = (\<not> update_origin C origin)"
| "not_governing C (Elsewhere f) = True"

lemma run_items_same_rules:
  assumes "currency_returns C" and "collator_inv C s" and "list_all (not_governing C) items"
    and "for_each items (run_item C) s = (Inr (), t)"
  shows "same_rules s t"
  using assms(2-)
proof (induction items arbitrary: s)
  case Nil
  then show ?case by (simp add: call_simps same_rules_def)
next
  case (Cons it items)
  obtain u where u: "run_item C it s = (Inr (), u)" "for_each items (run_item C) u = (Inr (), t)"
    using Cons.prems(3) by (auto simp: call_ok)
  have "collator_inv C u" using run_item_returns [OF assms(1) Cons.prems(1), of it] u(1) by auto
  with Cons.IH u(2) Cons.prems(2) have "same_rules u t" by simp
  moreover have "same_rules s u"
  proof (cases it)
    case (CollatorSelectionCall origin k)
    obtain r v where v: "collator_dispatch C origin k s = (r, v)" by fastforce
    have "u = v" using u(1) v CollatorSelectionCall
      by (auto simp: seq_def attempt_def ret_def split: sum.splits fault.splits)
    with dispatch_same_rules [OF v Cons.prems(1)] Cons.prems(2) CollatorSelectionCall show ?thesis by simp
  qed (use u(1) in \<open>auto simp: modify_def same_rules_def\<close>)
  ultimately show ?case by (rule rules_frame.R_trans [rotated])
qed

lemma run_block_same_rules:
  assumes "neighbours_ok X C" and "collator_inv C s" and "list_all (not_governing C) (b_items b)"
    and "run_block X C b s = (Inr (), t)"
  shows "same_rules s t"
proof -
  let ?s = "s\<lparr>block_number := block_number s + 1, events := [], extra_weights := [],
    world := b_before b (world s)\<rparr>"
  have ok: "currency_returns C" "rotation_follows (rotate_to X)" using assms(1) by (simp_all add: neighbours_ok_def)
  have inv: "collator_inv C ?s" using assms(2) by simp
  obtain u v where run: "runtime_authorship X C (b_digest b) ?s = (Inr (), u)" "runtime_session X C u = (Inr (), v)"
      "for_each (b_items b) (run_item C) v = (Inr (), t)"
    using assms(4) by (auto simp: run_block_def collator_hooks_def call_ok modify_def)
  have u: "collator_inv C u" using runtime_authorship_run [OF ok(1) inv, of X "b_digest b"] run(1) by auto
  have v: "collator_inv C v" using runtime_session_run [OF ok(2) u] run(2) by auto
  from authorship_same_rules [OF run(1)] session_same_rules [OF ok(2) u run(2)]
    run_items_same_rules [OF ok(1) v assms(3) run(3)]
  show ?thesis by (simp add: same_rules_def)
qed

lemma run_blocks_same_rules:
  assumes "neighbours_ok X C" and "collator_inv C s" and "\<forall>b \<in> set bs. list_all (not_governing C) (b_items b)"
    and "run_blocks X C bs s = (Inr (), t)"
  shows "same_rules s t"
  using assms(2-) unfolding run_blocks_def
proof (induction bs arbitrary: s)
  case Nil
  then show ?case by (simp add: call_simps same_rules_def)
next
  case (Cons b bs)
  obtain u where u: "run_block X C b s = (Inr (), u)" "for_each bs (run_block X C) u = (Inr (), t)"
    using Cons.prems(3) by (auto simp: call_ok)
  have "collator_inv C u" using run_block_returns [OF assms(1) Cons.prems(1), of b] u(1) by auto
  with Cons.IH u(2) Cons.prems(2) have "same_rules u t" by simp
  with run_block_same_rules [OF assms(1) Cons.prems(1) _ u(1)] Cons.prems(2) show ?case
    by (simp add: same_rules_def)
qed

section \<open>Runs of the whole runtime\<close>

lemma whole_run:
  assumes "neighbours_ok X C" and "collator_inv C (collator_part s)"
    and "no_panic T (concat (map (chain_block_of T) bs)) (chain_part s)"
  obtains u where "run_blocks X C (map (collator_block_of T) bs) (collator_part s) = (Inr (), u)"
    and "run_whole_blocks T C X bs s =
      (Inr (), s\<lparr>chain_part := snd (run_items T (concat (map (chain_block_of T) bs)) (chain_part s)),
         collator_part := u\<rparr>)"
proof -
  obtain u where "run_blocks X C (map (collator_block_of T) bs) (collator_part s) = (Inr (), u)"
    using run_blocks_return [OF assms(1,2)] by blast
  from that [OF this whole_blocks_parts [OF assms(3) this]] show ?thesis .
qed


text \<open>
  A block of what users, other chains and other pallets do by themselves: signed extrinsics,
  calls by XCM from any location and with any kind of origin, changes by other pallets.
\<close>

definition outside_item :: "(AccountId, 'j, 'net, 'x) xcm_parts \<Rightarrow> 'w whole_item \<Rightarrow> bool" where
  "outside_item B it \<longleftrightarrow> (\<exists>who bs. it = RawExtrinsic (Signed who) bs)
     \<or> (\<exists>l kind bs. it \<in> set (transact B l kind bs)) \<or> (\<exists>f. it = ForeignChange f)"

lemma outside_not_root:
  assumes "origin_laws B P A" and "outside_item B it"
  shows "item_origin it \<noteq> Some Root"
  using assms(2) transact_origins(1) [OF assms(1)] by (auto simp: outside_item_def)

lemma collator_blocks_not_governing:
  fixes bs :: "('digest, 'w) whole_block list"
  assumes "update_origin C = (\<lambda>origin. origin = Root)"
    and "\<forall>blk \<in> set bs. \<forall>it \<in> set (w_items blk). item_origin it \<noteq> Some Root"
  shows "\<forall>b \<in> set (map (collator_block_of T) bs). list_all (not_governing C) (b_items b)"
proof -
  have "list_all (not_governing C) (collator_items_of T it)" if "item_origin it \<noteq> Some Root" for it :: "'w whole_item"
    using that assms(1)
    by (auto simp: collator_items_of_def split: option.splits whole_call.splits dest: item_call_origin)
  with assms(2) show ?thesis by (auto simp: list_all_iff collator_block_of_def)
qed

text \<open>
  C4. Only root governs the collators. Whatever users sign and other chains send by XCM,
  with whatever kind of origin, and whatever other pallets do to their own storage, in any
  number of blocks: the invulnerable collators, the number of candidates that is desired
  and the bond stay what they are. Authors, new sessions and removals do not change them
  either.
\<close>

theorem only_root_governs:
  assumes "origin_laws B P A"
    and C: "C = paraxiom_collators to_event into_account registered_key reserve_op unreserve_op transfer_op
      free_op rocks"
    and "neighbours_ok X C" and "collator_inv C (collator_part s)"
    and "no_panic T (concat (map (chain_block_of T) bs)) (chain_part s)"
    and "\<forall>blk \<in> set bs. \<forall>it \<in> set (w_items blk). outside_item B it"
  shows "\<exists>t. run_whole_blocks T C X bs s = (Inr (), t)
    \<and> invulnerables (collator_part t) = invulnerables (collator_part s)
    \<and> desired_candidates (collator_part t) = desired_candidates (collator_part s)
    \<and> candidacy_bond (collator_part t) = candidacy_bond (collator_part s)"
proof -
  obtain u where u: "run_blocks X C (map (collator_block_of T) bs) (collator_part s) = (Inr (), u)"
      "run_whole_blocks T C X bs s =
        (Inr (), s\<lparr>chain_part := snd (run_items T (concat (map (chain_block_of T) bs)) (chain_part s)),
           collator_part := u\<rparr>)"
    by (rule whole_run [OF assms(3-5)])
  have "update_origin C = (\<lambda>origin. origin = Root)" by (simp add: C paraxiom_collators_def)
  moreover have "\<forall>blk \<in> set bs. \<forall>it \<in> set (w_items blk). item_origin it \<noteq> Some Root"
    using assms(6) outside_not_root [OF assms(1)] by blast
  ultimately have "same_rules (collator_part s) u"
    by (intro run_blocks_same_rules [OF assms(3,4) _ u(1)] collator_blocks_not_governing)
  with u(2) show ?thesis by (simp add: same_rules_def)
qed

text \<open>
  Account 1 owns name 42. A sibling chain, with its sovereign account, tries to claim the
  name and to set the invulnerable collators, and account 2 registers a feed.
\<close>

definition demo_outside :: "(AccountId option, AccountId \<Rightarrow> u128 \<times> u128) whole_block list" where
  "demo_outside =
     [\<lparr>w_before = (\<lambda>w. w), w_digest = Some 1, w_items =
        transact demo_parts \<lparr>parents = 1, interior = [Inl 2000]\<rparr> SovereignAccount (enc_call demo_chain (ClaimName 42))
        @ transact demo_parts \<lparr>parents = 1, interior = [Inl 2000]\<rparr> SovereignAccount
            (enc_collator_call (SetInvulnerables []))
        @ [RawExtrinsic (Signed 2) (enc_call demo_chain (RegisterFeed [1] [2] [3]))]\<rparr>]"

definition demo_claimed :: "(AccountId collator_event, AccountId \<Rightarrow> u128 \<times> u128) whole_state" where
  "demo_claimed = demo_whole_start\<lparr>chain_part := claimed\<rparr>"

lemma demo_transact:
  "transact demo_parts \<lparr>parents = 1, interior = [Inl 2000]\<rparr> SovereignAccount bs = [ForeignDispatch (Signed 2000) bs]"
  unfolding transact_def transact_origin_run [OF demo_parts_laws(1)]
  by (simp add: location_to_account_id_def demo_parts_def relay_location_def single_junction_def
      demo_parachain_def signed_origin_def)

lemma demo_outside_items:
  "concat (map (chain_block_of demo_chain) demo_outside) =
     [NewBlock, Extrinsic (Signed 2000) (ClaimName 42), Extrinsic (Signed 2) (RegisterFeed [1] [2] [3])]"
proof -
  have "whole_call_fits demo_chain (ChainCall (RegisterFeed [1] [2] [3]))"
    by (simp add: whole_call_fits_def call_bounded_def counts_fit_def feed_bounded_def demo_chain_def)
  with dec_chain_enc [of demo_chain "ClaimName 42" "[]"] dec_chain_enc [of demo_chain "RegisterFeed [1] [2] [3]" "[]"]
    dec_collator_enc [of demo_chain "SetInvulnerables []" "[]"]
  show ?thesis
    by (simp add: demo_outside_def demo_transact chain_block_of_def chain_items_of_def whole_call_fits_def
        call_bounded_def counts_fit_def)
qed

lemma demo_outside_no_panic:
  "no_panic demo_chain (concat (map (chain_block_of demo_chain) demo_outside)) (chain_part demo_claimed)"
  by (simp add: demo_outside_items demo_claimed_def dispatch_def claim_name_signed register_feed_signed
      transactional_def next_block_def split: prod.split)

lemma demo_claimed_inv: "collator_inv demo_block_collators (collator_part demo_claimed)"
  by (simp add: collator_inv_def demo_claimed_def demo_whole_start_def demo_block_collators_def paraxiom_collators_def)


theorem only_root_governs_witness:
  "\<exists>t. run_whole_blocks demo_chain demo_block_collators demo_block_ops demo_outside demo_claimed = (Inr (), t)
    \<and> invulnerables (collator_part t) = [1]"
proof -
  have "\<forall>blk \<in> set demo_outside. \<forall>it \<in> set (w_items blk). outside_item demo_parts it"
    by (auto simp: demo_outside_def outside_item_def)
  from only_root_governs [OF demo_parts_laws(1) demo_block_collators_def demo_neighbours demo_claimed_inv
      demo_outside_no_panic this]
  show ?thesis by (auto simp: demo_claimed_def demo_whole_start_def)
qed

end
