(* ===== verification/Runtime_Limits.thy ===== *)
theory Runtime_Limits
  imports Runtime_Config
begin

text \<open>
  The limits and deposits of the runtime (\<open>src/runtime/paraxiom/src/lib.rs\<close>): the weight a
  block and each class of extrinsics may use, the part of a block set aside for
  messages, the deposits of the asset, contract, preimage and democracy pallets, who may
  call democracy's privileged operations, and the gas a contract call of the runtime's
  interface gets.

  FRAME's builder checks the settings and fills in the rest; it is the parameter \<open>build\<close>
  and gets what the source sets. \<open>mul_percent\<close> is a \<open>Perbill\<close> of so many percent times a
  number; \<open>percent_ok\<close> states that it is exact where the result is whole. The execution
  time per second and the size of a proof of validity are the relay chain's.
\<close>

section \<open>Block limits\<close>

definition average_on_initialize_ratio :: nat where
  "average_on_initialize_ratio = 5"

definition normal_dispatch_ratio :: nat where
  "normal_dispatch_ratio = 75"

definition maximum_block_weight :: "u64 \<Rightarrow> u64 \<Rightarrow> weight" where
  "maximum_block_weight ref_time_per_second max_pov_size =
     \<lparr>ref_time = max_block_time ref_time_per_second, proof_size = max_pov_size\<rparr>"

definition ratio_times :: "(nat \<Rightarrow> u64 \<Rightarrow> u64) \<Rightarrow> nat \<Rightarrow> weight \<Rightarrow> weight" where
  "ratio_times mul_percent p w =
     \<lparr>ref_time = mul_percent p (ref_time w), proof_size = mul_percent p (proof_size w)\<rparr>"

text \<open>\<open>max_with_normal_ratio\<close> is FRAME's.\<close>

definition runtime_block_length :: "(u32 \<Rightarrow> nat \<Rightarrow> 'length) \<Rightarrow> 'length" where
  "runtime_block_length max_with_normal_ratio =
     max_with_normal_ratio (5 * 1024 * 1024) normal_dispatch_ratio"

datatype dispatch_class = Normal | Operational | Mandatory

record class_settings =
  base_extrinsic :: weight
  max_total :: "weight option"
  reserved :: "weight option"

record weight_settings =
  base_block :: weight
  per_class :: "dispatch_class \<Rightarrow> class_settings"
  avg_block_initialization :: nat

definition for_class ::
    "dispatch_class list \<Rightarrow> (class_settings \<Rightarrow> class_settings) \<Rightarrow> weight_settings \<Rightarrow> weight_settings" where
  "for_class classes f b =
     b\<lparr>per_class := \<lambda>c. if c \<in> set classes then f (per_class b c) else per_class b c\<rparr>"

text \<open>The builder starts from FRAME's defaults \<open>b0\<close>.\<close>

definition runtime_block_weights ::
    "(nat \<Rightarrow> u64 \<Rightarrow> u64) \<Rightarrow> u64 \<Rightarrow> weight \<Rightarrow> weight_settings \<Rightarrow> (weight_settings \<Rightarrow> 'limits option) \<Rightarrow> 'limits option" where
  "runtime_block_weights mul_percent per_nanos maximum b0 build_or_panic =
     build_or_panic
       ((for_class [Operational] (\<lambda>weights. weights
           \<lparr>max_total := Some maximum,
            reserved := Some
              \<lparr>ref_time = ref_time maximum - ref_time (ratio_times mul_percent normal_dispatch_ratio maximum),
               proof_size = proof_size maximum - proof_size (ratio_times mul_percent normal_dispatch_ratio maximum)\<rparr>\<rparr>)
         (for_class [Normal] (\<lambda>weights. weights
           \<lparr>max_total := Some (ratio_times mul_percent normal_dispatch_ratio maximum)\<rparr>)
         (for_class [Normal, Operational, Mandatory] (\<lambda>weights. weights
           \<lparr>base_extrinsic := extrinsic_base_weight per_nanos\<rparr>)
         (b0\<lparr>base_block := block_execution_weight per_nanos\<rparr>))))
       \<lparr>avg_block_initialization := average_on_initialize_ratio\<rparr>)"

text \<open>\<open>limit_of\<close> reads a class's limit off the limits the builder made.\<close>

definition deletion_weight_limit ::
    "(dispatch_class \<Rightarrow> 'limits \<Rightarrow> weight option) \<Rightarrow> ('limits \<Rightarrow> weight) \<Rightarrow> 'limits \<Rightarrow> weight" where
  "deletion_weight_limit limit_of max_block limits =
     (case limit_of Normal limits of None \<Rightarrow> max_block limits | Some w \<Rightarrow> w)"

definition reserved_xcmp_weight :: "weight \<Rightarrow> weight" where
  "reserved_xcmp_weight maximum = \<lparr>ref_time = ref_time maximum div 4, proof_size = proof_size maximum div 4\<rparr>"

definition reserved_dmp_weight :: "weight \<Rightarrow> weight" where
  "reserved_dmp_weight maximum = \<lparr>ref_time = ref_time maximum div 4, proof_size = proof_size maximum div 4\<rparr>"

definition maximum_scheduler_weight :: "(nat \<Rightarrow> u64 \<Rightarrow> u64) \<Rightarrow> ('limits \<Rightarrow> weight) \<Rightarrow> 'limits \<Rightarrow> weight" where
  "maximum_scheduler_weight mul_percent max_block limits =
     ratio_times mul_percent normal_dispatch_ratio (max_block limits)"

section \<open>Deposits\<close>

definition millicents :: u128 where
  "millicents = 1000000000"

definition cents :: u128 where
  "cents = 1000 * millicents"

definition dollars :: u128 where
  "dollars = 100 * cents"

record asset_limits =
  asset_deposit :: u128
  asset_account_deposit :: u128
  approval_deposit :: u128
  string_limit :: u32
  metadata_deposit_base :: u128
  metadata_deposit_per_byte :: u128
  remove_items_limit :: u32

definition paraxiom_assets :: asset_limits where
  "paraxiom_assets = \<lparr>asset_deposit = 100 * dollars, asset_account_deposit = dollars,
     approval_deposit = dollars, string_limit = 50, metadata_deposit_base = 10 * dollars,
     metadata_deposit_per_byte = dollars, remove_items_limit = 1000\<rparr>"

record contract_limits =
  deposit_per_item :: u128
  deposit_per_byte :: u128
  deletion_queue_depth :: u32
  call_stack :: nat
  max_code_len :: u32
  max_storage_key_len :: u32
  max_debug_buffer_len :: u32
  unsafe_unstable_interface :: bool

definition paraxiom_contracts :: contract_limits where
  "paraxiom_contracts = \<lparr>deposit_per_item = runtime_deposit 1 0, deposit_per_byte = runtime_deposit 0 1,
     deletion_queue_depth = 128, call_stack = 31, max_code_len = 256 * 1024, max_storage_key_len = 128,
     max_debug_buffer_len = 2 * 1024 * 1024, unsafe_unstable_interface = True\<rparr>"

definition preimage_base_deposit :: u128 where
  "preimage_base_deposit = runtime_deposit 2 64"

definition preimage_byte_deposit :: u128 where
  "preimage_byte_deposit = runtime_deposit 0 1"

section \<open>Origins\<close>

definition ensure_root :: "'acc origin \<Rightarrow> (dispatch_error, 's, unit) call" where
  "ensure_root o' = ensure (o' = Root) BadOrigin"

text \<open>\<open>EitherOfDiverse\<close>: the second filter is asked if the first refuses.\<close>

definition either_of_diverse ::
    "('acc origin \<Rightarrow> (dispatch_error, 's, 'a) call) \<Rightarrow> ('acc origin \<Rightarrow> (dispatch_error, 's, 'b) call) \<Rightarrow>
     'acc origin \<Rightarrow> (dispatch_error, 's, 'a + 'b) call" where
  "either_of_diverse f g o' =
     seq (attempt (f o')) (\<lambda>r. case r of
       Inr a \<Rightarrow> ret (Inl a)
     | Inl _ \<Rightarrow> seq (g o') (\<lambda>b. ret (Inr b)))"

datatype democracy_call =
    ExternalPropose | ExternalProposeMajority | ExternalProposeDefault | FastTrack | InstantFastTrack
  | EmergencyCancel | CancelProposal | Blacklist | VetoExternal

text \<open>Who may make a privileged call of the democracy pallet.\<close>

fun democracy_origin :: "democracy_call \<Rightarrow> 'acc origin \<Rightarrow> (dispatch_error, 's, unit + 'acc) call" where
  "democracy_origin ExternalPropose o' = either_of_diverse ensure_root ensure_signed o'"
| "democracy_origin ExternalProposeMajority o' = either_of_diverse ensure_root ensure_signed o'"
| "democracy_origin ExternalProposeDefault o' = either_of_diverse ensure_root ensure_signed o'"
| "democracy_origin FastTrack o' = either_of_diverse ensure_root ensure_signed o'"
| "democracy_origin InstantFastTrack o' = either_of_diverse ensure_root ensure_signed o'"
| "democracy_origin EmergencyCancel o' = seq (ensure_root o') (\<lambda>u. ret (Inl u))"
| "democracy_origin CancelProposal o' = seq (ensure_root o') (\<lambda>u. ret (Inl u))"
| "democracy_origin Blacklist o' = seq (ensure_root o') (\<lambda>u. ret (Inl u))"
| "democracy_origin VetoExternal o' = seq (ensure_signed o') (\<lambda>a. ret (Inr a))"

definition instant_allowed :: bool where
  "instant_allowed = True"

section \<open>The contracts interface\<close>

definition contracts_debug_output :: bool where
  "contracts_debug_output = True"

text \<open>\<open>bare_call\<close> and \<open>bare_instantiate\<close> are the contracts pallet's.\<close>

definition contracts_call ::
    "('acc \<Rightarrow> 'acc \<Rightarrow> u128 \<Rightarrow> weight \<Rightarrow> u128 option \<Rightarrow> bytes \<Rightarrow> bool \<Rightarrow> 'w \<Rightarrow> 'r \<times> 'w) \<Rightarrow> weight \<Rightarrow>
     'acc \<Rightarrow> 'acc \<Rightarrow> u128 \<Rightarrow> weight option \<Rightarrow> u128 option \<Rightarrow> bytes \<Rightarrow> 'w \<Rightarrow> 'r \<times> 'w" where
  "contracts_call bare_call max_block origin dest value gas_limit storage_deposit_limit input_data =
     (let gas = (case gas_limit of None \<Rightarrow> max_block | Some g \<Rightarrow> g) in
      bare_call origin dest value gas storage_deposit_limit input_data contracts_debug_output)"

definition contracts_instantiate ::
    "('acc \<Rightarrow> u128 \<Rightarrow> weight \<Rightarrow> u128 option \<Rightarrow> 'code \<Rightarrow> bytes \<Rightarrow> bytes \<Rightarrow> bool \<Rightarrow> 'w \<Rightarrow> 'r \<times> 'w) \<Rightarrow> weight \<Rightarrow>
     'acc \<Rightarrow> u128 \<Rightarrow> weight option \<Rightarrow> u128 option \<Rightarrow> 'code \<Rightarrow> bytes \<Rightarrow> bytes \<Rightarrow> 'w \<Rightarrow> 'r \<times> 'w" where
  "contracts_instantiate bare_instantiate max_block origin value gas_limit storage_deposit_limit code data salt =
     (let gas = (case gas_limit of None \<Rightarrow> max_block | Some g \<Rightarrow> g) in
      bare_instantiate origin value gas storage_deposit_limit code data salt contracts_debug_output)"

section \<open>Properties\<close>

definition percent_ok :: "(nat \<Rightarrow> u64 \<Rightarrow> u64) \<Rightarrow> bool" where
  "percent_ok mul_percent \<longleftrightarrow>
     (\<forall>p x. p \<le> 100 \<and> 100 dvd p * unat x \<longrightarrow> unat (mul_percent p x) = p * unat x div 100)"

lemma settings_of_class:
  "per_class (for_class cs f b) c = (if c \<in> set cs then f (per_class b c) else per_class b c)"
  "base_block (for_class cs f b) = base_block b"
  "avg_block_initialization (for_class cs f b) = avg_block_initialization b"
  by (simp_all add: for_class_def)

text \<open>
  A block's weight is divided without a rest: what normal extrinsics may use and what is
  reserved for operational ones add up to the whole block, component by component, three
  quarters and one; every class has the base weight of an extrinsic; and a quarter each
  is set aside for the two kinds of messages. For a relay chain with \<open>10 ^ 12\<close> units of time
  per second and proofs of five megabytes, normal extrinsics get 375 milliseconds.
\<close>

theorem block_divided:
  assumes "percent_ok mul_percent" and "m = maximum_block_weight (10 ^ 12) (5 * 1024 * 1024)"
    and "runtime_block_weights mul_percent per_nanos m b0 Some = Some w"
  shows "\<exists>normal left. max_total (per_class w Normal) = Some normal \<and>
    max_total (per_class w Operational) = Some m \<and> reserved (per_class w Operational) = Some left \<and>
    unat (ref_time normal) = 375 * 10 ^ 9 \<and>
    unat (ref_time normal) + unat (ref_time left) = unat (ref_time m) \<and>
    unat (proof_size normal) + unat (proof_size left) = unat (proof_size m) \<and>
    (\<forall>c. base_extrinsic (per_class w c) = extrinsic_base_weight per_nanos) \<and>
    unat (ref_time (reserved_xcmp_weight m)) + unat (ref_time (reserved_dmp_weight m)) =
      2 * (unat (ref_time m) div 4)"
proof -
  have m: "unat (ref_time m) = 5 * 10 ^ 11" "unat (proof_size m) = 5242880"
    by (simp_all add: assms(2) maximum_block_weight_def max_block_time_def unat_div)
  then have whole: "100 dvd 75 * unat (ref_time m)" "100 dvd 75 * unat (proof_size m)" by simp_all
  let ?n = "ratio_times mul_percent normal_dispatch_ratio m"
  have ref: "unat (ref_time ?n) = 375 * 10 ^ 9" and pov: "unat (proof_size ?n) = 3932160"
    using assms(1) whole m by (simp_all add: percent_ok_def ratio_times_def normal_dispatch_ratio_def)
  have w: "max_total (per_class w Normal) = Some ?n" "max_total (per_class w Operational) = Some m"
    "reserved (per_class w Operational) = Some \<lparr>ref_time = ref_time m - ref_time ?n, proof_size = proof_size m - proof_size ?n\<rparr>"
    "base_extrinsic (per_class w c) = extrinsic_base_weight per_nanos" for c
    using assms(3) by (auto simp: runtime_block_weights_def settings_of_class split: if_splits)
      (cases c; simp)+
  have "unat (ref_time m - ref_time ?n) = unat (ref_time m) - unat (ref_time ?n)"
    "unat (proof_size m - proof_size ?n) = unat (proof_size m) - unat (proof_size ?n)"
    by (intro unat_sub; simp add: word_le_nat_alt m ref pov)+
  then show ?thesis
    by (simp add: w ref pov m reserved_xcmp_weight_def reserved_dmp_weight_def unat_div)
qed

definition demo_mul_percent :: "nat \<Rightarrow> u64 \<Rightarrow> u64" where
  "demo_mul_percent p x = of_nat (p * unat x div 100)"

lemma demo_percent_ok: "percent_ok demo_mul_percent"
proof -
  have "unat (demo_mul_percent p x) = p * unat x div 100" if "p \<le> 100" for p x
  proof -
    have "p * unat x \<le> 100 * unat x" using that by (rule mult_right_mono) simp
    then have "p * unat x div 100 \<le> unat x" by (simp add: div_le_mono [of "p * unat x" "100 * unat x" 100, simplified])
    also have "unat x < 2 ^ 64" using unsigned_less [of x, where 'a = nat] by simp
    finally show ?thesis by (simp add: demo_mul_percent_def unsigned_of_nat take_bit_nat_eq_self)
  qed
  then show ?thesis by (simp add: percent_ok_def)
qed

theorem block_divided_witness:
  "\<exists>w normal. runtime_block_weights demo_mul_percent 1000 (maximum_block_weight (10 ^ 12) (5 * 1024 * 1024))
      \<lparr>base_block = from_ref_time 0, per_class = (\<lambda>_. \<lparr>base_extrinsic = from_ref_time 0, max_total = None, reserved = None\<rparr>),
       avg_block_initialization = 0\<rparr> Some = Some w \<and>
    max_total (per_class w Normal) = Some normal \<and> unat (ref_time normal) = 375 * 10 ^ 9"
proof -
  let ?b = "\<lparr>base_block = from_ref_time 0,
    per_class = (\<lambda>_. \<lparr>base_extrinsic = from_ref_time 0, max_total = None, reserved = None\<rparr>),
    avg_block_initialization = 0\<rparr>"
  obtain w where w: "runtime_block_weights demo_mul_percent 1000 (maximum_block_weight (10 ^ 12) (5 * 1024 * 1024)) ?b Some = Some w"
    by (simp add: runtime_block_weights_def)
  from block_divided [OF demo_percent_ok refl w] w show ?thesis by blast
qed

text \<open>
  Deposits never wrap: whatever the 32-bit numbers of items and bytes, the deposit is the
  tenth of a unit per item and of five hundredths of a milliunit per byte.
\<close>

theorem deposit_exact:
  "unat (runtime_deposit items byte_count) = (unat items * 10 ^ 12 + unat byte_count * 50000000) div 10"
proof -
  have small: "unat items < 2 ^ 32" "unat byte_count < 2 ^ 32"
    using unsigned_less [of items, where 'a = nat] unsigned_less [of byte_count, where 'a = nat] by simp_all
  then have wide: "unat (ucast items :: u128) = unat items" "unat (ucast byte_count :: u128) = unat byte_count"
    by (simp_all add: unsigned_ucast_eq take_bit_nat_eq_self)
  have rate: "5 * milliunit div 100 = 50000000" by (simp add: milliunit_def)
  have items: "unat (ucast items * unit_balance :: u128) = unat items * 10 ^ 12"
    using small by (simp add: unat_word_ariths wide unit_balance_def)
  have octets: "unat (ucast byte_count * 50000000 :: u128) = unat byte_count * 50000000"
    using small by (simp add: unat_word_ariths wide)
  have "unat (ucast items * unit_balance + ucast byte_count * 50000000 :: u128) = unat items * 10 ^ 12 + unat byte_count * 50000000"
    using small by (simp add: unat_word_ariths(1) items octets)
  then show ?thesis by (simp add: runtime_deposit_def rate unat_div)
qed

text \<open>
  Every account may make the calls of democracy that skip the public's proposals: the
  three external proposals, the fast track and, since it is allowed, the instant fast
  track. Only cancelling and blacklisting are left to the root origin.
\<close>

theorem anyone_fast_tracks:
  "democracy_origin c (Signed who) s = (if c \<in> {EmergencyCancel, CancelProposal, Blacklist}
     then (Inl (Err BadOrigin), s) else (Inr (Inr who), s)) \<and> instant_allowed"
  by (cases c) (simp_all add: either_of_diverse_def ensure_root_def attempt_def ensure_def call_simps seq_def instant_allowed_def)

text \<open>A contract call through the interface gets the whole block unless it names its limit.\<close>

lemma contracts_call_gas:
  "contracts_call bare_call m origin dest value None l d = contracts_call bare_call m origin dest value (Some m) l d"
  "contracts_instantiate bare_inst m origin value None l c d salt = contracts_instantiate bare_inst m origin value (Some m) l c d salt"
  by (rule ext, simp add: contracts_call_def contracts_instantiate_def)+

section \<open>The constants of \<open>common\<close>\<close>

text \<open>
  \<open>src/common/src/lib.rs\<close> repeats the runtime's constants of time and weight; \<open>common\<close> takes
  \<open>MAX_POV_SIZE\<close> from another version of the relay chain's primitives.
\<close>

definition common_millisecs_per_block :: u64 where
  "common_millisecs_per_block = 12000"

definition common_slot_duration :: u64 where
  "common_slot_duration = common_millisecs_per_block"

definition common_minutes :: u32 where
  "common_minutes = 60000 div ucast common_millisecs_per_block"

definition common_hours :: u32 where
  "common_hours = common_minutes * 60"

definition common_days :: u32 where
  "common_days = common_hours * 24"

definition common_average_on_initialize_ratio :: nat where
  "common_average_on_initialize_ratio = 5"

definition common_normal_dispatch_ratio :: nat where
  "common_normal_dispatch_ratio = 75"

definition common_maximum_block_weight :: "u64 \<Rightarrow> u64 \<Rightarrow> weight" where
  "common_maximum_block_weight ref_time_per_second max_pov_size =
     \<lparr>ref_time = ref_time_per_second div 2, proof_size = max_pov_size\<rparr>"

lemma common_constants_agree:
  "common_slot_duration = slot_duration" "common_minutes = minutes" "common_hours = hours" "common_days = days"
  "common_average_on_initialize_ratio = average_on_initialize_ratio"
  "common_normal_dispatch_ratio = normal_dispatch_ratio"
  "common_maximum_block_weight = maximum_block_weight"
  by (simp_all add: common_slot_duration_def common_millisecs_per_block_def slot_duration_def
      millisecs_per_block_def common_minutes_def minutes_def common_hours_def hours_def common_days_def
      days_def common_average_on_initialize_ratio_def average_on_initialize_ratio_def
      common_normal_dispatch_ratio_def normal_dispatch_ratio_def common_maximum_block_weight_def
      maximum_block_weight_def max_block_time_def fun_eq_iff)

end
