(* ===== verification/Node_Service.thy ===== *)
theory Node_Service
  imports Frame "HOL-Library.Sublist"
begin

text \<open>
  The start of a parachain node (\<open>src/node/src/service.rs\<close>). The services themselves
  (client, pool, import queue, network, consensus, collator) belong to Substrate and
  Cumulus: what one of them does to the world, and whether it fails, is a parameter. The
  model has the order in which they are started, what each start depends on and what
  becomes of a failure. \<open>started\<close> is the list of the services that came up, those that are given
  a configuration with the configuration they were given. A service
  whose function returns no \<open>Result\<close> is one whose parameter never fails.

  \<open>follows p m\<close>: if the call \<open>m\<close> returns, it has started \<open>p\<close>, and if it fails, a prefix of
  it; \<open>stops p m\<close>: if it fails, a proper prefix.
\<close>

section \<open>Configuration and services\<close>

record 'spec configuration =
  conf_spec :: 'spec
  conf_base_path :: "string option"
  is_authority :: bool
  database_path :: "string option"
  offchain_enabled :: bool
  telemetry_endpoints :: "string list option"
  conf_force_authoring :: bool

record 'base relay_chain_cli =
  relay_base :: 'base
  relay_chain_id :: "string option"
  relay_base_path :: "string option"

datatype ('spec, 'base) service =
    TelemetryWorker
  | FullParts "'spec configuration"
  | SpawnTelemetry
  | TransactionPool bool
  | SlotDuration
  | ImportQueue
  | RelayChainInterface "'spec configuration" "'spec configuration"
  | Network "'spec configuration" u32
  | OffchainWorkers "'spec configuration"
  | SpawnTasks "'spec configuration"
  | PrintHwBench
  | TelemetryHwBench
  | AuraConsensus u32 bool
  | StartCollator u32
  | StartFullNode u32
  | StartNetwork
  | GatherHwBench string
  | NewTaskManager
  | GenesisBlock 'spec
  | RelayConfiguration "'base relay_chain_cli"
  | RunCommand string
  | RunOnSpec string 'spec

datatype 'err relay_error = SubError 'err | OtherRelayError string

record ('spec, 'base, 'w) node_state =
  started :: "('spec, 'base) service list"
  node_world :: 'w

record ('spec, 'base, 'err, 'key, 'w) node_env =
  service_call :: "('spec, 'base) service \<Rightarrow> ('err, 'w, unit) call"
  relay_chain_call :: "'spec configuration \<Rightarrow> 'spec configuration \<Rightarrow> ('err relay_error, 'w, 'key option) call"
  prepare_node_config :: "'spec configuration \<Rightarrow> 'spec configuration"
  error_of_string :: "string \<Rightarrow> 'err"

text \<open>A service that comes up is on the list; a failure leaves what it did to the world.\<close>

definition tracked ::
    "('spec, 'base) service \<Rightarrow> ('e, 'w, 'a) call \<Rightarrow> ('e, ('spec, 'base, 'w) node_state, 'a) call" where
  "tracked op m = (\<lambda>s. case m (node_world s) of
     (Inl e, w) \<Rightarrow> (Inl e, s\<lparr>node_world := w\<rparr>)
   | (Inr a, w) \<Rightarrow> (Inr a, s\<lparr>node_world := w, started := started s @ [op]\<rparr>))"

definition perform ::
    "('spec, 'base, 'err, 'key, 'w, 'x) node_env_scheme \<Rightarrow> ('spec, 'base) service \<Rightarrow>
     ('err, ('spec, 'base, 'w) node_state, unit) call" where
  "perform N op = tracked op (service_call N op)"

definition perform_if ::
    "bool \<Rightarrow> ('spec, 'base, 'err, 'key, 'w, 'x) node_env_scheme \<Rightarrow> ('spec, 'base) service \<Rightarrow>
     ('err, ('spec, 'base, 'w) node_state, unit) call" where
  "perform_if b N op = (if b then perform N op else ret ())"

section \<open>Starting the services\<close>

definition build_import_queue ::
    "('spec, 'base, 'err, 'key, 'w, 'x) node_env_scheme \<Rightarrow>
     ('err, ('spec, 'base, 'w) node_state, unit) call" where
  "build_import_queue N = seq (perform N SlotDuration) (\<lambda>_. perform N ImportQueue)"

definition telemetry_wanted :: "'spec configuration \<Rightarrow> bool" where
  "telemetry_wanted config =
     (case telemetry_endpoints config of None \<Rightarrow> False | Some endpoints \<Rightarrow> endpoints \<noteq> [])"

definition new_partial ::
    "('spec, 'base, 'err, 'key, 'w, 'x) node_env_scheme \<Rightarrow> 'spec configuration \<Rightarrow>
     ('err, ('spec, 'base, 'w) node_state, bool) call" where
  "new_partial N config =
     (let telemetry = telemetry_wanted config in
      seq (perform_if telemetry N TelemetryWorker) (\<lambda>_.
      seq (perform N (FullParts config)) (\<lambda>_.
      seq (perform_if telemetry N SpawnTelemetry) (\<lambda>_.
      seq (perform N (TransactionPool (is_authority config))) (\<lambda>_.
      seq (build_import_queue N) (\<lambda>_.
      ret telemetry))))))"

definition build_consensus ::
    "('spec, 'base, 'err, 'key, 'w, 'x) node_env_scheme \<Rightarrow> bool \<Rightarrow> u32 \<Rightarrow>
     ('err, ('spec, 'base, 'w) node_state, unit) call" where
  "build_consensus N force_authoring para_id =
     seq (perform N SlotDuration) (\<lambda>_. perform N (AuraConsensus para_id force_authoring))"

definition service_error_of :: "('spec, 'base, 'err, 'key, 'w, 'x) node_env_scheme \<Rightarrow> 'err relay_error \<Rightarrow> 'err" where
  "service_error_of N e = (case e of SubError x \<Rightarrow> x | OtherRelayError s \<Rightarrow> error_of_string N s)"

definition build_relay_chain ::
    "('spec, 'base, 'err, 'key, 'w, 'x) node_env_scheme \<Rightarrow> 'spec configuration \<Rightarrow> 'spec configuration \<Rightarrow>
     ('err, ('spec, 'base, 'w) node_state, 'key option) call" where
  "build_relay_chain N polkadot_config parachain_config =
     map_err (service_error_of N) (tracked (RelayChainInterface polkadot_config parachain_config)
       (relay_chain_call N polkadot_config parachain_config))"

text \<open>
  An authority runs a collator, which needs the key that came with the relay chain
  interface (\<open>expect\<close>); any other node is a full node. The network starts last.
\<close>

definition start_collating ::
    "('spec, 'base, 'err, 'key, 'w, 'x) node_env_scheme \<Rightarrow> 'spec configuration \<Rightarrow> u32 \<Rightarrow> 'key option \<Rightarrow>
     ('err, ('spec, 'base, 'w) node_state, unit) call" where
  "start_collating N config para_id collator_key =
     (if is_authority config then
        seq (build_consensus N (conf_force_authoring config) para_id) (\<lambda>_.
        seq (expect collator_key) (\<lambda>_.
        perform N (StartCollator para_id)))
      else perform N (StartFullNode para_id))"

definition start_node_impl ::
    "('spec, 'base, 'err, 'key, 'w, 'x) node_env_scheme \<Rightarrow> 'spec configuration \<Rightarrow> 'spec configuration \<Rightarrow>
     u32 \<Rightarrow> bool \<Rightarrow> ('err, ('spec, 'base, 'w) node_state, unit) call" where
  "start_node_impl N parachain_config polkadot_config para_id hwbench =
     (let config = prepare_node_config N parachain_config in
      seq (new_partial N config) (\<lambda>telemetry.
      seq (build_relay_chain N polkadot_config config) (\<lambda>collator_key.
      seq (perform N (Network config para_id)) (\<lambda>_.
      seq (perform_if (offchain_enabled config) N (OffchainWorkers config)) (\<lambda>_.
      seq (perform N (SpawnTasks config)) (\<lambda>_.
      seq (perform_if hwbench N PrintHwBench) (\<lambda>_.
      seq (perform_if (hwbench \<and> telemetry) N TelemetryHwBench) (\<lambda>_.
      seq (start_collating N config para_id collator_key) (\<lambda>_.
      perform N StartNetwork)))))))))"

definition start_parachain_node ::
    "('spec, 'base, 'err, 'key, 'w, 'x) node_env_scheme \<Rightarrow> 'spec configuration \<Rightarrow> 'spec configuration \<Rightarrow>
     u32 \<Rightarrow> bool \<Rightarrow> ('err, ('spec, 'base, 'w) node_state, unit) call" where
  "start_parachain_node N parachain_config polkadot_config para_id hwbench =
     start_node_impl N parachain_config polkadot_config para_id hwbench"

section \<open>The plan of a start\<close>

text \<open>What a complete start has started, in order.\<close>

definition partial_plan :: "'spec configuration \<Rightarrow> ('spec, 'base) service list" where
  "partial_plan config =
     (if telemetry_wanted config then [TelemetryWorker] else []) @ [FullParts config] @
     (if telemetry_wanted config then [SpawnTelemetry] else []) @
     [TransactionPool (is_authority config), SlotDuration, ImportQueue]"

definition role_plan :: "'spec configuration \<Rightarrow> u32 \<Rightarrow> ('spec, 'base) service list" where
  "role_plan config para_id =
     (if is_authority config
      then [SlotDuration, AuraConsensus para_id (conf_force_authoring config), StartCollator para_id]
      else [StartFullNode para_id])"

definition node_plan :: "'spec configuration \<Rightarrow> 'spec configuration \<Rightarrow> u32 \<Rightarrow> bool \<Rightarrow> ('spec, 'base) service list" where
  "node_plan polkadot_config config para_id hwbench =
     partial_plan config @ [RelayChainInterface polkadot_config config, Network config para_id] @
     (if offchain_enabled config then [OffchainWorkers config] else []) @ [SpawnTasks config] @
     (if hwbench then [PrintHwBench] else []) @
     (if hwbench \<and> telemetry_wanted config then [TelemetryHwBench] else []) @
     role_plan config para_id @ [StartNetwork]"

definition follows :: "('spec, 'base) service list \<Rightarrow> ('e, ('spec, 'base, 'w) node_state, 'a) call \<Rightarrow> bool" where
  "follows p m \<longleftrightarrow> (\<forall>s. case m s of
     (Inr _, t) \<Rightarrow> started t = started s @ p
   | (Inl _, t) \<Rightarrow> \<exists>q. prefix q p \<and> started t = started s @ q)"

definition stops :: "('spec, 'base) service list \<Rightarrow> ('e, ('spec, 'base, 'w) node_state, 'a) call \<Rightarrow> bool" where
  "stops p m \<longleftrightarrow> (\<forall>s. case m s of
     (Inr _, t) \<Rightarrow> started t = started s @ p
   | (Inl _, t) \<Rightarrow> \<exists>q. strict_prefix q p \<and> started t = started s @ q)"

lemma follows_ret: "follows [] (ret a)"
  by (simp add: follows_def ret_def)

lemma follows_expect: "follows [] (expect k)"
  by (simp add: follows_def expect_def split: option.split)

lemma stops_tracked: "stops [op] (tracked op m)"
  by (auto simp: stops_def tracked_def split: prod.split sum.split intro!: exI [of _ "[]"])

lemma stops_perform: "stops [op] (perform N op)"
  by (simp add: perform_def stops_tracked)

lemma stops_follows: "stops p m \<Longrightarrow> follows p m"
  unfolding stops_def follows_def by (fastforce split: prod.splits sum.splits simp: strict_prefix_def)

lemma follows_perform_if: "follows (if b then [op] else []) (perform_if b N op)"
  by (simp add: perform_if_def stops_follows stops_perform follows_ret)

lemma follows_map_err: "follows p m \<Longrightarrow> follows p (map_err f m)"
  unfolding follows_def map_err_def by (fastforce split: prod.splits sum.splits fault.splits)

lemma prefix_then: "strict_prefix q r \<Longrightarrow> strict_prefix (p @ q) (p @ r)"
  by (auto simp: strict_prefix_def)

lemma prefix_before: "prefix q p \<Longrightarrow> r \<noteq> [] \<Longrightarrow> strict_prefix q (p @ r)"
  by (auto simp: strict_prefix_def prefix_def)

text \<open>A call that follows a plan, then one that stops in the rest of it.\<close>

lemma stops_seq:
  assumes "follows p m" and "r \<noteq> []" and "\<And>a s t. m s = (Inr a, t) \<Longrightarrow> stops r (f a)"
  shows "stops (p @ r) (seq m f)"
  unfolding stops_def
proof
  fix s
  show "case seq m f s of (Inr _, t) \<Rightarrow> started t = started s @ p @ r
    | (Inl _, t) \<Rightarrow> \<exists>q. strict_prefix q (p @ r) \<and> started t = started s @ q"
  proof (cases "m s")
    case (Pair x t)
    show ?thesis
    proof (cases x)
      case (Inl e)
      then obtain q where "prefix q p" "started t = started s @ q"
        using assms(1) Pair unfolding follows_def by (fastforce dest: spec [of _ s])
      with Inl Pair show ?thesis
        using prefix_before [OF _ assms(2)] by (auto simp: seq_def)
    next
      case (Inr a)
      then have m: "m s = (Inr a, t)" using Pair by simp
      then have t: "started t = started s @ p"
        using assms(1) unfolding follows_def by (fastforce dest: spec [of _ s])
      from assms(3) [OF m] have "case f a t of (Inr _, u) \<Rightarrow> started u = started t @ r
          | (Inl _, u) \<Rightarrow> \<exists>q. strict_prefix q r \<and> started u = started t @ q"
        by (simp add: stops_def)
      with m t show ?thesis
        using prefix_then by (fastforce simp: seq_def split: prod.splits sum.splits)
    qed
  qed
qed

lemma follows_seq:
  assumes "follows p m" and "\<And>a s t. m s = (Inr a, t) \<Longrightarrow> follows r (f a)"
  shows "follows (p @ r) (seq m f)"
  unfolding follows_def
proof
  fix s
  show "case seq m f s of (Inr _, t) \<Rightarrow> started t = started s @ p @ r
    | (Inl _, t) \<Rightarrow> \<exists>q. prefix q (p @ r) \<and> started t = started s @ q"
  proof (cases "m s")
    case (Pair x t)
    show ?thesis
    proof (cases x)
      case (Inl e)
      then obtain q where "prefix q p" "started t = started s @ q"
        using assms(1) Pair unfolding follows_def by (fastforce dest: spec [of _ s])
      with Inl Pair show ?thesis
        by (auto simp: seq_def intro: prefix_prefix)
    next
      case (Inr a)
      then have m: "m s = (Inr a, t)" using Pair by simp
      then have t: "started t = started s @ p"
        using assms(1) unfolding follows_def by (fastforce dest: spec [of _ s])
      from assms(2) [OF m] have "case f a t of (Inr _, u) \<Rightarrow> started u = started t @ r
          | (Inl _, u) \<Rightarrow> \<exists>q. prefix q r \<and> started u = started t @ q"
        by (simp add: follows_def)
      with m t show ?thesis
        by (fastforce simp: seq_def split: prod.splits sum.splits)
    qed
  qed
qed

lemma follows_perform: "follows [op] (perform N op)"
  by (simp add: stops_follows stops_perform)

lemma new_partial_plan: "follows (partial_plan config) (new_partial N config)"
  and new_partial_telemetry: "new_partial N config s = (Inr b, t) \<Longrightarrow> b = telemetry_wanted config"
proof -
  have "follows ((if telemetry_wanted config then [TelemetryWorker] else []) @ [FullParts config] @
      (if telemetry_wanted config then [SpawnTelemetry] else []) @
      [TransactionPool (is_authority config)] @ ([SlotDuration] @ [ImportQueue]) @ [])
    (new_partial N config)"
    unfolding new_partial_def build_import_queue_def Let_def
    by (intro follows_seq follows_perform_if follows_perform follows_ret)
  then show "follows (partial_plan config) (new_partial N config)"
    by (simp add: partial_plan_def)
  show "new_partial N config s = (Inr b, t) \<Longrightarrow> b = telemetry_wanted config"
    by (auto simp: new_partial_def Let_def call_ok)
qed

lemma start_collating_stops: "stops (role_plan config para_id) (start_collating N config para_id key)"
proof (cases "is_authority config")
  case True
  have "stops (([SlotDuration] @ [AuraConsensus para_id (conf_force_authoring config)]) @
      [] @ [StartCollator para_id]) (start_collating N config para_id key)"
    unfolding start_collating_def build_consensus_def if_P [OF True]
    by (intro stops_seq follows_seq follows_perform follows_expect stops_perform) simp_all
  with True show ?thesis by (simp add: role_plan_def)
next
  case False
  then show ?thesis by (simp add: role_plan_def start_collating_def stops_perform)
qed

lemma start_node_stops:
  "stops (node_plan polkadot_config (prepare_node_config N config) para_id hwbench)
     (start_node_impl N config polkadot_config para_id hwbench)"
proof -
  let ?c = "prepare_node_config N config"
  have relay: "follows [RelayChainInterface polkadot_config ?c] (build_relay_chain N polkadot_config ?c)"
    by (simp add: build_relay_chain_def follows_map_err stops_follows stops_tracked)
  have "stops (partial_plan ?c @ [RelayChainInterface polkadot_config ?c] @ [Network ?c para_id] @
      (if offchain_enabled ?c then [OffchainWorkers ?c] else []) @ [SpawnTasks ?c] @
      (if hwbench then [PrintHwBench] else []) @
      (if hwbench \<and> telemetry_wanted ?c then [TelemetryHwBench] else []) @
      role_plan ?c para_id @ [StartNetwork])
     (start_node_impl N config polkadot_config para_id hwbench)"
    unfolding start_node_impl_def Let_def
    by (intro stops_seq new_partial_plan relay follows_perform follows_perform_if
        stops_follows [OF start_collating_stops] stops_perform)
      (auto dest!: new_partial_telemetry simp: perform_if_def follows_perform follows_ret)
  then show ?thesis by (simp add: node_plan_def)
qed

section \<open>A start that succeeds\<close>

text \<open>No service fails, the relay chain interface with the key \<open>key\<close>.\<close>

definition services_up :: "('spec, 'base, 'err, 'key, 'w, 'x) node_env_scheme \<Rightarrow> 'key option \<Rightarrow> bool" where
  "services_up N key \<longleftrightarrow>
     (\<forall>op w. fst (service_call N op w) = Inr ()) \<and> (\<forall>pc config w. fst (relay_chain_call N pc config w) = Inr key)"

definition returns :: "('e, 's, 'a) call \<Rightarrow> 'a \<Rightarrow> bool" where
  "returns m a \<longleftrightarrow> (\<forall>s. \<exists>t. m s = (Inr a, t))"

lemma returns_ret: "returns (ret a) a"
  by (simp add: returns_def ret_def)

lemma returns_seq: "returns m a \<Longrightarrow> returns (f a) b \<Longrightarrow> returns (seq m f) b"
  unfolding returns_def seq_def by (metis (no_types, lifting) case_prod_conv sum.simps(6))

lemma returns_tracked:
  assumes "\<And>w. fst (m w) = Inr a"
  shows "returns (tracked op m) a"
  unfolding returns_def tracked_def
proof
  fix s
  show "\<exists>t. (case m (node_world s) of (Inl e, w) \<Rightarrow> (Inl e, s\<lparr>node_world := w\<rparr>)
      | (Inr a, w) \<Rightarrow> (Inr a, s\<lparr>node_world := w, started := started s @ [op]\<rparr>)) = (Inr a, t)"
    using assms [of "node_world s"] by (cases "m (node_world s)") simp
qed

lemma returns_perform: "services_up N key \<Longrightarrow> returns (perform N op) ()"
  by (simp add: perform_def services_up_def returns_tracked)

lemma returns_perform_if: "services_up N key \<Longrightarrow> returns (perform_if b N op) ()"
  by (simp add: perform_if_def returns_perform returns_ret)

lemma returns_map_err: "returns m a \<Longrightarrow> returns (map_err f m) a"
  unfolding returns_def map_err_def by (rule allI, erule_tac x = s in allE) auto

lemma returns_relay_chain: "services_up N key \<Longrightarrow> returns (build_relay_chain N polkadot_config config) key"
  by (simp add: build_relay_chain_def services_up_def returns_map_err returns_tracked)

lemma returns_new_partial:
  assumes "services_up N key"
  shows "returns (new_partial N config) (telemetry_wanted config)"
  unfolding new_partial_def build_import_queue_def Let_def
  by (rule returns_seq returns_ret returns_perform [OF assms] returns_perform_if [OF assms])+

text \<open>With every service up, the start returns; an authority without a key panics instead.\<close>

lemma returns_start_collating:
  assumes "services_up N key" and "is_authority config \<longrightarrow> key \<noteq> None"
  shows "returns (start_collating N config para_id key) ()"
proof (cases "is_authority config")
  case True
  with assms(2) obtain k where k: "key = Some k" by auto
  have ready: "returns (expect key) k" by (simp add: k returns_def expect_def)
  show ?thesis
    unfolding start_collating_def build_consensus_def if_P [OF True]
    by (rule returns_seq ready returns_perform [OF assms(1)])+
next
  case False
  then show ?thesis by (simp add: start_collating_def returns_perform [OF assms(1)])
qed

lemma returns_start_node:
  assumes "services_up N key" and "is_authority (prepare_node_config N config) \<longrightarrow> key \<noteq> None"
  shows "returns (start_node_impl N config polkadot_config para_id hwbench) ()"
  unfolding start_node_impl_def Let_def
  by (rule returns_seq returns_new_partial [OF assms(1)] returns_relay_chain [OF assms(1)]
      returns_perform [OF assms(1)] returns_perform_if [OF assms(1)]
      returns_start_collating [OF assms(1,2)])+

section \<open>The order of a start\<close>

lemma strict_prefix_snoc: "strict_prefix q (xs @ [y]) \<Longrightarrow> prefix q xs"
  by (metis prefix_snoc strict_prefix_def)

lemma role_plan_members:
  "StartNetwork \<notin> set (role_plan config para_id)"
  "StartCollator p \<in> set (role_plan config para_id) \<longleftrightarrow> is_authority config \<and> p = para_id"
  "StartFullNode p \<in> set (role_plan config para_id) \<longleftrightarrow> \<not> is_authority config \<and> p = para_id"
  by (auto simp: role_plan_def)

lemma node_plan_snoc:
  "\<exists>xs. node_plan polkadot_config config para_id hwbench = xs @ [StartNetwork] \<and> StartNetwork \<notin> set xs"
  by (intro exI [of _ "butlast (node_plan polkadot_config config para_id hwbench)"])
    (auto simp: node_plan_def partial_plan_def butlast_append role_plan_members)

lemma node_plan_roles:
  "StartCollator p \<in> set (node_plan polkadot_config config para_id hwbench) \<longleftrightarrow> is_authority config \<and> p = para_id"
  "StartFullNode p \<in> set (node_plan polkadot_config config para_id hwbench) \<longleftrightarrow> \<not> is_authority config \<and> p = para_id"
  "RelayChainInterface c d \<in> set (node_plan polkadot_config config para_id hwbench) \<longleftrightarrow> c = polkadot_config \<and> d = config"
  "RelayConfiguration rc \<notin> set (node_plan polkadot_config config para_id hwbench)"
  by (auto simp: node_plan_def partial_plan_def role_plan_def)

end
