(* ===== verification/Node_Command.thy ===== *)
theory Node_Command
  imports Node_Service Runtime_Config
begin

text \<open>
  The node's command line (\<open>src/node/src/cli.rs\<close>, \<open>src/node/src/command.rs\<close>): the
  subcommands and what each one runs, the relay chain's part of the command line, and the
  start of a node without a subcommand, down to the services of \<open>Node_Service\<close>.

  Parsing the arguments (\<open>clap\<close>, which ends the process on an error), the runner that
  reads the configuration, the commands themselves, the parachain extensions of a
  specification and the genesis block are other crates' and parameters. The two cargo
  features of the crate are flags. Log lines and the options the node passes on unread
  are left out.
\<close>

section \<open>The command line\<close>

datatype benchmark_cmd = BenchPallet | BenchBlock | BenchStorage | BenchMachine | BenchOther

datatype subcommand =
    BuildSpec
  | CheckBlock
  | ExportBlocks
  | ExportState
  | ImportBlocks
  | Revert
  | PurgeChain
  | ExportGenesisState "string option"
  | ExportGenesisWasm "string option"
  | Benchmark benchmark_cmd
  | TryRuntime

record cli =
  cli_subcommand :: "subcommand option"
  no_hardware_benchmarks :: bool
  relay_chain_args :: "string list"

record ('spec, 'base, 'err, 'key, 'w) run_env = "('spec, 'base, 'err, 'key, 'w) node_env" +
  create_runner :: "subcommand option \<Rightarrow> ('err, 'w, 'spec configuration) call"
  executable_name :: string
  parse_relay_args :: "string list \<Rightarrow> 'base option"
  try_extensions :: "'spec \<Rightarrow> (string \<times> u32) option"
  relay_configuration :: "'base relay_chain_cli \<Rightarrow> (string, 'w, 'spec configuration) call"
  genesis_block :: "'spec \<Rightarrow> (string, 'w, unit) call"
  development_spec :: 'spec
  local_testnet_spec :: 'spec
  from_json_file :: "string \<Rightarrow> string + 'spec"
  join_path :: "string \<Rightarrow> string \<Rightarrow> string"
  runtime_benchmarks :: bool
  try_runtime :: bool

text \<open>What a call of another crate does to the world, which starts no service of ours.\<close>

definition on_node :: "('e, 'w, 'a) call \<Rightarrow> ('e, ('spec, 'base, 'w) node_state, 'a) call" where
  "on_node m = (\<lambda>s. case m (node_world s) of (r, w) \<Rightarrow> (r, s\<lparr>node_world := w\<rparr>))"

section \<open>The relay chain's command line\<close>

definition relay_chain_cli_new ::
    "('spec, 'base, 'err, 'key, 'w, 'x) run_env_scheme \<Rightarrow> 'spec configuration \<Rightarrow> string list \<Rightarrow>
     ('e, ('spec, 'base, 'w) node_state, 'base relay_chain_cli) call" where
  "relay_chain_cli_new E para_config args =
     (let extension = try_extensions E (conf_spec para_config);
          chain_id = map_option fst extension;
          base_path = map_option (\<lambda>x. join_path E x ''polkadot'') (conf_base_path para_config) in
      seq (expect (parse_relay_args E args)) (\<lambda>base.
      ret \<lparr>relay_base = base, relay_chain_id = chain_id, relay_base_path = base_path\<rparr>))"

text \<open>
  \<open>CliConfiguration\<close> for the relay chain: what the user gave wins, otherwise the chain of
  the specification and the parachain's directory. \<open>given_id\<close> and \<open>given_path\<close> are what
  the relay chain's own arguments say.
\<close>

definition relay_id_of ::
    "('base \<Rightarrow> bool \<Rightarrow> 'err + string) \<Rightarrow> 'base relay_chain_cli \<Rightarrow> bool \<Rightarrow> 'err + string" where
  "relay_id_of given_id c is_dev = (case given_id (relay_base c) is_dev of
     Inl e \<Rightarrow> Inl e
   | Inr chain_id \<Rightarrow> Inr (if chain_id = [] then (case relay_chain_id c of None \<Rightarrow> [] | Some i \<Rightarrow> i) else chain_id))"

definition relay_path_of ::
    "('base \<Rightarrow> 'err + string option) \<Rightarrow> 'base relay_chain_cli \<Rightarrow> 'err + string option" where
  "relay_path_of given_path c = (case given_path (relay_base c) of
     Inl e \<Rightarrow> Inl e
   | Inr (Some path) \<Rightarrow> Inr (Some path)
   | Inr None \<Rightarrow> Inr (relay_base_path c))"

definition p2p_listen_port :: u16 where
  "p2p_listen_port = 30334"

definition rpc_ws_listen_port :: u16 where
  "rpc_ws_listen_port = 9945"

definition rpc_http_listen_port :: u16 where
  "rpc_http_listen_port = 9934"

definition prometheus_listen_port :: u16 where
  "prometheus_listen_port = 9616"

section \<open>Running a command\<close>

definition relay_command ::
    "('spec, 'base, 'err, 'key, 'w, 'x) run_env_scheme \<Rightarrow> cli \<Rightarrow> 'spec configuration \<Rightarrow>
     ('e, ('spec, 'base, 'w) node_state, 'base relay_chain_cli) call" where
  "relay_command E cli config = relay_chain_cli_new E config (executable_name E # relay_chain_args cli)"

definition create_relay_configuration ::
    "('spec, 'base, 'err, 'key, 'w, 'x) run_env_scheme \<Rightarrow> 'base relay_chain_cli \<Rightarrow>
     ('err, ('spec, 'base, 'w) node_state, 'spec configuration) call" where
  "create_relay_configuration E polkadot_cli =
     map_err (\<lambda>err. error_of_string E (''Relay chain argument error: '' @ err))
       (tracked (RelayConfiguration polkadot_cli) (relay_configuration E polkadot_cli))"

definition construct_async_run ::
    "('spec, 'base, 'err, 'key, 'w, 'x) run_env_scheme \<Rightarrow> subcommand \<Rightarrow> string \<Rightarrow>
     ('err, ('spec, 'base, 'w) node_state, unit) call" where
  "construct_async_run E sub name =
     seq (on_node (create_runner E (Some sub))) (\<lambda>config.
     seq (new_partial E config) (\<lambda>_.
     perform E (RunCommand name)))"

definition purge_chain ::
    "('spec, 'base, 'err, 'key, 'w, 'x) run_env_scheme \<Rightarrow> cli \<Rightarrow>
     ('err, ('spec, 'base, 'w) node_state, unit) call" where
  "purge_chain E cli =
     seq (on_node (create_runner E (Some PurgeChain))) (\<lambda>config.
     seq (relay_command E cli config) (\<lambda>polkadot_cli.
     seq (create_relay_configuration E polkadot_cli) (\<lambda>_.
     perform E (RunCommand ''purge-chain''))))"

text \<open>
  The two exports of a genesis read the specification of their own chain argument, the
  empty identifier where there is none.
\<close>

definition export_genesis ::
    "('spec, 'base, 'err, 'key, 'w, 'x) run_env_scheme \<Rightarrow> subcommand \<Rightarrow> string option \<Rightarrow> string \<Rightarrow>
     ('err, ('spec, 'base, 'w) node_state, unit) call" where
  "export_genesis E sub chain name =
     seq (on_node (create_runner E (Some sub))) (\<lambda>_.
     case load_spec (development_spec E) (local_testnet_spec E) (from_json_file E)
         (case chain of None \<Rightarrow> [] | Some c \<Rightarrow> c) of
       Inl e \<Rightarrow> throw (error_of_string E e)
     | Inr spec \<Rightarrow> perform E (RunOnSpec name spec))"

definition run_benchmark ::
    "('spec, 'base, 'err, 'key, 'w, 'x) run_env_scheme \<Rightarrow> benchmark_cmd \<Rightarrow>
     ('err, ('spec, 'base, 'w) node_state, unit) call" where
  "run_benchmark E cmd =
     seq (on_node (create_runner E (Some (Benchmark cmd)))) (\<lambda>config.
     case cmd of
       BenchPallet \<Rightarrow>
         if runtime_benchmarks E then perform E (RunCommand ''benchmark pallet'')
         else throw (error_of_string E (''Benchmarking wasn't enabled when building the node. '' @
           ''You can enable it with `--features runtime-benchmarks`.''))
     | BenchBlock \<Rightarrow> seq (new_partial E config) (\<lambda>_. perform E (RunCommand ''benchmark block''))
     | BenchStorage \<Rightarrow>
         if runtime_benchmarks E
         then seq (new_partial E config) (\<lambda>_. perform E (RunCommand ''benchmark storage''))
         else throw (error_of_string E (''Compile with --features=runtime-benchmarks '' @
           ''to enable storage benchmarks.''))
     | BenchMachine \<Rightarrow> perform E (RunCommand ''benchmark machine'')
     | BenchOther \<Rightarrow> throw (error_of_string E ''Benchmarking sub-command unsupported''))"

text \<open>\<open>TryRuntime\<close> has no arguments, and no runner, without its feature.\<close>

definition run_try_runtime ::
    "('spec, 'base, 'err, 'key, 'w, 'x) run_env_scheme \<Rightarrow>
     ('err, ('spec, 'base, 'w) node_state, unit) call" where
  "run_try_runtime E =
     (if try_runtime E then
        seq (on_node (create_runner E (Some TryRuntime))) (\<lambda>_.
        seq (perform E NewTaskManager) (\<lambda>_.
        perform E (RunCommand ''try-runtime'')))
      else throw (error_of_string E (''Try-runtime was not enabled when building the node. '' @
        ''You can enable it with `--features try-runtime`.'')))"

definition hardware_benchmark ::
    "('spec, 'base, 'err, 'key, 'w, 'x) run_env_scheme \<Rightarrow> cli \<Rightarrow> 'spec configuration \<Rightarrow>
     ('err, ('spec, 'base, 'w) node_state, bool) call" where
  "hardware_benchmark E cli config =
     (if \<not> no_hardware_benchmarks cli then
        (case database_path config of
           None \<Rightarrow> ret False
         | Some path \<Rightarrow> seq (perform E (GatherHwBench path)) (\<lambda>_. ret True))
      else ret False)"

definition run_node ::
    "('spec, 'base, 'err, 'key, 'w, 'x) run_env_scheme \<Rightarrow> cli \<Rightarrow>
     ('err, ('spec, 'base, 'w) node_state, unit) call" where
  "run_node E cli =
     seq (on_node (create_runner E None)) (\<lambda>config.
     seq (hardware_benchmark E cli config) (\<lambda>hwbench.
     seq (ok_or (map_option snd (try_extensions E (conf_spec config)))
           (error_of_string E ''Could not find parachain ID in chain-spec.'')) (\<lambda>para_id.
     seq (relay_command E cli config) (\<lambda>polkadot_cli.
     seq (map_err (error_of_string E) (tracked (GenesisBlock (conf_spec config))
           (genesis_block E (conf_spec config)))) (\<lambda>_.
     seq (create_relay_configuration E polkadot_cli) (\<lambda>polkadot_config.
     start_parachain_node E config polkadot_config para_id hwbench))))))"

fun run_command ::
    "('spec, 'base, 'err, 'key, 'w, 'x) run_env_scheme \<Rightarrow> cli \<Rightarrow> subcommand option \<Rightarrow>
     ('err, ('spec, 'base, 'w) node_state, unit) call" where
  "run_command E cli (Some BuildSpec) =
     seq (on_node (create_runner E (Some BuildSpec))) (\<lambda>config.
     perform E (RunOnSpec ''build-spec'' (conf_spec config)))"
| "run_command E cli (Some CheckBlock) = construct_async_run E CheckBlock ''check-block''"
| "run_command E cli (Some ExportBlocks) = construct_async_run E ExportBlocks ''export-blocks''"
| "run_command E cli (Some ExportState) = construct_async_run E ExportState ''export-state''"
| "run_command E cli (Some ImportBlocks) = construct_async_run E ImportBlocks ''import-blocks''"
| "run_command E cli (Some Revert) = construct_async_run E Revert ''revert''"
| "run_command E cli (Some PurgeChain) = purge_chain E cli"
| "run_command E cli (Some (ExportGenesisState chain)) =
     export_genesis E (ExportGenesisState chain) chain ''export-genesis-state''"
| "run_command E cli (Some (ExportGenesisWasm chain)) =
     export_genesis E (ExportGenesisWasm chain) chain ''export-genesis-wasm''"
| "run_command E cli (Some (Benchmark cmd)) = run_benchmark E cmd"
| "run_command E cli (Some TryRuntime) = run_try_runtime E"
| "run_command E cli None = run_node E cli"

definition run ::
    "('spec, 'base, 'err, 'key, 'w, 'x) run_env_scheme \<Rightarrow> cli \<Rightarrow>
     ('err, ('spec, 'base, 'w) node_state, unit) call" where
  "run E cli = run_command E cli (cli_subcommand cli)"

end
