(* ===== verification/Node_Properties.thy ===== *)
theory Node_Properties
  imports Node_Command
begin

text \<open>
  What a start of the node guarantees: the services come up in one order and the network
  last, a failure stops the start where it happened, the parachain is that of the
  specification and the relay chain that of the relay chain's command line, and the
  commands the build does not support touch nothing.
\<close>

section \<open>The services of a node\<close>

lemma follows_on_node: "follows [] (on_node m)"
  by (auto simp: follows_def on_node_def split: prod.split sum.split)

lemma stops_cases:
  assumes "stops p m" and "m s = (r, t)"
  obtains q where "prefix q p" and "started t = started s @ q" and "(\<exists>a. r = Inr a) \<longleftrightarrow> q = p"
proof (cases r)
  case (Inl e)
  with assms obtain q where "strict_prefix q p" "started t = started s @ q"
    unfolding stops_def by (fastforce dest: spec [of _ s])
  with Inl show ?thesis by (intro that [of q]) (auto simp: strict_prefix_def)
next
  case (Inr a)
  with assms have "started t = started s @ p"
    unfolding stops_def by (fastforce dest: spec [of _ s])
  with Inr show ?thesis by (intro that [of p]) auto
qed

lemma follows_fault:
  assumes "follows p m" and "fst (m s) = Inl e"
  shows "\<exists>q. prefix q p \<and> started (snd (m s)) = started s @ q"
  using assms unfolding follows_def by (cases "m s") (fastforce dest: spec [of _ s])

text \<open>The last service is reached exactly by a call that returns.\<close>

lemma prefix_reaches_last:
  assumes "prefix q p" and "p = xs @ [y]" and "y \<notin> set xs"
  shows "y \<in> set q \<longleftrightarrow> q = p"
  using assms by (auto dest: set_mono_prefix)

text \<open>The list of services a complete run of the node without a subcommand starts.\<close>

definition runs_hwbench :: "cli \<Rightarrow> 'spec configuration \<Rightarrow> bool" where
  "runs_hwbench cli config \<longleftrightarrow> \<not> no_hardware_benchmarks cli \<and> database_path config \<noteq> None"

definition hwbench_plan :: "cli \<Rightarrow> 'spec configuration \<Rightarrow> ('spec, 'base) service list" where
  "hwbench_plan cli config =
     (if no_hardware_benchmarks cli then []
      else case database_path config of None \<Rightarrow> [] | Some path \<Rightarrow> [GatherHwBench path])"

text \<open>The relay chain's command line of a node, and the list of its services.\<close>

definition boot_relay_cli ::
    "('spec, 'base, 'err, 'key, 'w, 'x) run_env_scheme \<Rightarrow> 'spec configuration \<Rightarrow> 'base \<Rightarrow>
     string \<Rightarrow> 'base relay_chain_cli" where
  "boot_relay_cli E config base relay = \<lparr>relay_base = base, relay_chain_id = Some relay,
     relay_base_path = map_option (\<lambda>x. join_path E x ''polkadot'') (conf_base_path config)\<rparr>"

definition configured_plan ::
    "('spec, 'base, 'err, 'key, 'w, 'x) run_env_scheme \<Rightarrow> cli \<Rightarrow> 'spec configuration \<Rightarrow> 'base \<Rightarrow>
     string \<Rightarrow> ('spec, 'base) service list" where
  "configured_plan E cli config base relay = hwbench_plan cli config @
     [GenesisBlock (conf_spec config)] @ [RelayConfiguration (boot_relay_cli E config base relay)]"

definition boot_plan ::
    "('spec, 'base, 'err, 'key, 'w, 'x) run_env_scheme \<Rightarrow> cli \<Rightarrow> 'spec configuration \<Rightarrow> 'base \<Rightarrow>
     string \<Rightarrow> u32 \<Rightarrow> 'spec configuration \<Rightarrow> ('spec, 'base) service list" where
  "boot_plan E cli config base relay para_id polkadot_config =
     configured_plan E cli config base relay @
     node_plan polkadot_config (prepare_node_config E config) para_id (runs_hwbench cli config)"

lemma hardware_benchmark_follows: "follows (hwbench_plan cli config) (hardware_benchmark E cli config)"
  and hardware_benchmark_result:
    "hardware_benchmark E cli config s = (Inr b, t) \<Longrightarrow> b = runs_hwbench cli config"
proof -
  have "follows ([GatherHwBench path] @ []) (seq (perform E (GatherHwBench path)) (\<lambda>_. ret True))" for path
    by (intro follows_seq follows_perform follows_ret)
  then show "follows (hwbench_plan cli config) (hardware_benchmark E cli config)"
    by (auto simp: hwbench_plan_def hardware_benchmark_def follows_ret split: option.split)
  show "hardware_benchmark E cli config s = (Inr b, t) \<Longrightarrow> b = runs_hwbench cli config"
    by (auto simp: hardware_benchmark_def runs_hwbench_def call_ok split: if_splits option.splits)
qed

lemma steps_left: "ok_or (Some x) e = ret x" "expect (Some y) = ret y" "seq (ret a) f = f a"
  by (simp_all add: ok_or_def expect_def ret_def seq_def)

lemma ok_or_None_left: "seq (ok_or None e) f = throw e"
  by (rule ext) (simp add: call_simps)

text \<open>The run after the runner has read the configuration: up to the relay chain's, then the start.\<close>

definition configured ::
    "('spec, 'base, 'err, 'key, 'w, 'x) run_env_scheme \<Rightarrow> cli \<Rightarrow> 'spec configuration \<Rightarrow> 'base relay_chain_cli \<Rightarrow>
     ('err, ('spec, 'base, 'w) node_state, bool \<times> 'spec configuration) call" where
  "configured E cli config rc =
     seq (hardware_benchmark E cli config) (\<lambda>hwbench.
     seq (map_err (error_of_string E) (tracked (GenesisBlock (conf_spec config))
           (genesis_block E (conf_spec config)))) (\<lambda>_.
     seq (create_relay_configuration E rc) (\<lambda>pc. ret (hwbench, pc))))"

lemma seq_assoc: "seq (seq m f) g = seq m (\<lambda>a. seq (f a) g)"
  by (rule ext) (simp add: seq_def split: prod.split sum.split)

lemma run_node_after_runner:
  assumes "cli_subcommand cli = None" and "create_runner E None (node_world s) = (Inr config, w)"
    and "parse_relay_args E (executable_name E # relay_chain_args cli) = Some base"
    and "try_extensions E (conf_spec config) = Some (relay, para_id)"
  shows "run E cli s =
    seq (configured E cli config (boot_relay_cli E config base relay)) (\<lambda>(hwbench, pc).
    start_node_impl E config pc para_id hwbench) (s\<lparr>node_world := w\<rparr>)"
proof -
  have runner: "seq (on_node (create_runner E None)) f s = f config (s\<lparr>node_world := w\<rparr>)" for f
    using assms(2) by (simp add: seq_def on_node_def)
  show ?thesis
    by (simp add: run_def run_node_def assms(1) runner relay_command_def configured_def seq_assoc
        relay_chain_cli_new_def Let_def assms(3,4) steps_left start_parachain_node_def boot_relay_cli_def)
qed

text \<open>
  The configuration the start is given is one that \<open>relay_configuration\<close> made of the relay
  chain's command line; a failure before that never gets as far as recording it.
\<close>

lemma create_relay_configuration_result:
  "create_relay_configuration E rc s = (Inr pc, t) \<Longrightarrow> \<exists>v v'. relay_configuration E rc v = (Inr pc, v')"
  by (cases "relay_configuration E rc (node_world s)")
    (auto simp: create_relay_configuration_def map_err_def tracked_def split: sum.splits fault.splits)

lemma configured_result:
  assumes "configured E cli config rc s = (Inr (hwbench, pc), t)"
  shows "hwbench = runs_hwbench cli config" and "\<exists>v v'. relay_configuration E rc v = (Inr pc, v')"
proof -
  from assms obtain u v w where "hardware_benchmark E cli config s = (Inr hwbench, u)"
      "create_relay_configuration E rc v = (Inr pc, w)"
    unfolding configured_def seq_Ok by (auto simp: ret_def)
  then show "hwbench = runs_hwbench cli config" and "\<exists>v v'. relay_configuration E rc v = (Inr pc, v')"
    by (auto dest: hardware_benchmark_result create_relay_configuration_result)
qed

lemma stops_then_ret:
  assumes "stops p m"
  shows "stops p (seq m (\<lambda>a. ret (g a)))"
  unfolding stops_def
proof
  fix s
  have "case m s of (Inr _, t) \<Rightarrow> started t = started s @ p
     | (Inl _, t) \<Rightarrow> \<exists>q. strict_prefix q p \<and> started t = started s @ q"
    using assms by (simp add: stops_def)
  then show "case seq m (\<lambda>a. ret (g a)) s of (Inr _, t) \<Rightarrow> started t = started s @ p
     | (Inl _, t) \<Rightarrow> \<exists>q. strict_prefix q p \<and> started t = started s @ q"
    by (simp add: seq_def ret_def split: prod.splits sum.splits)
qed

lemma stops_map_err: "stops p m \<Longrightarrow> stops p (map_err f m)"
  unfolding stops_def map_err_def by (fastforce split: prod.splits sum.splits fault.splits)

lemma configured_stops: "stops (configured_plan E cli config base relay)
    (configured E cli config (boot_relay_cli E config base relay))"
proof -
  let ?rc = "boot_relay_cli E config base relay"
  have block: "follows [GenesisBlock (conf_spec config)] (map_err (error_of_string E)
      (tracked (GenesisBlock (conf_spec config)) (genesis_block E (conf_spec config))))"
    by (intro follows_map_err stops_follows stops_tracked)
  have relay: "stops [RelayConfiguration ?rc] (create_relay_configuration E ?rc)"
    unfolding create_relay_configuration_def by (intro stops_map_err stops_tracked)
  show ?thesis
    unfolding configured_plan_def configured_def
    by (intro stops_seq stops_then_ret hardware_benchmark_follows block relay) simp_all
qed

lemma configured_plan_members:
  "StartNetwork \<notin> set (configured_plan E cli config base relay)"
  "StartCollator p \<notin> set (configured_plan E cli config base relay)"
  "StartFullNode p \<notin> set (configured_plan E cli config base relay)"
  "RelayChainInterface c d \<notin> set (configured_plan E cli config base relay)"
  by (auto simp: configured_plan_def hwbench_plan_def split: option.split)

text \<open>
  What a run has started is a prefix of the plan for the configuration the relay chain is
  given, and as soon as that is given it is one made of the relay chain's command line.
\<close>

lemma boot_cases:
  assumes "seq (configured E cli config (boot_relay_cli E config base relay)) (\<lambda>(hwbench, pc).
    start_node_impl E config pc para_id hwbench) s = (r, t)"
  obtains q pc where "started t = started s @ q" "prefix q (boot_plan E cli config base relay para_id pc)"
    "r = Inr () \<longleftrightarrow> q = boot_plan E cli config base relay para_id pc"
    "(\<exists>v v'. relay_configuration E (boot_relay_cli E config base relay) v = (Inr pc, v'))
      \<or> prefix q (configured_plan E cli config base relay)"
proof -
  let ?rc = "boot_relay_cli E config base relay"
  let ?node = "\<lambda>pc. node_plan pc (prepare_node_config E config) para_id (runs_hwbench cli config)"
  obtain x u where c: "configured E cli config ?rc s = (x, u)" by (metis surj_pair)
  have nonempty: "?node pc \<noteq> []" for pc by (simp add: node_plan_def)
  show ?thesis
  proof (cases x)
    case (Inl e)
    with configured_stops [of E cli config base relay] c
    obtain q where q: "strict_prefix q (configured_plan E cli config base relay)" "started u = started s @ q"
      unfolding stops_def by (fastforce dest: spec [of _ s])
    have "strict_prefix q (boot_plan E cli config base relay para_id pc)" for pc
      using q(1) unfolding boot_plan_def by (auto simp: strict_prefix_def prefix_def)
    moreover have "t = u" "r = Inl e" using assms c Inl by (simp_all add: seq_def)
    ultimately show ?thesis
      using q by (intro that [of q config]) (auto simp: strict_prefix_def)
  next
    case (Inr y)
    then obtain hwbench pc where y: "configured E cli config ?rc s = (Inr (hwbench, pc), u)"
      using c by (cases y) simp
    with configured_stops [of E cli config base relay]
    have u: "started u = started s @ configured_plan E cli config base relay"
      unfolding stops_def by (fastforce dest: spec [of _ s])
    have start: "start_node_impl E config pc para_id (runs_hwbench cli config) u = (r, t)"
      using assms y configured_result(1) [OF y] by (simp add: seq_def)
    obtain q where "prefix q (?node pc)" "started t = started u @ q" "(\<exists>a. r = Inr a) \<longleftrightarrow> q = ?node pc"
      by (rule stops_cases [OF start_node_stops start])
    with u configured_result(2) [OF y] show ?thesis
      by (intro that [of "configured_plan E cli config base relay @ q" pc]) (auto simp: boot_plan_def)
  qed
qed

text \<open>
  C38. A run without a subcommand starts the parachain of its specification and the relay
  chain of its relay chain command line, in one order. Whatever the services do: what has
  been started is a prefix of the boot plan, and the whole plan exactly if the run returns;
  the parachain identifier is the specification's; the relay chain is given the
  configuration made of the relay chain's command line, and every other service that takes
  a configuration the parachain's; on that command line the relay chain's own arguments hold, and only a chain
  and a directory that they leave open are the chain the specification names and the
  directory \<open>polkadot\<close> below the parachain's own; an authority runs a collator and any other
  node a full node; and the network is up exactly if everything before it is.
\<close>

theorem node_boots:
  assumes "cli_subcommand cli = None" and "create_runner E None (node_world s) = (Inr config, w)"
    and "parse_relay_args E (executable_name E # relay_chain_args cli) = Some base"
    and "try_extensions E (conf_spec config) = Some (relay, para_id)"
    and "run E cli s = (r, t)"
  shows "\<exists>q pc. started t = started s @ q \<and> prefix q (boot_plan E cli config base relay para_id pc) \<and>
    (r = Inr () \<longleftrightarrow> q = boot_plan E cli config base relay para_id pc) \<and>
    (StartNetwork \<in> set q \<longleftrightarrow> r = Inr ()) \<and>
    (\<forall>c d. RelayChainInterface c d \<in> set q \<longrightarrow> d = prepare_node_config E config \<and>
       (\<exists>v v'. relay_configuration E (boot_relay_cli E config base relay) v = (Inr c, v'))) \<and>
    (\<forall>given_id is_dev. relay_id_of given_id (boot_relay_cli E config base relay) is_dev =
       (case given_id base is_dev of
          Inl e \<Rightarrow> Inl e
        | Inr chain \<Rightarrow> Inr (if chain = [] then relay else chain))) \<and>
    (\<forall>given_path. relay_path_of given_path (boot_relay_cli E config base relay) =
       (case given_path base of
          Inl e \<Rightarrow> Inl e
        | Inr (Some path) \<Rightarrow> Inr (Some path)
        | Inr None \<Rightarrow> Inr (map_option (\<lambda>x. join_path E x ''polkadot'') (conf_base_path config)))) \<and>
    (\<forall>p. StartCollator p \<in> set q \<longrightarrow> is_authority (prepare_node_config E config) \<and> p = para_id) \<and>
    (\<forall>p. StartFullNode p \<in> set q \<longrightarrow> \<not> is_authority (prepare_node_config E config) \<and> p = para_id)"
proof -
  let ?plan = "boot_plan E cli config base relay para_id"
  let ?rc = "boot_relay_cli E config base relay"
  obtain q pc where q: "started t = started s @ q" "prefix q (?plan pc)" "r = Inr () \<longleftrightarrow> q = ?plan pc"
      "(\<exists>v v'. relay_configuration E ?rc v = (Inr pc, v')) \<or> prefix q (configured_plan E cli config base relay)"
    using boot_cases [OF run_node_after_runner [OF assms(1-4), symmetric, unfolded assms(5)]] by auto
  have sub: "set q \<subseteq> set (?plan pc)" using q(2) by (rule set_mono_prefix)
  have network: "StartNetwork \<in> set q \<longleftrightarrow> q = ?plan pc"
  proof -
    have "\<exists>xs. ?plan pc = xs @ [StartNetwork] \<and> StartNetwork \<notin> set xs"
      unfolding boot_plan_def using node_plan_snoc configured_plan_members(1)
      by (metis (no_types, lifting) Un_iff append_assoc set_append)
    then obtain xs where "?plan pc = xs @ [StartNetwork]" "StartNetwork \<notin> set xs" by blast
    then show ?thesis by (rule prefix_reaches_last [OF q(2)])
  qed
  have roles: "StartCollator p \<in> set (?plan pc) \<Longrightarrow> is_authority (prepare_node_config E config) \<and> p = para_id"
      "StartFullNode p \<in> set (?plan pc) \<Longrightarrow> \<not> is_authority (prepare_node_config E config) \<and> p = para_id"
      "RelayChainInterface c d \<in> set (?plan pc) \<Longrightarrow> c = pc \<and> d = prepare_node_config E config" for p c d
    by (auto simp: boot_plan_def configured_plan_members node_plan_roles)
  have given: "\<exists>v v'. relay_configuration E ?rc v = (Inr pc, v')" if "RelayChainInterface c d \<in> set q" for c d
    using q(4)
  proof
    assume "prefix q (configured_plan E cli config base relay)"
    from set_mono_prefix [OF this] that show ?thesis by (auto simp: configured_plan_members)
  qed
  have relay_chain: "d = prepare_node_config E config \<and> (\<exists>v v'. relay_configuration E ?rc v = (Inr c, v'))"
    if "RelayChainInterface c d \<in> set q" for c d
    using roles(3) [of c d] given [OF that] that sub by auto
  have defaults: "relay_id_of given_id ?rc is_dev = (case given_id base is_dev of
        Inl e \<Rightarrow> Inl e | Inr chain \<Rightarrow> Inr (if chain = [] then relay else chain))"
      "relay_path_of given_path ?rc = (case given_path base of
        Inl e \<Rightarrow> Inl e
      | Inr (Some path) \<Rightarrow> Inr (Some path)
      | Inr None \<Rightarrow> Inr (map_option (\<lambda>x. join_path E x ''polkadot'') (conf_base_path config)))" for given_id is_dev given_path
    by (simp_all add: relay_id_of_def relay_path_of_def boot_relay_cli_def split: sum.split option.split)
  show ?thesis
  proof (intro exI [of _ q] exI [of _ pc] conjI allI impI)
    show "is_authority (prepare_node_config E config)" "p = para_id" if "StartCollator p \<in> set q" for p
      using roles(1) that sub by blast+
    show "\<not> is_authority (prepare_node_config E config)" "p = para_id" if "StartFullNode p \<in> set q" for p
      using roles(2) that sub by blast+
  qed (use q network relay_chain in \<open>simp_all add: defaults\<close>)
qed

section \<open>A node that starts\<close>

text \<open>Every call of other crates that a start makes succeeds, with these results.\<close>

definition boots ::
    "('spec, 'base, 'err, 'key, 'w, 'x) run_env_scheme \<Rightarrow> cli \<Rightarrow> 'spec configuration \<Rightarrow> 'base \<Rightarrow>
     string \<times> u32 \<Rightarrow> 'key option \<Rightarrow> bool" where
  "boots E cli config base extension key \<longleftrightarrow>
     cli_subcommand cli = None \<and> services_up E key \<and>
     (\<forall>w. fst (create_runner E None w) = Inr config) \<and>
     try_extensions E (conf_spec config) = Some extension \<and>
     parse_relay_args E (executable_name E # relay_chain_args cli) = Some base \<and>
     (\<forall>spec w. fst (genesis_block E spec w) = Inr ()) \<and>
     (\<forall>c w. \<exists>pc. fst (relay_configuration E c w) = Inr pc)"

lemma returns_on_node: "(\<And>w. fst (m w) = Inr a) \<Longrightarrow> returns (on_node m) a"
  unfolding returns_def on_node_def by (metis (mono_tags, lifting) case_prod_beta' prod.collapse)

lemma returns_hardware_benchmark:
  assumes "services_up E key"
  shows "returns (hardware_benchmark E cli config) (runs_hwbench cli config)"
proof -
  have "returns (seq (perform E (GatherHwBench path)) (\<lambda>_. ret True)) True" for path
    by (rule returns_seq returns_perform [OF assms] returns_ret)+
  then show ?thesis
    by (auto simp: hardware_benchmark_def runs_hwbench_def returns_ret split: option.split)
qed

lemma ret_then: "seq (ret a) f = f a"
  by (rule ext) (simp add: seq_def ret_def)

text \<open>Each run of the last part ends well, whatever relay chain configuration it is given.\<close>

lemma returns_any:
  assumes "\<And>s. \<exists>a t. m s = (Inr a, t)" and "\<And>a. returns (f a) b"
  shows "returns (seq m f) b"
  unfolding returns_def
proof
  fix s
  obtain a t where "m s = (Inr a, t)" using assms(1) by blast
  then show "\<exists>u. seq m f s = (Inr b, u)"
    using assms(2) [of a] by (simp add: seq_def returns_def)
qed

lemma relay_configuration_succeeds:
  assumes "\<And>w. \<exists>pc. fst (relay_configuration E c w) = Inr pc"
  shows "\<exists>pc t. create_relay_configuration E c s = (Inr pc, t)"
proof -
  obtain pc w where "relay_configuration E c (node_world s) = (Inr pc, w)"
    using assms [of "node_world s"] by (cases "relay_configuration E c (node_world s)") auto
  then show ?thesis
    by (simp add: create_relay_configuration_def map_err_def tracked_def)
qed

lemma returns_run:
  fixes E :: "('spec, 'base, 'err, 'key, 'w, 'x) run_env_scheme"
  assumes "boots E cli config base extension key"
    and "is_authority (prepare_node_config E config) \<longrightarrow> key \<noteq> None"
  shows "returns (run E cli) ()"
proof -
  from assms(1) have up: "services_up E key"
    and rest: "cli_subcommand cli = None" "try_extensions E (conf_spec config) = Some extension"
      "parse_relay_args E (executable_name E # relay_chain_args cli) = Some base"
      "\<And>w. fst (create_runner E None w) = Inr config" "\<And>spec w. fst (genesis_block E spec w) = Inr ()"
      "\<And>c w. \<exists>pc. fst (relay_configuration E c w) = Inr pc"
    by (simp_all add: boots_def)
  obtain relay para_id where extension: "try_extensions E (conf_spec config) = Some (relay, para_id)"
    using rest(2) by (cases extension) simp
  have chain: "returns (seq (configured E cli config c) (\<lambda>(hwbench, pc).
      start_node_impl E config pc para_id hwbench)) ()" for c
    unfolding configured_def seq_assoc ret_then prod.case
    by (rule returns_seq, rule returns_hardware_benchmark [OF up], rule returns_seq,
        rule returns_map_err, rule returns_tracked, rule rest(5),
        rule returns_any, rule relay_configuration_succeeds, rule rest(6),
        rule returns_start_node, rule up, rule assms(2))
  show ?thesis
    unfolding returns_def
  proof
    fix s :: "('spec, 'base, 'w) node_state"
    obtain w where "create_runner E None (node_world s) = (Inr config, w)"
      using rest(4) [of "node_world s"] by (cases "create_runner E None (node_world s)") simp
    from run_node_after_runner [OF rest(1) this rest(3) extension] show "\<exists>t. run E cli s = (Inr (), t)"
      using chain by (simp add: returns_def)
  qed
qed

section \<open>Witness: a node whose services all come up\<close>

definition demo_config :: "'spec \<Rightarrow> 'spec configuration" where
  "demo_config spec = \<lparr>conf_spec = spec, conf_base_path = Some ''/data'', is_authority = True,
     database_path = None, offchain_enabled = True, telemetry_endpoints = None, conf_force_authoring = False\<rparr>"

definition demo_env ::
    "('spec \<Rightarrow> (string \<times> u32) option) \<Rightarrow> 'spec \<Rightarrow> 'key option \<Rightarrow> ('spec, string list, string, 'key, nat) run_env" where
  "demo_env ext spec key =
     \<lparr>service_call = (\<lambda>_ n. (Inr (), n + 1)), relay_chain_call = (\<lambda>_ _ n. (Inr key, n)),
      prepare_node_config = (\<lambda>c. c), error_of_string = (\<lambda>e. e),
      create_runner = (\<lambda>_ n. (Inr (demo_config spec), n)), executable_name = ''paraxiom'',
      parse_relay_args = (\<lambda>args. Some (tl args)), try_extensions = ext,
      relay_configuration = (\<lambda>rc n. (Inr ((demo_config spec)\<lparr>conf_base_path := relay_base_path rc\<rparr>), n)),
      genesis_block = (\<lambda>_ n. (Inr (), n)),
      development_spec = spec, local_testnet_spec = spec, from_json_file = (\<lambda>path. Inl path),
      join_path = (\<lambda>p x. p @ ''/'' @ x), runtime_benchmarks = False, try_runtime = False\<rparr>"

definition demo_cli :: cli where
  "demo_cli = \<lparr>cli_subcommand = None, no_hardware_benchmarks = True, relay_chain_args = [''--dev'']\<rparr>"

definition demo_node :: "('spec, string list, nat) node_state" where
  "demo_node = \<lparr>started = [], node_world = 0\<rparr>"

lemmas demo_node_defs = demo_config_def demo_env_def demo_cli_def demo_node_def

text \<open>An authority with a key starts everything; without one, the start ends before the network.\<close>

theorem node_boots_witness:
  "\<exists>t. run (demo_env (\<lambda>spec :: string \<times> u32. Some spec) (''rococo-local'', 1000) (Some ''key'')) demo_cli demo_node = (Inr (), t) \<and>
     StartCollator 1000 \<in> set (started t) \<and> StartNetwork \<in> set (started t) \<and>
     RelayChainInterface ((demo_config (''rococo-local'', 1000))\<lparr>conf_base_path := Some ''/data/polkadot''\<rparr>)
       (demo_config (''rococo-local'', 1000)) \<in> set (started t)"
proof -
  let ?E = "demo_env (\<lambda>spec :: string \<times> u32. Some spec) (''rococo-local'', 1000) (Some ''key'')"
  let ?c = "demo_config (''rococo-local'', 1000 :: u32)"
  obtain r t where run: "run ?E demo_cli demo_node = (r, t)" by fastforce
  have "boots ?E demo_cli ?c [''--dev''] (''rococo-local'', 1000) (Some ''key'')"
    by (simp add: boots_def services_up_def demo_node_defs)
  then have "returns (run ?E demo_cli) ()" by (rule returns_run) simp
  then obtain t' where "run ?E demo_cli demo_node = (Inr (), t')" unfolding returns_def by blast
  with run have ok: "r = Inr ()" by simp
  have given: "cli_subcommand demo_cli = None"
      "create_runner ?E None (node_world demo_node) = (Inr ?c, 0)"
      "parse_relay_args ?E (executable_name ?E # relay_chain_args demo_cli) = Some [''--dev'']"
      "try_extensions ?E (conf_spec ?c) = Some (''rococo-local'', 1000)"
    by (simp_all add: demo_node_defs)
  from node_boots [OF given run] obtain q pc where q: "started t = started demo_node @ q"
      "q = boot_plan ?E demo_cli ?c [''--dev''] ''rococo-local'' 1000 pc"
    and pc: "\<forall>c d. RelayChainInterface c d \<in> set q \<longrightarrow> d = prepare_node_config ?E ?c \<and>
       (\<exists>v v'. relay_configuration ?E (boot_relay_cli ?E ?c [''--dev''] ''rococo-local'') v = (Inr c, v'))"
    by (elim exE conjE) (rule that, assumption, erule iffD1, rule ok, assumption)
  have relay: "RelayChainInterface pc ?c \<in> set q"
    using q(2) by (simp add: boot_plan_def node_plan_roles) (simp add: demo_node_defs)
  obtain v v' where "relay_configuration ?E (boot_relay_cli ?E ?c [''--dev''] ''rococo-local'') v = (Inr pc, v')"
    using pc [THEN spec, THEN spec, THEN mp, OF relay] by (elim exE conjE)
  then have "pc = ?c\<lparr>conf_base_path := Some ''/data/polkadot''\<rparr>"
    by (simp add: boot_relay_cli_def demo_node_defs)
  with relay have "RelayChainInterface (?c\<lparr>conf_base_path := Some ''/data/polkadot''\<rparr>) ?c \<in> set q" by simp
  moreover have "StartCollator 1000 \<in> set q" "StartNetwork \<in> set q"
    using q(2) by (simp_all add: boot_plan_def node_plan_def role_plan_def demo_node_defs)
  ultimately show ?thesis using run ok q(1) by (intro exI [of _ t] conjI) simp_all
qed

section \<open>What is refused\<close>

lemma on_node_started: "on_node m s = (r, t) \<Longrightarrow> started t = started s"
  by (auto simp: on_node_def split: prod.splits)

lemma after_on_node:
  assumes "\<And>a t. \<exists>e. fst (f a t) = Inl (Err e) \<and> started (snd (f a t)) = started t"
    and "\<And>w. fst (m w) \<noteq> Inl Panic"
  shows "\<exists>e. fst (seq (on_node m) f s) = Inl (Err e) \<and> started (snd (seq (on_node m) f s)) = started s"
proof (cases "on_node m s")
  case (Pair r t)
  note t = on_node_started [OF Pair]
  show ?thesis
  proof (cases r)
    case (Inl x)
    have "fst (m (node_world s)) = r" using Pair by (auto simp: on_node_def split: prod.splits)
    then have "x \<noteq> Panic" using assms(2) [of "node_world s"] Inl by auto
    then obtain e where "x = Err e" by (cases x) auto
    then show ?thesis using Pair Inl t by (simp add: seq_def)
  next
    case (Inr a)
    with Pair t assms(1) [of a t] show ?thesis by (simp add: seq_def)
  qed
qed

text \<open>
  A build without a feature refuses the feature's commands with an error and without
  starting a service: the two benchmarks, a benchmark the node does not know, and
  \<open>try-runtime\<close>, which does not even create a runner.
\<close>

theorem commands_refused:
  assumes "\<not> runtime_benchmarks E" and "\<not> try_runtime E"
    and "\<And>sub w. fst (create_runner E sub w) \<noteq> Inl Panic"
    and "cli_subcommand cli = Some cmd"
    and "cmd \<in> {TryRuntime, Benchmark BenchPallet, Benchmark BenchStorage, Benchmark BenchOther}"
  shows "\<exists>e. fst (run E cli s) = Inl (Err e) \<and> started (snd (run E cli s)) = started s"
proof -
  have bench: "\<exists>e. fst (run_benchmark E b s) = Inl (Err e) \<and> started (snd (run_benchmark E b s)) = started s"
    if "b \<in> {BenchPallet, BenchStorage, BenchOther}" for b
    unfolding run_benchmark_def
    by (rule after_on_node) (use that assms(1,3) in \<open>auto simp: throw_def\<close>)
  show ?thesis
    using assms(5) bench
    by (auto simp: run_def assms(4) run_try_runtime_def assms(2) throw_def)
qed

theorem commands_refused_witness:
  "\<exists>e. fst (run (demo_env (\<lambda>_. None) () (None :: unit option)) (demo_cli\<lparr>cli_subcommand := Some TryRuntime\<rparr>) demo_node) = Inl (Err e)"
proof -
  have "\<And>sub w. fst (create_runner (demo_env (\<lambda>_. None) () (None :: unit option)) sub w) \<noteq> Inl Panic"
    by (simp add: demo_node_defs)
  from commands_refused [OF _ _ this, of "demo_cli\<lparr>cli_subcommand := Some TryRuntime\<rparr>" TryRuntime]
  show ?thesis by (auto simp: demo_node_defs)
qed

text \<open>
  A specification without the extension of a parachain starts nothing but, at most, the
  benchmark of the hardware.
\<close>

theorem no_para_id_no_node:
  assumes "cli_subcommand cli = None" and "create_runner E None (node_world s) = (Inr config, w)"
    and "try_extensions E (conf_spec config) = None"
  shows "\<exists>e q. fst (run E cli s) = Inl e \<and> started (snd (run E cli s)) = started s @ q \<and>
    prefix q (hwbench_plan cli config)"
proof -
  have runner: "seq (on_node (create_runner E None)) f s = f config (s\<lparr>node_world := w\<rparr>)" for f
    using assms(2) by (simp add: seq_def on_node_def)
  have run: "run E cli s = seq (hardware_benchmark E cli config) (\<lambda>_.
      throw (error_of_string E ''Could not find parachain ID in chain-spec.'')) (s\<lparr>node_world := w\<rparr>)"
    by (simp add: run_def run_node_def assms(1,3) runner ok_or_None_left)
  have plan: "follows (hwbench_plan cli config @ []) (seq (hardware_benchmark E cli config) (\<lambda>_. throw x))" for x
    by (intro follows_seq hardware_benchmark_follows) (simp add: follows_def throw_def)
  have fault: "\<exists>e. fst (seq (hardware_benchmark E cli config) (\<lambda>_. throw x) u) = Inl e" for x u
    by (auto simp: seq_def throw_def split: prod.split sum.split)
  from fault obtain e where e: "fst (run E cli s) = Inl e" unfolding run by blast
  moreover obtain q where "prefix q (hwbench_plan cli config @ [])" "started (snd (run E cli s)) = started s @ q"
    using follows_fault [OF plan e [unfolded run]] unfolding run by auto
  ultimately show ?thesis by auto
qed

theorem no_para_id_no_node_witness:
  "\<exists>e. fst (run (demo_env (\<lambda>_. None) () (None :: unit option)) demo_cli demo_node) = Inl e"
proof -
  let ?E = "demo_env (\<lambda>_. None) () (None :: unit option)"
  have "cli_subcommand demo_cli = None"
    "create_runner ?E None (node_world demo_node) = (Inr (demo_config ()), 0)"
    "try_extensions ?E (conf_spec (demo_config ())) = None"
    by (simp_all add: demo_node_defs)
  from no_para_id_no_node [OF this] show ?thesis by (elim exE conjE) (rule exI)
qed

section \<open>The chains the node knows by name\<close>

text \<open>
  The chains the node knows by name are one parachain on one relay chain: whichever of
  the identifiers is given, or none, the specification's parachain identifier is the one
  its genesis stores, 1000, and the relay chain is \<open>rococo-local\<close> unless the relay chain's
  own arguments name another; its directory lies below the parachain's unless they give
  one.
\<close>

theorem builtin_chains:
  assumes "load_spec (development_config (Some code) xcm keys account_of aura_of)
      (local_testnet_config (Some code) xcm keys account_of aura_of) from_file i = Inr spec"
    and "i \<in> {''dev'', ''paraxiom-rococo'', ''local'', []}"
    and "try_extensions E spec = Some (spec_relay_chain spec, spec_para_id spec)"
    and "conf_spec config = spec" and "relay_command E cli config s = (Inr c, t)"
  shows "\<exists>g. spec_genesis spec = Some g \<and> gc_parachain_id g = spec_para_id spec \<and> spec_para_id spec = 1000 \<and>
    relay_id_of given_id c is_dev = (case given_id (relay_base c) is_dev of
       Inl e \<Rightarrow> Inl e
     | Inr chain \<Rightarrow> Inr (if chain = [] then ''rococo-local'' else chain)) \<and>
    relay_path_of given_path c = (case given_path (relay_base c) of
       Inl e \<Rightarrow> Inl e
     | Inr (Some p) \<Rightarrow> Inr (Some p)
     | Inr None \<Rightarrow> Inr (map_option (\<lambda>p. join_path E p ''polkadot'') (conf_base_path config)))"
proof -
  have spec: "spec = development_config (Some code) xcm keys account_of aura_of \<or>
      spec = local_testnet_config (Some code) xcm keys account_of aura_of"
    using assms(1,2) by (auto simp: load_spec_def)
  have relay: "spec_relay_chain spec = ''rococo-local''" and para: "spec_para_id spec = 1000"
    and genesis: "\<exists>g. spec_genesis spec = Some g \<and> gc_parachain_id g = 1000"
    using spec by (auto simp: development_config_def local_testnet_config_def initial_genesis_def
        testnet_genesis_def)
  have "relay_chain_id c = Some ''rococo-local''"
    "relay_base_path c = map_option (\<lambda>p. join_path E p ''polkadot'') (conf_base_path config)"
    using assms(3-5) relay by (auto simp: relay_command_def relay_chain_cli_new_def Let_def call_ok)
  with para genesis show ?thesis
    by (auto simp: relay_id_of_def relay_path_of_def split: sum.split option.split)
qed

theorem builtin_chains_witness:
  "\<exists>g spec. load_spec (development_config (Some [1]) 3 id id id) (local_testnet_config (Some [1]) 3 id id id)
      (\<lambda>_. Inl []) ''local'' = Inr spec \<and> spec_genesis spec = Some g \<and> gc_parachain_id g = spec_para_id spec"
proof -
  let ?spec = "local_testnet_config (Some [1]) 3 id id id"
  let ?E = "demo_env (\<lambda>spec. Some (spec_relay_chain spec, spec_para_id spec)) ?spec (None :: unit option)"
  have load: "load_spec (development_config (Some [1]) 3 id id id) ?spec (\<lambda>_. Inl []) ''local'' = Inr ?spec"
    by (simp add: load_spec_def)
  have ext: "try_extensions ?E ?spec = Some (spec_relay_chain ?spec, spec_para_id ?spec)"
    and spec: "conf_spec (demo_config ?spec) = ?spec"
    by (simp_all add: demo_node_defs)
  obtain c t where cli: "relay_command ?E demo_cli (demo_config ?spec) demo_node = (Inr c :: unit fault + _, t)"
    by (simp add: relay_command_def relay_chain_cli_new_def demo_env_def Let_def call_simps)
  have "\<exists>g. spec_genesis ?spec = Some g \<and> gc_parachain_id g = spec_para_id ?spec"
    using builtin_chains [OF load _ ext spec cli, where given_id = "\<lambda>_ _. Inr [] :: unit + string"
        and is_dev = False and given_path = "\<lambda>_. Inr None :: unit + string option"] by auto
  with load show ?thesis by blast
qed

end
