(* ===== verification/Node_Cli.thy ===== *)
theory Node_Cli
  imports Node_Properties
begin

text \<open>
  The rest of the node's executable: what its two command lines say of themselves and hand
  on (\<open>src/node/src/command.rs\<close>), the RPC extension (\<open>src/node/src/rpc.rs\<close>), \<open>main\<close>
  (\<open>src/node/src/main.rs\<close>) and the version of the runtime it carries.

  A trait of another crate is a record of its methods, an implementation of the trait a
  value of that record. Values of other crates' types that are only handed on are of the
  type variable \<open>'v\<close>; \<open>relay_base\<close> stands for the fields \<open>base.base\<close> of the code.
\<close>

section \<open>The version of the runtime\<close>

record 'api runtime_version =
  spec_name :: string
  version_impl_name :: string
  authoring_version :: u32
  spec_version :: u32
  version_impl_version :: u32
  version_apis :: 'api
  transaction_version :: u32
  state_version :: u8

definition paraxiom_version :: "'api \<Rightarrow> 'api runtime_version" where
  "paraxiom_version apis =
     \<lparr>spec_name = ''paraxiom-parachain'', version_impl_name = ''paraxiom-parachain'', authoring_version = 1,
      spec_version = 1, version_impl_version = 0, version_apis = apis, transaction_version = 1,
      state_version = 1\<rparr>"

section \<open>\<open>SubstrateCli\<close>\<close>

record ('spec, 'api) substrate_cli =
  impl_name :: string
  impl_version :: string
  description :: string
  author :: string
  support_url :: string
  copyright_start_year :: int
  cli_load_spec :: "string \<Rightarrow> string + 'spec"
  native_runtime_version :: "'spec \<Rightarrow> 'api runtime_version"

text \<open>\<open>env!\<close> and the name of the executable are arguments; a line break is the character 10.\<close>

definition cli_description :: "string \<Rightarrow> string" where
  "cli_description executable =
     ''Paraxiom'' @ [CHR 0x0A, CHR 0x0A]
       @ ''The command-line arguments provided first will be passed to the parachain node, ''
       @ ''while the arguments provided after -- will be passed to the relay chain node.''
       @ [CHR 0x0A, CHR 0x0A] @ executable @ '' <parachain-args> -- <relay-chain-args>''"

definition parachain_cli ::
    "string \<Rightarrow> string \<Rightarrow> string \<Rightarrow> 'api \<Rightarrow> (string \<Rightarrow> string + 'spec) \<Rightarrow> ('spec, 'api) substrate_cli" where
  "parachain_cli version authors executable apis load =
     \<lparr>impl_name = ''Paraxiom'', impl_version = version, description = cli_description executable,
      author = authors, support_url = ''https://github.com/paritytech/cumulus/issues/new'',
      copyright_start_year = 2020, cli_load_spec = load,
      native_runtime_version = (\<lambda>_. paraxiom_version apis)\<rparr>"

text \<open>The relay chain's command line takes specifications and versions from Polkadot's.\<close>

definition relay_cli ::
    "string \<Rightarrow> string \<Rightarrow> string \<Rightarrow> (string list \<Rightarrow> string \<Rightarrow> string + 'spec) \<Rightarrow>
     ('spec \<Rightarrow> 'api runtime_version) \<Rightarrow> ('spec, 'api) substrate_cli" where
  "relay_cli version authors executable polkadot_load_spec polkadot_version =
     \<lparr>impl_name = ''Paraxiom'', impl_version = version, description = cli_description executable,
      author = authors, support_url = ''https://github.com/paritytech/cumulus/issues/new'',
      copyright_start_year = 2020, cli_load_spec = polkadot_load_spec [executable],
      native_runtime_version = polkadot_version\<rparr>"

section \<open>\<open>CliConfiguration\<close>\<close>

record ('spec, 'v, 'err) cli_configuration =
  cc_shared_params :: 'v
  cc_import_params :: "'v option"
  cc_network_params :: "'v option"
  cc_keystore_params :: "'v option"
  cc_base_path :: "'err + string option"
  cc_rpc_http :: "u16 \<Rightarrow> 'err + 'v option"
  cc_rpc_ipc :: "'err + string option"
  cc_rpc_ws :: "u16 \<Rightarrow> 'err + 'v option"
  cc_prometheus_config :: "u16 \<Rightarrow> 'spec \<Rightarrow> 'err + 'v option"
  cc_init :: "'err fault + unit"
  cc_chain_id :: "bool \<Rightarrow> 'err + string"
  cc_role :: "bool \<Rightarrow> 'err + 'v"
  cc_transaction_pool :: "bool \<Rightarrow> 'err + 'v"
  cc_trie_cache_maximum_size :: "'err + nat option"
  cc_rpc_methods :: "'err + 'v"
  cc_rpc_ws_max_connections :: "'err + nat option"
  cc_rpc_cors :: "bool \<Rightarrow> 'err + string list option"
  cc_default_heap_pages :: "'err + u64 option"
  cc_force_authoring :: "'err + bool"
  cc_disable_grandpa :: "'err + bool"
  cc_max_runtime_instances :: "'err + nat option"
  cc_announce_block :: "'err + bool"
  cc_telemetry_endpoints :: "'spec \<Rightarrow> 'err + 'v option"
  cc_node_name :: "'err + string"

text \<open>
  The relay chain's configuration from the arguments after \<open>--\<close>, whose own configuration is
  \<open>given\<close>; \<open>shared_path\<close> is \<open>SharedParams::base_path\<close>. \<open>init\<close> is unreachable.
\<close>

definition relay_cli_configuration ::
    "('base \<Rightarrow> ('spec, 'v, 'err) cli_configuration) \<Rightarrow> ('v \<Rightarrow> 'err + string option) \<Rightarrow>
     'base relay_chain_cli \<Rightarrow> ('spec, 'v, 'err) cli_configuration" where
  "relay_cli_configuration given shared_path c = (let b = given (relay_base c) in
     \<lparr>cc_shared_params = cc_shared_params b,
      cc_import_params = cc_import_params b,
      cc_network_params = cc_network_params b,
      cc_keystore_params = cc_keystore_params b,
      cc_base_path = relay_path_of (\<lambda>base. shared_path (cc_shared_params (given base))) c,
      cc_rpc_http = cc_rpc_http b,
      cc_rpc_ipc = cc_rpc_ipc b,
      cc_rpc_ws = cc_rpc_ws b,
      cc_prometheus_config = cc_prometheus_config b,
      cc_init = Inl Panic,
      cc_chain_id = relay_id_of (\<lambda>base. cc_chain_id (given base)) c,
      cc_role = cc_role b,
      cc_transaction_pool = cc_transaction_pool b,
      cc_trie_cache_maximum_size = cc_trie_cache_maximum_size b,
      cc_rpc_methods = cc_rpc_methods b,
      cc_rpc_ws_max_connections = cc_rpc_ws_max_connections b,
      cc_rpc_cors = cc_rpc_cors b,
      cc_default_heap_pages = cc_default_heap_pages b,
      cc_force_authoring = cc_force_authoring b,
      cc_disable_grandpa = cc_disable_grandpa b,
      cc_max_runtime_instances = cc_max_runtime_instances b,
      cc_announce_block = cc_announce_block b,
      cc_telemetry_endpoints = cc_telemetry_endpoints b,
      cc_node_name = cc_node_name b\<rparr>)"

text \<open>
  What the user says about the relay chain holds: only a chain and a directory that are not
  given are filled in, with the chain of the parachain's specification and a directory
  beside the parachain's.
\<close>

lemma relay_configuration_fills_in:
  assumes "parse_relay_args E (executable_name E # relay_chain_args cli) = Some base"
    and "cc_chain_id (given base) is_dev = Inr i"
    and "shared_path (cc_shared_params (given base)) = Inr p"
  shows "\<exists>c. relay_command E cli config s = (Inr c, s)
    \<and> cc_chain_id (relay_cli_configuration given shared_path c) is_dev =
        Inr (if i = [] then (case try_extensions E (conf_spec config) of None \<Rightarrow> [] | Some x \<Rightarrow> fst x) else i)
    \<and> cc_base_path (relay_cli_configuration given shared_path c) =
        Inr (case p of Some d \<Rightarrow> Some d
          | None \<Rightarrow> map_option (\<lambda>x. join_path E x ''polkadot'') (conf_base_path config))
    \<and> (relay_cli_configuration given shared_path c)
        \<lparr>cc_base_path := cc_base_path (given base), cc_chain_id := cc_chain_id (given base),
         cc_init := cc_init (given base)\<rparr> = given base"
proof -
  let ?c = "\<lparr>relay_base = base, relay_chain_id = map_option fst (try_extensions E (conf_spec config)),
    relay_base_path = map_option (\<lambda>x. join_path E x ''polkadot'') (conf_base_path config)\<rparr>"
  have "relay_command E cli config s = (Inr ?c, s)"
    using assms(1) by (simp add: relay_command_def relay_chain_cli_new_def call_simps)
  then show ?thesis
    using assms(2,3)
    by (intro exI [of _ ?c]) (auto simp: relay_cli_configuration_def relay_id_of_def relay_path_of_def Let_def
        split: option.split)
qed

section \<open>The RPC extension\<close>

record ('client, 'pool, 'deny, 'm, 'err) rpc_parts =
  rpc_module_new :: 'm
  rpc_merge :: "'m \<Rightarrow> 'm \<Rightarrow> 'err + 'm"
  system_rpc :: "'client \<Rightarrow> 'pool \<Rightarrow> 'deny \<Rightarrow> 'm"
  transaction_payment_rpc :: "'client \<Rightarrow> 'm"

record ('client, 'pool, 'deny) full_deps =
  fd_client :: 'client
  fd_pool :: 'pool
  fd_deny_unsafe :: 'deny

definition create_full ::
    "('client, 'pool, 'deny, 'm, 'err) rpc_parts \<Rightarrow> ('client, 'pool, 'deny) full_deps \<Rightarrow> 'err + 'm" where
  "create_full R deps =
     (case rpc_merge R (rpc_module_new R) (system_rpc R (fd_client deps) (fd_pool deps) (fd_deny_unsafe deps)) of
        Inl e \<Rightarrow> Inl e
      | Inr module \<Rightarrow>
          (case rpc_merge R module (transaction_payment_rpc R (fd_client deps)) of
             Inl e \<Rightarrow> Inl e
           | Inr module' \<Rightarrow> Inr module'))"

text \<open>\<open>jsonrpsee\<close>: a merge adds the methods of the other module and fails if a name is taken.\<close>

definition merge_laws :: "('client, 'pool, 'deny, 'm, 'err) rpc_parts \<Rightarrow> ('m \<Rightarrow> string set) \<Rightarrow> bool" where
  "merge_laws R methods \<longleftrightarrow> methods (rpc_module_new R) = {}
     \<and> (\<forall>m n. methods m \<inter> methods n = {} \<longrightarrow> (\<exists>k. rpc_merge R m n = Inr k \<and> methods k = methods m \<union> methods n))
     \<and> (\<forall>m n. methods m \<inter> methods n \<noteq> {} \<longrightarrow> isl (rpc_merge R m n))"

lemma create_full_serves_both:
  assumes "merge_laws R methods"
  shows "if methods (system_rpc R (fd_client d) (fd_pool d) (fd_deny_unsafe d))
        \<inter> methods (transaction_payment_rpc R (fd_client d)) = {}
    then \<exists>m. create_full R d = Inr m \<and> methods m =
        methods (system_rpc R (fd_client d) (fd_pool d) (fd_deny_unsafe d))
        \<union> methods (transaction_payment_rpc R (fd_client d))
    else isl (create_full R d)"
proof -
  let ?sys = "system_rpc R (fd_client d) (fd_pool d) (fd_deny_unsafe d)" and ?pay = "transaction_payment_rpc R (fd_client d)"
  obtain k where k: "rpc_merge R (rpc_module_new R) ?sys = Inr k" "methods k = methods ?sys"
    using assms unfolding merge_laws_def by (metis Int_empty_left Un_empty_left)
  show ?thesis
  proof (cases "methods ?sys \<inter> methods ?pay = {}")
    case True
    with assms k(2) obtain m where "rpc_merge R k ?pay = Inr m" "methods m = methods k \<union> methods ?pay"
      unfolding merge_laws_def by metis
    with True k show ?thesis by (simp add: create_full_def)
  next
    case False
    with assms k(2) have "isl (rpc_merge R k ?pay)" unfolding merge_laws_def by metis
    with False k(1) show ?thesis by (auto simp: create_full_def isl_def)
  qed
qed

section \<open>\<open>main\<close>\<close>

text \<open>The arguments are parsed (\<open>clap\<close> ends the process if it cannot), then the command runs.\<close>

definition node_main ::
    "('spec, 'base, 'err, 'key, 'w, 'x) run_env_scheme \<Rightarrow> cli \<Rightarrow>
     ('err, ('spec, 'base, 'w) node_state, unit) call" where
  "node_main E cli = run E cli"

end
