(* ===== verification/Node_Inherents.thy ===== *)
theory Node_Inherents
  imports Inherents_Properties Runtime_Config
begin

text \<open>
  The time of a block, from the collator to the relay chain's validators: the inherent
  data a collator and an importing node create (\<open>build_consensus\<close>, \<open>build_import_queue\<close> of
  \<open>src/node/src/service.rs\<close>), the slot duration they take from the runtime
  (\<open>src/runtime/paraxiom/src/lib.rs\<close>) and the runtime's \<open>CheckInherents\<close>.

  The Aura and the timestamp pallet are Substrate's. \<open>aura_laws\<close> states that the former's
  slot duration is twice the minimum period and that a slot is a time divided by the
  duration; \<open>timestamp_laws\<close> that a block's timestamp is the inherent's, but at least the
  minimum period after its parent's, and that the check refuses a timestamp more than
  thirty seconds after the checked time or too close to the parent's;
  \<open>extrinsics_checked\<close> that \<open>check_extrinsics\<close> applies that check to the timestamp under
  the timestamp's identifier.
\<close>

section \<open>The inherent data of a block\<close>

text \<open>The runtime's minimum period and the slot duration of its Aura interface.\<close>

definition minimum_period :: u64 where
  "minimum_period = slot_duration div 2"

definition aura_api_slot_duration :: "(u64 \<Rightarrow> u64) \<Rightarrow> u64" where
  "aura_api_slot_duration aura_pallet_slot_duration = aura_pallet_slot_duration minimum_period"

definition import_inherents :: "(u64 \<Rightarrow> u64 \<Rightarrow> 'slot) \<Rightarrow> u64 \<Rightarrow> u64 \<Rightarrow> 'slot \<times> u64" where
  "import_inherents from_timestamp slot_length now =
     (let timestamp = now; slot = from_timestamp timestamp slot_length in (slot, timestamp))"

definition consensus_inherents ::
    "('hash, 'proof, 'err, 'x) relay_interface_scheme \<Rightarrow> (u64 \<Rightarrow> u64 \<Rightarrow> 'slot) \<Rightarrow> u64 \<Rightarrow> u32 \<Rightarrow> 'hash \<Rightarrow> 'vdata \<Rightarrow>
     u64 \<Rightarrow> string + 'slot \<times> u64 \<times> ('hash, 'proof, 'vdata) inherent_record" where
  "consensus_inherents R from_timestamp slot_length para_id relay_parent vdata now =
     (let parachain_inherent = create_at relay_parent R vdata para_id;
          timestamp = now;
          slot = from_timestamp timestamp slot_length
      in (case parachain_inherent of
            None \<Rightarrow> Inl ''Failed to create parachain inherent''
          | Some p \<Rightarrow> Inr (slot, timestamp, p)))"

section \<open>What the pallets of Substrate do with it\<close>

definition aura_laws :: "(u64 \<Rightarrow> u64) \<Rightarrow> (u64 \<Rightarrow> u64 \<Rightarrow> u64) \<Rightarrow> bool" where
  "aura_laws aura_pallet_slot_duration from_timestamp \<longleftrightarrow>
     (\<forall>p. 2 * unat p < 2 ^ 64 \<longrightarrow> aura_pallet_slot_duration p = 2 * p) \<and>
     (\<forall>t d. 0 < d \<longrightarrow> from_timestamp t d = t div d)"

definition timestamp_laws :: "u64 \<Rightarrow> (u64 \<Rightarrow> u64 \<Rightarrow> u64) \<Rightarrow> (u64 \<Rightarrow> u64 \<Rightarrow> u64 \<Rightarrow> bool) \<Rightarrow> bool" where
  "timestamp_laws period set_time check_time \<longleftrightarrow>
     (\<forall>parent t. unat parent + unat period < 2 ^ 64 \<longrightarrow>
        unat (set_time parent t) = max (unat t) (unat parent + unat period)) \<and>
     (\<forall>parent checked t. unat checked + 30000 < 2 ^ 64 \<and> unat parent + unat period < 2 ^ 64 \<longrightarrow>
        (check_time parent checked t \<longleftrightarrow> unat t \<le> unat checked + 30000 \<and> unat parent + unat period \<le> unat t))"

text \<open>The inherent data as a map; a block as its timestamp and its parent's.\<close>

definition extrinsics_checked ::
    "bytes \<Rightarrow> (u64 \<Rightarrow> u64 \<Rightarrow> u64 \<Rightarrow> bool) \<Rightarrow> ((bytes \<rightharpoonup> bytes) \<Rightarrow> 'block \<Rightarrow> bool) \<Rightarrow> ('block \<Rightarrow> u64) \<Rightarrow> ('block \<Rightarrow> u64) \<Rightarrow> bool" where
  "extrinsics_checked key check_time check_extrinsics block_time parent_time \<longleftrightarrow>
     (\<forall>d checked b. d key = Some (enc u64_scale checked) \<longrightarrow>
        (check_extrinsics d b \<longleftrightarrow> check_time (parent_time b) checked (block_time b)))"

section \<open>The slot a collator claims\<close>

lemma slot_numbers: "slot_duration = 12000" "minimum_period = 6000"
proof -
  show "slot_duration = 12000" by (simp add: slot_duration_def millisecs_per_block_def)
  show "minimum_period = 6000"
    by (simp add: minimum_period_def slot_duration_def millisecs_per_block_def)
qed

lemma api_slot_duration:
  assumes "aura_laws aura_pallet_slot_duration from_timestamp"
  shows "aura_api_slot_duration aura_pallet_slot_duration = slot_duration"
  using assms by (simp add: aura_laws_def aura_api_slot_duration_def slot_numbers)

lemma provided_unat:
  assumes "6000 * (unat slot + 1) < 2 ^ 64"
  shows "unat (provided_timestamp (from_relay_chain_slot_and_duration slot (duration_from_secs 6))) =
    6000 * (unat slot + 1)"
proof -
  have "provided_timestamp (from_relay_chain_slot_and_duration slot (duration_from_secs 6)) =
      of_nat (6000 * (unat slot + 1))"
    by (simp add: provided_timestamp_def from_relay_chain_slot_and_duration_def millis_u64_def
        duration_from_secs_def)
  with assms show ?thesis
    by (simp only: unsigned_of_nat of_nat_id) (simp add: take_bit_nat_eq_self)
qed

text \<open>
  C39. Which blocks pass the relay chain's check of the time. A collator whose clock shows
  \<open>now\<close> claims the slot of \<open>now\<close> in slots of twelve seconds; the block it builds on a
  parent is accepted, for a relay chain slot \<open>slot\<close>, exactly if \<open>now\<close> and the parent's time
  plus six seconds are no later than thirty seconds after the end of that relay chain
  slot. A clock that is behind is never the reason for a refusal: the timestamp is raised
  to six seconds after the parent's. And a collator that cannot collect the relay chain's
  state gets no inherent data.
\<close>

theorem block_time_accepted:
  assumes "aura_laws aura_pallet_slot_duration from_timestamp"
    and "timestamp_laws minimum_period set_time check_time"
    and "extrinsics_checked key check_time check_extrinsics block_time parent_time"
    and "6000 * (unat slot + 1) + 30000 < 2 ^ 64" and "unat (parent_time b) + 6000 < 2 ^ 64"
    and "read_slot proof = Some slot"
    and "consensus_inherents R from_timestamp (aura_api_slot_duration aura_pallet_slot_duration)
      para_id relay_parent vdata now = r"
    and "block_time b = set_time (parent_time b) now"
  shows "(r = Inl ''Failed to create parachain inherent'' \<and> create_at relay_parent R vdata para_id = None \<or>
      (\<exists>p. r = Inr (now div 12000, now, p) \<and> create_at relay_parent R vdata para_id = Some p)) \<and>
    (\<exists>ok. check_inherents (\<lambda>k v d. (Inr () :: 'e + unit, d(k \<mapsto> v))) key Map.empty read_slot check_extrinsics b proof = Some ok \<and>
       (ok \<longleftrightarrow> unat now \<le> 6000 * (unat slot + 1) + 30000 \<and>
              unat (parent_time b) + 6000 \<le> 6000 * (unat slot + 1) + 30000))"
proof
  have "aura_api_slot_duration aura_pallet_slot_duration = 12000"
    using api_slot_duration [OF assms(1)] by (simp add: slot_numbers)
  moreover have "from_timestamp now 12000 = now div 12000"
    using assms(1) by (simp add: aura_laws_def)
  ultimately show "r = Inl ''Failed to create parachain inherent'' \<and> create_at relay_parent R vdata para_id = None \<or>
      (\<exists>p. r = Inr (now div 12000, now, p) \<and> create_at relay_parent R vdata para_id = Some p)"
    using assms(7) by (auto simp: consensus_inherents_def split: option.splits)
next
  let ?checked = "provided_timestamp (from_relay_chain_slot_and_duration slot (duration_from_secs 6))"
  have checked: "unat ?checked = 6000 * (unat slot + 1)"
    using assms(4) by (intro provided_unat) simp
  have time: "unat (block_time b) = max (unat now) (unat (parent_time b) + 6000)"
    using assms(2,5) by (simp add: assms(8) timestamp_laws_def slot_numbers)
  have "check_time (parent_time b) ?checked (block_time b) \<longleftrightarrow>
      unat (block_time b) \<le> unat ?checked + 30000 \<and> unat (parent_time b) + 6000 \<le> unat (block_time b)"
    using assms(2,4,5) checked by (simp add: timestamp_laws_def slot_numbers)
  then have check: "check_time (parent_time b) ?checked (block_time b) \<longleftrightarrow>
      unat now \<le> 6000 * (unat slot + 1) + 30000 \<and> unat (parent_time b) + 6000 \<le> 6000 * (unat slot + 1) + 30000"
    unfolding time checked by auto
  have "check_inherents (\<lambda>k v d. (Inr () :: 'e + unit, d(k \<mapsto> v))) key Map.empty read_slot check_extrinsics b proof =
      Some (check_extrinsics [key \<mapsto> enc u64_scale ?checked] b)"
    by (simp add: check_inherents_def assms(6) create_timestamp_data_def provide_timestamp_def
        split: unit.split)
  moreover have "check_extrinsics [key \<mapsto> enc u64_scale ?checked] b \<longleftrightarrow>
      check_time (parent_time b) ?checked (block_time b)"
    using assms(3) by (simp add: extrinsics_checked_def)
  ultimately show "\<exists>ok. check_inherents (\<lambda>k v d. (Inr () :: 'e + unit, d(k \<mapsto> v))) key Map.empty read_slot check_extrinsics b proof = Some ok \<and>
       (ok \<longleftrightarrow> unat now \<le> 6000 * (unat slot + 1) + 30000 \<and>
              unat (parent_time b) + 6000 \<le> 6000 * (unat slot + 1) + 30000)"
    using check by simp
qed

section \<open>Witness\<close>

definition demo_set_time :: "u64 \<Rightarrow> u64 \<Rightarrow> u64" where
  "demo_set_time parent t = max t (parent + minimum_period)"

definition demo_check_time :: "u64 \<Rightarrow> u64 \<Rightarrow> u64 \<Rightarrow> bool" where
  "demo_check_time parent checked t \<longleftrightarrow> t \<le> checked + 30000 \<and> parent + minimum_period \<le> t"

definition demo_check_extrinsics :: "(bytes \<rightharpoonup> bytes) \<Rightarrow> u64 \<times> u64 \<Rightarrow> bool" where
  "demo_check_extrinsics d b = (case d [7] of
     None \<Rightarrow> True
   | Some raw \<Rightarrow> (case dec u64_scale raw of
       None \<Rightarrow> False
     | Some (checked, _) \<Rightarrow> demo_check_time (fst b) checked (snd b)))"

lemma demo_timestamp_laws: "timestamp_laws minimum_period demo_set_time demo_check_time"
proof -
  have sum: "unat (a + b) = unat a + unat b" if "unat a + unat b < 2 ^ 64" for a b :: u64
    using that by (simp add: unat_word_ariths)
  have small: "unat (30000 :: u64) = 30000" by simp
  have "unat (demo_set_time parent t) = max (unat t) (unat parent + unat minimum_period)"
    if "unat parent + unat minimum_period < 2 ^ 64" for parent t
    using sum [OF that] by (auto simp: demo_set_time_def max_def word_le_nat_alt)
  moreover have "demo_check_time parent checked t \<longleftrightarrow>
      unat t \<le> unat checked + 30000 \<and> unat parent + unat minimum_period \<le> unat t"
    if "unat checked + 30000 < 2 ^ 64" "unat parent + unat minimum_period < 2 ^ 64" for parent checked t
    using sum [OF that(2)] sum [of checked 30000] that(1) small
    by (simp add: demo_check_time_def word_le_nat_alt)
  ultimately show ?thesis by (simp add: timestamp_laws_def)
qed

lemma demo_extrinsics_checked:
  "extrinsics_checked [7] demo_check_time demo_check_extrinsics snd fst"
  by (simp add: extrinsics_checked_def demo_check_extrinsics_def u64_codec.dec_enc_Nil)

text \<open>Slot 10 ends at 66 seconds: a clock at 95 seconds passes, one at 97 does not.\<close>

theorem block_time_accepted_witness:
  "\<exists>f. (\<forall>b. f b = check_inherents (\<lambda>k v d. (Inr () :: unit + unit, d(k \<mapsto> v))) [7] Map.empty Some demo_check_extrinsics b 10) \<and>
     f (60000, demo_set_time 60000 95000) = Some True \<and> f (60000, demo_set_time 60000 97000) = Some False"
proof -
  let ?f = "\<lambda>b. check_inherents (\<lambda>k v d. (Inr () :: unit + unit, d(k \<mapsto> v))) [7] Map.empty Some demo_check_extrinsics b 10"
  have aura: "aura_laws (\<lambda>p. 2 * p) (div)" by (simp add: aura_laws_def)
  have run: "?f (60000, demo_set_time 60000 now) = Some (unat now \<le> 96000)" for now
    using block_time_accepted [OF aura demo_timestamp_laws demo_extrinsics_checked _ _ _ refl,
        of 10 "(60000, demo_set_time 60000 now)" Some 10 now demo_relay 0 "()" "()", where ?'e = unit]
    by auto
  show ?thesis
    using run [of 95000] run [of 97000] by (intro exI [of _ ?f]) simp
qed

end
