(* ===== verification/Spec2Isabelle.thy ===== *)
theory Spec2Isabelle
  imports Chain_Service Chain_Properties Clients_Properties Queue_Work Oracle_Flow Anchor_Mock_Properties
    Collator_Properties Collator_Deposits Collator_Weights Collator_Bench_Properties Collator_Mock_Properties
    Para_Oracle_Properties Phat_Properties Fee_Trader_Properties Support_Tests
    Inherents_Properties Confinement Runtime_Limits Node_Cli Node_Inherents
begin

text \<open>
  A verification library for the Paraxiom parachain (the repository's \<open>src\<close>).

  \<^bold>\<open>The program.\<close> Paraxiom is a Substrate parachain for oracles. An account registers an API
  feed in the registry pallet. A Phat contract, off the chain, claims a name at the anchor
  pallet and owns the key-value store of that name. A request for a feed goes through the
  oracle pallet into the message queue that the anchor keeps in that store; the contract
  takes messages off the queue and answers by a rollup: conditions on the store,
  updates of it and actions, all or nothing. An action \<open>Reply\<close> goes from the anchor to
  the oracle's response handler, which files the data. A second oracle, the para-oracle
  pallet (not part of the runtime), lets accounts and sibling parachains feed values and
  combines them by a median; its offchain worker fetches the values of registered URLs.
  The collator-selection pallet chooses who builds blocks. Around them stand the runtime's
  XCM barrier, the fee trader, the inherents and the chain specifications.

  \<^bold>\<open>How a call is modelled.\<close> \<open>Prelude\<close> gives the vocabulary. A function of the code that reads
  and writes storage is a \<open>call\<close>: from the storage to a result (a value, an error, or a
  panic) and the storage it leaves. \<open>seq\<close> is the question mark operator, \<open>ensure\<close>,
  \<open>expect\<close> and \<open>transactional\<close> are what they are in the code. Storage is a record per
  pallet that extends the record of the pallets it is built on, a storage map is a
  partial function, an integer is a word of its width. \<open>Frame\<close> has origins, the errors
  of all pallets and codecs, \<open>Scale\<close> the SCALE encodings with their round trips,
  \<open>Weights\<close> the weight functions.

  \<^bold>\<open>The theories and what they model.\<close>
  \<^item> \<open>Registry\<close>: \<open>pallets/registry\<close>. \<open>Anchor\<close>: \<open>pallets/offchain-rollup/src/anchor.rs\<close>, every
    operation with its guards; \<open>Anchor_Rollup\<close> says what a rollup does on each branch,
    \<open>Anchor_Queue\<close> that the queue in the store is a queue, \<open>Queue_Work\<close> how long the loop of
    \<open>SetQueueHead\<close> runs.
  \<^item> \<open>Oracle\<close>: \<open>pallets/oracle\<close>. \<open>Runtime\<close>: the configuration of the three pallets in
    \<open>runtime/paraxiom/src/lib.rs\<close>, the encodings on the wire, the calls behind FRAME's
    storage layer, and the chain as a step relation (a call of any origin, or a new block).
    \<open>Chain\<close> has the invariants of that relation, \<open>Chain_Run\<close> runs of blocks and calls and what
    they leave alone, \<open>Chain_Properties\<close> the properties,
    \<open>Chain_Service\<close> the abstract service the three pallets implement, \<open>Chain_Panics\<close> the calls
    that trap the runtime, \<open>Oracle_Flow\<close> a whole turn of the oracle, \<open>Demo_Chain\<close> the chain
    the concrete examples run on.
  \<^item> \<open>Extrinsics\<close>: the bytes of the calls. \<open>Clients\<close> and \<open>Clients_Properties\<close>: the clients that
    read a snapshot and commit a rollup.
  \<^item> \<open>Anchor_Mock\<close> and \<open>Anchor_Mock_Properties\<close>: the mock runtime and the unit tests of the anchor.
    \<open>Test_Harness\<close>: the assertions that tests and benchmarks are written with.
  \<^item> \<open>Collator\<close>: \<open>pallets/collator-selection\<close>; \<open>Collator_Session\<close> has the kicking loop as a
    function, the invariant and the machine of calls, hooks and foreign changes;
    \<open>Collator_Properties\<close> the properties, \<open>Collator_Deposits\<close> where the deposits are,
    \<open>Collator_Weights\<close> what calls declare and are charged. \<open>Runtime_Blocks\<close> runs the pallet's
    hooks in the order of the runtime, block after block. \<open>Whole_Runtime\<close> puts the four
    pallets into one runtime that executes blocks of extrinsics, given as bytes, and of calls
    that other pallets dispatch. \<open>Confinement\<close> shows who can change what in it.
  \<^item> \<open>Collator_Bench\<close> and \<open>Collator_Bench_Properties\<close>: \<open>benchmarking.rs\<close>. \<open>Collator_Mock\<close>,
    \<open>Collator_Mock_Laws\<close>, \<open>Collator_Mock_Properties\<close>: \<open>mock.rs\<close> and \<open>tests.rs\<close>.
  \<^item> \<open>Para_Oracle\<close> and \<open>Para_Oracle_Properties\<close>: \<open>pallets/para-oracle\<close> with its worker.
  \<^item> \<open>Phat\<close> and \<open>Phat_Properties\<close>: the two contracts of \<open>phat/contracts\<close>, and how they and the
    pallets understand each other.
  \<^item> \<open>Cumulus_Core\<close>: \<open>primitives/core\<close>. \<open>Xcm\<close>: the barrier's deny filter and the asset filters of
    \<open>common\<close> and of the runtime, the router of \<open>primitives/utility\<close>. \<open>Xcm_Runtime\<close>: the
    runtime's \<open>xcm_config.rs\<close>, its converters of accounts and origins, barrier, routers.
  \<^item> \<open>Fee_Trader\<close> and \<open>Fee_Trader_Properties\<close>: the trader of \<open>primitives/utility\<close> and the fee
    handlers of \<open>common\<close>. \<open>Support_Tests\<close>: the tests of these two crates.
  \<^item> \<open>Inherents\<close> and \<open>Inherents_Properties\<close>: \<open>primitives/timestamp\<close>, \<open>primitives/parachain-inherent\<close>
    and the runtime's \<open>CheckInherents\<close>; \<open>Node_Inherents\<close> the time of a block from the collator
    to that check.
  \<^item> \<open>Runtime_Config\<close>: the runtime's constants, its fee polynomial and collator configuration,
    and the specifications of \<open>node/src/chain_spec.rs\<close>. \<open>Runtime_Limits\<close>: block limits,
    deposits, the origins of democracy, the gas of a contract call, the copies in \<open>common\<close>.
  \<^item> \<open>Node_Service\<close>, \<open>Node_Command\<close>, \<open>Node_Properties\<close>: \<open>node/src/service.rs\<close>, \<open>cli.rs\<close> and
    \<open>command.rs\<close>, what a run of the node starts, in which order, and with which configuration.
    \<open>Node_Cli\<close>: what its command lines say and hand on, \<open>rpc.rs\<close>, \<open>main.rs\<close>, the runtime's version.

  \<^bold>\<open>Interfaces.\<close> \<open>call_frame\<close> (a reflexive and transitive relation kept by the parts of a call
  is kept by the call) is interpreted for each frame the proofs use. \<open>message_queue\<close> is
  the contract of a bounded queue, proved first in, first out once, and met by the
  anchor's push and by the pop of an owner's rollup. \<open>response_handler\<close> is what the anchor
  relies on in the oracle; \<open>scale_codec\<close> what the pallets rely on in an encoding;
  \<open>weight_trader\<close> what the XCM executor relies on in a trader; \<open>session_manager\<close> what the
  session pallet relies on in the collator-selection pallet.

  \<^bold>\<open>What the properties show.\<close> Of the chain of registry, anchor and oracle: every run is a
  run of one abstract service. Of the anchor: conflicting rollups are rejected, clients'
  sessions are serializable, errors leave nothing behind, only the owner writes a store,
  names are for ever, the queue is a bounded queue within its 32-bit positions, its loop
  terminates, what happens at the two points where it breaks and for how long, and which calls panic. Of the
  calls: the bytes round-trip and decoding establishes their types. Of the oracle: sizes,
  identifiers, the way of a request to the queue and of a response home, and that the registry's status
  keeps anybody from using it. Of the collators: the invariant over all steps, who stays in
  a session, that a diligent candidate is never removed, deposits, rewards, weights. Of the
  runtime: what holds of each pallet holds of blocks of extrinsics to all of them, what an
  account owns is changed by its own calls only, and only root governs the collators. Of the
  para-oracle: the median, one feed per block, who may feed, the worker, queries. Of the
  contracts: what they answer and what they cannot read. Of XCM: who passes the barrier,
  and that nobody becomes root. Of the rest: no asset is created or lost by the trader,
  fees are burned, a queue's head determines the queue, the timestamp bound, the fee per
  weight, the collators of a new chain, the order of a node's start. Of the repository's
  own tests and benchmarks: which of them pass.

  \<^bold>\<open>Parameters.\<close> Code of other crates is an argument: the currency, sessions, randomness,
  hashing, HTTP and JSON, XCM's converters, senders and versions, the rollup client of the
  contracts, the services of a node, the order in which a storage map is iterated. What is
  relied on is a named hypothesis (such as \<open>currency_laws\<close>, \<open>rotation_follows\<close>, \<open>select_ok\<close>,
  \<open>matcher_ok\<close>, \<open>origin_laws\<close>, \<open>merge_laws\<close>, \<open>mock_laws\<close>,
  \<open>reads_prefix\<close>, \<open>empty_pops_none\<close>), and each property with hypotheses is followed by a theorem that applies
  it to concrete functions. Loops are structural recursions over the list or the range the
  code goes through. Fuel occurs once:
  \<open>queue_head_set_fuel\<close> is the loop of \<open>SetQueueHead\<close> with a bound on its iterations, and the
  number it needs is proved to be the number of positions it removes. Arithmetic wraps as
  in a release build; \<open>debug_assert\<close> is ignored.

  \<^bold>\<open>Not modelled.\<close> The runtime interfaces that only forward to a pallet, type aliases, the
  re-export \<open>para-democracy\<close>, \<open>contracts.rs\<close> (which is not a module of the runtime), the build
  scripts, the timestamp crate's test (it runs a test client of another repository), and
  the pallets of Substrate and Cumulus the runtime merely configures.
\<close>

end
